(* ===== verification/Prelude.thy ===== *)
theory Prelude
  imports Main "HOL-Library.Word" "HOL-Library.Sublist"
begin

text \<open>
  Shared vocabulary of the development.

  A Rust \<open>&str\<close> or \<open>String\<close> is the list of its UTF-8 bytes (Isabelle's \<open>char\<close> is
  a byte), so \<open>len()\<close> is \<open>length\<close> and every search for an ASCII pattern is a search
  on bytes, as in the standard library.  The operations below are the ones the modelled
  crates call: \<open>strip_prefix\<close>, \<open>trim\<close>, \<open>split\<close>, \<open>rsplit(..).next()\<close>,
  \<open>split_once\<close>, \<open>replace\<close>, \<open>join\<close>, \<open>parse\<close> on unsigned integers.
  A \<open>HashSet<String>\<close> is a duplicate-free list; its order stands for the unspecified
  iteration order of the hash set, and no property depends on it.
\<close>

type_synonym u8 = "8 word"
type_synonym u16 = "16 word"
type_synonym u64 = "64 word"

named_theorems outcome_simps \<open>equations that evaluate an operation on one outcome\<close>
named_theorems inv_intros \<open>preservation of the component invariants\<close>

section \<open>Words\<close>

lemma unat_add_one_less: "(x :: u64) < y \<Longrightarrow> unat (x + 1) = Suc (unat x)"
proof -
  have "unat y < 2 ^ LENGTH(64)" by (rule unsigned_less)
  then show "x < y \<Longrightarrow> ?thesis" by (simp add: unat_word_ariths word_less_nat_alt)
qed

section \<open>Options\<close>

text \<open>\<open>Option::or_else\<close>, \<open>Option::filter\<close> and \<open>bool::then_some\<close>.\<close>

fun opt_or :: "'a option \<Rightarrow> 'a option \<Rightarrow> 'a option" where
  "opt_or None b = b"
| "opt_or (Some a) b = Some a"

fun opt_filter :: "('a \<Rightarrow> bool) \<Rightarrow> 'a option \<Rightarrow> 'a option" where
  "opt_filter P None = None"
| "opt_filter P (Some a) = (if P a then Some a else None)"

definition then_some :: "bool \<Rightarrow> 'a \<Rightarrow> 'a option" where
  "then_some b a = (if b then Some a else None)"

lemma then_some_simps [simp]:
  "then_some True a = Some a" "then_some False a = None"
  "(then_some b a = None) = (\<not> b)" "(then_some b a = Some c) = (b \<and> c = a)"
  by (auto simp: then_some_def)

lemma opt_filter_Some_iff [simp]: "(opt_filter P x = Some a) = (x = Some a \<and> P a)"
  by (cases x) auto

text \<open>\<open>slice::get\<close> and \<open>slice::get(i..)\<close>: \<open>None\<close> out of range.\<close>

definition get_at :: "'a list \<Rightarrow> nat \<Rightarrow> 'a option" where
  "get_at xs i = (if i < length xs then Some (xs ! i) else None)"

definition get_from :: "'a list \<Rightarrow> nat \<Rightarrow> 'a list option" where
  "get_from xs i = (if i \<le> length xs then Some (drop i xs) else None)"

fun first_opt :: "'a list \<Rightarrow> 'a option" where
  "first_opt [] = None"
| "first_opt (x # _) = Some x"

lemma get_at_None [simp]: "(get_at xs i = None) = (length xs \<le> i)"
  by (auto simp: get_at_def)

lemma get_at_SomeD: "get_at xs i = Some x \<Longrightarrow> i < length xs \<and> x = xs ! i"
  by (auto simp: get_at_def split: if_splits)

lemma set_map_filter_iff: "y \<in> set (List.map_filter f xs) \<longleftrightarrow> (\<exists>x \<in> set xs. f x = Some y)"
  by (induction xs) (auto simp: List.map_filter_simps split: option.splits)

section \<open>Strings as UTF-8 bytes\<close>

abbreviation starts_with :: "string \<Rightarrow> string \<Rightarrow> bool" where
  "starts_with s p \<equiv> prefix p s"

abbreviation ends_with :: "string \<Rightarrow> string \<Rightarrow> bool" where
  "ends_with s p \<equiv> suffix p s"

abbreviation contains_str :: "string \<Rightarrow> string \<Rightarrow> bool" where
  "contains_str s p \<equiv> sublist p s"

abbreviation contains_char :: "string \<Rightarrow> char \<Rightarrow> bool" where
  "contains_char s c \<equiv> c \<in> set s"

definition strip_prefix :: "string \<Rightarrow> string \<Rightarrow> string option" where
  "strip_prefix s p = (if starts_with s p then Some (drop (length p) s) else None)"

definition strip_suffix :: "string \<Rightarrow> string \<Rightarrow> string option" where
  "strip_suffix s p = (if ends_with s p then Some (take (length s - length p) s) else None)"

lemma strip_prefix_Some_iff: "(strip_prefix s p = Some r) = (s = p @ r)"
  by (auto simp: strip_prefix_def prefix_def)

lemma strip_suffix_Some_iff: "(strip_suffix s p = Some r) = (s = r @ p)"
  by (auto simp: strip_suffix_def suffix_def)

lemma strip_prefix_append [simp]: "strip_prefix (p @ r) p = Some r"
  by (simp add: strip_prefix_Some_iff)

lemma strip_suffix_append [simp]: "strip_suffix (r @ p) p = Some r"
  by (simp add: strip_suffix_Some_iff)

subsection \<open>Splitting, joining, replacing\<close>

fun split_on :: "char \<Rightarrow> string \<Rightarrow> string list" where
  "split_on c [] = [[]]"
| "split_on c (x # xs) =
     (if x = c then [] # split_on c xs
      else (case split_on c xs of [] \<Rightarrow> [[x]] | y # ys \<Rightarrow> (x # y) # ys))"

fun join_with :: "string \<Rightarrow> string list \<Rightarrow> string" where
  "join_with sep [] = []"
| "join_with sep [x] = x"
| "join_with sep (x # y # ys) = x @ sep @ join_with sep (y # ys)"

lemma split_on_not_Nil [simp]: "split_on c s \<noteq> []"
  by (induction s) (auto split: list.splits)

lemma split_on_append: "split_on c (xs @ c # ys) = split_on c xs @ split_on c ys"
proof (induction xs)
  case (Cons x xs)
  then show ?case using split_on_not_Nil [of c xs] by (auto split: list.splits)
qed simp

lemma split_join_segments:
  "segs \<noteq> [] \<Longrightarrow> \<forall>s \<in> set segs. c \<notin> set s \<Longrightarrow> split_on c (join_with [c] segs) = segs"
proof (induction segs rule: induct_list012)
  case (2 s)
  then have "split_on c s = [s]" by (induction s) auto
  then show ?case by simp
next
  case (3 s t segs)
  have "split_on c (s @ c # rest) = s # split_on c rest" if "c \<notin> set s" for s rest
    using that by (induction s) auto
  with 3 show ?case by simp
qed simp

lemma join_split_on: "join_with [c] (split_on c s) = s"
proof (induction s)
  case Nil
  then show ?case by simp
next
  case (Cons x xs)
  obtain y ys where "split_on c xs = y # ys"
    using split_on_not_Nil [of c xs] by (cases "split_on c xs") auto
  with Cons show ?case by (cases ys) auto
qed

lemma split_on_no_sep: "seg \<in> set (split_on c s) \<Longrightarrow> c \<notin> set seg"
proof (induction s arbitrary: seg)
  case Nil
  then show ?case by simp
next
  case (Cons x xs)
  show ?case
  proof (cases "x = c")
    case True
    with Cons show ?thesis by auto
  next
    case False
    obtain y ys where y: "split_on c xs = y # ys"
      using split_on_not_Nil [of c xs] by (cases "split_on c xs") auto
    with False Cons.prems have "seg = x # y \<or> seg \<in> set ys" by auto
    then show ?thesis using Cons.IH y False by auto
  qed
qed

text \<open>\<open>s.rsplit(pred).next()\<close>: the part after the last byte satisfying the predicate.\<close>

definition last_segment :: "(char \<Rightarrow> bool) \<Rightarrow> string \<Rightarrow> string" where
  "last_segment P s = rev (takeWhile (\<lambda>c. \<not> P c) (rev s))"

lemma last_segment_clean: "c \<in> set (last_segment P s) \<Longrightarrow> \<not> P c"
  by (auto simp: last_segment_def dest: set_takeWhileD)

lemma last_segment_id: "(\<And>c. c \<in> set s \<Longrightarrow> \<not> P c) \<Longrightarrow> last_segment P s = s"
  by (simp add: last_segment_def rev_swap takeWhile_eq_all_conv)

lemma last_segment_append:
  assumes "P c"
  shows "last_segment P (d @ c # s) = last_segment P s"
proof -
  have "takeWhile (\<lambda>c. \<not> P c) (rev s @ c # rev d) = takeWhile (\<lambda>c. \<not> P c) (rev s)"
    using assms by (auto simp: takeWhile_append takeWhile_eq_all_conv [THEN iffD2])
  then show ?thesis by (simp add: last_segment_def)
qed

text \<open>\<open>str::find\<close> of an ASCII byte, \<open>str::split_once\<close>, \<open>str::replace\<close>.\<close>

fun find_byte :: "char \<Rightarrow> string \<Rightarrow> nat option" where
  "find_byte c [] = None"
| "find_byte c (x # xs) = (if x = c then Some 0 else map_option Suc (find_byte c xs))"

fun split_once :: "string \<Rightarrow> string \<Rightarrow> (string \<times> string) option" where
  "split_once p [] = (if p = [] then Some ([], []) else None)"
| "split_once p (c # cs) =
     (if starts_with (c # cs) p then Some ([], drop (length p) (c # cs))
      else map_option (\<lambda>(a, b). (c # a, b)) (split_once p cs))"

lemma split_once_SomeD: "split_once p s = Some (a, b) \<Longrightarrow> s = a @ p @ b"
proof (induction s arbitrary: a)
  case Nil
  then show ?case by (auto split: if_splits)
next
  case (Cons c cs)
  then show ?case by (auto simp: prefix_def split: if_splits)
qed

function replace_all :: "string \<Rightarrow> string \<Rightarrow> string \<Rightarrow> string" where
  "replace_all p r [] = []"
| "replace_all p r (c # cs) =
     (if p \<noteq> [] \<and> starts_with (c # cs) p
      then r @ replace_all p r (drop (length p - 1) cs)
      else c # replace_all p r cs)"
  by pat_completeness auto
termination
  by (relation "measure (\<lambda>(p, r, s). length s)") auto

lemma replace_all_absent: "\<not> contains_str s p \<Longrightarrow> replace_all p r s = s"
  by (induction p r s rule: replace_all.induct) (auto simp: sublist_Cons_right)

text \<open>A UTF-8 continuation byte is one of \<open>0x80\<close> to \<open>0xBF\<close>; \<open>str::is_char_boundary\<close>.\<close>

definition utf8_cont :: "char \<Rightarrow> bool" where
  "utf8_cont c = (let n = (of_char c :: nat) in 128 \<le> n \<and> n < 192)"

definition is_char_boundary :: "string \<Rightarrow> nat \<Rightarrow> bool" where
  "is_char_boundary s i \<longleftrightarrow> i = 0 \<or> i = length s \<or> (i < length s \<and> \<not> utf8_cont (s ! i))"

text \<open>
  \<open>char_indices\<close>: the start and UTF-8 length of each character; a continuation byte belongs to
  the character before it.
\<close>

function char_indices :: "nat \<Rightarrow> string \<Rightarrow> (nat \<times> nat) list" where
  "char_indices i [] = []"
| "char_indices i (c # cs) =
     (let k = length (takeWhile utf8_cont cs)
      in (i, Suc k) # char_indices (i + Suc k) (drop k cs))"
  by pat_completeness auto
termination
  by (relation "measure (\<lambda>(i, s). length s)") auto

text \<open>\<open>chars().count()\<close>, and the decimal rendering of \<open>format!("{n}")\<close>.\<close>

definition char_count :: "string \<Rightarrow> nat" where
  "char_count s = length (char_indices 0 s)"

fun decimal :: "nat \<Rightarrow> string" where
  "decimal n = (if n < 10 then [char_of (48 + n)] else decimal (n div 10) @ [char_of (48 + n mod 10)])"

declare decimal.simps [simp del]

lemma char_count_le: "char_count s \<le> length s"
proof -
  have "length (char_indices i s) \<le> length s" for i
  proof (induction i s rule: char_indices.induct)
    case (2 i c cs)
    then show ?case by (simp add: Let_def)
  qed simp
  then show ?thesis by (simp add: char_count_def)
qed

subsection \<open>White space\<close>

text \<open>
  \<open>char::is_whitespace\<close> is the Unicode property \<open>White_Space\<close>.  \<open>skip_ws s\<close> removes one
  white-space character from the front of \<open>s\<close>, \<open>None\<close> if there is none: the ASCII ones
  are the bytes 9 to 13 and 32, the others are the listed UTF-8 sequences
  (U+0085, U+00A0, U+1680, U+2000 to U+200A, U+2028, U+2029, U+202F, U+205F, U+3000).
\<close>

definition ascii_ws :: "char \<Rightarrow> bool" where
  "ascii_ws c = (let n = (of_char c :: nat) in (9 \<le> n \<and> n \<le> 13) \<or> n = 32)"

definition ws_sequences :: "string list" where
  "ws_sequences =
     [[CHR 0xC2, CHR 0x85], [CHR 0xC2, CHR 0xA0], [CHR 0xE1, CHR 0x9A, CHR 0x80],
      [CHR 0xE2, CHR 0x80, CHR 0x80], [CHR 0xE2, CHR 0x80, CHR 0x81],
      [CHR 0xE2, CHR 0x80, CHR 0x82], [CHR 0xE2, CHR 0x80, CHR 0x83],
      [CHR 0xE2, CHR 0x80, CHR 0x84], [CHR 0xE2, CHR 0x80, CHR 0x85],
      [CHR 0xE2, CHR 0x80, CHR 0x86], [CHR 0xE2, CHR 0x80, CHR 0x87],
      [CHR 0xE2, CHR 0x80, CHR 0x88], [CHR 0xE2, CHR 0x80, CHR 0x89],
      [CHR 0xE2, CHR 0x80, CHR 0x8A], [CHR 0xE2, CHR 0x80, CHR 0xA8],
      [CHR 0xE2, CHR 0x80, CHR 0xA9], [CHR 0xE2, CHR 0x80, CHR 0xAF],
      [CHR 0xE2, CHR 0x81, CHR 0x9F], [CHR 0xE3, CHR 0x80, CHR 0x80]]"

definition skip_ws :: "string \<Rightarrow> string option" where
  "skip_ws s =
     (case s of [] \<Rightarrow> None
      | c # cs \<Rightarrow>
          if ascii_ws c then Some cs
          else (case find (starts_with s) ws_sequences of
                  None \<Rightarrow> None | Some w \<Rightarrow> Some (drop (length w) s)))"

definition skip_ws_end :: "string \<Rightarrow> string option" where
  "skip_ws_end s =
     (if s = [] then None
      else if ascii_ws (last s) then Some (butlast s)
      else (case find (ends_with s) ws_sequences of
              None \<Rightarrow> None | Some w \<Rightarrow> Some (take (length s - length w) s)))"

lemma ws_sequences_nonempty: "w \<in> set ws_sequences \<Longrightarrow> 0 < length w"
  by (auto simp: ws_sequences_def)

lemma skip_ws_shorter: "skip_ws s = Some t \<Longrightarrow> length t < length s"
  using ws_sequences_nonempty
  by (fastforce simp: skip_ws_def find_Some_iff in_set_conv_nth split: list.splits if_splits option.splits)

lemma skip_ws_end_shorter: "skip_ws_end s = Some t \<Longrightarrow> length t < length s"
  using ws_sequences_nonempty
  by (fastforce simp: skip_ws_end_def find_Some_iff in_set_conv_nth split: if_splits option.splits)

function trim_start :: "string \<Rightarrow> string" where
  "trim_start s = (case skip_ws s of None \<Rightarrow> s | Some t \<Rightarrow> trim_start t)"
  by pat_completeness auto
termination
  by (relation "measure length") (auto dest: skip_ws_shorter)

function trim_end :: "string \<Rightarrow> string" where
  "trim_end s = (case skip_ws_end s of None \<Rightarrow> s | Some t \<Rightarrow> trim_end t)"
  by pat_completeness auto
termination
  by (relation "measure length") (auto dest: skip_ws_end_shorter)

definition trim :: "string \<Rightarrow> string" where
  "trim s = trim_end (trim_start s)"

declare trim_start.simps [simp del] trim_end.simps [simp del]

lemma trim_start_no_ws: "skip_ws (trim_start s) = None"
proof (induction s rule: trim_start.induct)
  case (1 s)
  then show ?case by (subst trim_start.simps) (auto split: option.splits)
qed

lemma trim_start_fixed: "skip_ws s = None \<Longrightarrow> trim_start s = s"
  by (simp add: trim_start.simps)

lemma trim_start_idem [simp]: "trim_start (trim_start s) = trim_start s"
  by (rule trim_start_fixed) (rule trim_start_no_ws)

lemma trim_start_ascii_ws [simp]: "ascii_ws c \<Longrightarrow> trim_start (c # s) = trim_start s"
  by (subst trim_start.simps) (simp add: skip_ws_def)

lemma trim_start_blanks: "(\<And>c. c \<in> set ws \<Longrightarrow> ascii_ws c) \<Longrightarrow> trim_start (ws @ s) = trim_start s"
  by (induction ws) auto

text \<open>A visible ASCII character is never white space, on its own or as a part of a sequence.\<close>

definition visible :: "char \<Rightarrow> bool" where
  "visible c \<longleftrightarrow> \<not> ascii_ws c \<and> (of_char c :: nat) < 128"

lemma ws_sequences_high: "w \<in> set ws_sequences \<Longrightarrow> x \<in> set w \<Longrightarrow> 128 \<le> (of_char x :: nat)"
  by (auto simp: ws_sequences_def)

lemma find_None: "find P xs = None \<longleftrightarrow> (\<forall>x \<in> set xs. \<not> P x)"
  by (induction xs) auto

lemma find_SomeD: "find P xs = Some x \<Longrightarrow> x \<in> set xs \<and> P x"
  by (induction xs) (auto split: if_splits)

lemma skip_ws_None_iff:
  "skip_ws s = None \<longleftrightarrow> s = [] \<or> (\<not> ascii_ws (hd s) \<and> (\<forall>w \<in> set ws_sequences. \<not> prefix w s))"
  by (auto simp: skip_ws_def find_None split: list.splits option.splits dest!: find_SomeD)

lemma skip_ws_end_None_iff:
  "skip_ws_end s = None \<longleftrightarrow> s = [] \<or> (\<not> ascii_ws (last s) \<and> (\<forall>w \<in> set ws_sequences. \<not> suffix w s))"
  by (auto simp: skip_ws_end_def find_None split: list.splits option.splits dest!: find_SomeD)

lemma skip_ws_visible [simp]: "visible c \<Longrightarrow> skip_ws (c # s) = None"
proof -
  assume c: "visible c"
  have "\<not> prefix w (c # s)" if "w \<in> set ws_sequences" for w
    using ws_sequences_high [OF that] ws_sequences_nonempty [OF that] c
    by (cases w) (fastforce simp: visible_def)+
  with c show ?thesis by (simp add: skip_ws_None_iff visible_def)
qed

lemma skip_ws_end_visible [simp]: "visible c \<Longrightarrow> skip_ws_end (s @ [c]) = None"
proof -
  assume c: "visible c"
  have "\<not> suffix w (s @ [c])" if "w \<in> set ws_sequences" for w
    using ws_sequences_high [OF that] ws_sequences_nonempty [OF that] c
    by (cases w rule: rev_cases) (fastforce simp: visible_def suffix_def)+
  with c show ?thesis by (simp add: skip_ws_end_None_iff visible_def)
qed

lemma trim_start_le: "length (trim_start s) \<le> length s"
proof (induction s rule: trim_start.induct)
  case (1 s)
  then show ?case
    by (subst trim_start.simps) (fastforce dest: skip_ws_shorter split: option.splits)
qed

lemma trim_end_le: "length (trim_end s) \<le> length s"
proof (induction s rule: trim_end.induct)
  case (1 s)
  then show ?case
    by (subst trim_end.simps) (fastforce dest: skip_ws_end_shorter split: option.splits)
qed

lemma trim_start_suffix: "suffix (trim_start s) s"
proof (induction s rule: trim_start.induct)
  case (1 s)
  show ?case
  proof (cases "skip_ws s")
    case (Some t)
    then have "suffix t s"
      by (auto simp: skip_ws_def suffix_ConsI suffix_drop split: list.splits if_splits option.splits)
    then show ?thesis using 1 Some by (metis option.simps(5) suffix_order.trans trim_start.simps)
  qed (simp add: trim_start.simps)
qed

lemma trim_end_prefix: "prefix (trim_end s) s"
proof (induction s rule: trim_end.induct)
  case (1 s)
  show ?case
  proof (cases "skip_ws_end s")
    case (Some t)
    then have "prefix t s"
      by (auto simp: skip_ws_end_def butlast_conv_take take_is_prefix split: if_splits option.splits)
    then show ?thesis using 1 Some by (metis option.simps(5) prefix_order.trans trim_end.simps)
  qed (simp add: trim_end.simps)
qed

lemma trim_sublist: "sublist (trim s) s"
proof -
  obtain a b where "s = a @ trim_start s" "trim_start s = trim_end (trim_start s) @ b"
    using trim_start_suffix [of s] trim_end_prefix [of "trim_start s"] by (metis prefixE suffixE)
  then have "s = a @ trim s @ b" unfolding trim_def by metis
  then show ?thesis unfolding sublist_def by blast
qed

lemma trim_fixed_iff: "trim s = s \<longleftrightarrow> skip_ws s = None \<and> skip_ws_end s = None"
proof
  assume t: "trim s = s"
  then have start: "length (trim_start s) = length s"
    using trim_start_le [of s] trim_end_le [of "trim_start s"] by (simp add: trim_def)
  have "skip_ws s = None"
  proof (rule ccontr)
    assume "\<not> ?thesis"
    then obtain u where "skip_ws s = Some u" by auto
    then show False
      using start trim_start_le [of u] skip_ws_shorter [of s u] by (simp add: trim_start.simps [of s])
  qed
  moreover from this t have e: "trim_end s = s" by (simp add: trim_def trim_start_fixed)
  have "skip_ws_end s = None"
  proof (rule ccontr)
    assume "\<not> ?thesis"
    then obtain u where "skip_ws_end s = Some u" by auto
    then show False
      using e trim_end_le [of u] skip_ws_end_shorter [of s u] by (simp add: trim_end.simps [of s])
  qed
  ultimately show "skip_ws s = None \<and> skip_ws_end s = None" by simp
qed (simp add: trim_def trim_start_fixed trim_end.simps [of s])

lemma trim_visible [simp]: "visible c \<Longrightarrow> visible d \<Longrightarrow> trim (c # s @ [d]) = c # s @ [d]"
  using skip_ws_end_visible [of d "c # s"] by (simp add: trim_fixed_iff)

subsection \<open>ASCII case and digits\<close>

definition ascii_upper_case :: "char \<Rightarrow> bool" where
  "ascii_upper_case c = (let n = (of_char c :: nat) in 65 \<le> n \<and> n \<le> 90)"

definition ascii_alpha :: "char \<Rightarrow> bool" where
  "ascii_alpha c = (let n = (of_char c :: nat) in (65 \<le> n \<and> n \<le> 90) \<or> (97 \<le> n \<and> n \<le> 122))"

definition ascii_digit :: "char \<Rightarrow> bool" where
  "ascii_digit c = (let n = (of_char c :: nat) in 48 \<le> n \<and> n \<le> 57)"

definition ascii_lower_char :: "char \<Rightarrow> char" where
  "ascii_lower_char c = (if ascii_upper_case c then char_of ((of_char c :: nat) + 32) else c)"

definition ascii_lower :: "string \<Rightarrow> string" where
  "ascii_lower s = map ascii_lower_char s"

lemma ascii_lower_char_idem: "ascii_lower_char (ascii_lower_char c) = ascii_lower_char c"
  by (auto simp: ascii_lower_char_def ascii_upper_case_def Let_def of_char_of)

lemma ascii_lower_idem [simp]: "ascii_lower (ascii_lower s) = ascii_lower s"
  by (simp add: ascii_lower_def ascii_lower_char_idem)

text \<open>\<open>str::parse\<close> for an unsigned integer type with the given maximum: an optional plus
  sign, then at least one decimal digit; \<open>None\<close> for anything else and on overflow.\<close>

definition digits_value :: "string \<Rightarrow> nat" where
  "digits_value s = foldl (\<lambda>n c. 10 * n + ((of_char c :: nat) - 48)) 0 s"

definition parse_unsigned :: "nat \<Rightarrow> string \<Rightarrow> nat option" where
  "parse_unsigned bound s =
     (let ds = (case strip_prefix s ''+'' of Some r \<Rightarrow> r | None \<Rightarrow> s) in
      if ds \<noteq> [] \<and> list_all ascii_digit ds \<and> digits_value ds \<le> bound
      then Some (digits_value ds) else None)"

lemma parse_unsigned_bound: "parse_unsigned b s = Some n \<Longrightarrow> n \<le> b"
  by (auto simp: parse_unsigned_def Let_def split: if_splits)

definition parse_bool :: "string \<Rightarrow> bool option" where
  "parse_bool s = (if s = ''true'' then Some True else if s = ''false'' then Some False else None)"

section \<open>Hash sets\<close>

definition hs_insert :: "'a \<Rightarrow> 'a list \<Rightarrow> 'a list" where
  "hs_insert x xs = (if x \<in> set xs then xs else xs @ [x])"

lemma set_hs_insert [simp]: "set (hs_insert x xs) = insert x (set xs)"
  by (auto simp: hs_insert_def)

lemma distinct_hs_insert [simp, inv_intros]: "distinct xs \<Longrightarrow> distinct (hs_insert x xs)"
  by (auto simp: hs_insert_def)

end
