(* ===== verification/Float64.thy ===== *)
theory Float64
  imports Prelude Complex_Main
begin

text \<open>
  The rounding of IEEE 754 binary64 (53-bit significand, ties to even) on the non-negative values
  the modelled crates form: quotients and products of \<open>u64\<close> and \<open>usize\<close> values, all of them in the
  normal range, so that a value is a rational and no overflow or subnormal occurs.
\<close>

definition round_half_even :: "nat \<Rightarrow> nat \<Rightarrow> nat" where
  "round_half_even n d =
     (let q = n div d; r = n mod d in
      if 2 * r < d \<or> (2 * r = d \<and> even q) then q else q + 1)"

function doublings :: "nat \<Rightarrow> nat \<Rightarrow> nat" where
  "doublings a b = (if a = 0 \<or> b \<le> a then 0 else Suc (doublings (2 * a) b))"
  by pat_completeness auto
termination
  by (relation "measure (\<lambda>(a, b). b - a)") auto

declare doublings.simps [simp del]

lemma doublings_reach: "0 < a \<Longrightarrow> b \<le> a * 2 ^ doublings a b"
proof (induction a b rule: doublings.induct)
  case (1 a b)
  then show ?case by (subst doublings.simps) (auto simp: algebra_simps)
qed

lemma doublings_0: "b \<le> a \<Longrightarrow> doublings a b = 0"
  by (simp add: doublings.simps)

lemma doublings_1: "b \<le> 2 * a \<Longrightarrow> doublings a b \<le> 1"
  by (subst doublings.simps) (simp add: doublings_0)

lemma round_half_even_ge: "0 < d \<Longrightarrow> m * d \<le> n \<Longrightarrow> m \<le> round_half_even n d"
  by (auto simp: round_half_even_def Let_def less_eq_div_iff_mult_less_eq intro: le_SucI)

lemma round_half_even_twice: "0 < d \<Longrightarrow> 2 * d * round_half_even n d \<le> 2 * n + d"
proof -
  assume d: "0 < d"
  have "d * (n div d) + n mod d = n" by simp
  then have "2 * (d * (n div d)) + 2 * (n mod d) = 2 * n" by linarith
  then show ?thesis
    by (auto simp: round_half_even_def Let_def algebra_simps)
qed

text \<open>\<open>f64_round n d\<close> is the value closest to \<open>n / d\<close>; \<open>x as f64\<close> of an integer, and the product and
  quotient of two values.\<close>

definition f64_round :: "nat \<Rightarrow> nat \<Rightarrow> rat" where
  "f64_round n d =
     (if n = 0 then 0
      else if d * 2 ^ 53 \<le> n then
        (let k = doublings (d * 2 ^ 53) (Suc n) in of_nat (round_half_even n (d * 2 ^ k) * 2 ^ k))
      else (let e = doublings n (d * 2 ^ 52) in of_nat (round_half_even (n * 2 ^ e) d) / 2 ^ e))"

definition f64_of_rat :: "rat \<Rightarrow> rat" where
  "f64_of_rat x = (let (n, d) = quotient_of x in f64_round (nat n) (nat d))"

definition f64_of_nat :: "nat \<Rightarrow> rat" where
  "f64_of_nat n = f64_round n 1"

definition f64_div :: "rat \<Rightarrow> rat \<Rightarrow> rat" where
  "f64_div a b = f64_of_rat (a / b)"

definition f64_mul :: "rat \<Rightarrow> rat \<Rightarrow> rat" where
  "f64_mul a b = f64_of_rat (a * b)"

text \<open>\<open>f64::round\<close> (ties away from zero) followed by a saturating cast.\<close>

definition round_cast :: "nat \<Rightarrow> rat \<Rightarrow> nat" where
  "round_cast bound x = min bound (nat \<lfloor>x + 1 / 2\<rfloor>)"

lemma f64_of_nat_small: "n < 2 ^ 53 \<Longrightarrow> f64_of_nat n = of_nat n"
proof -
  assume n: "n < 2 ^ 53"
  have "round_half_even (n * 2 ^ e) 1 = n * 2 ^ e" for e by (simp add: round_half_even_def)
  with n show ?thesis by (simp add: f64_of_nat_def f64_round_def Let_def)
qed

end
