(* ===== verification/BreakerTypes.thy ===== *)
theory BreakerTypes
  imports Prelude Float64
begin

text \<open>
  The data of the crate \<open>xai-circuit-breaker\<close>: \<open>state.rs\<close>, \<open>config.rs\<close> and
  \<open>retry_policy.rs\<close>.

  A \<open>Duration\<close> is its number of nanoseconds, an \<open>Instant\<close> the nanoseconds since the
  origin of the monotonic clock.  An \<open>f64\<close> is a finite value (a rational), an infinity or
  NaN; \<open>f64_ratio\<close> is the division of two \<open>usize\<close> values converted to \<open>f64\<close>, with the
  rounding of IEEE 754 (53-bit significand, ties to even) written out for quotients in
  \<open>[0, 1]\<close>, the only ones the crate forms.
\<close>

type_synonym duration = nat
type_synonym instant = nat

abbreviation from_secs :: "nat \<Rightarrow> duration" where
  "from_secs n \<equiv> n * 1000000000"

abbreviation from_millis :: "u64 \<Rightarrow> duration" where
  "from_millis n \<equiv> unat n * 1000000"

definition as_millis_u64 :: "duration \<Rightarrow> u64" where
  "as_millis_u64 d = of_nat (d div 1000000)"

definition saturating_sub_u64 :: "u64 \<Rightarrow> u64 \<Rightarrow> u64" where
  "saturating_sub_u64 a b = (if a < b then 0 else a - b)"

lemma unat_saturating_sub: "unat (saturating_sub_u64 a b) = unat a - unat b"
  by (auto simp: saturating_sub_u64_def unat_sub word_le_nat_alt word_less_nat_alt not_less)

section \<open>Floating point\<close>

datatype f64 = Finite rat | Infinite bool | NaN

fun f64_ge :: "f64 \<Rightarrow> f64 \<Rightarrow> bool" where
  "f64_ge NaN _ = False"
| "f64_ge _ NaN = False"
| "f64_ge (Finite a) (Finite b) = (b \<le> a)"
| "f64_ge (Finite a) (Infinite pos) = (\<not> pos)"
| "f64_ge (Infinite pos) (Finite b) = pos"
| "f64_ge (Infinite p) (Infinite q) = (p \<or> \<not> q)"

definition f64_ratio :: "nat \<Rightarrow> nat \<Rightarrow> rat" where
  "f64_ratio a b =
     (if a = 0 then 0
      else let e = 52 + doublings a b in of_nat (round_half_even (a * 2 ^ e) b) / 2 ^ e)"

lemma f64_ratio_half_pos:
  assumes "0 < a" "0 < b" "b < 2 ^ 53"
  shows "1 / 2 \<le> f64_ratio a b \<longleftrightarrow> b \<le> 2 * a"
proof -
  define k where "k = doublings a b"
  define q where "q = round_half_even (a * 2 ^ (52 + k)) b"
  have ratio: "f64_ratio a b = of_nat q / 2 ^ (52 + k)"
    using assms(1) by (simp add: f64_ratio_def Let_def k_def q_def)
  have half: "(1 / 2 \<le> (of_nat q / 2 ^ (52 + k) :: rat)) = (2 ^ (51 + k) \<le> q)"
  proof -
    have "(1 / 2 \<le> (of_nat q / 2 ^ (52 + k) :: rat)) = ((2 :: rat) ^ (51 + k) \<le> of_nat q)"
      by (simp add: field_simps power_add)
    also have "\<dots> = (of_nat (2 ^ (51 + k)) \<le> (of_nat q :: rat))" by simp
    also have "\<dots> = (2 ^ (51 + k) \<le> q)" by (simp only: of_nat_le_iff)
    finally show ?thesis .
  qed
  show ?thesis
  proof
    assume le: "b \<le> 2 * a"
    have "2 ^ 52 * b \<le> 2 ^ 52 * (a * 2 ^ k)"
      using doublings_reach [OF assms(1), of b] by (simp add: k_def)
    then have "2 ^ 52 \<le> q"
      unfolding q_def by (intro round_half_even_ge assms(2)) (simp add: power_add mult_ac)
    moreover have "(2 :: nat) ^ (51 + k) \<le> 2 ^ 52"
      using doublings_1 [OF le] by (intro power_increasing) (auto simp: k_def)
    ultimately show "1 / 2 \<le> f64_ratio a b" using half ratio by simp
  next
    assume "1 / 2 \<le> f64_ratio a b"
    then have q: "2 ^ (51 + k) \<le> q" using half ratio by simp
    show "b \<le> 2 * a"
    proof (rule ccontr)
      assume "\<not> b \<le> 2 * a"
      define X :: nat where "X = 2 ^ (51 + k)"
      have X2: "(2 :: nat) ^ (52 + k) = 2 * X" by (simp add: X_def power_add)
      have "(2 * a + 1) * (2 * X) \<le> b * (2 * X)"
        using \<open>\<not> b \<le> 2 * a\<close> by (intro mult_le_mono1) auto
      moreover have "2 * b * X \<le> 2 * b * q"
        using q by (intro mult_le_mono2) (simp add: X_def)
      moreover have "2 * b * q \<le> 2 * (a * (2 * X)) + b"
        using round_half_even_twice [OF assms(2)] by (simp only: q_def X2)
      moreover have "(2 * a + 1) * (2 * X) = 2 * (a * (2 * X)) + 2 * X"
        "b * (2 * X) = 2 * b * X" by (simp_all add: algebra_simps)
      ultimately have "2 * X \<le> b" by linarith
      then have "2 ^ (52 + k) \<le> b" by (simp only: X2)
      moreover have "1 \<le> k"
        using doublings_reach [OF assms(1), of b] \<open>\<not> b \<le> 2 * a\<close> by (cases k) (auto simp: k_def)
      then have "(2 :: nat) ^ 53 \<le> 2 ^ (52 + k)"
        using power_increasing [of 53 "52 + k" "2 :: nat"] by simp
      ultimately show False using assms(3) by linarith
    qed
  qed
qed

lemma f64_ratio_half:
  assumes "0 < b" "b < 2 ^ 53"
  shows "1 / 2 \<le> f64_ratio a b \<longleftrightarrow> b \<le> 2 * a"
  using assms f64_ratio_half_pos [of a b] by (cases "a = 0") (auto simp: f64_ratio_def)

lemma f64_ratio_nonneg: "0 \<le> f64_ratio a b"
  by (simp add: f64_ratio_def Let_def)

lemma round_half_even_le: "0 < d \<Longrightarrow> n \<le> m * d \<Longrightarrow> round_half_even n d \<le> m"
proof -
  assume d: "0 < d" and n: "n \<le> m * d"
  show ?thesis
  proof (cases "n = m * d")
    case True
    with d show ?thesis by (simp add: round_half_even_def Let_def)
  next
    case False
    with n d have "n div d < m" by (simp add: div_less_iff_less_mult)
    then show ?thesis by (auto simp: round_half_even_def Let_def)
  qed
qed

lemma f64_ratio_le_1: "0 < b \<Longrightarrow> a \<le> b \<Longrightarrow> f64_ratio a b \<le> 1"
proof (cases "a = 0")
  case False
  assume b: "0 < b" "a \<le> b"
  define e where "e = 52 + doublings a b"
  have "round_half_even (a * 2 ^ e) b \<le> 2 ^ e"
    using b by (intro round_half_even_le) auto
  then have "(of_nat (round_half_even (a * 2 ^ e) b) :: rat) \<le> of_nat (2 ^ e)"
    by (simp only: of_nat_le_iff)
  with False show ?thesis by (simp add: f64_ratio_def Let_def e_def [symmetric])
qed (simp add: f64_ratio_def)

section \<open>States and outcomes (state.rs)\<close>

datatype breaker_state = Closed | Open | HalfOpen

fun state_as_u8 :: "breaker_state \<Rightarrow> u8" where
  "state_as_u8 Closed = 0"
| "state_as_u8 Open = 1"
| "state_as_u8 HalfOpen = 2"

text \<open>\<open>BreakerState::from_u8\<close> in a release build: an invalid byte reads as \<open>Closed\<close>.\<close>

definition from_u8 :: "u8 \<Rightarrow> breaker_state" where
  "from_u8 v = (if v = 0 then Closed else if v = 1 then Open else if v = 2 then HalfOpen else Closed)"

lemma from_u8_state_as_u8 [simp]: "from_u8 (state_as_u8 s) = s"
  by (cases s) (auto simp: from_u8_def)

lemma from_u8_simps [simp]: "from_u8 0 = Closed" "from_u8 1 = Open" "from_u8 2 = HalfOpen"
  by (simp_all add: from_u8_def)

lemma state_as_u8_inject [simp]: "(state_as_u8 s = state_as_u8 t) = (s = t)"
  by (metis from_u8_state_as_u8)

datatype outcome = Success | Failure

record breaker_open =
  retry_after :: duration

section \<open>Configuration (config.rs)\<close>

record breaker_config =
  window_duration :: duration
  min_samples :: nat
  error_rate_threshold :: f64
  open_duration :: duration
  half_open_max_probes :: u64
  failure_codes :: "u16 list"
  enabled :: bool

definition default_failure_codes :: "u16 list" where
  "default_failure_codes = [429, 500, 502, 503, 504]"

definition config_server :: breaker_config where
  "config_server =
     \<lparr>window_duration = from_secs 60, min_samples = 10, error_rate_threshold = Finite (1 / 2),
      open_duration = from_secs 10, half_open_max_probes = 1,
      failure_codes = default_failure_codes, enabled = True\<rparr>"

definition config_client :: breaker_config where
  "config_client =
     \<lparr>window_duration = from_secs 60, min_samples = 5, error_rate_threshold = Finite (1 / 2),
      open_duration = from_secs 60, half_open_max_probes = 1,
      failure_codes = [401], enabled = True\<rparr>"

definition is_failure_status :: "breaker_config \<Rightarrow> u16 \<Rightarrow> bool" where
  "is_failure_status c status = (status \<in> set (failure_codes c))"

text \<open>\<open>parse_failure_codes\<close>: the entries that parse as \<open>u16\<close>; the rest are dropped.\<close>

definition parse_failure_codes :: "string \<Rightarrow> u16 list" where
  "parse_failure_codes s =
     foldl (\<lambda>acc c. case parse_unsigned 65535 (trim c) of
                      None \<Rightarrow> acc | Some n \<Rightarrow> hs_insert (of_nat n) acc)
       [] (split_on CHR '','' s)"

text \<open>\<open>lookup_or\<close>: the parsed variable, the default when it is unset or does not parse.\<close>

definition lookup_or ::
    "(string \<Rightarrow> string option) \<Rightarrow> (string \<Rightarrow> 'a option) \<Rightarrow> string \<Rightarrow> 'a \<Rightarrow> 'a" where
  "lookup_or env parse key dflt =
     (case env key of
        Some v \<Rightarrow> (case parse v of Some x \<Rightarrow> x | None \<Rightarrow> dflt)
      | None \<Rightarrow> dflt)"

abbreviation parse_u64 :: "string \<Rightarrow> nat option" where
  "parse_u64 \<equiv> parse_unsigned (2 ^ 64 - 1)"

text \<open>
  \<open>from_lookup_with_prefix\<close>; \<open>parse_f64\<close> is \<open>f64::from_str\<close> of the standard library
  (decimal to binary conversion), an argument of the model.
\<close>

definition from_lookup_with_prefix ::
    "(string \<Rightarrow> f64 option) \<Rightarrow> string \<Rightarrow> (string \<Rightarrow> string option) \<Rightarrow> breaker_config" where
  "from_lookup_with_prefix parse_f64 pre env =
     (let codes = (case env (pre @ ''FAILURE_CODES'') of
                     Some raw \<Rightarrow> (let cs = parse_failure_codes raw in
                                  if cs = [] then default_failure_codes else cs)
                   | None \<Rightarrow> default_failure_codes)
      in \<lparr>window_duration = from_secs (lookup_or env parse_u64 (pre @ ''WINDOW_SECS'') 60),
          min_samples = lookup_or env parse_u64 (pre @ ''MIN_SAMPLES'') 10,
          error_rate_threshold =
            lookup_or env parse_f64 (pre @ ''ERROR_RATE_THRESHOLD'') (Finite (1 / 2)),
          open_duration = from_secs (lookup_or env parse_u64 (pre @ ''OPEN_DURATION_SECS'') 10),
          half_open_max_probes =
            max (of_nat (lookup_or env parse_u64 (pre @ ''HALF_OPEN_MAX_PROBES'') 1)) 1,
          failure_codes = codes,
          enabled = lookup_or env parse_bool (pre @ ''ENABLED'') True\<rparr>)"

abbreviation from_env_with_prefix ::
    "(string \<Rightarrow> f64 option) \<Rightarrow> string \<Rightarrow> (string \<Rightarrow> string option) \<Rightarrow> breaker_config" where
  "from_env_with_prefix \<equiv> from_lookup_with_prefix"

lemma from_lookup_unset:
  "from_lookup_with_prefix pf pre (\<lambda>_. None) = config_server"
  by (simp add: from_lookup_with_prefix_def lookup_or_def config_server_def)

lemma from_lookup_probes_pos: "1 \<le> half_open_max_probes (from_lookup_with_prefix pf pre env)"
  by (simp add: from_lookup_with_prefix_def Let_def)

lemma foldl_codes_grow:
  "set acc \<subseteq> set (foldl (\<lambda>acc c. case p c of None \<Rightarrow> acc | Some n \<Rightarrow> hs_insert (f n) acc) acc xs)"
  by (induction xs arbitrary: acc) (fastforce split: option.splits)+

lemma from_lookup_codes_nonempty: "failure_codes (from_lookup_with_prefix pf pre env) \<noteq> []"
  by (simp add: from_lookup_with_prefix_def default_failure_codes_def Let_def split: option.splits)

section \<open>Retry policy (retry_policy.rs)\<close>

datatype disposition = Retryable | AuthRefresh | Terminal

record retry_policy =
  rp_retryable :: "u16 list"
  rp_auth_refresh :: "u16 list"
  rp_terminal :: "u16 list"
  rp_default :: disposition

definition classify :: "retry_policy \<Rightarrow> u16 \<Rightarrow> disposition option" where
  "classify p status =
     (if 200 \<le> status \<and> status < 300 then None
      else if status \<in> set (rp_auth_refresh p) then Some AuthRefresh
      else if status \<in> set (rp_terminal p) then Some Terminal
      else if status \<in> set (rp_retryable p) \<or> (500 \<le> status \<and> status < 600) then Some Retryable
      else Some (rp_default p))"

definition should_retry :: "retry_policy \<Rightarrow> u16 \<Rightarrow> bool" where
  "should_retry p status = (classify p status = Some Retryable)"

definition retry_server :: retry_policy where
  "retry_server =
     \<lparr>rp_retryable = [429], rp_auth_refresh = [], rp_terminal = [], rp_default = Terminal\<rparr>"

definition retry_client_storage :: retry_policy where
  "retry_client_storage =
     \<lparr>rp_retryable = [], rp_auth_refresh = [401], rp_terminal = [400, 403, 404],
      rp_default = Retryable\<rparr>"

lemma classify_None_iff: "(classify p s = None) = (200 \<le> s \<and> s < 300)"
  by (simp add: classify_def)

lemma server_should_retry_iff: "should_retry retry_server s = (s = 429 \<or> (500 \<le> s \<and> s < 600))"
proof -
  have "\<not> (200 \<le> s \<and> s < 300)" if "s = 429 \<or> (500 \<le> s \<and> s < 600)"
    using that by (auto simp: word_le_nat_alt word_less_nat_alt)
  then show ?thesis by (auto simp: should_retry_def classify_def retry_server_def)
qed

lemma client_should_retry_iff:
  "should_retry retry_client_storage s =
     (\<not> (200 \<le> s \<and> s < 300) \<and> s \<notin> {401, 400, 403, 404})"
  by (auto simp: should_retry_def classify_def retry_client_storage_def)

end
