(* ===== verification/BreakerWindow.thy ===== *)
theory BreakerWindow
  imports BreakerTypes
begin

text \<open>
  \<open>window.rs\<close>: the bounded sliding window of \<open>(timestamp, is_failure)\<close> samples with its
  incremental failure counter, and the interface the breaker relies on.  The counter is a
  64-bit word, so a decrement below zero would wrap; \<open>window_ok\<close> says it never does.
\<close>

record sliding_window =
  entries :: "(instant \<times> bool) list"
  failures :: u64

definition MAX_WINDOW_ENTRIES :: nat where
  "MAX_WINDOW_ENTRIES = 10000"

definition window_new :: sliding_window where
  "window_new = \<lparr>entries = [], failures = 0\<rparr>"

text \<open>\<open>push\<close>: at the cap the oldest sample goes first.\<close>

definition make_room :: "sliding_window \<Rightarrow> sliding_window" where
  "make_room w =
     (if MAX_WINDOW_ENTRIES \<le> length (entries w)
      then (case entries w of
              [] \<Rightarrow> w
            | (_, was_failure) # rest \<Rightarrow>
                w\<lparr>entries := rest,
                  failures := (if was_failure then failures w - 1 else failures w)\<rparr>)
      else w)"

definition window_push :: "bool \<Rightarrow> instant \<Rightarrow> sliding_window \<Rightarrow> sliding_window" where
  "window_push is_failure ts w =
     (let w = make_room w in
      \<lparr>entries = entries w @ [(ts, is_failure)],
       failures = (if is_failure then failures w + 1 else failures w)\<rparr>)"

text \<open>\<open>evict\<close>: pop while the front sample is older than the cutoff.\<close>

fun evict_before :: "instant \<Rightarrow> (instant \<times> bool) list \<Rightarrow> u64 \<Rightarrow> sliding_window" where
  "evict_before cutoff [] f = \<lparr>entries = [], failures = f\<rparr>"
| "evict_before cutoff ((ts, was_failure) # rest) f =
     (if ts < cutoff then evict_before cutoff rest (if was_failure then f - 1 else f)
      else \<lparr>entries = (ts, was_failure) # rest, failures = f\<rparr>)"

definition checked_sub_instant :: "instant \<Rightarrow> duration \<Rightarrow> instant option" where
  "checked_sub_instant now d = (if d \<le> now then Some (now - d) else None)"

definition window_evict :: "duration \<Rightarrow> instant \<Rightarrow> sliding_window \<Rightarrow> sliding_window" where
  "window_evict d now w =
     (case checked_sub_instant now d of
        None \<Rightarrow> w
      | Some cutoff \<Rightarrow> evict_before cutoff (entries w) (failures w))"

definition error_rate :: "sliding_window \<Rightarrow> rat" where
  "error_rate w =
     (if entries w = [] then 0 else f64_ratio (unat (failures w)) (length (entries w)))"

definition sample_count :: "sliding_window \<Rightarrow> nat" where
  "sample_count w = length (entries w)"

definition window_clear :: "sliding_window \<Rightarrow> sliding_window" where
  "window_clear w = w\<lparr>entries := [], failures := 0\<rparr>"

section \<open>The interface\<close>

text \<open>
  A failure window keeps a list of samples and counts its failures.  Everything the
  breaker needs follows from four laws: what \<open>push\<close> and \<open>evict\<close> do to the samples, that
  \<open>clear\<close> empties them, and that the counter counts.
\<close>

definition failed :: "(instant \<times> bool) list \<Rightarrow> nat" where
  "failed xs = length (filter snd xs)"

lemma failed_simps [simp]:
  "failed [] = 0" "failed ((t, True) # xs) = Suc (failed xs)" "failed ((t, False) # xs) = failed xs"
  "failed (xs @ ys) = failed xs + failed ys"
  by (auto simp: failed_def)

lemma failed_le: "failed xs \<le> length xs"
  by (simp add: failed_def)

definition live :: "duration \<Rightarrow> instant \<Rightarrow> (instant \<times> bool) list \<Rightarrow> (instant \<times> bool) list" where
  "live d now xs = (if d \<le> now then dropWhile (\<lambda>(ts, _). ts < now - d) xs else xs)"

definition capped_append :: "nat \<Rightarrow> 'a \<Rightarrow> 'a list \<Rightarrow> 'a list" where
  "capped_append cap x xs = (if cap \<le> length xs then tl xs else xs) @ [x]"

locale failure_window =
  fixes samples :: "'w \<Rightarrow> (instant \<times> bool) list"
    and ok :: "'w \<Rightarrow> bool"
    and push :: "bool \<Rightarrow> instant \<Rightarrow> 'w \<Rightarrow> 'w"
    and evict :: "duration \<Rightarrow> instant \<Rightarrow> 'w \<Rightarrow> 'w"
    and clear :: "'w \<Rightarrow> 'w"
    and fail_count :: "'w \<Rightarrow> nat"
    and cap :: nat
  assumes samples_push: "ok w \<Longrightarrow> samples (push b t w) = capped_append cap (t, b) (samples w)"
    and ok_push: "ok w \<Longrightarrow> ok (push b t w)"
    and samples_evict: "ok w \<Longrightarrow> samples (evict d now w) = live d now (samples w)"
    and ok_evict: "ok w \<Longrightarrow> ok (evict d now w)"
    and samples_clear: "samples (clear w) = []"
    and ok_clear: "ok (clear w)"
    and count_ok: "ok w \<Longrightarrow> fail_count w = failed (samples w)"
    and cap_ok: "ok w \<Longrightarrow> length (samples w) \<le> cap"
begin

lemma count_le: "ok w \<Longrightarrow> fail_count w \<le> length (samples w)"
  by (simp add: count_ok failed_le)

lemma push_evict_ok: "ok w \<Longrightarrow> ok (evict d now (push b t w))"
  by (intro ok_evict ok_push)

lemma push_then_evict:
  "ok w \<Longrightarrow> samples (evict d now (push b t w)) = live d now (capped_append cap (t, b) (samples w))"
  by (simp add: samples_evict samples_push ok_push)

lemma push_nonempty: "ok w \<Longrightarrow> samples (push b t w) \<noteq> []"
  by (simp add: samples_push capped_append_def)

lemma push_keeps_newest: "ok w \<Longrightarrow> last (samples (push b t w)) = (t, b)"
  by (simp add: samples_push capped_append_def)

lemma evict_suffix: "ok w \<Longrightarrow> suffix (samples (evict d now w)) (samples w)"
  by (simp add: samples_evict live_def suffix_dropWhile)

lemma evict_idem: "ok w \<Longrightarrow> samples (evict d now (evict d now w)) = samples (evict d now w)"
  by (simp add: samples_evict ok_evict live_def dropWhile_idem)

end

section \<open>The window implements it\<close>

definition window_ok :: "sliding_window \<Rightarrow> bool" where
  "window_ok w \<longleftrightarrow> length (entries w) \<le> MAX_WINDOW_ENTRIES \<and>
     unat (failures w) = failed (entries w)"

lemma unat_dec: "0 < unat (x :: u64) \<Longrightarrow> unat (x - 1) = unat x - 1"
  using unat_minus_one [of x] by (metis unat_0 less_irrefl)

lemma unat_inc: "unat (x :: u64) < 2 ^ 64 - 1 \<Longrightarrow> unat (x + 1) = Suc (unat x)"
  by (simp add: unat_word_ariths)

lemma make_room_ok:
  "window_ok w \<Longrightarrow> window_ok (make_room w) \<and> length (entries (make_room w)) < MAX_WINDOW_ENTRIES \<and>
     entries (make_room w) = (if MAX_WINDOW_ENTRIES \<le> length (entries w) then tl (entries w) else entries w)"
  by (auto simp: make_room_def window_ok_def MAX_WINDOW_ENTRIES_def unat_dec failed_def split: list.splits)

lemma window_push_ok:
  assumes "window_ok w"
  shows "window_ok (window_push b t w)"
    and "entries (window_push b t w) = capped_append MAX_WINDOW_ENTRIES (t, b) (entries w)"
proof -
  note room = make_room_ok [OF assms]
  have "unat (failures (make_room w)) \<le> length (entries (make_room w))"
    using room by (simp add: window_ok_def failed_le)
  also have "\<dots> < 10000"
    using room [THEN conjunct2, THEN conjunct1] by (simp add: MAX_WINDOW_ENTRIES_def)
  finally have "unat (failures (make_room w)) < 2 ^ 64 - 1" by simp
  with room show "window_ok (window_push b t w)"
    by (cases b) (auto simp: window_push_def window_ok_def Let_def unat_inc)
  show "entries (window_push b t w) = capped_append MAX_WINDOW_ENTRIES (t, b) (entries w)"
    using room by (simp add: window_push_def Let_def capped_append_def)
qed

lemma evict_before_entries:
  "entries (evict_before c xs f) = dropWhile (\<lambda>(ts, _). ts < c) xs"
  by (induction c xs f rule: evict_before.induct) auto

lemma evict_before_failures:
  "unat f = failed xs \<Longrightarrow>
   unat (failures (evict_before c xs f)) = failed (dropWhile (\<lambda>(ts, _). ts < c) xs)"
proof (induction c xs f rule: evict_before.induct)
  case (2 c ts was rest f)
  then show ?case by (cases was) (auto simp: unat_dec)
qed simp

lemma window_evict_entries: "entries (window_evict d now w) = live d now (entries w)"
  by (simp add: window_evict_def checked_sub_instant_def live_def evict_before_entries)

lemma window_evict_ok: "window_ok w \<Longrightarrow> window_ok (window_evict d now w)"
  by (auto simp: window_ok_def window_evict_def checked_sub_instant_def evict_before_entries
      evict_before_failures intro: order_trans [OF length_dropWhile_le])

interpretation sw: failure_window
  entries window_ok window_push window_evict window_clear "\<lambda>w. unat (failures w)" MAX_WINDOW_ENTRIES
proof unfold_locales
  fix w b t d now
  show "window_ok w \<Longrightarrow> entries (window_push b t w) = capped_append MAX_WINDOW_ENTRIES (t, b) (entries w)"
    by (rule window_push_ok)
  show "window_ok w \<Longrightarrow> window_ok (window_push b t w)" by (rule window_push_ok)
  show "window_ok w \<Longrightarrow> entries (window_evict d now w) = live d now (entries w)"
    by (rule window_evict_entries)
  show "window_ok w \<Longrightarrow> window_ok (window_evict d now w)" by (rule window_evict_ok)
  show "entries (window_clear w) = []" by (simp add: window_clear_def)
  show "window_ok (window_clear w)" by (simp add: window_clear_def window_ok_def)
  show "window_ok w \<Longrightarrow> unat (failures w) = failed (entries w)" by (simp add: window_ok_def)
  show "window_ok w \<Longrightarrow> length (entries w) \<le> MAX_WINDOW_ENTRIES" by (simp add: window_ok_def)
qed

lemma window_new_ok [simp]: "window_ok window_new"
  by (simp add: window_ok_def window_new_def)

text \<open>With timestamps in order, eviction keeps exactly the samples inside the window.\<close>

lemma live_sorted:
  assumes "sorted (map fst xs)" "d \<le> now"
  shows "live d now xs = filter (\<lambda>(ts, _). now - d \<le> ts) xs"
proof -
  have "dropWhile (\<lambda>(ts, _). ts < c) xs = filter (\<lambda>(ts, _). c \<le> ts) xs" for c
    using assms(1)
  proof (induction xs)
    case (Cons x xs)
    then show ?case by (cases x) (fastforce intro!: filter_True [symmetric])
  qed simp
  with assms(2) show ?thesis by (simp add: live_def)
qed

lemma error_rate_range:
  assumes "window_ok w"
  shows "0 \<le> error_rate w \<and> error_rate w \<le> 1"
  using sw.count_le [OF assms]
  by (auto simp: error_rate_def f64_ratio_nonneg intro!: f64_ratio_le_1)

lemma error_rate_half:
  assumes "window_ok w" "entries w \<noteq> []"
  shows "(1 / 2 \<le> error_rate w) = (length (entries w) \<le> 2 * failed (entries w))"
proof -
  have "length (entries w) \<le> 10000"
    using sw.cap_ok [OF assms(1)] by (simp add: MAX_WINDOW_ENTRIES_def)
  then show ?thesis
    using assms f64_ratio_half [of "length (entries w)"] by (simp add: error_rate_def window_ok_def)
qed

end
