(* ===== verification/Breaker.thy ===== *)
theory Breaker
  imports BreakerWindow
begin

text \<open>
  \<open>breaker.rs\<close>: the circuit breaker as one caller sees it.  The atomics are fields of the
  record \<open>breaker\<close> at their width; an operation returns its result, the new state and
  the observer callbacks it made, in order.  Each reading of the clock inside an operation
  is an argument of its own, in the order the code reads it, so the clock may move during
  an operation.  The atomic operations of concurrent callers are interleaved in
  \<open>BreakerRace\<close>.
\<close>

datatype obs_event =
    StateChange breaker_state breaker_state string
  | ProbeAdmission bool
  | OutcomeSeen outcome breaker_state

record breaker =
  config :: breaker_config
  state_byte :: u8
  baseline :: instant
  opened_at_millis :: u64
  half_open_probes :: u64
  probe_claimed_at_millis :: u64
  is_open_fast :: bool
  cb_window :: sliding_window
  observer :: "nat option"

type_synonym check_result = "breaker_open + unit"

definition with_clock :: "breaker_config \<Rightarrow> instant \<Rightarrow> breaker" where
  "with_clock c now =
     \<lparr>config = c\<lparr>half_open_max_probes := max (half_open_max_probes c) 1\<rparr>,
      state_byte = state_as_u8 Closed, baseline = now, opened_at_millis = 0,
      half_open_probes = 0, probe_claimed_at_millis = 0, is_open_fast = False,
      cb_window = window_new, observer = None\<rparr>"

text \<open>\<open>OnceLock::set\<close>: the first observer stays.\<close>

definition with_observer :: "nat \<Rightarrow> breaker \<Rightarrow> breaker" where
  "with_observer ob b = (case observer b of None \<Rightarrow> b\<lparr>observer := Some ob\<rparr> | Some _ \<Rightarrow> b)"

definition cb_state :: "breaker \<Rightarrow> breaker_state" where
  "cb_state b = from_u8 (state_byte b)"

definition is_open :: "breaker \<Rightarrow> bool" where
  "is_open b = is_open_fast b"

definition elapsed_millis :: "breaker \<Rightarrow> instant \<Rightarrow> u64" where
  "elapsed_millis b now = as_millis_u64 (now - baseline b)"

definition cas_state :: "breaker_state \<Rightarrow> breaker_state \<Rightarrow> breaker \<Rightarrow> bool \<times> breaker" where
  "cas_state from to b =
     (if state_byte b = state_as_u8 from then (True, b\<lparr>state_byte := state_as_u8 to\<rparr>)
      else (False, b))"

definition HALF_OPEN_PROBE_BACKOFF :: duration where
  "HALF_OPEN_PROBE_BACKOFF = from_millis 50"

definition try_half_open_probe :: "instant \<Rightarrow> breaker \<Rightarrow> check_result \<times> breaker \<times> obs_event list" where
  "try_half_open_probe t b =
     (let now = elapsed_millis b t;
          prev = half_open_probes b;
          b = b\<lparr>half_open_probes := prev + 1\<rparr>
      in if prev < half_open_max_probes (config b)
         then (Inr (), b\<lparr>probe_claimed_at_millis := now\<rparr>, [ProbeAdmission True])
         else let b = b\<lparr>half_open_probes := half_open_probes b - 1\<rparr>;
                  lease_millis = as_millis_u64 (open_duration (config b));
                  claimed = probe_claimed_at_millis b
              in if lease_millis \<le> saturating_sub_u64 now claimed
                 then (Inr (), b\<lparr>probe_claimed_at_millis := now\<rparr>, [ProbeAdmission True])
                 else (Inl \<lparr>retry_after = min HALF_OPEN_PROBE_BACKOFF (open_duration (config b))\<rparr>,
                       b, [ProbeAdmission False]))"

definition open_elapsed :: "breaker \<Rightarrow> instant \<Rightarrow> duration" where
  "open_elapsed b t = from_millis (saturating_sub_u64 (elapsed_millis b t) (opened_at_millis b))"

text \<open>
  \<open>check_open\<close> reads the clock at \<open>t1\<close> and, in the probe path or after a lost
  compare-and-swap, at \<open>t2\<close>.
\<close>

definition check_open :: "instant \<Rightarrow> instant \<Rightarrow> breaker \<Rightarrow> check_result \<times> breaker \<times> obs_event list" where
  "check_open t1 t2 b =
     (if open_duration (config b) \<le> open_elapsed b t1
      then (case cas_state Open HalfOpen b of
              (True, b) \<Rightarrow>
                (let b = b\<lparr>is_open_fast := False\<rparr>;
                     (r, b, evs) = try_half_open_probe t2 b
                 in (r, b, StateChange Open HalfOpen ''open_elapsed'' # evs))
            | (False, b) \<Rightarrow>
                (case cb_state b of
                   Closed \<Rightarrow> (Inr (), b, [])
                 | HalfOpen \<Rightarrow> try_half_open_probe t2 b
                 | Open \<Rightarrow> (Inl \<lparr>retry_after = open_duration (config b) - open_elapsed b t2\<rparr>, b, [])))
      else (Inl \<lparr>retry_after = open_duration (config b) - open_elapsed b t1\<rparr>, b, []))"

definition check :: "instant \<Rightarrow> instant \<Rightarrow> breaker \<Rightarrow> check_result \<times> breaker \<times> obs_event list" where
  "check t1 t2 b =
     (if \<not> enabled (config b) then (Inr (), b, [])
      else case cb_state b of
             Closed \<Rightarrow> (Inr (), b, [])
           | Open \<Rightarrow> check_open t1 t2 b
           | HalfOpen \<Rightarrow> try_half_open_probe t1 b)"

definition trip :: "instant \<Rightarrow> breaker_state \<Rightarrow> string \<Rightarrow> breaker \<Rightarrow> breaker \<times> obs_event list" where
  "trip t prev reason b =
     (b\<lparr>state_byte := state_as_u8 Open, opened_at_millis := elapsed_millis b t,
        half_open_probes := 0, is_open_fast := True\<rparr>,
      if prev \<noteq> Open then [StateChange prev Open reason] else [])"

definition close :: "breaker_state \<Rightarrow> string \<Rightarrow> breaker \<Rightarrow> breaker \<times> obs_event list" where
  "close prev reason b =
     (b\<lparr>state_byte := state_as_u8 Closed, cb_window := window_clear (cb_window b),
        half_open_probes := 0, is_open_fast := False\<rparr>,
      if prev \<noteq> Closed then [StateChange prev Closed reason] else [])"

definition observe_sample :: "bool \<Rightarrow> instant \<Rightarrow> breaker \<Rightarrow> breaker" where
  "observe_sample is_failure now b =
     b\<lparr>cb_window := window_evict (window_duration (config b)) now
                      (window_push is_failure now (cb_window b))\<rparr>"

definition should_trip :: "breaker \<Rightarrow> bool" where
  "should_trip b =
     (min_samples (config b) \<le> sample_count (cb_window b) \<and>
      f64_ge (Finite (error_rate (cb_window b))) (error_rate_threshold (config b)))"

text \<open>\<open>record\<close> reads the clock at \<open>t1\<close> for the sample and at \<open>t2\<close> inside \<open>trip\<close>.\<close>

definition record_outcome :: "outcome \<Rightarrow> instant \<Rightarrow> instant \<Rightarrow> breaker \<Rightarrow> breaker \<times> obs_event list" where
  "record_outcome out t1 t2 b =
     (if \<not> enabled (config b) then (b, [])
      else let is_failure = (out = Failure);
               prev_state = cb_state b;
               (b, evs) =
                 (case prev_state of
                    Closed \<Rightarrow>
                      (let b = observe_sample is_failure t1 b in
                       if should_trip b then trip t2 prev_state ''trip'' b else (b, []))
                  | HalfOpen \<Rightarrow>
                      (if is_failure then trip t2 prev_state ''probe_failure'' b
                       else close prev_state ''probe_success'' b)
                  | Open \<Rightarrow> (observe_sample is_failure t1 b, []))
           in (b, evs @ [OutcomeSeen out (cb_state b)]))"

definition breaker_error_rate :: "instant \<Rightarrow> breaker \<Rightarrow> rat \<times> breaker" where
  "breaker_error_rate now b =
     (let w = window_evict (window_duration (config b)) now (cb_window b)
      in (error_rate w, b\<lparr>cb_window := w\<rparr>))"

definition force_half_open :: "breaker \<Rightarrow> breaker \<times> obs_event list" where
  "force_half_open b =
     (let prev = cb_state b in
      (b\<lparr>state_byte := state_as_u8 HalfOpen, is_open_fast := False, half_open_probes := 0\<rparr>,
       if prev \<noteq> HalfOpen then [StateChange prev HalfOpen ''force_half_open''] else []))"

section \<open>Runs\<close>

datatype breaker_op =
    Check instant instant
  | Record outcome instant instant
  | ErrorRate instant
  | ForceHalfOpen
  | WithObserver nat

fun breaker_step :: "breaker_op \<Rightarrow> breaker \<Rightarrow> breaker \<times> obs_event list" where
  "breaker_step (Check t1 t2) b = snd (check t1 t2 b)"
| "breaker_step (Record out t1 t2) b = record_outcome out t1 t2 b"
| "breaker_step (ErrorRate t) b = (snd (breaker_error_rate t b), [])"
| "breaker_step ForceHalfOpen b = force_half_open b"
| "breaker_step (WithObserver ob) b = (with_observer ob b, [])"

fun breaker_run :: "breaker_op list \<Rightarrow> breaker \<Rightarrow> breaker \<times> obs_event list" where
  "breaker_run [] b = (b, [])"
| "breaker_run (x # xs) b =
     (let (b1, e1) = breaker_step x b; (b2, e2) = breaker_run xs b1 in (b2, e1 @ e2))"

section \<open>The invariant\<close>

definition breaker_ok :: "breaker \<Rightarrow> bool" where
  "breaker_ok b \<longleftrightarrow>
     state_byte b = state_as_u8 (cb_state b) \<and>
     is_open_fast b = (cb_state b = Open) \<and>
     window_ok (cb_window b) \<and>
     1 \<le> half_open_max_probes (config b) \<and>
     half_open_probes b \<le> half_open_max_probes (config b) \<and>
     (cb_state b \<noteq> HalfOpen \<longrightarrow> half_open_probes b = 0)"

lemma cb_state_upd [simp]:
  "cb_state (b\<lparr>state_byte := v\<rparr>) = from_u8 v"
  "cb_state (b\<lparr>opened_at_millis := x\<rparr>) = cb_state b"
  "cb_state (b\<lparr>half_open_probes := x\<rparr>) = cb_state b"
  "cb_state (b\<lparr>probe_claimed_at_millis := x\<rparr>) = cb_state b"
  "cb_state (b\<lparr>is_open_fast := f\<rparr>) = cb_state b"
  "cb_state (b\<lparr>cb_window := w\<rparr>) = cb_state b"
  "cb_state (b\<lparr>observer := ob\<rparr>) = cb_state b"
  by (simp_all add: cb_state_def)

lemma word_succ_le: "(x :: u64) < y \<Longrightarrow> x + 1 \<le> y"
  by (metis inc_le)

lemma with_clock_ok [inv_intros]: "breaker_ok (with_clock c now)"
  by (simp add: breaker_ok_def with_clock_def cb_state_def from_u8_def)

lemma try_half_open_probe_state [simp]:
  "cb_state (fst (snd (try_half_open_probe t b))) = cb_state b"
  "config (fst (snd (try_half_open_probe t b))) = config b"
  by (simp_all add: try_half_open_probe_def Let_def)

lemma try_half_open_probe_ok [inv_intros]:
  "breaker_ok b \<Longrightarrow> cb_state b = HalfOpen \<Longrightarrow> breaker_ok (fst (snd (try_half_open_probe t b)))"
  using word_succ_le by (simp add: try_half_open_probe_def Let_def breaker_ok_def)

lemma observe_sample_ok [inv_intros]: "breaker_ok b \<Longrightarrow> breaker_ok (observe_sample f t b)"
  by (simp add: breaker_ok_def observe_sample_def sw.push_evict_ok)

lemma observe_sample_frame [simp]:
  "cb_state (observe_sample f t b) = cb_state b" "config (observe_sample f t b) = config b"
  by (simp_all add: observe_sample_def)

lemma trip_ok [inv_intros]: "breaker_ok b \<Longrightarrow> breaker_ok (fst (trip t prev reason b))"
  by (simp add: breaker_ok_def trip_def cb_state_def from_u8_def)

lemma close_ok [inv_intros]: "breaker_ok b \<Longrightarrow> breaker_ok (fst (close prev reason b))"
  by (simp add: breaker_ok_def close_def cb_state_def from_u8_def sw.ok_clear)

lemma trip_state [simp]: "cb_state (fst (trip t prev reason b)) = Open"
  by (simp add: trip_def cb_state_def from_u8_def)

lemma close_state [simp]: "cb_state (fst (close prev reason b)) = Closed"
  by (simp add: close_def cb_state_def from_u8_def)

lemma check_open_cas:
  assumes "breaker_ok b" "cb_state b = Open"
  shows "check_open t1 t2 b =
    (if open_duration (config b) \<le> open_elapsed b t1
     then (let (r, b', evs) = try_half_open_probe t2
                 (b\<lparr>state_byte := state_as_u8 HalfOpen, is_open_fast := False\<rparr>)
           in (r, b', StateChange Open HalfOpen ''open_elapsed'' # evs))
     else (Inl \<lparr>retry_after = open_duration (config b) - open_elapsed b t1\<rparr>, b, []))"
  using assms by (simp add: check_open_def cas_state_def breaker_ok_def Let_def)

lemma half_opened_ok [inv_intros]:
  "breaker_ok b \<Longrightarrow> cb_state b = Open \<Longrightarrow> breaker_ok (b\<lparr>state_byte := 2, is_open_fast := False\<rparr>)"
  by (simp add: breaker_ok_def)

lemma check_ok [inv_intros]: "breaker_ok b \<Longrightarrow> breaker_ok (fst (snd (check t1 t2 b)))"
  by (cases "cb_state b")
    (simp_all add: check_def check_open_cas case_prod_unfold Let_def inv_intros)

lemma record_ok [inv_intros]: "breaker_ok b \<Longrightarrow> breaker_ok (fst (record_outcome out t1 t2 b))"
  by (cases "cb_state b")
    (simp_all add: record_outcome_def case_prod_unfold Let_def inv_intros)

lemma breaker_step_ok: "breaker_ok b \<Longrightarrow> breaker_ok (fst (breaker_step x b))"
proof (cases x)
  case (ErrorRate t)
  then show "breaker_ok b \<Longrightarrow> ?thesis"
    by (simp add: breaker_error_rate_def Let_def breaker_ok_def sw.ok_evict)
next
  case ForceHalfOpen
  then show "breaker_ok b \<Longrightarrow> ?thesis"
    by (simp add: force_half_open_def Let_def breaker_ok_def cb_state_def from_u8_def)
next
  case (WithObserver ob)
  then show "breaker_ok b \<Longrightarrow> ?thesis"
    by (simp add: with_observer_def breaker_ok_def split: option.splits)
qed (auto intro: inv_intros)

lemma breaker_run_ok: "breaker_ok b \<Longrightarrow> breaker_ok (fst (breaker_run xs b))"
proof (induction xs arbitrary: b)
  case (Cons x xs)
  then show ?case using breaker_step_ok [of b x] by (simp add: Let_def case_prod_unfold)
qed simp

end
