(* ===== verification/BreakerSpec.thy ===== *)
theory BreakerSpec
  imports Breaker
begin

text \<open>
  What the circuit breaker promises: when it trips, how long it sheds, how it recovers, how
  many probes it admits, and that its telemetry is a faithful record of its transitions
  (a refinement of the three-state automaton \<open>breaker_trans\<close>).
\<close>

section \<open>Time\<close>

lemma elapsed_millis_unat:
  "(t - baseline b) div 1000000 < 2 ^ 64 \<Longrightarrow> unat (elapsed_millis b t) = (t - baseline b) div 1000000"
  by (simp add: elapsed_millis_def as_millis_u64_def unat_of_nat take_bit_nat_eq_self)

lemma open_elapsed_nat:
  "open_elapsed b t = (unat (elapsed_millis b t) - unat (opened_at_millis b)) * 1000000"
  by (simp add: open_elapsed_def unat_saturating_sub)

lemma div_diff_ge: "(x :: nat) + d + (m - 1) \<le> y \<Longrightarrow> 0 < m \<Longrightarrow> d \<le> (y div m - x div m) * m"
proof -
  assume le: "x + d + (m - 1) \<le> y" and m: "0 < m"
  have "y div m * m + y mod m = y" "x div m * m + x mod m = x" by simp_all
  moreover have "y mod m \<le> m - 1" using m by (simp add: less_Suc_eq_le [symmetric])
  ultimately have "d \<le> y div m * m - x div m * m" using le by linarith
  then show ?thesis by (simp add: diff_mult_distrib)
qed

lemma div_diff_less: "x \<le> y \<Longrightarrow> (y :: nat) + m \<le> x + d \<Longrightarrow> 0 < m \<Longrightarrow> (y div m - x div m) * m < d"
proof -
  assume le: "x \<le> y" "y + m \<le> x + d" and m: "0 < m"
  have "y div m * m \<le> y" "x < m + x div m * m"
    using m by (simp_all add: div_times_less_eq_dividend dividend_less_div_times)
  then have "y div m * m - x div m * m < d" using le m by linarith
  then show ?thesis by (simp add: diff_mult_distrib)
qed

definition in_epoch :: "breaker \<Rightarrow> instant \<Rightarrow> bool" where
  "in_epoch b t \<longleftrightarrow> baseline b \<le> t \<and> (t - baseline b) div 1000000 < 2 ^ 64"

lemma open_elapsed_after:
  assumes "opened_at_millis b = elapsed_millis b s" "in_epoch b s" "in_epoch b t"
  shows "s + d + 999999 \<le> t \<Longrightarrow> d \<le> open_elapsed b t"
    and "s \<le> t \<Longrightarrow> t + 1000000 \<le> s + d \<Longrightarrow> open_elapsed b t < d"
proof -
  have eq: "open_elapsed b t = ((t - baseline b) div 1000000 - (s - baseline b) div 1000000) * 1000000"
    using assms by (simp add: open_elapsed_nat elapsed_millis_unat in_epoch_def)
  show "s + d + 999999 \<le> t \<Longrightarrow> d \<le> open_elapsed b t"
    unfolding eq using assms(2,3) by (intro div_diff_ge) (auto simp: in_epoch_def)
  show "s \<le> t \<Longrightarrow> t + 1000000 \<le> s + d \<Longrightarrow> open_elapsed b t < d"
    unfolding eq using assms(2,3) by (intro div_diff_less) (auto simp: in_epoch_def)
qed

section \<open>Tripping\<close>

lemma record_closed_state:
  assumes "enabled (config b)" "cb_state b = Closed"
  shows "cb_state (fst (record_outcome out t1 t2 b)) =
         (if should_trip (observe_sample (out = Failure) t1 b) then Open else Closed)"
  using assms by (simp add: record_outcome_def Let_def case_prod_unfold)

lemma observe_sample_entries:
  assumes "breaker_ok b"
  shows "entries (cb_window (observe_sample f t b)) =
    live (window_duration (config b)) t (capped_append MAX_WINDOW_ENTRIES (t, f) (entries (cb_window b)))"
  using assms by (simp add: observe_sample_def breaker_ok_def sw.push_then_evict)

lemma should_trip_half:
  assumes "breaker_ok b" "error_rate_threshold (config b) = Finite (1 / 2)" "1 \<le> min_samples (config b)"
  shows "should_trip b =
    (min_samples (config b) \<le> length (entries (cb_window b)) \<and>
     length (entries (cb_window b)) \<le> 2 * failed (entries (cb_window b)))"
  using assms error_rate_half [of "cb_window b"]
  by (cases "entries (cb_window b) = []") (auto simp: should_trip_def sample_count_def breaker_ok_def)

text \<open>With the presets' threshold of one half, a closed breaker trips on a recorded
  outcome exactly when the live window (the new sample included, samples older than
  \<open>window_duration\<close> gone, at most 10000 kept) holds at least \<open>min_samples\<close> samples of
  which at least half failed: the rounding of the \<open>f64\<close> division and the incremental
  counter change nothing.\<close>

theorem breaker_trips_iff_half_failed:
  fixes out :: outcome and t1 t2 :: instant
  assumes "breaker_ok b" "enabled (config b)" "cb_state b = Closed"
    and "error_rate_threshold (config b) = Finite (1 / 2)" "1 \<le> min_samples (config b)"
  defines "xs \<equiv> live (window_duration (config b)) t1
                  (capped_append MAX_WINDOW_ENTRIES (t1, out = Failure) (entries (cb_window b)))"
  shows "cb_state (fst (record_outcome out t1 t2 b)) =
         (if min_samples (config b) \<le> length xs \<and> length xs \<le> 2 * failed xs then Open else Closed)"
  using assms should_trip_half [of "observe_sample (out = Failure) t1 b"]
  by (simp add: record_closed_state observe_sample_entries observe_sample_ok xs_def)

theorem breaker_trips_iff_half_failed_witness:
  "cb_state (fst (record_outcome Failure 7 7 (with_clock config_server 5))) = Closed"
proof -
  have hyps: "breaker_ok (with_clock config_server 5)" "enabled (config (with_clock config_server 5))"
    "cb_state (with_clock config_server 5) = Closed"
    "error_rate_threshold (config (with_clock config_server 5)) = Finite (1 / 2)"
    "1 \<le> min_samples (config (with_clock config_server 5))"
    by (rule with_clock_ok) (simp_all add: with_clock_def config_server_def cb_state_def)
  show ?thesis
    using breaker_trips_iff_half_failed [OF hyps, of Failure 7 7]
    by (simp add: with_clock_def config_server_def window_new_def live_def capped_append_def
        MAX_WINDOW_ENTRIES_def)
qed

section \<open>Shedding and recovery\<close>

lemma trip_fields:
  "config (fst (trip t prev reason b)) = config b"
  "baseline (fst (trip t prev reason b)) = baseline b"
  "opened_at_millis (fst (trip t prev reason b)) = elapsed_millis (fst (trip t prev reason b)) t"
  "half_open_probes (fst (trip t prev reason b)) = 0"
  by (simp_all add: trip_def elapsed_millis_def)

lemma check_open_sheds:
  assumes "breaker_ok b" "enabled (config b)" "cb_state b = Open" "open_elapsed b t < open_duration (config b)"
  shows "check t t' b = (Inl \<lparr>retry_after = open_duration (config b) - open_elapsed b t\<rparr>, b, [])"
  using assms by (simp add: check_def check_open_cas)

lemma check_open_admits:
  assumes "breaker_ok b" "enabled (config b)" "cb_state b = Open"
    and "open_duration (config b) \<le> open_elapsed b t"
  obtains b' where "check t t' b = (Inr (), b', [StateChange Open HalfOpen ''open_elapsed'', ProbeAdmission True])"
    "cb_state b' = HalfOpen" "config b' = config b" "breaker_ok b'" "half_open_probes b' = 1"
proof -
  have "half_open_probes b = 0" "1 \<le> half_open_max_probes (config b)"
    using assms(1,3) by (auto simp: breaker_ok_def)
  moreover from this(2) have "0 < half_open_max_probes (config b)"
    by (metis word_gt_0 word_le_0_iff zero_neq_one)
  moreover have "breaker_ok (fst (snd (check t t' b)))" using assms(1) by (rule check_ok)
  ultimately show thesis
    using assms that [of "fst (snd (check t t' b))"]
    by (simp add: check_def check_open_cas try_half_open_probe_def Let_def)
qed

text \<open>A tripped breaker sheds: at any instant up to a millisecond short of
  \<open>open_duration\<close> after the trip, \<open>check\<close> refuses with a positive \<open>retry_after\<close> of at most
  \<open>open_duration\<close> and changes nothing.\<close>

theorem breaker_sheds_while_cooling:
  fixes prev :: breaker_state and reason :: string
  assumes "breaker_ok b" "enabled (config b)" "in_epoch b t2" "in_epoch b t3"
    and "t2 \<le> t3" "t3 + 1000000 \<le> t2 + open_duration (config b)"
  defines "b' \<equiv> fst (trip t2 prev reason b)"
  shows "\<exists>d. check t3 t4 b' = (Inl \<lparr>retry_after = d\<rparr>, b', []) \<and> 0 < d \<and> d \<le> open_duration (config b)"
proof -
  have "breaker_ok b'" using assms(1) by (simp add: b'_def trip_ok)
  moreover have "open_elapsed b' t3 < open_duration (config b')"
    using assms by (intro open_elapsed_after(2) [of _ t2]) (auto simp: trip_fields in_epoch_def)
  ultimately show ?thesis
    using assms(2) check_open_sheds [of b' t3 t4] by (auto simp: b'_def trip_fields)
qed

theorem breaker_sheds_while_cooling_witness:
  "\<exists>d. check 2000000 2000000 (fst (trip 0 Closed ''trip'' (with_clock config_server 0))) =
        (Inl \<lparr>retry_after = d\<rparr>, fst (trip 0 Closed ''trip'' (with_clock config_server 0)), []) \<and>
       0 < d \<and> d \<le> open_duration (config (with_clock config_server 0))"
  by (rule breaker_sheds_while_cooling [OF with_clock_ok])
    (simp_all add: with_clock_def config_server_def in_epoch_def)

lemma record_half_open_success:
  assumes "enabled (config b)" "cb_state b = HalfOpen"
  shows "record_outcome Success t1 t2 b =
    (fst (close HalfOpen ''probe_success'' b),
     [StateChange HalfOpen Closed ''probe_success'', OutcomeSeen Success Closed])"
  using assms by (simp add: record_outcome_def Let_def case_prod_unfold) (simp add: close_def)

text \<open>C39. A tripped breaker recovers: \<open>open_duration\<close> (plus the millisecond of rounding)
  after the trip, \<open>check\<close> admits a probe in half-open state, and when that probe records
  success the breaker is closed with an empty window and admits the next call silently.\<close>

theorem breaker_recovers_after_cooldown:
  fixes prev :: breaker_state and reason :: string
  assumes "breaker_ok b" "enabled (config b)" "in_epoch b t2" "in_epoch b t3"
    and "t2 + open_duration (config b) + 999999 \<le> t3"
  defines "b1 \<equiv> fst (trip t2 prev reason b)"
  shows "\<exists>b2 evs. check t3 t4 b1 = (Inr (), b2, evs) \<and> cb_state b2 = HalfOpen \<and>
           (let b3 = fst (record_outcome Success t5 t6 b2) in
            cb_state b3 = Closed \<and> entries (cb_window b3) = [] \<and> check t7 t8 b3 = (Inr (), b3, []))"
proof -
  have "breaker_ok b1" "enabled (config b1)" "cb_state b1 = Open"
    using assms(1,2) by (simp_all add: b1_def trip_ok trip_fields)
  moreover have "open_duration (config b1) \<le> open_elapsed b1 t3"
    using assms by (intro open_elapsed_after(1) [of _ t2]) (auto simp: trip_fields in_epoch_def)
  ultimately obtain b2 where b2: "check t3 t4 b1 =
      (Inr (), b2, [StateChange Open HalfOpen ''open_elapsed'', ProbeAdmission True])"
    "cb_state b2 = HalfOpen" "config b2 = config b1"
    by (rule check_open_admits [of b1 t3 t4])
  moreover have "enabled (config b2)" using b2(3) assms(2) by (simp add: b1_def trip_fields)
  ultimately show ?thesis
    by (simp add: record_half_open_success check_def Let_def) (simp add: close_def window_clear_def)
qed

theorem breaker_recovers_after_cooldown_witness:
  "\<exists>b2 evs. check 10000999999 10000999999 (fst (trip 0 Closed ''trip'' (with_clock config_server 0))) =
       (Inr (), b2, evs) \<and> cb_state b2 = HalfOpen \<and>
     (let b3 = fst (record_outcome Success 10000999999 10000999999 b2) in
      cb_state b3 = Closed \<and> entries (cb_window b3) = [] \<and>
      check 10000999999 10000999999 b3 = (Inr (), b3, []))"
  by (rule breaker_recovers_after_cooldown [OF with_clock_ok])
    (simp_all add: with_clock_def config_server_def in_epoch_def)

section \<open>Half-open probes\<close>

fun checks :: "instant list \<Rightarrow> breaker \<Rightarrow> check_result list \<times> breaker" where
  "checks [] b = ([], b)"
| "checks (t # ts) b =
     (let (r, b1, _) = check t t b; (rs, b2) = checks ts b1 in (r # rs, b2))"

definition admitted :: "check_result list \<Rightarrow> nat" where
  "admitted rs = length (filter (\<lambda>r. r = Inr ()) rs)"

text \<open>All slots are free, or the last claim was made at \<open>t0\<close> or later.\<close>

definition claims_since :: "breaker \<Rightarrow> instant \<Rightarrow> bool" where
  "claims_since b t0 \<longleftrightarrow>
     (half_open_probes b = half_open_max_probes (config b) \<longrightarrow>
      elapsed_millis b t0 \<le> probe_claimed_at_millis b)"

definition in_lease :: "breaker \<Rightarrow> instant \<Rightarrow> instant \<Rightarrow> bool" where
  "in_lease b t0 t \<longleftrightarrow> elapsed_millis b t0 \<le> elapsed_millis b t \<and>
     unat (elapsed_millis b t) - unat (elapsed_millis b t0) < unat (as_millis_u64 (open_duration (config b)))"

definition free_probes :: "breaker \<Rightarrow> nat" where
  "free_probes b = unat (half_open_max_probes (config b)) - unat (half_open_probes b)"

lemma elapsed_millis_cong: "baseline b' = baseline b \<Longrightarrow> elapsed_millis b' = elapsed_millis b"
  by (rule ext) (simp add: elapsed_millis_def)

lemma lease_not_expired:
  assumes "in_lease b t0 t" "elapsed_millis b t0 \<le> probe_claimed_at_millis b"
  shows "\<not> as_millis_u64 (open_duration (config b)) \<le>
           saturating_sub_u64 (elapsed_millis b t) (probe_claimed_at_millis b)"
  using assms by (auto simp: in_lease_def word_le_nat_alt unat_saturating_sub)

lemma probe_step:
  assumes ok: "breaker_ok b" "enabled (config b)" "cb_state b = HalfOpen"
    and t: "in_lease b t0 t" and c: "claims_since b t0"
  obtains r b' ev where "check t t b = (r, b', ev)" "breaker_ok b'" "enabled (config b')"
    "cb_state b' = HalfOpen" "config b' = config b" "baseline b' = baseline b" "claims_since b' t0"
    "r = Inr () \<longleftrightarrow> 0 < free_probes b"
    "free_probes b' = free_probes b - 1"
proof (cases "half_open_probes b < half_open_max_probes (config b)")
  case True
  let ?b = "b\<lparr>half_open_probes := half_open_probes b + 1,
              probe_claimed_at_millis := elapsed_millis b t\<rparr>"
  have chk: "check t t b = (Inr (), ?b, [ProbeAdmission True])"
    using True ok by (simp add: check_def try_half_open_probe_def Let_def elapsed_millis_def)
  have "unat (half_open_probes b + 1) = Suc (unat (half_open_probes b))"
    using True by (rule unat_add_one_less)
  moreover have "breaker_ok ?b" using check_ok [OF ok(1), of t t] chk by simp
  moreover have "claims_since ?b t0" using t by (simp add: claims_since_def in_lease_def elapsed_millis_def)
  ultimately show ?thesis
    using that [OF chk] ok True by (simp add: free_probes_def word_less_nat_alt)
next
  case False
  then have full: "half_open_probes b = half_open_max_probes (config b)"
    using ok(1) by (simp add: breaker_ok_def)
  with c have "elapsed_millis b t0 \<le> probe_claimed_at_millis b" by (simp add: claims_since_def)
  with lease_not_expired [OF t] full have chk: "check t t b =
      (Inl \<lparr>retry_after = min HALF_OPEN_PROBE_BACKOFF (open_duration (config b))\<rparr>, b, [ProbeAdmission False])"
    using ok by (simp add: check_def try_half_open_probe_def Let_def elapsed_millis_def)
  then show ?thesis using that [OF chk] ok c full by (simp add: free_probes_def)
qed

text \<open>While the half-open breaker waits for its probes, however many callers ask within
  one lease, exactly the free probe slots are handed out (at most
  \<open>half_open_max_probes\<close> in all); every further caller is refused.\<close>

theorem half_open_admits_free_slots:
  assumes "breaker_ok b" "enabled (config b)" "cb_state b = HalfOpen"
    and "\<forall>t \<in> set ts. in_lease b t0 t" "claims_since b t0"
  shows "admitted (fst (checks ts b)) = min (length ts) (free_probes b)"
  using assms
proof (induction ts arbitrary: b)
  case Nil
  then show ?case by (simp add: admitted_def)
next
  case (Cons t ts)
  from Cons.prems have "in_lease b t0 t" by simp
  with Cons.prems obtain r b' ev where step: "check t t b = (r, b', ev)" "breaker_ok b'"
    "enabled (config b')" "cb_state b' = HalfOpen" "config b' = config b" "baseline b' = baseline b"
    "claims_since b' t0" "r = Inr () \<longleftrightarrow> 0 < free_probes b" "free_probes b' = free_probes b - 1"
    by (auto elim: probe_step)
  have "\<forall>t \<in> set ts. in_lease b' t0 t"
    using Cons.prems(4) step(5) elapsed_millis_cong [OF step(6)] by (simp add: in_lease_def)
  then have "admitted (fst (checks ts b')) = min (length ts) (free_probes b')"
    using step by (intro Cons.IH)
  then show ?case using step(1,8,9) by (auto simp: admitted_def Let_def case_prod_unfold)
qed

theorem half_open_admits_free_slots_witness:
  "admitted (fst (checks [1, 2, 3] (fst (force_half_open (with_clock config_server 0))))) = 1"
proof -
  have "breaker_ok (fst (force_half_open (with_clock config_server 0)))"
    using breaker_step_ok [OF with_clock_ok, of ForceHalfOpen config_server 0] by simp
  then show ?thesis
    by (subst half_open_admits_free_slots [where ?t0.0 = 0])
      (simp_all add: force_half_open_def with_clock_def config_server_def in_lease_def
        claims_since_def free_probes_def elapsed_millis_def as_millis_u64_def Let_def cb_state_def)
qed

text \<open>A lost probe never strands the breaker: in half-open state with every slot held, the
  first caller at least one lease after the last claim takes the slot over, and the
  breaker can then be closed by its success.\<close>

theorem abandoned_probe_is_reclaimed:
  assumes "breaker_ok b" "enabled (config b)" "cb_state b = HalfOpen"
    and "as_millis_u64 (open_duration (config b)) \<le>
           saturating_sub_u64 (elapsed_millis b t) (probe_claimed_at_millis b)"
  shows "\<exists>b'. check t t' b = (Inr (), b', [ProbeAdmission True]) \<and> breaker_ok b' \<and>
           probe_claimed_at_millis b' = elapsed_millis b t \<and>
           cb_state (fst (record_outcome Success t5 t6 b')) = Closed"
proof -
  let ?b = "fst (snd (check t t' b))"
  have "check t t' b = (Inr (), ?b, [ProbeAdmission True]) \<and> config ?b = config b \<and>
      cb_state ?b = HalfOpen \<and> probe_claimed_at_millis ?b = elapsed_millis b t"
    using assms by (simp add: check_def try_half_open_probe_def Let_def elapsed_millis_def)
  then show ?thesis
    using check_ok [OF assms(1), of t t'] assms(2) by (auto simp: record_half_open_success)
qed

theorem abandoned_probe_is_reclaimed_witness:
  "\<exists>b'. check (from_secs 20) 0 (fst (force_half_open (with_clock config_server 0))) =
         (Inr (), b', [ProbeAdmission True]) \<and> breaker_ok b' \<and>
      probe_claimed_at_millis b' = elapsed_millis (fst (force_half_open (with_clock config_server 0))) (from_secs 20) \<and>
      cb_state (fst (record_outcome Success 0 0 b')) = Closed"
proof (rule abandoned_probe_is_reclaimed)
  show "breaker_ok (fst (force_half_open (with_clock config_server 0)))"
    using breaker_step_ok [OF with_clock_ok, of ForceHalfOpen config_server 0] by simp
qed (simp_all add: force_half_open_def with_clock_def config_server_def elapsed_millis_def
      as_millis_u64_def saturating_sub_u64_def Let_def cb_state_def)

section \<open>The three-state automaton\<close>

text \<open>The transitions the breaker may make, with the reason it reports.\<close>

inductive breaker_trans :: "breaker_state \<Rightarrow> string \<Rightarrow> breaker_state \<Rightarrow> bool" where
  trip: "breaker_trans Closed ''trip'' Open"
| probe_failure: "breaker_trans HalfOpen ''probe_failure'' Open"
| probe_success: "breaker_trans HalfOpen ''probe_success'' Closed"
| open_elapsed: "breaker_trans Open ''open_elapsed'' HalfOpen"
| forced: "s \<noteq> HalfOpen \<Longrightarrow> breaker_trans s ''force_half_open'' HalfOpen"

inductive_cases to_Closed: "breaker_trans s reason Closed"
inductive_simps breaker_trans_simps:
  "breaker_trans s reason Closed" "breaker_trans s reason Open" "breaker_trans s reason HalfOpen"

lemma closed_only_by_probe_success: "breaker_trans s reason Closed \<Longrightarrow> s = HalfOpen"
  by (erule to_Closed)

text \<open>
  Replaying the observer's callbacks from a state: a state change must leave the current
  state by a legal transition, a probe admission happens in half-open state only, and an
  outcome reports the current state.
\<close>

inductive replays :: "breaker_state \<Rightarrow> obs_event list \<Rightarrow> breaker_state \<Rightarrow> bool" where
  none: "replays s [] s"
| change: "breaker_trans s reason s' \<Longrightarrow> replays s' evs s'' \<Longrightarrow>
     replays s (StateChange s s' reason # evs) s''"
| probe: "replays HalfOpen evs s \<Longrightarrow> replays HalfOpen (ProbeAdmission a # evs) s"
| seen: "replays s evs s' \<Longrightarrow> replays s (OutcomeSeen out s # evs) s'"

lemma replays_append: "replays s xs s' \<Longrightarrow> replays s' ys s'' \<Longrightarrow> replays s (xs @ ys) s''"
  by (induction rule: replays.induct) (auto intro: replays.intros)

lemma replays_try_probe:
  "cb_state b = HalfOpen \<Longrightarrow> replays HalfOpen (snd (snd (try_half_open_probe t b))) HalfOpen"
  by (simp add: try_half_open_probe_def Let_def replays.intros)

lemma replays_check:
  "breaker_ok b \<Longrightarrow> replays (cb_state b) (snd (snd (check t1 t2 b))) (cb_state (fst (snd (check t1 t2 b))))"
  by (cases "cb_state b")
    (auto simp: check_def check_open_cas case_prod_unfold Let_def
      intro!: replays.intros breaker_trans.intros replays_try_probe)

lemma replays_record:
  "replays (cb_state b) (snd (record_outcome out t1 t2 b)) (cb_state (fst (record_outcome out t1 t2 b)))"
  by (cases "cb_state b")
    (auto simp: record_outcome_def case_prod_unfold Let_def trip_def close_def
      intro!: replays.intros breaker_trans.intros)

lemma replays_step:
  "breaker_ok b \<Longrightarrow> replays (cb_state b) (snd (breaker_step x b)) (cb_state (fst (breaker_step x b)))"
  by (cases x)
    (auto simp: replays_check replays_record breaker_error_rate_def force_half_open_def
      with_observer_def Let_def split: option.splits intro!: replays.intros breaker_trans.intros)

text \<open>C38. The telemetry is faithful: over any sequence of calls, the callbacks the observer
  gets replay the automaton from the first state to the last, every state change being one
  of its legal transitions (so the breaker only ever closes from half-open).\<close>

theorem breaker_telemetry_refines_automaton:
  assumes "breaker_ok b"
  shows "replays (cb_state b) (snd (breaker_run xs b)) (cb_state (fst (breaker_run xs b)))"
  using assms
proof (induction xs arbitrary: b)
  case Nil
  show ?case by (simp add: replays.none)
next
  case (Cons x xs)
  let ?b = "fst (breaker_step x b)"
  have "replays (cb_state ?b) (snd (breaker_run xs ?b)) (cb_state (fst (breaker_run xs ?b)))"
    using Cons.prems by (intro Cons.IH breaker_step_ok)
  then show ?case
    using replays_append [OF replays_step [OF Cons.prems]] by (simp add: case_prod_unfold Let_def)
qed

theorem breaker_telemetry_refines_automaton_witness:
  "replays Closed (snd (breaker_run [Record Failure 1 1, ForceHalfOpen, Record Success 2 2]
      (with_clock config_client 0)))
    (cb_state (fst (breaker_run [Record Failure 1 1, ForceHalfOpen, Record Success 2 2]
      (with_clock config_client 0))))"
proof -
  have "cb_state (with_clock config_client 0) = Closed"
    by (simp add: with_clock_def cb_state_def)
  then show ?thesis
    using breaker_telemetry_refines_automaton [OF with_clock_ok, of config_client 0] by metis
qed

text \<open>The breaker's state is consistent after any sequence of calls from construction:
  the fast mirror says exactly whether the state is open, probe slots are held only in
  half-open state and never more than \<open>half_open_max_probes\<close> of them, and the window's
  failure counter counts its at most 10000 samples.\<close>

theorem breaker_invariant:
  "let b = fst (breaker_run xs (with_clock c now)) in
     is_open b = (cb_state b = Open) \<and>
     (cb_state b \<noteq> HalfOpen \<longrightarrow> half_open_probes b = 0) \<and>
     half_open_probes b \<le> half_open_max_probes (config b) \<and>
     unat (failures (cb_window b)) = failed (entries (cb_window b)) \<and>
     length (entries (cb_window b)) \<le> MAX_WINDOW_ENTRIES"
proof -
  have "breaker_ok (fst (breaker_run xs (with_clock c now)))"
    by (intro breaker_run_ok with_clock_ok)
  then show ?thesis by (auto simp: breaker_ok_def is_open_def window_ok_def Let_def)
qed

theorem breaker_invariant_witness:
  "half_open_probes (fst (breaker_run [Record Failure 1 1] (with_clock config_server 0))) = 0"
proof -
  have "cb_state (fst (breaker_run [Record Failure 1 1] (with_clock config_server 0))) = Closed"
    by (simp add: record_outcome_def with_clock_def config_server_def cb_state_def should_trip_def
        observe_sample_def window_push_def window_evict_def make_room_def window_new_def Let_def
        sample_count_def MAX_WINDOW_ENTRIES_def checked_sub_instant_def)
  then show ?thesis
    using breaker_invariant [of "[Record Failure 1 1]" config_server 0] by (simp add: Let_def)
qed

lemma disabled_frame:
  "\<not> enabled (config b) \<Longrightarrow> check t1 t2 b = (Inr (), b, []) \<and> record_outcome out t1 t2 b = (b, [])"
  by (simp add: check_def record_outcome_def)

end
