(* ===== verification/BreakerRegistry.thy ===== *)
theory BreakerRegistry
  imports BreakerSpec
begin

text \<open>
  \<open>registry.rs\<close>: one breaker per key, created on first use.  The \<open>Arc\<close> pointers the map
  holds are indices into a heap of breakers, so two callers that got the same pointer share
  one breaker.
\<close>

record registry =
  reg_config :: breaker_config
  reg_breakers :: "string \<rightharpoonup> nat"
  reg_heap :: "breaker list"

definition registry_new :: "breaker_config \<Rightarrow> registry" where
  "registry_new c = \<lparr>reg_config = c, reg_breakers = Map.empty, reg_heap = []\<rparr>"

definition registry_get :: "string \<Rightarrow> instant \<Rightarrow> registry \<Rightarrow> nat option \<times> registry" where
  "registry_get key now r =
     (if \<not> enabled (reg_config r) then (None, r)
      else case reg_breakers r key of
             Some i \<Rightarrow> (Some i, r)
           | None \<Rightarrow>
               (let i = length (reg_heap r)
                in (Some i, r\<lparr>reg_breakers := (reg_breakers r)(key \<mapsto> i),
                              reg_heap := reg_heap r @ [with_clock (reg_config r) now]\<rparr>)))"

text \<open>A caller runs an operation on the breaker behind its pointer.\<close>

definition registry_apply :: "nat \<Rightarrow> breaker_op \<Rightarrow> registry \<Rightarrow> registry" where
  "registry_apply i x r =
     (if i < length (reg_heap r)
      then r\<lparr>reg_heap := (reg_heap r)[i := fst (breaker_step x (reg_heap r ! i))]\<rparr>
      else r)"

datatype registry_op = Get string instant | Apply nat breaker_op

fun registry_step :: "registry_op \<Rightarrow> registry \<Rightarrow> registry" where
  "registry_step (Get key now) r = snd (registry_get key now r)"
| "registry_step (Apply i x) r = registry_apply i x r"

definition registry_run :: "registry_op list \<Rightarrow> registry \<Rightarrow> registry" where
  "registry_run xs r = fold registry_step xs r"

definition registry_ok :: "registry \<Rightarrow> bool" where
  "registry_ok r \<longleftrightarrow>
     inj_on (reg_breakers r) (dom (reg_breakers r)) \<and>
     (\<forall>key i. reg_breakers r key = Some i \<longrightarrow> i < length (reg_heap r)) \<and>
     (\<forall>b \<in> set (reg_heap r). breaker_ok b)"

section \<open>The interface of a keyed store of shared objects\<close>

locale keyed_store =
  fixes ok :: "'s \<Rightarrow> bool"
    and ptr :: "'s \<Rightarrow> 'k \<Rightarrow> nat option"
    and step :: "'x \<Rightarrow> 's \<Rightarrow> 's"
  assumes ok_step: "ok s \<Longrightarrow> ok (step x s)"
    and ptr_stable: "ptr s k = Some i \<Longrightarrow> ptr (step x s) k = Some i"
    and ptr_inj: "ok s \<Longrightarrow> ptr s k = Some i \<Longrightarrow> ptr s k' = Some i \<Longrightarrow> k = k'"
begin

lemma ok_run: "ok s \<Longrightarrow> ok (fold step xs s)"
  by (induction xs arbitrary: s) (auto intro: ok_step)

lemma ptr_run: "ptr s k = Some i \<Longrightarrow> ptr (fold step xs s) k = Some i"
  by (induction xs arbitrary: s) (auto intro: ptr_stable)

lemma run_apart:
  assumes "ok s" "ptr s k = Some i" "ptr (fold step xs s) k' = Some j" "k \<noteq> k'"
  shows "i \<noteq> j"
  using ptr_inj [OF ok_run [OF assms(1)] ptr_run [OF assms(2)], of xs k'] assms(3,4) by auto

end

lemma registry_get_ok: "registry_ok r \<Longrightarrow> registry_ok (snd (registry_get key now r))"
  unfolding registry_ok_def registry_get_def
  by (auto simp: Let_def inj_on_def with_clock_ok nat_neq_iff split: option.splits) fastforce+

lemma registry_apply_ok: "registry_ok r \<Longrightarrow> registry_ok (registry_apply i x r)"
  unfolding registry_ok_def registry_apply_def
  by (auto simp: breaker_step_ok dest!: set_update_subset_insert [THEN subsetD])

interpretation reg: keyed_store registry_ok reg_breakers registry_step
proof unfold_locales
  fix r x key and i :: nat and key'
  show "registry_ok r \<Longrightarrow> registry_ok (registry_step x r)"
    by (cases x) (simp_all add: registry_get_ok registry_apply_ok)
  show "reg_breakers r key = Some i \<Longrightarrow> reg_breakers (registry_step x r) key = Some i"
    by (cases x) (auto simp: registry_get_def registry_apply_def Let_def split: option.splits)
  show "registry_ok r \<Longrightarrow> reg_breakers r key = Some i \<Longrightarrow> reg_breakers r key' = Some i \<Longrightarrow> key = key'"
    by (auto simp: registry_ok_def inj_on_def dom_def)
qed

lemma registry_new_ok: "registry_ok (registry_new c)"
  by (simp add: registry_ok_def registry_new_def)

lemma registry_get_ptr:
  "enabled (reg_config r) \<Longrightarrow> \<exists>i. fst (registry_get key now r) = Some i \<and>
     reg_breakers (snd (registry_get key now r)) key = Some i"
  by (auto simp: registry_get_def Let_def split: option.splits)

lemma registry_step_config [simp]: "reg_config (registry_step x r) = reg_config r"
  by (cases x) (auto simp: registry_get_def registry_apply_def Let_def split: option.splits)

lemma registry_run_config [simp]: "reg_config (registry_run xs r) = reg_config r"
  unfolding registry_run_def by (induction xs arbitrary: r) simp_all

lemma registry_get_hit: "enabled (reg_config r) \<Longrightarrow> reg_breakers r key = Some i \<Longrightarrow>
   registry_get key now r = (Some i, r)"
  by (simp add: registry_get_def)

text \<open>In an enabled registry every \<open>get\<close> of a key returns the one breaker of that key,
  whatever was done to the registry in between, and never the breaker of another key.\<close>

theorem registry_one_breaker_per_key:
  assumes "registry_ok r" "enabled (reg_config r)"
    and "registry_get k t r = (p, r1)" "registry_get k' t' (registry_run xs r1) = (p', r2)"
  shows "p \<noteq> None \<and> (p' = p \<longleftrightarrow> k' = k)"
proof -
  have r1: "registry_ok r1" using registry_get_ok [OF assms(1), of k t] assms(3) by simp
  have cfg: "reg_config r1 = reg_config r"
    using registry_step_config [of "Get k t" r] assms(3) by simp
  obtain i where i: "p = Some i" "reg_breakers r1 k = Some i"
    using registry_get_ptr [OF assms(2), of k t] assms(3) by auto
  let ?r = "registry_run xs r1"
  have ptr: "reg_breakers ?r k = Some i"
    unfolding registry_run_def by (rule reg.ptr_run [OF i(2)])
  show ?thesis
  proof (cases "k' = k")
    case True
    then have "p' = Some i"
      using registry_get_hit [OF _ ptr, of t'] assms(2,4) cfg by simp
    with True i(1) show ?thesis by simp
  next
    case False
    obtain j where j: "p' = Some j" "reg_breakers r2 k' = Some j"
      using registry_get_ptr [of ?r k' t'] assms(2,4) cfg by auto
    have "r2 = fold registry_step (xs @ [Get k' t']) r1"
      using assms(4) by (simp add: registry_run_def)
    then have "i \<noteq> j" using reg.run_apart [OF r1 i(2) _ False [symmetric]] j(2) by metis
    with i j False show ?thesis by simp
  qed
qed

theorem registry_one_breaker_per_key_witness:
  "fst (registry_get ''a'' 0 (registry_new config_server)) \<noteq> None \<and>
   fst (registry_get ''b'' 1 (registry_run [] (snd (registry_get ''a'' 0 (registry_new config_server)))))
     \<noteq> fst (registry_get ''a'' 0 (registry_new config_server))"
proof -
  let ?r = "registry_new config_server"
  obtain p r1 where g: "registry_get ''a'' 0 ?r = (p, r1)" by (cases "registry_get ''a'' 0 ?r")
  obtain p' r2 where g': "registry_get ''b'' 1 (registry_run [] r1) = (p', r2)"
    by (cases "registry_get ''b'' 1 (registry_run [] r1)")
  have "p \<noteq> None \<and> (p' = p \<longleftrightarrow> ''b'' = ''a'')"
    by (rule registry_one_breaker_per_key [OF registry_new_ok _ g g'])
      (simp add: registry_new_def config_server_def)
  with g g' show ?thesis by simp
qed

end
