(* ===== verification/BreakerRace.thy ===== *)
theory BreakerRace
  imports BreakerTypes
begin

text \<open>
  The atomics of \<open>breaker.rs\<close> under concurrency.  A thread runs \<open>check\<close> or \<open>record\<close> one
  atomic access at a time: its program counter names the access it is about to make and
  holds the values it has read.  The scheduler picks any thread at any time and the clock
  may tick between any two accesses.  The window (behind its mutex) is abstracted to the
  boolean it contributes, whether a closed \<open>record\<close> decides to trip.  The accesses are
  sequentially consistent here: the weaker orderings of the code admit more behaviours,
  never fewer.
\<close>

datatype pc =
    CheckLoad | CheckOpened | CheckClock u64 | CasState | FastFalse | ReloadState
  | ProbeClock | FetchAdd u64 | StoreClaim u64 | FetchSub u64 | LoadClaim u64 | CasClaim u64 u64
  | Granted bool | Refused
  | RecLoad outcome bool | TripState | TripOpened | TripProbes | TripFast
  | CloseState | CloseProbes | CloseFast | Finished

record atomics =
  a_state :: breaker_state
  a_opened :: u64
  a_probes :: u64
  a_claimed :: u64
  a_fast :: bool
  a_clock :: u64

record race_config =
  r_max_probes :: u64
  r_open_millis :: u64

text \<open>
  One atomic access: lines of \<open>check\<close>, \<open>check_open\<close>, \<open>try_half_open_probe\<close>, \<open>record\<close>,
  \<open>trip\<close> and \<open>close\<close> in their order.  \<open>Granted True\<close> is an admission through a probe slot,
  \<open>Granted False\<close> one without (closed breaker, or a lease taken over).
\<close>

fun access :: "race_config \<Rightarrow> atomics \<Rightarrow> pc \<Rightarrow> atomics \<times> pc" where
  "access c a CheckLoad =
     (a, case a_state a of Closed \<Rightarrow> Granted False | Open \<Rightarrow> CheckOpened | HalfOpen \<Rightarrow> ProbeClock)"
| "access c a CheckOpened = (a, CheckClock (a_opened a))"
| "access c a (CheckClock opened) =
     (a, if r_open_millis c \<le> saturating_sub_u64 (a_clock a) opened then CasState else Refused)"
| "access c a CasState =
     (if a_state a = Open then (a\<lparr>a_state := HalfOpen\<rparr>, FastFalse) else (a, ReloadState))"
| "access c a FastFalse = (a\<lparr>a_fast := False\<rparr>, ProbeClock)"
| "access c a ReloadState =
     (a, case a_state a of Closed \<Rightarrow> Granted False | Open \<Rightarrow> Refused | HalfOpen \<Rightarrow> ProbeClock)"
| "access c a ProbeClock = (a, FetchAdd (a_clock a))"
| "access c a (FetchAdd now) =
     (a\<lparr>a_probes := a_probes a + 1\<rparr>,
      if a_probes a < r_max_probes c then StoreClaim now else FetchSub now)"
| "access c a (StoreClaim now) = (a\<lparr>a_claimed := now\<rparr>, Granted True)"
| "access c a (FetchSub now) = (a\<lparr>a_probes := a_probes a - 1\<rparr>, LoadClaim now)"
| "access c a (LoadClaim now) =
     (a, if r_open_millis c \<le> saturating_sub_u64 now (a_claimed a) then CasClaim (a_claimed a) now
         else Refused)"
| "access c a (CasClaim claimed now) =
     (if a_claimed a = claimed then (a\<lparr>a_claimed := now\<rparr>, Granted False) else (a, Refused))"
| "access c a (RecLoad out should_trip) =
     (a, case a_state a of
           Closed \<Rightarrow> if should_trip then TripState else Finished
         | HalfOpen \<Rightarrow> if out = Failure then TripState else CloseState
         | Open \<Rightarrow> Finished)"
| "access c a TripState = (a\<lparr>a_state := Open\<rparr>, TripOpened)"
| "access c a TripOpened = (a\<lparr>a_opened := a_clock a\<rparr>, TripProbes)"
| "access c a TripProbes = (a\<lparr>a_probes := 0\<rparr>, TripFast)"
| "access c a TripFast = (a\<lparr>a_fast := True\<rparr>, Finished)"
| "access c a CloseState = (a\<lparr>a_state := Closed\<rparr>, CloseProbes)"
| "access c a CloseProbes = (a\<lparr>a_probes := 0\<rparr>, CloseFast)"
| "access c a CloseFast = (a\<lparr>a_fast := False\<rparr>, Finished)"
| "access c a pc = (a, pc)"

type_synonym race = "atomics \<times> pc list"

text \<open>Only \<open>check\<close> running: every thread is inside one call of \<open>check\<close>.\<close>

inductive check_step :: "race_config \<Rightarrow> race \<Rightarrow> race \<Rightarrow> bool" for c where
  move: "i < length ps \<Longrightarrow> (a', p') = access c a (ps ! i) \<Longrightarrow> check_step c (a, ps) (a', ps[i := p'])"
| tick: "check_step c (a, ps) (a\<lparr>a_clock := n\<rparr>, ps)"

text \<open>Calls may also end in \<open>record\<close> and threads may call \<open>check\<close> again.\<close>

inductive race_step :: "race_config \<Rightarrow> race \<Rightarrow> race \<Rightarrow> bool" for c where
  check: "check_step c s t \<Longrightarrow> race_step c s t"
| begin_record: "i < length ps \<Longrightarrow> ps ! i = Granted g \<Longrightarrow>
     race_step c (a, ps) (a, ps[i := RecLoad out trip])"
| begin_check: "i < length ps \<Longrightarrow> ps ! i \<in> {Refused, Finished} \<Longrightarrow>
     race_step c (a, ps) (a, ps[i := CheckLoad])"

inductive_cases check_stepE: "check_step c s t"

section \<open>Racing checks never over-admit\<close>

fun holds_slot :: "pc \<Rightarrow> bool" where
  "holds_slot (StoreClaim _) = True"
| "holds_slot (Granted slot) = slot"
| "holds_slot _ = False"

fun undoing :: "pc \<Rightarrow> bool" where
  "undoing (FetchSub _) = True"
| "undoing _ = False"

fun recording :: "pc \<Rightarrow> bool" where
  "recording (RecLoad _ _) = True"
| "recording TripState = True" | "recording TripOpened = True" | "recording TripProbes = True"
| "recording TripFast = True" | "recording CloseState = True" | "recording CloseProbes = True"
| "recording CloseFast = True"
| "recording _ = False"

definition tally :: "('a \<Rightarrow> bool) \<Rightarrow> 'a list \<Rightarrow> nat" where
  "tally P xs = length (filter P xs)"

lemma tally_update:
  "i < length xs \<Longrightarrow>
   tally P (xs[i := x]) + (if P (xs ! i) then 1 else 0) = tally P xs + (if P x then 1 else 0)"
proof (induction xs arbitrary: i)
  case (Cons y ys)
  then show ?case by (cases i) (force simp: tally_def)+
qed simp

lemma tally_two_le: "(\<And>x. \<not> (P x \<and> Q x)) \<Longrightarrow> tally P xs + tally Q xs \<le> length xs"
  by (induction xs) (auto simp: tally_def)

definition slots_ok :: "race_config \<Rightarrow> race \<Rightarrow> bool" where
  "slots_ok c = (\<lambda>(a, ps).
     unat (a_probes a) = tally holds_slot ps + tally undoing ps \<and>
     tally holds_slot ps \<le> unat (r_max_probes c) \<and>
     (\<forall>p \<in> set ps. \<not> recording p) \<and> length ps < 2 ^ 64 - 1)"

lemma access_keeps_checking: "\<not> recording p \<Longrightarrow> \<not> recording (snd (access c a p))"
  by (cases p) (auto split: breaker_state.splits)

lemma access_probes:
  assumes "\<not> recording p" "access c a p = (a', p')"
  shows "(a_probes a' = a_probes a \<and> holds_slot p' = holds_slot p \<and> undoing p' = undoing p) \<or>
    (a_probes a' = a_probes a + 1 \<and> \<not> holds_slot p \<and> \<not> undoing p \<and>
      (if a_probes a < r_max_probes c then holds_slot p' \<and> \<not> undoing p' else \<not> holds_slot p' \<and> undoing p')) \<or>
    (a_probes a' = a_probes a - 1 \<and> \<not> holds_slot p \<and> undoing p \<and> \<not> holds_slot p' \<and> \<not> undoing p')"
  using assms by (cases p) (auto split: breaker_state.splits if_splits)

lemma slot_not_undoing: "\<not> (holds_slot p \<and> undoing p)"
  by (cases p) auto

lemma unat_inc64: "unat (x :: u64) < 2 ^ 64 - 1 \<Longrightarrow> unat (x + 1) = Suc (unat x)"
  by (simp add: unat_word_ariths)

lemma unat_dec64: "0 < unat (x :: u64) \<Longrightarrow> unat (x - 1) = unat x - 1"
  using unat_minus_one [of x] by (metis unat_0 less_irrefl)

lemma slots_ok_move:
  assumes inv: "slots_ok c (a, ps)" and i: "i < length ps" and acc: "access c a (ps ! i) = (a', p')"
  shows "slots_ok c (a', ps[i := p'])"
proof -
  have probes: "unat (a_probes a) = tally holds_slot ps + tally undoing ps"
    and cap: "tally holds_slot ps \<le> unat (r_max_probes c)"
    and len: "length ps < 2 ^ 64 - 1" and calm: "\<forall>p \<in> set ps. \<not> recording p"
    using inv by (auto simp: slots_ok_def)
  have "\<not> recording (ps ! i)" using calm i by simp
  note eff = access_probes [OF this acc]
  have calm': "\<forall>p \<in> set (ps[i := p']). \<not> recording p"
    using calm access_keeps_checking [OF \<open>\<not> recording (ps ! i)\<close>, of c a] acc
    by (auto dest!: set_update_subset_insert [THEN subsetD])
  have "tally holds_slot ps + tally undoing ps \<le> length ps"
    by (rule tally_two_le) (rule slot_not_undoing)
  with probes len have small: "unat (a_probes a) < 2 ^ 64 - 1" by linarith
  note up = tally_update [OF i, of holds_slot p'] tally_update [OF i, of undoing p']
  from eff show ?thesis
  proof (elim disjE conjE)
    assume "a_probes a' = a_probes a" "holds_slot p' = holds_slot (ps ! i)" "undoing p' = undoing (ps ! i)"
    then show ?thesis using up probes cap len calm' by (auto simp: slots_ok_def split: if_splits)
  next
    assume plus: "a_probes a' = a_probes a + 1" "\<not> holds_slot (ps ! i)" "\<not> undoing (ps ! i)"
      and which: "if a_probes a < r_max_probes c then holds_slot p' \<and> \<not> undoing p' else \<not> holds_slot p' \<and> undoing p'"
    have "unat (a_probes a') = Suc (unat (a_probes a))" using small by (simp only: plus unat_inc64)
    then show ?thesis
      using up probes cap len calm' plus which by (auto simp: slots_ok_def word_less_nat_alt split: if_splits)
  next
    assume minus: "a_probes a' = a_probes a - 1" "\<not> holds_slot (ps ! i)" "undoing (ps ! i)"
      and "\<not> holds_slot p'" "\<not> undoing p'"
    have "0 < unat (a_probes a)" using up(2) minus probes \<open>\<not> undoing p'\<close> by simp
    then have "unat (a_probes a') = unat (a_probes a) - 1" by (simp only: minus unat_dec64)
    then show ?thesis
      using up probes cap len calm' minus \<open>\<not> holds_slot p'\<close> \<open>\<not> undoing p'\<close> by (auto simp: slots_ok_def)
  qed
qed

lemma slots_ok_step: "check_step c s t \<Longrightarrow> slots_ok c s \<Longrightarrow> slots_ok c t"
proof (induction rule: check_step.induct)
  case (move i ps a' p' a)
  then show ?case by (intro slots_ok_move) simp_all
next
  case (tick a ps n)
  then show ?case by (simp add: slots_ok_def)
qed

definition fresh_open :: "nat \<Rightarrow> atomics \<Rightarrow> race" where
  "fresh_open n a = (a\<lparr>a_state := Open, a_probes := 0\<rparr>, replicate n CheckLoad)"

lemma fresh_open_ok: "n < 2 ^ 64 - 1 \<Longrightarrow> slots_ok c (fresh_open n a)"
  by (simp add: slots_ok_def fresh_open_def tally_def)

lemma check_steps_ok: "(check_step c)\<^sup>*\<^sup>* s t \<Longrightarrow> slots_ok c s \<Longrightarrow> slots_ok c t"
  by (induction rule: rtranclp_induct) (auto intro: slots_ok_step)



section \<open>A record racing a check\<close>

text \<open>
  The comment in \<open>check_open\<close> says the counter need not be reset when the breaker turns
  half-open, since it is zero in \<open>Open\<close> and nothing changes it there.  A caller suspended
  between its \<open>fetch_add\<close> and its \<open>fetch_sub\<close> while a probe's failure trips the breaker
  contradicts it: the trip's store of zero is followed by the caller's decrement.
\<close>

fun run_threads :: "race_config \<Rightarrow> nat list \<Rightarrow> race \<Rightarrow> race" where
  "run_threads c [] s = s"
| "run_threads c (i # is) (a, ps) =
     (let (a', p') = access c a (ps ! i) in run_threads c is (a', ps[i := p']))"

lemma run_threads_steps:
  "\<forall>i \<in> set is. i < length (snd s) \<Longrightarrow> (race_step c)\<^sup>*\<^sup>* s (run_threads c is s)"
proof (induction "is" arbitrary: s)
  case (Cons i "is")
  obtain a ps where s: "s = (a, ps)" by (cases s)
  obtain a' p' where acc: "access c a (ps ! i) = (a', p')" by (cases "access c a (ps ! i)")
  have "race_step c s (a', ps[i := p'])"
    using Cons.prems s acc by (auto intro!: race_step.check check_step.move)
  moreover have "(race_step c)\<^sup>*\<^sup>* (a', ps[i := p']) (run_threads c is (a', ps[i := p']))"
    using Cons.prems s by (intro Cons.IH) auto
  ultimately show ?case using s acc by (simp add: converse_rtranclp_into_rtranclp)
qed simp

definition half_open_one :: atomics where
  "half_open_one = \<lparr>a_state = HalfOpen, a_opened = 0, a_probes = 0, a_claimed = 0, a_fast = False, a_clock = 10\<rparr>"

text \<open>The counter's zero in \<open>Open\<close> is not an invariant of the code: with one probe slot,
  two callers of \<open>check\<close> and one \<open>record\<close> can reach a state where the breaker is open and
  the probe counter has wrapped to \<open>2 ^ 64 - 1\<close>.\<close>

theorem probe_counter_can_wrap_while_open:
  "\<exists>a ps. (race_step \<lparr>r_max_probes = 1, r_open_millis = 10\<rparr>)\<^sup>*\<^sup>*
            (half_open_one, [CheckLoad, CheckLoad]) (a, ps) \<and>
          a_state a = Open \<and> a_probes a = 2 ^ 64 - 1"
proof -
  let ?c = "\<lparr>r_max_probes = 1, r_open_millis = 10\<rparr>"
  let ?s1 = "run_threads ?c [0, 0, 0, 0, 1, 1, 1] (half_open_one, [CheckLoad, CheckLoad])"
  have s1: "?s1 = (half_open_one\<lparr>a_probes := 2, a_claimed := 10\<rparr>, [Granted True, FetchSub 10])"
    by (simp add: half_open_one_def)
  have r1: "(race_step ?c)\<^sup>*\<^sup>* (half_open_one, [CheckLoad, CheckLoad]) ?s1"
    by (rule run_threads_steps) simp
  let ?s2 = "(half_open_one\<lparr>a_probes := 2, a_claimed := 10\<rparr>, [RecLoad Failure False, FetchSub 10])"
  have r2: "race_step ?c ?s1 ?s2"
    unfolding s1 using race_step.begin_record [of 0 "[Granted True, FetchSub 10]" True] by simp
  let ?s3 = "run_threads ?c [0, 0, 0, 0, 0, 1] ?s2"
  have r3: "(race_step ?c)\<^sup>*\<^sup>* ?s2 ?s3"
    by (rule run_threads_steps) simp
  have s3: "a_state (fst ?s3) = Open \<and> a_probes (fst ?s3) = 2 ^ 64 - 1"
    by (simp add: half_open_one_def)
  from r1 r2 r3 have "(race_step ?c)\<^sup>*\<^sup>* (half_open_one, [CheckLoad, CheckLoad]) ?s3"
    by (meson rtranclp.rtrancl_into_rtrancl rtranclp_trans)
  with s3 show ?thesis by (metis prod.collapse)
qed

end
