(* ===== verification/EventQueue.thy ===== *)
theory EventQueue
  imports Prelude "HOL-Library.Multiset"
begin

text \<open>
  The crate \<open>xai-interjection-core\<close>: the shared event queue (\<open>events.rs\<close>), the
  interjection buffer built on it (\<open>buffer.rs\<close>) and the framing of interjections
  (\<open>format.rs\<close>).  The queue behind its mutex is the list of its events; every operation
  holds the lock for its whole body, so operations are atomic.
\<close>

section \<open>Operations (events.rs)\<close>

definition eq_new :: "'e list" where
  "eq_new = []"

definition eq_push :: "'e \<Rightarrow> 'e list \<Rightarrow> 'e list" where
  "eq_push e q = q @ [e]"

definition eq_push_capped :: "'e \<Rightarrow> nat \<Rightarrow> 'e list \<Rightarrow> 'e list" where
  "eq_push_capped e cap q =
     (let q = q @ [e] in if cap < length q then drop (length q - cap) q else q)"

definition eq_len :: "'e list \<Rightarrow> nat" where
  "eq_len q = length q"

definition eq_is_empty :: "'e list \<Rightarrow> bool" where
  "eq_is_empty q = (q = [])"

text \<open>The drains return the removed events and the queue left behind.\<close>

definition eq_drain_matching :: "('e \<Rightarrow> bool) \<Rightarrow> 'e list \<Rightarrow> 'e list \<times> 'e list" where
  "eq_drain_matching take_it q = partition take_it q"

definition eq_drain_all :: "'e list \<Rightarrow> 'e list \<times> 'e list" where
  "eq_drain_all q = (q, [])"

definition eq_clear :: "'e list \<Rightarrow> 'e list" where
  "eq_clear q = []"

definition eq_snapshot :: "'e list \<Rightarrow> 'e list" where
  "eq_snapshot q = q"

section \<open>The interface of a multi-consumer queue\<close>

text \<open>What producers and consumers do to a queue, in the order in which they get the lock.\<close>

datatype 'e queue_op = Push 'e | Drain "'e \<Rightarrow> bool"

fun run_queue ::
    "('e \<Rightarrow> 'q \<Rightarrow> 'q) \<Rightarrow> (('e \<Rightarrow> bool) \<Rightarrow> 'q \<Rightarrow> 'e list \<times> 'q) \<Rightarrow> 'e queue_op list \<Rightarrow> 'q \<Rightarrow> 'e list list \<times> 'q" where
  "run_queue push drain [] q = ([], q)"
| "run_queue push drain (Push e # xs) q = run_queue push drain xs (push e q)"
| "run_queue push drain (Drain P # xs) q =
     (let (out, q) = drain P q; (outs, q) = run_queue push drain xs q in (out # outs, q))"

fun pushed :: "'e queue_op list \<Rightarrow> 'e list" where
  "pushed [] = []"
| "pushed (Push e # xs) = e # pushed xs"
| "pushed (Drain P # xs) = pushed xs"

locale event_queue =
  fixes events :: "'q \<Rightarrow> 'e list"
    and empty :: 'q
    and push :: "'e \<Rightarrow> 'q \<Rightarrow> 'q"
    and drain :: "('e \<Rightarrow> bool) \<Rightarrow> 'q \<Rightarrow> 'e list \<times> 'q"
  assumes events_empty: "events empty = []"
    and events_push: "events (push e q) = events q @ [e]"
    and drained: "fst (drain P q) = filter P (events q)"
    and kept: "events (snd (drain P q)) = filter (\<lambda>e. \<not> P e) (events q)"
begin

lemma drain_conserves: "mset (fst (drain P q)) + mset (events (snd (drain P q))) = mset (events q)"
  by (simp add: drained kept)

lemma run_conserves:
  "mset (concat (fst (run_queue push drain xs q))) + mset (events (snd (run_queue push drain xs q))) =
   mset (events q) + mset (pushed xs)"
proof (induction xs arbitrary: q)
  case (Cons x xs)
  show ?case
  proof (cases x)
    case (Push e)
    then show ?thesis using Cons [of "push e q"] by (simp add: events_push)
  next
    case (Drain P)
    obtain ys q' where d: "drain P q = (ys, q')" by (cases "drain P q")
    obtain yss q'' where r: "run_queue push drain xs q' = (yss, q'')"
      by (cases "run_queue push drain xs q'")
    have "mset (concat yss) + mset (events q'') = mset (events q') + mset (pushed xs)"
      using Cons [of q'] r by simp
    moreover have "mset ys + mset (events q') = mset (events q)"
      using drain_conserves [of P q] d by simp
    ultimately show ?thesis using Drain d r by (simp add: add.assoc)
  qed
qed simp

end

interpretation eq: event_queue "\<lambda>q. q" eq_new eq_push eq_drain_matching
  by unfold_locales (simp_all add: eq_new_def eq_push_def eq_drain_matching_def comp_def)

text \<open>No event is lost or delivered twice: over any interleaving of pushes and drains by
  any number of consumers, the drained events together with those still queued are, as a
  multiset, the events queued at the start and those pushed.\<close>

theorem event_queue_conserves_events:
  "mset (concat (fst (run_queue eq_push eq_drain_matching xs q))) +
   mset (snd (run_queue eq_push eq_drain_matching xs q)) = mset q + mset (pushed xs)"
  by (rule eq.run_conserves)

text \<open>\<open>push_capped\<close> keeps the newest events in order: a suffix of the queue with the new
  event at its end, as long as the cap allows.\<close>

theorem push_capped_keeps_newest:
  "suffix (eq_push_capped e cap q) (eq_push e q) \<and>
   length (eq_push_capped e cap q) = min cap (Suc (length q)) \<and>
   (0 < cap \<longrightarrow> last (eq_push_capped e cap q) = e)"
  by (auto simp: eq_push_capped_def eq_push_def Let_def suffix_drop)

theorem push_capped_keeps_newest_witness:
  "last (eq_push_capped (4 :: nat) 3 [1, 2, 3]) = 4"
  using push_capped_keeps_newest [of 4 3 "[1, 2, 3 :: nat]"] by simp

section \<open>Framing (format.rs)\<close>

definition LARGE_PROMPT_THRESHOLD :: nat where
  "LARGE_PROMPT_THRESHOLD = 25000"

definition newline :: string where
  "newline = [CHR 0x0A]"

definition user_query :: "string \<Rightarrow> string" where
  "user_query msg = ''<user_query>'' @ newline @ msg @ newline @ ''</user_query>''"

definition truncate_interjection :: "string \<Rightarrow> string" where
  "truncate_interjection text =
     (if LARGE_PROMPT_THRESHOLD < length text
      then (let before = takeWhile (\<lambda>(i, _). i < LARGE_PROMPT_THRESHOLD) (char_indices 0 text);
                stop = (if before = [] then length text else fst (last before) + snd (last before))
            in take stop text @ ''... [truncated]'')
      else text)"

definition interjection_note :: string where
  "interjection_note = ''The user sent a message while you were working:'' @ newline"

definition format_interjection :: "string \<Rightarrow> string" where
  "format_interjection text = interjection_note @ user_query (truncate_interjection text)"

section \<open>The buffer (buffer.rs)\<close>

record 'a interjection =
  ij_text :: string
  ij_attachments :: "'a list"

definition drain_formatted ::
    "(string \<Rightarrow> string) \<Rightarrow> 'a interjection list \<Rightarrow> 'a interjection list \<times> 'a interjection list" where
  "drain_formatted sanitize q =
     (let (out, q) = eq_drain_all q
      in (map (\<lambda>e. \<lparr>ij_text = format_interjection (sanitize (ij_text e)),
                     ij_attachments = ij_attachments e\<rparr>) out, q))"

text \<open>Every character of the text is at most four bytes long, as in valid UTF-8.\<close>

definition utf8_chars :: "string \<Rightarrow> bool" where
  "utf8_chars s = (\<forall>(i, k) \<in> set (char_indices 0 s). k \<le> 4)"

lemma char_indices_before:
  assumes "i < n" "n < i + length s"
  shows "takeWhile (\<lambda>(j, _). j < n) (char_indices i s) \<noteq> [] \<and>
    (let (j, k) = last (takeWhile (\<lambda>(j, _). j < n) (char_indices i s)) in n \<le> j + k \<and> j < n)"
  using assms
proof (induction i s rule: char_indices.induct)
  case (2 i c cs)
  let ?k = "length (takeWhile utf8_cont cs)"
  have len: "?k \<le> length cs" by (rule length_takeWhile_le)
  show ?case
  proof (cases "i + Suc ?k < n")
    case True
    then have "takeWhile (\<lambda>(j, _). j < n) (char_indices (i + Suc ?k) (drop ?k cs)) \<noteq> [] \<and>
      (let (j, k) = last (takeWhile (\<lambda>(j, _). j < n) (char_indices (i + Suc ?k) (drop ?k cs))) in
       n \<le> j + k \<and> j < n)"
      using 2 len by (intro "2.IH") auto
    then show ?thesis using "2.prems" by (simp add: Let_def)
  next
    case False
    have "takeWhile (\<lambda>(j, _). j < n) (char_indices (i + Suc ?k) (drop ?k cs)) = []"
      using False by (cases "drop ?k cs") (simp_all add: Let_def)
    then show ?thesis using False "2.prems" by (simp add: Let_def)
  qed
qed simp

lemma truncate_interjection_long:
  assumes "LARGE_PROMPT_THRESHOLD < length text" "utf8_chars text"
  shows "\<exists>n. truncate_interjection text = take n text @ ''... [truncated]'' \<and> 25000 \<le> n \<and> n \<le> 25003"
proof -
  let ?before = "takeWhile (\<lambda>(j, _). j < LARGE_PROMPT_THRESHOLD) (char_indices 0 text)"
  obtain j k where jk: "last ?before = (j, k)" by (cases "last ?before")
  have ne: "?before \<noteq> []" and b: "25000 \<le> j + k" "j < 25000"
    using char_indices_before [of 0 LARGE_PROMPT_THRESHOLD "text"] assms(1) jk
    by (auto simp: LARGE_PROMPT_THRESHOLD_def)
  have "(j, k) \<in> set (char_indices 0 text)"
    using last_in_set [OF ne] jk by (metis set_takeWhileD)
  then have "k \<le> 4" using assms(2) by (auto simp: utf8_chars_def)
  then show ?thesis
    using assms(1) ne jk b by (intro exI [of _ "j + k"]) (simp add: truncate_interjection_def Let_def)
qed

text \<open>Framing bounds what reaches the model: whatever the length of the interjection, the
  framed message is at most 25093 bytes long, and at least the first 25000 bytes of the
  text (all of a shorter one) stand in it unchanged.\<close>

theorem format_interjection_bounded:
  assumes "utf8_chars text"
  shows "length (format_interjection text) \<le> 25093 \<and>
    (\<exists>rest. format_interjection text =
       interjection_note @ ''<user_query>'' @ newline @ take 25000 text @ rest)"
proof (cases "LARGE_PROMPT_THRESHOLD < length text")
  case True
  obtain n where n: "truncate_interjection text = take n text @ ''... [truncated]''" "25000 \<le> n" "n \<le> 25003"
    using truncate_interjection_long [OF True assms] by blast
  then have "take n text = take 25000 text @ take (n - 25000) (drop 25000 text)"
    by (metis le_add_diff_inverse take_add)
  with n show ?thesis
    by (simp add: format_interjection_def user_query_def interjection_note_def newline_def)
next
  case False
  then show ?thesis
    by (simp add: format_interjection_def user_query_def interjection_note_def newline_def
        truncate_interjection_def LARGE_PROMPT_THRESHOLD_def)
qed

theorem format_interjection_bounded_witness:
  "length (format_interjection ''stop'') \<le> 25093"
proof -
  have "utf8_chars ''stop''" by (simp add: utf8_chars_def utf8_cont_def Let_def)
  then show ?thesis using format_interjection_bounded by blast
qed

lemma drain_formatted_fifo:
  "map ij_text (fst (drain_formatted f q)) = map (\<lambda>e. format_interjection (f (ij_text e))) q \<and>
   map ij_attachments (fst (drain_formatted f q)) = map ij_attachments q \<and>
   snd (drain_formatted f q) = []"
  by (simp add: drain_formatted_def eq_drain_all_def comp_def)

end
