(* ===== verification/PermTypes.thy ===== *)
theory PermTypes
  imports Prelude
begin

text \<open>
  \<open>permission/types.rs\<close>: the vocabulary of the permission system, and the interface to the
  code it calls that is not part of the repository.
\<close>

section \<open>Clients\<close>

datatype client_type = Generic | GrokTUI | GrokWeb | Nebula | Extension | GrokPager | Desktop

fun user_agent_label :: "client_type \<Rightarrow> string" where
  "user_agent_label Generic = ''grok-shell''"
| "user_agent_label GrokTUI = ''grok-tui''"
| "user_agent_label GrokWeb = ''grok-web''"
| "user_agent_label Nebula = ''nebula''"
| "user_agent_label Extension = ''grok-code-extension''"
| "user_agent_label GrokPager = ''grok-pager''"
| "user_agent_label Desktop = ''grok-desktop''"

definition from_client_identifier :: "string option \<Rightarrow> client_type" where
  "from_client_identifier ident =
     (if ident = Some ''grok-web'' then GrokWeb
      else if ident = Some ''nebula'' then Nebula
      else if ident = Some ''grok-code-extension'' then Extension
      else if ident = Some ''grok-desktop'' then Desktop
      else if ident = Some ''grok-pager'' then GrokPager
      else Generic)"

fun feedback_label :: "client_type \<Rightarrow> string" where
  "feedback_label GrokTUI = ''tui''"
| "feedback_label GrokPager = ''tui''"
| "feedback_label GrokWeb = ''web''"
| "feedback_label Nebula = ''nebula''"
| "feedback_label Extension = ''extension''"
| "feedback_label Generic = ''agent''"
| "feedback_label Desktop = ''desktop''"

text \<open>The identifier of a client is its user-agent label, except that the TUI has none.\<close>

lemma client_identifier_roundtrip:
  "from_client_identifier (Some (user_agent_label c)) = c \<longleftrightarrow> c \<noteq> GrokTUI"
  by (cases c) (simp_all add: from_client_identifier_def)

section \<open>Accesses and decisions\<close>

text \<open>\<open>serde_json::Value\<close>; a number is kept as its text.\<close>

datatype json =
    JNull
  | JBool bool
  | JNumber string
  | JString string
  | JArray "json list"
  | JObject "(string \<times> json) list"

datatype access_kind =
    Read "string option"
  | Grep "string option" "string option"   \<comment> \<open>path, glob\<close>
  | Edit string
  | Bash string
  | MCPTool string json
  | WebFetch string
  | WebSearch string

datatype decision =
    Allow
  | Ask
  | FollowupMessage string
  | Reject string
  | PolicyDeny string
  | Cancelled

datatype edit_policy = EditAsk | EditAllow | EditReject

fun serialize_edit_policy :: "edit_policy \<Rightarrow> string" where
  "serialize_edit_policy EditAsk = ''ask''"
| "serialize_edit_policy EditAllow = ''allow''"
| "serialize_edit_policy EditReject = ''reject''"

definition deserialize_edit_policy :: "string \<Rightarrow> edit_policy option" where
  "deserialize_edit_policy v =
     (if v = ''ask'' then Some EditAsk
      else if v = ''allow'' then Some EditAllow
      else if v = ''reject'' then Some EditReject
      else None)"

lemma edit_policy_roundtrip:
  "deserialize_edit_policy v = Some p \<longleftrightarrow> serialize_edit_policy p = v"
  by (cases p) (auto simp: deserialize_edit_policy_def)

text \<open>\<open>From<&ToolInput> for AccessKind\<close>, for the fields the conversion reads; \<open>OtherTool\<close> stands
  for the remaining constructors of \<open>ToolInput\<close>, which it maps to a path-less read.\<close>

datatype tool_input =
    IReadFile string
  | IListDir string
  | IGrep "string option" "string option"
  | ITodoWrite | ITaskOutput | IWaitTasks | IKillTask | ISkill
  | IWebSearch string
  | ISearchReplace string
  | IApplyPatch
  | IHashlineEdit string
  | IWrite string
  | IBash string
  | IMonitor string
  | IMCPTool string json
  | IUseTool string json
  | IWebFetch string
  | IDynamic json
  | OtherTool

fun access_of_input :: "tool_input \<Rightarrow> access_kind" where
  "access_of_input (IReadFile p) = Read (Some p)"
| "access_of_input (IListDir p) = Read (Some p)"
| "access_of_input (IGrep p g) = Grep p g"
| "access_of_input ITodoWrite = Read None"
| "access_of_input ITaskOutput = Read None"
| "access_of_input IWaitTasks = Read None"
| "access_of_input IKillTask = Read None"
| "access_of_input ISkill = Read None"
| "access_of_input (IWebSearch q) = WebSearch q"
| "access_of_input (ISearchReplace p) = Edit p"
| "access_of_input IApplyPatch = Edit ''apply_patch''"
| "access_of_input (IHashlineEdit p) = Edit p"
| "access_of_input (IWrite p) = Edit p"
| "access_of_input (IBash c) = Bash c"
| "access_of_input (IMonitor c) = Bash c"
| "access_of_input (IMCPTool n i) = MCPTool n i"
| "access_of_input (IUseTool n i) = MCPTool n i"
| "access_of_input (IWebFetch u) = WebFetch u"
| "access_of_input (IDynamic v) = Read None"
| "access_of_input OtherTool = Read None"

section \<open>Rules\<close>

datatype prompt_policy = PromptAsk | PromptDeny | PromptAuto

datatype pattern_mode = Glob | Domain

datatype rule_action = RuleAllow | RuleDeny | RuleAsk

datatype tool_filter =
  FAny | FBash | FEdit | FRead | FGrep | FMcp | FWebFetch | FWebSearch

record permission_rule =
  rule_action :: rule_action
  rule_tool :: tool_filter
  rule_pattern :: "string option"
  rule_mode :: pattern_mode

record permission_config =
  config_rules :: "permission_rule list"
  config_prompt_policy :: prompt_policy

definition permission_config_new :: "permission_rule list \<Rightarrow> permission_config" where
  "permission_config_new rules = \<lparr>config_rules = rules, config_prompt_policy = PromptAsk\<rparr>"

section \<open>Code outside the repository\<close>

text \<open>
  A tree-sitter syntax node: its kind, whether it is named, the field it fills in its parent,
  its byte range, whether a syntax error lies in it, and its children.
\<close>

datatype node =
  Node (kind: string) (is_named: bool) (field_name: "string option")
       (start_byte: nat) (end_byte: nat) (has_error: bool) (children: "node list")

text \<open>
  The functions the permission system calls and this library does not define: the grammar
  \<open>tree_sitter_bash\<close> (\<open>None\<close> when the parser gives no tree); a compiled \<open>glob::Pattern\<close> as
  its \<open>matches_with\<close>, whose flag is \<open>require_literal_separator\<close>; \<open>url::Url::parse\<close> with
  \<open>host_str\<close> (\<open>None\<close>: no URL; \<open>Some None\<close>: no host); the Unicode tables of \<open>to_lowercase\<close>
  beyond ASCII; and the file system of the moment: \<open>canonicalize\<close>, whether
  \<open>symlink_metadata\<close> says symlink (\<open>None\<close> on error), and \<open>read_link\<close>.
\<close>

record externals =
  parse_shell :: "string \<Rightarrow> node option"
  glob_pattern :: "string \<Rightarrow> (bool \<Rightarrow> string \<Rightarrow> bool) option"
  parse_host :: "string \<Rightarrow> string option option"
  unicode_lower :: "string \<Rightarrow> string"
  fs_canonicalize :: "string \<Rightarrow> string option"
  fs_is_symlink :: "string \<Rightarrow> bool option"
  fs_read_link :: "string \<Rightarrow> string option"

definition is_ascii :: "string \<Rightarrow> bool" where
  "is_ascii s = list_all (\<lambda>c. (of_char c :: nat) < 128) s"

definition to_lowercase :: "externals \<Rightarrow> string \<Rightarrow> string" where
  "to_lowercase X s = (if is_ascii s then ascii_lower s else unicode_lower X s)"

end
