(* ===== verification/RuleParser.thy ===== *)
theory RuleParser
  imports PermTypes
begin

text \<open>
  \<open>permission/rules.rs\<close>: the rule-string language of \<open>permissions.allow/deny/ask\<close> and the
  permission-mode vocabulary.
\<close>

section \<open>Permission modes\<close>

datatype default_permission_mode =
  ModeDefault | AcceptEdits | Plan | Auto | DontAsk | BypassPermissions

definition mode_from_str :: "string \<Rightarrow> string + default_permission_mode" where
  "mode_from_str s =
     (if s = ''default'' then Inr ModeDefault
      else if s = ''acceptEdits'' then Inr AcceptEdits
      else if s = ''plan'' then Inr Plan
      else if s = ''auto'' then Inr Auto
      else if s = ''dontAsk'' then Inr DontAsk
      else if s = ''bypassPermissions'' then Inr BypassPermissions
      else Inl s)"

record default_mode_effects =
  eff_prompt_policy :: prompt_policy
  eff_accept_edits :: bool
  eff_bypass_permissions :: bool

definition no_effects :: default_mode_effects where
  "no_effects = \<lparr>eff_prompt_policy = PromptAsk, eff_accept_edits = False, eff_bypass_permissions = False\<rparr>"

fun mode_effects :: "default_permission_mode \<Rightarrow> default_mode_effects" where
  "mode_effects AcceptEdits = no_effects\<lparr>eff_accept_edits := True\<rparr>"
| "mode_effects BypassPermissions = no_effects\<lparr>eff_bypass_permissions := True\<rparr>"
| "mode_effects ModeDefault = no_effects"
| "mode_effects Plan = no_effects"
| "mode_effects DontAsk = no_effects\<lparr>eff_prompt_policy := PromptDeny\<rparr>"
| "mode_effects Auto = no_effects\<lparr>eff_prompt_policy := PromptAuto\<rparr>"

section \<open>The rule parser\<close>

datatype rule_parse_error =
    UnsupportedToolPrefix string
  | UnknownToolPrefix string
  | MalformedRule string

definition backslash :: char where
  "backslash = CHR 0x5C"

definition tool_name_to_filter :: "string \<Rightarrow> tool_filter option" where
  "tool_name_to_filter name =
     (if name = ''Bash'' then Some FBash
      else if name = ''Read'' \<or> name = ''NotebookRead'' then Some FRead
      else if name = ''Edit'' \<or> name = ''Write'' \<or> name = ''NotebookEdit'' then Some FEdit
      else if name = ''MCPTool'' then Some FMcp
      else if name = ''Grep'' \<or> name = ''Glob'' then Some FGrep
      else if name = ''WebFetch'' then Some FWebFetch
      else if name = ''WebSearch'' then Some FWebSearch
      else None)"

text \<open>The loop of \<open>is_unescaped\<close> counts the backslashes right before the position.\<close>

fun backslashes_before :: "string \<Rightarrow> nat \<Rightarrow> nat" where
  "backslashes_before s 0 = 0"
| "backslashes_before s (Suc j) = (if s ! j = backslash then Suc (backslashes_before s j) else 0)"

definition is_unescaped :: "string \<Rightarrow> nat \<Rightarrow> bool" where
  "is_unescaped s pos = even (backslashes_before s pos)"

definition find_first_unescaped :: "string \<Rightarrow> char \<Rightarrow> nat option" where
  "find_first_unescaped s target = find (\<lambda>i. s ! i = target \<and> is_unescaped s i) [0..<length s]"

definition find_last_unescaped :: "string \<Rightarrow> char \<Rightarrow> nat option" where
  "find_last_unescaped s target = find (\<lambda>i. s ! i = target \<and> is_unescaped s i) (rev [0..<length s])"

definition unescape_rule_content :: "string \<Rightarrow> string" where
  "unescape_rule_content s =
     (if \<not> contains_char s backslash then s
      else replace_all [backslash, backslash] [backslash]
             (replace_all [backslash, CHR '')''] '')''
               (replace_all [backslash, CHR ''(''] ''('' s)))"

definition strip_domain_prefix :: "string \<Rightarrow> string \<times> pattern_mode" where
  "strip_domain_prefix pattern =
     (case strip_prefix pattern ''domain:'' of
        Some domain \<Rightarrow> (domain, Domain)
      | None \<Rightarrow> (pattern, Glob))"

definition strip_bash_colon_wildcard :: "string \<Rightarrow> string" where
  "strip_bash_colon_wildcard pattern =
     (case strip_suffix pattern '':*'' of Some pre \<Rightarrow> pre | None \<Rightarrow> pattern)"

definition non_empty :: "string \<Rightarrow> string option" where
  "non_empty s = (if s = [] then None else Some s)"

definition parse_permission_rule :: "string \<Rightarrow> rule_action \<Rightarrow> rule_parse_error + permission_rule" where
  "parse_permission_rule rule0 action =
     (let rule = trim rule0 in
      case find_first_unescaped rule (CHR ''('') of
        Some open_paren \<Rightarrow>
          (let prefix_trimmed = trim (take open_paren rule);
               content_and_close = drop (Suc open_paren) rule
           in case find_last_unescaped content_and_close (CHR '')'') of
                None \<Rightarrow> Inl (MalformedRule ''missing closing parenthesis'')
              | Some close_paren \<Rightarrow>
                  (let raw_content = trim (take close_paren content_and_close);
                       pattern = (if raw_content = [] \<or> raw_content = ''*'' then []
                                  else unescape_rule_content raw_content)
                   in case tool_name_to_filter prefix_trimmed of
                        None \<Rightarrow>
                          (if prefix_trimmed = ''EnterWorktree''
                           then Inl (UnsupportedToolPrefix prefix_trimmed)
                           else Inl (UnknownToolPrefix prefix_trimmed))
                      | Some tool \<Rightarrow>
                          (let pattern = (if tool = FBash then strip_bash_colon_wildcard pattern
                                          else pattern);
                               (pattern, mode) = strip_domain_prefix pattern
                           in Inr \<lparr>rule_action = action, rule_tool = tool,
                                   rule_pattern = non_empty pattern, rule_mode = mode\<rparr>)))
      | None \<Rightarrow>
          (case tool_name_to_filter rule of
             Some tool \<Rightarrow> Inr \<lparr>rule_action = action, rule_tool = tool, rule_pattern = None, rule_mode = Glob\<rparr>
           | None \<Rightarrow> Inr \<lparr>rule_action = action, rule_tool = FAny, rule_pattern = non_empty rule,
                          rule_mode = Glob\<rparr>))"

section \<open>Escaping\<close>

text \<open>The inverse the parser's comment refers to: backslashes and parentheses get a backslash.\<close>

definition special :: "char \<Rightarrow> bool" where
  "special c \<longleftrightarrow> c = backslash \<or> c = CHR ''('' \<or> c = CHR '')''"

definition escape_rule_content :: "string \<Rightarrow> string" where
  "escape_rule_content s = concat (map (\<lambda>c. if special c then [backslash, c] else [c]) s)"

definition escaping :: "char set \<Rightarrow> string \<Rightarrow> string" where
  "escaping A s = concat (map (\<lambda>c. if c \<in> A then [backslash, c] else [c]) s)"

lemma escaping_simps [simp]:
  "escaping A [] = []"
  "escaping A (c # s) = (if c \<in> A then backslash # c # escaping A s else c # escaping A s)"
  by (simp_all add: escaping_def)

lemma escape_rule_content_escaping:
  "escape_rule_content s = escaping {backslash, CHR ''('', CHR '')''} s"
  by (simp add: escape_rule_content_def escaping_def special_def)

lemma escaping_hd: "x \<in> A \<Longrightarrow> x \<noteq> backslash \<Longrightarrow> \<not> prefix [x] (escaping A s)"
  by (cases s) auto

lemma replace_all_escaping:
  assumes "backslash \<in> A" "x \<in> A" "x \<noteq> backslash"
  shows "replace_all [backslash, x] [x] (escaping A s) = escaping (A - {x}) s"
proof (induction s)
  case (Cons c s)
  then show ?case using assms escaping_hd [OF assms(2,3), of s] by auto
qed simp

lemma replace_all_escaped_backslashes:
  "replace_all [backslash, backslash] [backslash] (escaping {backslash} s) = s"
  by (induction s) auto

lemma escaping_plain: "backslash \<notin> set (escaping A s) \<Longrightarrow> escaping A s = s"
  by (induction s) (auto split: if_splits)

lemma unescape_escape: "unescape_rule_content (escape_rule_content s) = s"
proof (cases "contains_char (escape_rule_content s) backslash")
  case True
  let ?A = "{backslash, CHR ''('', CHR '')''}"
  have sets: "?A - {CHR ''(''} = {backslash, CHR '')''}"
    "{backslash, CHR '')''} - {CHR '')''} = {backslash}"
    by (auto simp: backslash_def)
  have "replace_all [backslash, CHR ''(''] ''('' (escaping ?A s) = escaping {backslash, CHR '')''} s"
    using replace_all_escaping [of ?A "CHR ''(''" s] sets(1) by (simp add: backslash_def)
  moreover have "replace_all [backslash, CHR '')''] '')'' (escaping {backslash, CHR '')''} s) =
      escaping {backslash} s"
    using replace_all_escaping [of "{backslash, CHR '')''}" "CHR '')''" s] sets(2)
    by (simp add: backslash_def)
  ultimately show ?thesis
    using True replace_all_escaped_backslashes [of s]
    by (simp add: unescape_rule_content_def escape_rule_content_escaping)
next
  case False
  then show ?thesis
    using escaping_plain [of _ s] by (simp add: unescape_rule_content_def escape_rule_content_escaping)
qed

section \<open>Positions of parentheses\<close>

lemma backslashes_before_rev:
  "j \<le> length s \<Longrightarrow> backslashes_before s j = length (takeWhile (\<lambda>c. c = backslash) (rev (take j s)))"
  by (induction j) (simp_all add: take_Suc_conv_app_nth)

lemma escaping_trailing_even:
  "backslash \<in> A \<Longrightarrow> even (length (takeWhile (\<lambda>c. c = backslash) (rev (escaping A s))))"
proof (induction s rule: rev_induct)
  case (snoc c s)
  then show ?case by (auto simp: escaping_def)
qed simp

lemma find_last_unescaped_close:
  assumes "backslash \<in> A"
  shows "find_last_unescaped (escaping A s @ [c]) c = Some (length (escaping A s))"
  using escaping_trailing_even [OF assms, of s]
  by (simp add: find_last_unescaped_def is_unescaped_def backslashes_before_rev nth_append)

lemma find_upt_least: "P n \<Longrightarrow> n < m \<Longrightarrow> (\<And>i. i < n \<Longrightarrow> \<not> P i) \<Longrightarrow> find P [0..<m] = Some n"
  by (simp add: find_Some_iff) (intro exI [of _ n], simp)

lemma find_first_unescaped_open:
  assumes "c \<notin> set N" "backslash \<notin> set N"
  shows "find_first_unescaped (N @ c # s) c = Some (length N)"
proof -
  have "takeWhile (\<lambda>c. c = backslash) (rev N) = []"
    using assms(2) by (cases "rev N") (auto simp: rev_swap)
  then have "is_unescaped (N @ c # s) (length N)"
    by (simp add: is_unescaped_def backslashes_before_rev)
  moreover have "(N @ c # s) ! i \<noteq> c" if "i < length N" for i
    using that assms(1) by (auto simp: nth_append in_set_conv_nth)
  ultimately show ?thesis
    unfolding find_first_unescaped_def by (intro find_upt_least) auto
qed

section \<open>Trimming escaped text\<close>

lemma prefix_escaped:
  assumes "\<And>c. c \<in> A \<Longrightarrow> \<exists>d ds. f c = d # ds \<and> d \<in> A" "\<And>c. c \<notin> A \<Longrightarrow> f c = [c]" "set w \<inter> A = {}"
  shows "prefix w (concat (map f s)) \<Longrightarrow> prefix w s"
  using assms(3)
proof (induction w arbitrary: s)
  case (Cons x w)
  then obtain c cs where s: "s = c # cs" by (cases s) auto
  have "c \<notin> A"
  proof
    assume "c \<in> A"
    then obtain d ds where "f c = d # ds" "d \<in> A" using assms(1) by blast
    with Cons.prems s show False by auto
  qed
  with Cons s show ?case by (auto simp: assms(2))
qed simp

lemma escape_ws:
  assumes "w \<in> set ws_sequences"
  shows "prefix w (escape_rule_content s) \<Longrightarrow> prefix w s"
    and "suffix w (escape_rule_content s) \<Longrightarrow> suffix w s"
proof -
  let ?A = "Collect special"
  have disj: "set w \<inter> ?A = {}"
    using ws_sequences_high [OF assms] by (fastforce simp: special_def backslash_def)
  show "prefix w (escape_rule_content s) \<Longrightarrow> prefix w s"
    unfolding escape_rule_content_def
    by (rule prefix_escaped [OF _ _ disj]) (auto simp: special_def)
  have "rev (escape_rule_content s) = concat (map (\<lambda>c. if special c then [c, backslash] else [c]) (rev s))"
    by (simp add: escape_rule_content_def rev_concat rev_map comp_def if_distrib [of rev] cong: if_cong)
  moreover have "prefix (rev w) (concat (map (\<lambda>c. if special c then [c, backslash] else [c]) (rev s)))
      \<Longrightarrow> prefix (rev w) (rev s)"
    by (rule prefix_escaped) (use disj in auto)
  ultimately show "suffix w (escape_rule_content s) \<Longrightarrow> suffix w s"
    by (simp add: suffix_to_prefix)
qed

lemma special_visible: "special c \<Longrightarrow> visible c"
  by (auto simp: special_def visible_def ascii_ws_def backslash_def Let_def)

lemma trim_escape:
  assumes "trim s = s"
  shows "trim (escape_rule_content s) = escape_rule_content s"
proof -
  have start: "skip_ws (escape_rule_content s) = None"
  proof (cases s)
    case Nil
    then show ?thesis by (simp add: escape_rule_content_def skip_ws_None_iff)
  next
    case (Cons c cs)
    show ?thesis
    proof (cases "special c")
      case True
      then show ?thesis
        using Cons special_visible [of backslash] by (simp add: escape_rule_content_def special_def)
    next
      case False
      have "\<not> ascii_ws c" "\<forall>w \<in> set ws_sequences. \<not> prefix w s"
        using assms Cons unfolding trim_fixed_iff skip_ws_None_iff by simp_all
      moreover have "hd (escape_rule_content s) = c"
        using False Cons by (simp add: escape_rule_content_def)
      ultimately show ?thesis unfolding skip_ws_None_iff using escape_ws(1) by metis
    qed
  qed
  have stop: "skip_ws_end (escape_rule_content s) = None"
  proof (cases s rule: rev_cases)
    case Nil
    then show ?thesis by (simp add: escape_rule_content_def skip_ws_end_None_iff)
  next
    case (snoc cs c)
    have e: "escape_rule_content s =
        (escape_rule_content cs @ (if special c then [backslash] else [])) @ [c]"
      using snoc by (simp add: escape_rule_content_def)
    show ?thesis
    proof (cases "special c")
      case True
      then show ?thesis unfolding e by (intro skip_ws_end_visible special_visible)
    next
      case False
      have "\<not> ascii_ws c" "\<forall>w \<in> set ws_sequences. \<not> suffix w s"
        using assms snoc unfolding trim_fixed_iff skip_ws_end_None_iff by simp_all
      moreover have "last (escape_rule_content s) = c" unfolding e by simp
      ultimately show ?thesis unfolding skip_ws_end_None_iff using escape_ws(2) by metis
    qed
  qed
  from start stop show ?thesis by (simp add: trim_fixed_iff)
qed

section \<open>Rules round-trip\<close>

definition tool_names :: "string list" where
  "tool_names = [''Bash'', ''Read'', ''NotebookRead'', ''Edit'', ''Write'', ''NotebookEdit'', ''MCPTool'',
     ''Grep'', ''Glob'', ''WebFetch'', ''WebSearch'']"

lemma tool_name_cases: "tool_name_to_filter N = Some T \<Longrightarrow> N \<in> set tool_names"
  by (simp add: tool_name_to_filter_def tool_names_def split: if_splits; elim disjE; simp)

lemma visible_letter: "ascii_alpha c \<Longrightarrow> visible c"
  by (auto simp: visible_def ascii_alpha_def ascii_ws_def Let_def)

lemma tool_names_letters: "list_all (\<lambda>N. N \<noteq> [] \<and> list_all ascii_alpha N) tool_names"
  by code_simp

lemma tool_name_letters:
  assumes "tool_name_to_filter N = Some T"
  shows "N \<noteq> []" "c \<in> set N \<Longrightarrow> ascii_alpha c"
  using tool_names_letters tool_name_cases [OF assms] by (auto simp: list_all_iff)

lemma tool_name_plain:
  assumes "tool_name_to_filter N = Some T"
  shows "CHR ''('' \<notin> set N" "backslash \<notin> set N" "trim N = N" "\<exists>c cs. N = c # cs \<and> visible c"
proof -
  note letters = tool_name_letters [OF assms]
  show "CHR ''('' \<notin> set N" "backslash \<notin> set N"
    using letters(2) [of "CHR ''(''"] letters(2) [of backslash]
    by (auto simp: ascii_alpha_def backslash_def Let_def)
  show head: "\<exists>c cs. N = c # cs \<and> visible c"
    using letters visible_letter by (cases N) auto
  obtain d ds where "N = ds @ [d]" "visible d"
    using letters visible_letter by (cases N rule: rev_cases) auto
  then have "skip_ws_end N = None" by simp
  moreover have "skip_ws N = None" using head by auto
  ultimately show "trim N = N" by (simp add: trim_fixed_iff)
qed

lemma escape_eq_Nil [simp]: "escape_rule_content s = [] \<longleftrightarrow> s = []"
  by (cases s) (auto simp: escape_rule_content_def)

lemma escape_eq_star [simp]: "escape_rule_content s = [CHR ''*''] \<longleftrightarrow> s = [CHR ''*'']"
proof
  assume e: "escape_rule_content s = [CHR ''*'']"
  have ns: "\<not> special (CHR ''*'')" "backslash \<noteq> CHR ''*''" by (simp_all add: special_def backslash_def)
  from e ns unescape_escape [of s] have "s = unescape_rule_content [CHR ''*'']" by simp
  with ns show "s = [CHR ''*'']" by (simp add: unescape_rule_content_def)
qed (simp add: escape_rule_content_def special_def backslash_def)

lemma parse_applied_rule:
  assumes "tool_name_to_filter N = Some T" "trim p = p"
  shows "parse_permission_rule (N @ ''('' @ escape_rule_content p @ '')'') action =
    (let pattern = (if p = ''*'' then [] else p);
         pattern = (if T = FBash then strip_bash_colon_wildcard pattern else pattern);
         (pattern, mode) = strip_domain_prefix pattern
     in Inr \<lparr>rule_action = action, rule_tool = T, rule_pattern = non_empty pattern, rule_mode = mode\<rparr>)"
proof -
  note N = tool_name_plain [OF assms(1)]
  let ?rule = "N @ ''('' @ escape_rule_content p @ '')''"
  obtain c cs where c: "N = c # cs" "visible c" using N(4) by blast
  have "trim ?rule = ?rule"
    using trim_visible [OF c(2), of "CHR '')''" "cs @ ''('' @ escape_rule_content p"] c(1)
    by (simp add: visible_def ascii_ws_def Let_def)
  moreover have "find_first_unescaped ?rule (CHR ''('') = Some (length N)"
    using find_first_unescaped_open [OF N(1,2)] by simp
  moreover have "find_last_unescaped (escape_rule_content p @ '')'') (CHR '')'') =
      Some (length (escape_rule_content p))"
    unfolding escape_rule_content_escaping by (rule find_last_unescaped_close) simp
  ultimately show ?thesis
    using N(3) assms(1) trim_escape [OF assms(2)]
    by (simp add: parse_permission_rule_def unescape_escape Let_def)
qed



lemma tool_name_not_any: "tool_name_to_filter N = Some T \<Longrightarrow> T \<noteq> FAny"
  by (auto simp: tool_name_to_filter_def split: if_splits)

text \<open>No unknown tool name ever yields a rule: a rule string with an argument list parses
  only if its prefix is one of the recognised names, and then the rule is for that tool; in
  particular no such string can yield a rule for every tool.\<close>

theorem parsed_tool_is_named:
  assumes "parse_permission_rule s action = Inr r"
    and "find_first_unescaped (trim s) (CHR ''('') = Some i"
  shows "tool_name_to_filter (trim (take i (trim s))) = Some (rule_tool r) \<and>
    rule_tool r \<noteq> FAny \<and> rule_action r = action"
proof -
  obtain t where t: "tool_name_to_filter (trim (take i (trim s))) = Some t"
    "rule_tool r = t" "rule_action r = action"
    using assms
    by (auto simp: parse_permission_rule_def Let_def case_prod_unfold split: option.splits if_splits)
  then show ?thesis using tool_name_not_any [OF t(1)] by simp
qed

theorem parsed_tool_is_named_witness:
  "rule_tool (projr (parse_permission_rule ''Read(a)'' RuleAsk)) \<noteq> FAny"
proof -
  have t: "trim ''Read(a)'' = ''Read(a)''"
    using trim_visible [of "CHR ''R''" "CHR '')''" "''ead(a''"]
    by (simp add: visible_def ascii_ws_def Let_def)
  have f: "find_first_unescaped (trim ''Read(a)'') (CHR ''('') = Some 4"
    unfolding t by (simp add: find_first_unescaped_def is_unescaped_def upt_rec numeral_nat backslash_def)
  have a: "trim ''a'' = ''a''"
    using skip_ws_end_visible [of "CHR ''a''" "[]"]
    by (simp add: trim_fixed_iff visible_def ascii_ws_def Let_def)
  have "parse_permission_rule (''Read'' @ ''('' @ escape_rule_content ''a'' @ '')'') RuleAsk =
      Inr \<lparr>rule_action = RuleAsk, rule_tool = FRead, rule_pattern = Some ''a'', rule_mode = Glob\<rparr>"
    using parse_applied_rule [OF _ a, of "''Read''" FRead RuleAsk]
    by (simp add: tool_name_to_filter_def strip_domain_prefix_def strip_prefix_def non_empty_def)
  then have "parse_permission_rule ''Read(a)'' RuleAsk =
      Inr \<lparr>rule_action = RuleAsk, rule_tool = FRead, rule_pattern = Some ''a'', rule_mode = Glob\<rparr>"
    by (simp add: escape_rule_content_def special_def backslash_def)
  from parsed_tool_is_named [OF this f] this show ?thesis by simp
qed

text \<open>A \<open>Bash(cmd:*)\<close> rule is the rule \<open>Bash(cmd)\<close>.\<close>

lemma bash_colon_wildcard:
  assumes "trim (p @ '':*'') = p @ '':*''" "\<not> starts_with p ''domain:''"
  shows "parse_permission_rule (''Bash'' @ ''('' @ escape_rule_content (p @ '':*'') @ '')'') a =
     Inr \<lparr>rule_action = a, rule_tool = FBash, rule_pattern = non_empty p, rule_mode = Glob\<rparr>"
proof -
  have f: "tool_name_to_filter ''Bash'' = Some FBash" by (simp add: tool_name_to_filter_def)
  have "strip_bash_colon_wildcard (p @ '':*'') = p"
    unfolding strip_bash_colon_wildcard_def strip_suffix_append by simp
  moreover have "p @ '':*'' \<noteq> ''*''" by (cases p) auto
  ultimately show ?thesis
    unfolding parse_applied_rule [OF f assms(1)] using assms(2)
    by (simp add: strip_domain_prefix_def strip_prefix_def Let_def)
qed

end
