(* ===== verification/Decisions.thy ===== *)
theory Decisions
  imports PermTypes
begin

text \<open>
  The strength order on decisions (\<open>decision_rank\<close> and \<open>combine_decisions\<close> of
  \<open>permission/shell_access.rs\<close>), and the contract of an escalation gate: a check that may turn
  an operation into a prompt or a denial and never grants it.
\<close>

fun decision_rank :: "decision \<Rightarrow> u8" where
  "decision_rank (Reject _) = 3"
| "decision_rank (PolicyDeny _) = 3"
| "decision_rank Ask = 2"
| "decision_rank Allow = 1"
| "decision_rank (FollowupMessage _) = 0"
| "decision_rank Cancelled = 0"

fun combine_decisions :: "decision option \<Rightarrow> decision option \<Rightarrow> decision option" where
  "combine_decisions None other = other"
| "combine_decisions other None = other"
| "combine_decisions (Some a) (Some b) = Some (if decision_rank b \<le> decision_rank a then a else b)"

definition strength :: "decision option \<Rightarrow> nat" where
  "strength d = (case d of None \<Rightarrow> 0 | Some d \<Rightarrow> Suc (unat (decision_rank d)))"

definition escalate :: "decision option \<Rightarrow> decision option" where
  "escalate d = (if d = Some Allow then None else d)"

lemma combine_None [simp]: "combine_decisions d None = d"
  by (cases d) simp_all

lemma combine_by_strength: "combine_decisions a b = (if strength b \<le> strength a then a else b)"
  by (cases a; cases b) (simp_all add: strength_def word_le_nat_alt)

lemma combine_assoc:
  "combine_decisions (combine_decisions a b) c = combine_decisions a (combine_decisions b c)"
  by (simp add: combine_by_strength)

lemma combine_eq_None [simp]: "combine_decisions a b = None \<longleftrightarrow> a = None \<and> b = None"
  by (cases a; cases b) simp_all

lemma escalate_not_Allow [simp]: "escalate d \<noteq> Some Allow"
  by (simp add: escalate_def)

lemma escalate_eq_Some [simp]: "escalate d = Some e \<longleftrightarrow> d = Some e \<and> e \<noteq> Allow"
  by (auto simp: escalate_def)

definition combine_all :: "decision option list \<Rightarrow> decision option" where
  "combine_all ds = foldl combine_decisions None ds"

lemma foldl_combine: "foldl combine_decisions a ds = combine_decisions a (combine_all ds)"
proof (induction ds arbitrary: a)
  case (Cons d ds)
  show ?case
    unfolding combine_all_def by (simp add: Cons) (simp add: combine_assoc Cons [of d, symmetric])
qed (simp add: combine_all_def)

lemma combine_all_Nil [simp]: "combine_all [] = None"
  by (simp add: combine_all_def)

lemma combine_all_Cons [simp]: "combine_all (d # ds) = combine_decisions d (combine_all ds)"
  using foldl_combine [of d ds] by (simp add: combine_all_def)

lemma combine_all_append [simp]:
  "combine_all (ds @ es) = combine_decisions (combine_all ds) (combine_all es)"
  by (induction ds) (simp_all add: combine_assoc)

lemma combine_all_in: "combine_all ds = Some d \<Longrightarrow> Some d \<in> set ds"
  by (induction ds) (auto simp: combine_by_strength split: if_splits)

lemma combine_all_strongest: "d \<in> set ds \<Longrightarrow> strength d \<le> strength (combine_all ds)"
  by (induction ds) (auto simp: combine_by_strength)

text \<open>A denial is the strongest decision.\<close>

definition denies :: "decision option \<Rightarrow> bool" where
  "denies d \<longleftrightarrow> (\<exists>r. d = Some (Reject r) \<or> d = Some (PolicyDeny r))"

lemma denies_simps [simp]:
  "\<not> denies None" "denies (Some (Reject r))" "denies (Some (PolicyDeny r))" "\<not> denies (Some Ask)"
  "\<not> denies (Some Allow)" "denies (escalate d) = denies d"
  by (auto simp: denies_def escalate_def)

lemma denies_iff: "denies d \<longleftrightarrow> strength d = 4"
  unfolding denies_def strength_def
  by (cases d; simp; rename_tac e; case_tac e) simp_all

lemma strength_le_4: "strength d \<le> 4"
  unfolding strength_def by (cases d; simp; rename_tac e; case_tac e) simp_all

lemma combine_denies [simp]: "denies (combine_decisions a b) \<longleftrightarrow> denies a \<or> denies b"
  using strength_le_4 [of a] strength_le_4 [of b] by (auto simp: denies_iff combine_by_strength)

lemma combine_all_denies [simp]: "denies (combine_all ds) \<longleftrightarrow> (\<exists>d \<in> set ds. denies d)"
  by (induction ds) simp_all

text \<open>The verdicts of a policy gate: nothing, a prompt or a rejection.\<close>

definition gate_verdict :: "decision option \<Rightarrow> bool" where
  "gate_verdict d \<longleftrightarrow> d = None \<or> d = Some Ask \<or> (\<exists>r. d = Some (Reject r))"

lemma gate_verdict_simps [simp, intro]:
  "gate_verdict None" "gate_verdict (Some Ask)" "gate_verdict (Some (Reject r))"
  "gate_verdict a \<Longrightarrow> gate_verdict b \<Longrightarrow> gate_verdict (combine_decisions a b)"
  by (auto simp: gate_verdict_def)

lemma gate_verdict_all: "(\<And>d. d \<in> set ds \<Longrightarrow> gate_verdict d) \<Longrightarrow> gate_verdict (combine_all ds)"
  by (induction ds) auto

lemma gate_verdict_strength: "gate_verdict d \<Longrightarrow> d = None \<or> strength (Some Ask) \<le> strength d"
  by (auto simp: gate_verdict_def strength_def)

section \<open>Escalation gates\<close>

locale escalation_gate =
  fixes gate :: "'a \<Rightarrow> decision option"
  assumes verdict: "gate_verdict (gate x)"
begin

lemma never_allows: "gate x \<noteq> Some Allow"
  using verdict [of x] by (auto simp: gate_verdict_def)

lemma allow_kept: "combine_decisions d (gate x) = Some Allow \<longleftrightarrow> d = Some Allow \<and> gate x = None"
  using verdict [of x] by (cases d) (auto simp: gate_verdict_def word_le_nat_alt split: if_splits)

lemma only_escalates: "strength d \<le> strength (combine_decisions d (gate x))"
  by (simp add: combine_by_strength)

lemma all_verdict: "gate_verdict (combine_all (map gate xs))"
  by (rule gate_verdict_all) (auto intro: verdict)

end

end
