(* ===== verification/ShellWords.thy ===== *)
theory ShellWords
  imports PermTypes
begin

text \<open>
  \<open>permission/bash_command_splitting.rs\<close>, the part on lists of words: setup commands, the
  wrappers (\<open>timeout\<close>, \<open>env\<close>, \<open>nice\<close>, \<open>ionice\<close>, \<open>chrt\<close>, \<open>stdbuf\<close>) a command may hide
  behind, and the display splitter.
\<close>

section \<open>Setup commands\<close>

definition setup_names :: "string list" where
  "setup_names = [''cd'', ''pushd'', ''popd'', ''export'', ''unset'', ''set'', ''source'', ''.'',
     ''sleep'', ''timeout'']"

fun is_setup_command :: "string list \<Rightarrow> bool" where
  "is_setup_command [] = True"
| "is_setup_command (w # _) = (w \<in> set setup_names)"

section \<open>Wrappers\<close>

definition ident_start :: "char \<Rightarrow> bool" where
  "ident_start c \<longleftrightarrow> ascii_alpha c \<or> c = CHR ''_''"

definition ident_char :: "char \<Rightarrow> bool" where
  "ident_char c \<longleftrightarrow> ascii_alpha c \<or> ascii_digit c \<or> c = CHR ''_''"

definition is_env_assignment :: "string \<Rightarrow> bool" where
  "is_env_assignment tok =
     (case find_byte (CHR ''='') tok of
        None \<Rightarrow> False
      | Some eq \<Rightarrow>
          (let name = take eq tok
           in name \<noteq> [] \<and> ident_start (hd name) \<and> list_all ident_char name))"

definition is_path_sep :: "char \<Rightarrow> bool" where
  "is_path_sep c \<longleftrightarrow> c = CHR ''/'' \<or> c = CHR 0x5C"

text \<open>\<open>shell_program_name\<close> and the inlined \<open>rsplit(['/', '\']).next()\<close>.\<close>

definition shell_program_name :: "string \<Rightarrow> string" where
  "shell_program_name word = last_segment is_path_sep word"

text \<open>
  The loop of \<open>env_scan\<close>: the last \<open>--chdir\<close> target so far and the index reached.  An option
  of \<open>env\<close> takes one word, or two when its value is the next word.
\<close>

definition env_option :: "string \<Rightarrow> string option \<Rightarrow> string option \<Rightarrow> string option \<times> nat" where
  "env_option tok next_word chdir =
     (if tok = ''-C'' \<or> tok = ''--chdir'' then (next_word, 2)
      else case strip_prefix tok ''--chdir='' of
             Some dir \<Rightarrow> (Some dir, 1)
           | None \<Rightarrow>
               (case opt_filter (\<lambda>d. d \<noteq> []) (strip_prefix tok ''-C'') of
                  Some dir \<Rightarrow> (Some dir, 1)
                | None \<Rightarrow>
                    (chdir, if tok \<in> set [''-u'', ''--unset'', ''-S'', ''--split-string''] then 2 else 1)))"

lemma env_option_pos: "env_option tok nxt chdir = (d, k) \<Longrightarrow> 0 < k"
  by (auto simp: env_option_def split: if_splits option.splits)

function env_scan_from :: "string list \<Rightarrow> string option \<Rightarrow> nat \<Rightarrow> string option \<times> nat" where
  "env_scan_from cmd chdir i =
     (if length cmd \<le> i then (chdir, i)
      else if cmd ! i = ''--'' then (chdir, Suc i)
      else if cmd ! i \<noteq> ''-'' \<and> starts_with (cmd ! i) ''-'' then
        (case env_option (cmd ! i) (get_at cmd (Suc i)) chdir of
           (chdir', k) \<Rightarrow> env_scan_from cmd chdir' (i + k))
      else if is_env_assignment (cmd ! i) then env_scan_from cmd chdir (Suc i)
      else (chdir, i))"
  by pat_completeness auto
termination
  by (relation "measure (\<lambda>(cmd, chdir, i). length cmd - i)") (auto dest!: sym [THEN env_option_pos])

declare env_scan_from.simps [simp del]

definition env_scan :: "string list \<Rightarrow> string option \<times> nat" where
  "env_scan cmd = env_scan_from cmd None 1"

text \<open>The option loops of the other wrappers: options with a separate value skip two words.\<close>

function skip_options :: "string list \<Rightarrow> string list \<Rightarrow> nat \<Rightarrow> nat" where
  "skip_options valued cmd i =
     (if i < length cmd \<and> starts_with (cmd ! i) ''-''
      then skip_options valued cmd (if cmd ! i \<in> set valued then i + 2 else i + 1)
      else i)"
  by pat_completeness auto
termination
  by (relation "measure (\<lambda>(valued, cmd, i). length cmd - i)") auto

declare skip_options.simps [simp del]

text \<open>A mandatory operand (the duration of \<open>timeout\<close>, the priority of \<open>chrt\<close>).\<close>

definition skip_operand :: "string list \<Rightarrow> nat \<Rightarrow> nat option" where
  "skip_operand cmd i = (if length cmd \<le> i then None else Some (Suc i))"

definition wrapper_args_end :: "string \<Rightarrow> string list \<Rightarrow> nat option" where
  "wrapper_args_end head cmd =
     (if head = ''timeout'' then
        skip_operand cmd (skip_options [''-k'', ''-s'', ''--kill-after'', ''--signal''] cmd 1)
      else if head = ''nice'' then Some (skip_options [''-n'', ''--adjustment''] cmd 1)
      else if head = ''ionice'' then
        Some (skip_options [''-c'', ''-n'', ''-p'', ''-P'', ''-u'', ''--class'', ''--classdata'',
                ''--pid'', ''--pgid'', ''--uid''] cmd 1)
      else if head = ''chrt'' then skip_operand cmd (skip_options [] cmd 1)
      else if head = ''stdbuf'' then Some (skip_options [''-i'', ''-o'', ''-e''] cmd 1)
      else if head = ''env'' then Some (snd (env_scan cmd))
      else None)"

definition strip_wrapper_command :: "string list \<Rightarrow> string list option" where
  "strip_wrapper_command cmd =
     (case cmd of
        [] \<Rightarrow> None
      | w # _ \<Rightarrow>
          (case wrapper_args_end (shell_program_name w) cmd of
             None \<Rightarrow> None
           | Some i \<Rightarrow> opt_filter (\<lambda>inner. inner \<noteq> []) (get_from cmd i)))"

definition wrapper_names :: "string list" where
  "wrapper_names = [''timeout'', ''nice'', ''ionice'', ''chrt'', ''stdbuf'', ''env'']"

definition is_wrapper_command :: "string list \<Rightarrow> bool" where
  "is_wrapper_command words = (case words of [] \<Rightarrow> False | w # _ \<Rightarrow> shell_program_name w \<in> set wrapper_names)"

fun unwrap_upto :: "nat \<Rightarrow> string list \<Rightarrow> string list" where
  "unwrap_upto 0 cur = cur"
| "unwrap_upto (Suc n) cur =
     (case strip_wrapper_command cur of Some inner \<Rightarrow> unwrap_upto n inner | None \<Rightarrow> cur)"

definition unwrap_wrappers :: "string list \<Rightarrow> string list" where
  "unwrap_wrappers words = unwrap_upto 8 words"

fun has_chdir_upto :: "nat \<Rightarrow> string list \<Rightarrow> bool" where
  "has_chdir_upto 0 cur = False"
| "has_chdir_upto (Suc n) cur =
     ((case cur of [] \<Rightarrow> False
       | w # _ \<Rightarrow> shell_program_name w = ''env'' \<and> fst (env_scan cur) \<noteq> None) \<or>
      (case strip_wrapper_command cur of Some inner \<Rightarrow> has_chdir_upto n inner | None \<Rightarrow> False))"

definition wrapper_has_chdir :: "string list \<Rightarrow> bool" where
  "wrapper_has_chdir words = has_chdir_upto 8 words"

section \<open>The display splitter\<close>

function sh_split_from :: "bool \<Rightarrow> bool \<Rightarrow> string \<Rightarrow> string \<Rightarrow> string list" where
  "sh_split_from in_single in_double cur [] = (if cur = [] then [] else [cur])"
| "sh_split_from in_single in_double cur (c # cs) =
     (if c = CHR 0x27 \<and> \<not> in_double then sh_split_from (\<not> in_single) in_double cur cs
      else if c = CHR 0x22 \<and> \<not> in_single then sh_split_from in_single (\<not> in_double) cur cs
      else if c = CHR 0x5C then
        (case cs of
           [] \<Rightarrow> sh_split_from in_single in_double cur []
         | d # ds \<Rightarrow> sh_split_from in_single in_double (cur @ [d]) ds)
      else if \<not> in_single \<and> \<not> in_double \<and> skip_ws (c # cs) \<noteq> None then
        (if cur = [] then [] else [cur]) @ sh_split_from in_single in_double [] (the (skip_ws (c # cs)))
      else sh_split_from in_single in_double (cur @ [c]) cs)"
  by pat_completeness auto
termination
  by (relation "measure (\<lambda>(a, b, cur, s). length s)") (auto, frule skip_ws_shorter, simp)

definition sh_split_simple :: "string \<Rightarrow> string list" where
  "sh_split_simple s = sh_split_from False False [] s"

section \<open>What stripping a wrapper leaves\<close>

lemma skip_options_ge: "i \<le> skip_options valued cmd i"
proof (induction valued cmd i rule: skip_options.induct)
  case (1 valued cmd i)
  then show ?case by (subst skip_options.simps) (auto split: if_splits)
qed

lemma env_scan_ge: "i \<le> snd (env_scan_from cmd chdir i)"
proof (induction cmd chdir i rule: env_scan_from.induct)
  case (1 cmd chdir i)
  obtain chdir' k where e: "env_option (cmd ! i) (get_at cmd (Suc i)) chdir = (chdir', k)" by fastforce
  have a: "i \<le> snd (env_scan_from cmd chdir' (i + k))"
    if "\<not> length cmd \<le> i" "cmd ! i \<noteq> ''--''" "cmd ! i \<noteq> ''-'' \<and> starts_with (cmd ! i) ''-''"
    using "1.IH"(1) [OF that e [symmetric]] by linarith
  have b: "i \<le> snd (env_scan_from cmd chdir (Suc i))"
    if "\<not> length cmd \<le> i" "cmd ! i \<noteq> ''--''" "\<not> (cmd ! i \<noteq> ''-'' \<and> starts_with (cmd ! i) ''-'')"
      "is_env_assignment (cmd ! i)"
    using "1.IH"(2) [OF that] by linarith
  show ?case
    unfolding env_scan_from.simps [of cmd chdir i] e using a b by (simp split del: if_split split: if_splits)
qed

lemma skip_operand_pos: "skip_operand cmd i = Some j \<Longrightarrow> 0 < j"
  by (auto simp: skip_operand_def split: if_splits)

lemma wrapper_args_end_pos: "wrapper_args_end h cmd = Some i \<Longrightarrow> 0 < i"
proof -
  have o: "0 < skip_options v cmd 1" for v using skip_options_ge [of 1 v cmd] by linarith
  have e: "0 < snd (env_scan cmd)" using env_scan_ge [of 1 cmd None] by (simp add: env_scan_def)
  show "wrapper_args_end h cmd = Some i \<Longrightarrow> 0 < i"
    unfolding wrapper_args_end_def
    by (simp only: o e option.inject option.distinct split: if_split_asm) (metis o e skip_operand_pos)+
qed

lemma strip_wrapper_suffix:
  "strip_wrapper_command cmd = Some inner \<Longrightarrow> inner \<noteq> [] \<and> strict_suffix inner cmd"
proof -
  assume "strip_wrapper_command cmd = Some inner"
  then obtain h i where i: "wrapper_args_end h cmd = Some i" "inner = drop i cmd" "inner \<noteq> []"
    by (auto simp: strip_wrapper_command_def get_from_def split: list.splits option.splits if_splits)
  then have "0 < i" "i < length cmd" using wrapper_args_end_pos by auto
  then show ?thesis using i(2,3) by (auto simp: strict_suffix_def suffix_drop dest: arg_cong [of _ _ length])
qed

lemma strip_wrapper_named: "strip_wrapper_command cmd = Some inner \<Longrightarrow> is_wrapper_command cmd"
  by (auto simp: strip_wrapper_command_def is_wrapper_command_def wrapper_args_end_def wrapper_names_def
      split: list.splits option.splits if_splits)

lemma unwrap_upto_suffix: "suffix (unwrap_upto n cmd) cmd"
proof (induction n arbitrary: cmd)
  case (Suc n)
  show ?case
  proof (cases "strip_wrapper_command cmd")
    case (Some inner)
    then show ?thesis
      using Suc [of inner] strip_wrapper_suffix [OF Some] suffix_order.trans
      by (auto simp: strict_suffix_def)
  qed simp
qed simp

lemma unwrap_upto_nonempty: "cmd \<noteq> [] \<Longrightarrow> unwrap_upto n cmd \<noteq> []"
  by (induction n arbitrary: cmd) (auto dest: strip_wrapper_suffix split: option.splits)

lemma unwrap_upto_done:
  "strip_wrapper_command (unwrap_upto n cmd) \<noteq> None \<Longrightarrow>
   length (unwrap_upto n cmd) + n \<le> length cmd"
proof (induction n arbitrary: cmd)
  case (Suc n)
  show ?case
  proof (cases "strip_wrapper_command cmd")
    case None
    then show ?thesis using Suc.prems by simp
  next
    case (Some inner)
    then have "length inner < length cmd"
      using strip_wrapper_suffix [OF Some] suffix_length_less by blast
    then show ?thesis using Suc Some by fastforce
  qed
qed simp

text \<open>Peeling wrappers never invents or drops words at the end of a command: the result is a
  non-empty suffix of the words, and no wrapper is left at its head unless eight were peeled.\<close>

theorem unwrap_reaches_program:
  assumes "words \<noteq> []"
  shows "unwrap_wrappers words \<noteq> [] \<and> suffix (unwrap_wrappers words) words \<and>
    (strip_wrapper_command (unwrap_wrappers words) = None \<or>
     length (unwrap_wrappers words) + 8 \<le> length words)"
  unfolding unwrap_wrappers_def
  using unwrap_upto_nonempty [OF assms] unwrap_upto_suffix unwrap_upto_done by blast

theorem unwrap_reaches_program_witness:
  "suffix (unwrap_wrappers [''timeout'', ''-k'', ''5'', ''30'', ''rm'', ''-rf'', ''/'']) [''timeout'', ''-k'', ''5'', ''30'', ''rm'', ''-rf'', ''/'']"
  using unwrap_reaches_program [of "[''timeout'', ''-k'', ''5'', ''30'', ''rm'', ''-rf'', ''/'']"] by blast

section \<open>Chains of \<open>env\<close>\<close>

text \<open>A word that starts a command: no option of a wrapper and no assignment.\<close>

definition program_word :: "string \<Rightarrow> bool" where
  "program_word w \<longleftrightarrow> \<not> starts_with w ''-'' \<and> \<not> is_env_assignment w"

lemma env_scan_program: "program_word w \<Longrightarrow> env_scan (''env'' # w # ws) = (None, 1)"
  unfolding env_scan_def
  by (subst env_scan_from.simps) (auto simp: program_word_def)

lemma program_name_env [simp]: "shell_program_name ''env'' = ''env''"
  by (rule last_segment_id [of _ is_path_sep, folded shell_program_name_def]) (auto simp: is_path_sep_def)

lemma strip_env:
  assumes "program_word w"
  shows "strip_wrapper_command (''env'' # w # ws) = Some (w # ws)"
proof -
  have "wrapper_args_end ''env'' (''env'' # w # ws) = Some 1"
    using env_scan_program [OF assms] by (simp add: wrapper_args_end_def)
  then show ?thesis by (simp add: strip_wrapper_command_def get_from_def)
qed

lemma program_word_env [simp]: "program_word ''env''"
  by (simp add: program_word_def is_env_assignment_def)

lemma unwrap_env_chain:
  assumes "program_word w" "\<not> is_wrapper_command (w # ws)"
  shows "unwrap_upto n (replicate k ''env'' @ w # ws) = replicate (k - n) ''env'' @ w # ws"
proof (induction n arbitrary: k)
  case (Suc n)
  show ?case
  proof (cases k)
    case 0
    have "strip_wrapper_command (w # ws) = None" using strip_wrapper_named assms(2) by fastforce
    with 0 show ?thesis by simp
  next
    case (Suc k')
    then obtain v vs where v: "replicate k' ''env'' @ w # ws = v # vs" "program_word v"
      using assms(1) program_word_env by (cases k') (auto simp del: program_word_env)
    then show ?thesis using Suc Suc.IH [of k'] strip_env [of v vs] by simp
  qed
qed simp

text \<open>The bound on peeling is a bound on what the gates see: of a chain of \<open>k\<close> times \<open>env\<close>
  exactly the first eight are peeled, so a program behind at most eight of them is found and
  one behind nine or more stays hidden behind an \<open>env\<close>.\<close>

theorem env_chain_peeled_to_eight:
  assumes "program_word w" "\<not> is_wrapper_command (w # ws)"
  shows "unwrap_wrappers (replicate k ''env'' @ w # ws) = replicate (k - 8) ''env'' @ w # ws"
  unfolding unwrap_wrappers_def by (rule unwrap_env_chain [OF assms])

lemma program_name_rm [simp]: "shell_program_name ''rm'' = ''rm''"
  by (rule last_segment_id [of _ is_path_sep, folded shell_program_name_def]) (auto simp: is_path_sep_def)

theorem env_chain_peeled_to_eight_witness:
  "unwrap_wrappers (replicate 9 ''env'' @ ''rm'' # [''-rf'', ''/'']) = [''env'', ''rm'', ''-rf'', ''/'']"
proof -
  have "program_word ''rm''" by (simp add: program_word_def is_env_assignment_def)
  moreover have "\<not> is_wrapper_command (''rm'' # [''-rf'', ''/''])"
    by (simp add: is_wrapper_command_def wrapper_names_def)
  ultimately have "unwrap_wrappers (replicate 9 ''env'' @ ''rm'' # [''-rf'', ''/'']) =
      replicate (9 - 8) ''env'' @ ''rm'' # [''-rf'', ''/'']"
    by (rule env_chain_peeled_to_eight)
  then show ?thesis by simp
qed

section \<open>Splitting joined words\<close>

definition plain_char :: "char \<Rightarrow> bool" where
  "plain_char c \<longleftrightarrow> visible c \<and> c \<noteq> CHR 0x27 \<and> c \<noteq> CHR 0x22 \<and> c \<noteq> CHR 0x5C"

lemma sh_split_plain:
  "list_all plain_char w \<Longrightarrow> sh_split_from False False cur (w @ s) = sh_split_from False False (cur @ w) s"
  by (induction w arbitrary: cur) (auto simp: plain_char_def)

lemma sh_split_space:
  "cur \<noteq> [] \<Longrightarrow> sh_split_from False False cur (CHR '' '' # s) = cur # sh_split_from False False [] s"
  by (simp add: skip_ws_def ascii_ws_def Let_def)

text \<open>The display splitter inverts joining: words of plain characters joined by blanks are
  split into the same words.\<close>

theorem sh_split_join:
  assumes "\<forall>w \<in> set ws. w \<noteq> [] \<and> list_all plain_char w"
  shows "sh_split_simple (join_with '' '' ws) = ws"
  unfolding sh_split_simple_def using assms
proof (induction ws rule: induct_list012)
  case (2 w)
  then show ?case using sh_split_plain [of w "[]" "[]"] by simp
next
  case (3 v w ws)
  then show ?case
    using sh_split_plain [of v "[]" "CHR '' '' # join_with '' '' (w # ws)"]
      sh_split_space [of v "join_with '' '' (w # ws)"] by simp
qed simp

theorem sh_split_join_witness:
  "sh_split_simple ''cargo run --bin x'' = [''cargo'', ''run'', ''--bin'', ''x'']"
proof -
  have "sh_split_simple (join_with '' '' [''cargo'', ''run'', ''--bin'', ''x'']) = [''cargo'', ''run'', ''--bin'', ''x'']"
    by (rule sh_split_join) (simp add: plain_char_def visible_def ascii_ws_def Let_def)
  then show ?thesis by simp
qed

end
