(* ===== verification/SyntaxTree.thy ===== *)
theory SyntaxTree
  imports ShellWords "HOL-Library.Multiset"
begin

text \<open>
  \<open>permission/bash_command_splitting.rs\<close>, the part on syntax trees: the decomposition of a
  script into plain commands, and the display soft-breaks.  The tree is what
  \<open>tree_sitter_bash\<close> returns (\<open>parse_shell\<close> of the externals); its byte ranges lie on
  character boundaries of the source, so \<open>utf8_text\<close> is a slice.
\<close>

section \<open>Walking a tree\<close>

definition node_text :: "string \<Rightarrow> node \<Rightarrow> string" where
  "node_text src n = take (end_byte n - start_byte n) (drop (start_byte n) src)"

definition named_children :: "node \<Rightarrow> node list" where
  "named_children n = filter is_named (children n)"

definition child_by_field :: "string \<Rightarrow> node \<Rightarrow> node option" where
  "child_by_field f n = find (\<lambda>c. field_name c = Some f) (children n)"

text \<open>
  A node in its tree: the enclosing nodes, innermost first, each with the index of the child
  that leads to the node.  The explicit-stack loops of the code pop the last child first.
\<close>

type_synonym place = "node \<times> (node \<times> nat) list"

definition child_places :: "place \<Rightarrow> place list" where
  "child_places p = map (\<lambda>i. (children (fst p) ! i, (fst p, i) # snd p)) [0..<length (children (fst p))]"

definition stack_size :: "place list \<Rightarrow> nat" where
  "stack_size st = sum_list (map (size \<circ> fst) st)"

lemma stack_size_simps [simp]:
  "stack_size [] = 0" "stack_size (p # st) = size (fst p) + stack_size st"
  "stack_size (st @ st') = stack_size st + stack_size st'" "stack_size (rev st) = stack_size st"
  by (simp_all add: stack_size_def rev_map [symmetric])

lemma child_places_fst: "map fst (child_places p) = children (fst p)"
  by (rule nth_equalityI) (simp_all add: child_places_def)

lemma child_places_size: "stack_size (child_places p) < size (fst p)"
proof -
  have "stack_size (child_places p) = sum_list (map size (children (fst p)))"
    using child_places_fst [of p] by (metis map_map stack_size_def)
  also have "\<dots> \<le> size_list size (children (fst p))"
    by (induction "children (fst p)" arbitrary: p) (auto simp: size_list_conv_sum_list sum_list_mono)
  also have "\<dots> < size (fst p)" by (cases "fst p") simp
  finally show ?thesis .
qed

function walk :: "place list \<Rightarrow> place list" where
  "walk [] = []"
| "walk (p # st) = p # walk (rev (child_places p) @ st)"
  by pat_completeness auto
termination
  by (relation "measure stack_size") (auto simp: child_places_size)

definition walk_nodes :: "node \<Rightarrow> node list" where
  "walk_nodes root = map fst (walk [(root, [])])"

text \<open>The nodes of a tree, defined on its structure.\<close>

fun all_nodes :: "node \<Rightarrow> node list" where
  "all_nodes (Node k nm f a b e cs) = Node k nm f a b e cs # concat (map all_nodes cs)"

lemma all_nodes_unfold: "all_nodes n = n # concat (map all_nodes (children n))"
  by (cases n) simp

declare all_nodes.simps [simp del]

lemma walk_mset: "mset (map fst (walk st)) = mset (concat (map (all_nodes \<circ> fst) st))"
proof (induction st rule: walk.induct)
  case (2 p st)
  have "mset (concat (map (all_nodes \<circ> fst) (rev (child_places p)))) =
      mset (concat (map all_nodes (children (fst p))))"
    unfolding child_places_fst [of p, symmetric] by (simp add: mset_concat rev_map [symmetric])
  then show ?case using 2 all_nodes_unfold [of "fst p"] by (simp add: comp_def)
qed simp

lemma walk_nodes_mset: "mset (walk_nodes root) = mset (all_nodes root)"
  using walk_mset [of "[(root, [])]"] by (simp add: walk_nodes_def)

lemma walk_nodes_set: "set (walk_nodes root) = set (all_nodes root)"
  using walk_nodes_mset [THEN arg_cong [of _ _ set_mset]] by simp

section \<open>Plain commands\<close>

record highlights =
  hl_prefix :: "string list"
  hl_words :: "string list"
  hl_suffix :: "string list"

record plain_command =
  pc_words :: "string list"
  pc_start :: nat
  pc_end :: nat

definition dquote :: string where "dquote = [CHR 0x22]"
definition squote :: string where "squote = [CHR 0x27]"

definition ALLOWED_KINDS :: "string list" where
  "ALLOWED_KINDS =
     [''program'', ''list'', ''pipeline'',
      ''command'', ''command_name'', ''word'', ''string'', ''string_content'', ''raw_string'',
      ''number'', ''concatenation'', ''variable_assignment'', ''variable_name'',
      ''redirected_statement'', ''file_redirect'', ''file_descriptor'', ''comment'',
      ''heredoc_redirect'', ''heredoc_start'', ''heredoc_body'', ''heredoc_content'',
      ''heredoc_end'']"

definition ALLOWED_PUNCT_TOKENS :: "string list" where
  "ALLOWED_PUNCT_TOKENS =
     [''&&'', ''||'', '';'', ''|'', dquote, squote, ''='', ''>'', ''>>'', ''<'', ''<<'', ''>&'',
      ''&>'', ''&>>'']"

definition node_allowed :: "node \<Rightarrow> bool" where
  "node_allowed n =
     (let k = kind n in
      if is_named n then k \<in> set ALLOWED_KINDS
      else
        \<not> (list_ex (\<lambda>c. c \<in> set ''&;|'') k \<and> k \<notin> set ALLOWED_PUNCT_TOKENS) \<and>
        (k \<in> set ALLOWED_PUNCT_TOKENS \<or> trim k = []))"

text \<open>One child of a command: \<open>None\<close> rejects the command, \<open>Some None\<close> skips the child,
  \<open>Some (Some (text, n))\<close> is a word whose span is that of the node \<open>n\<close>.\<close>

definition plain_child :: "string \<Rightarrow> node \<Rightarrow> (string \<times> node) option option" where
  "plain_child src child =
     (let k = kind child in
      if k = ''variable_assignment'' then Some None
      else if k = ''command_name'' then
        (case first_opt (named_children child) of
           None \<Rightarrow> None
         | Some w \<Rightarrow> if kind w \<noteq> ''word'' then None else Some (Some (node_text src w, w)))
      else if k = ''word'' \<or> k = ''number'' then Some (Some (node_text src child, child))
      else if k = ''string'' then
        (case children child of
           [a, b, c] \<Rightarrow>
             if kind a = dquote \<and> kind b = ''string_content'' \<and> kind c = dquote
             then Some (Some (node_text src b, child)) else None
         | _ \<Rightarrow> None)
      else if k = ''raw_string'' then
        (case strip_prefix (node_text src child) squote of
           None \<Rightarrow> None
         | Some t \<Rightarrow>
             (case strip_suffix t squote of None \<Rightarrow> None | Some u \<Rightarrow> Some (Some (u, child))))
      else if k = ''concatenation'' then Some (Some (node_text src child, child))
      else None)"

fun plain_children ::
    "string \<Rightarrow> node list \<Rightarrow> string list \<times> nat option \<times> nat option \<Rightarrow>
     (string list \<times> nat option \<times> nat option) option" where
  "plain_children src [] acc = Some acc"
| "plain_children src (c # cs) (words, span_start, span_end) =
     (case plain_child src c of
        None \<Rightarrow> None
      | Some None \<Rightarrow> plain_children src cs (words, span_start, span_end)
      | Some (Some (t, n)) \<Rightarrow>
          plain_children src cs
            (words @ [t], opt_or span_start (Some (start_byte n)), Some (end_byte n)))"

definition parse_plain_command_from_node :: "string \<Rightarrow> node \<Rightarrow> plain_command option" where
  "parse_plain_command_from_node src cmd =
     (if kind cmd \<noteq> ''command'' then None
      else case plain_children src (named_children cmd) ([], None, None) of
             None \<Rightarrow> None
           | Some (words, span_start, span_end) \<Rightarrow>
               Some \<lparr>pc_words = words,
                     pc_start = (case span_start of Some i \<Rightarrow> i | None \<Rightarrow> start_byte cmd),
                     pc_end = (case span_end of Some i \<Rightarrow> i | None \<Rightarrow> end_byte cmd)\<rparr>)"

text \<open>The stack loop: the command nodes in the order they are popped, or \<open>None\<close> at the first
  node outside the allowlist.\<close>

fun collect_commands :: "node list \<Rightarrow> node list \<Rightarrow> node list option" where
  "collect_commands [] found = Some found"
| "collect_commands (n # ns) found =
     (if \<not> node_allowed n then None
      else collect_commands ns
             (if is_named n \<and> kind n = ''command'' then found @ [n] else found))"

fun parse_all :: "string \<Rightarrow> node list \<Rightarrow> plain_command list \<Rightarrow> plain_command list option" where
  "parse_all src [] cmds = Some cmds"
| "parse_all src (n # ns) cmds =
     (case parse_plain_command_from_node src n of
        Some cmd \<Rightarrow> parse_all src ns (cmds @ [cmd])
      | None \<Rightarrow> None)"

definition try_parse_word_only_commands_sequence ::
    "node \<Rightarrow> string \<Rightarrow> plain_command list option" where
  "try_parse_word_only_commands_sequence root src =
     (if has_error root then None
      else case collect_commands (walk_nodes root) [] of
             None \<Rightarrow> None
           | Some command_nodes \<Rightarrow> parse_all src (sort_key start_byte command_nodes) [])"

definition all_commands_from_script :: "externals \<Rightarrow> string \<Rightarrow> plain_command list option" where
  "all_commands_from_script X script =
     (case parse_shell X script of
        None \<Rightarrow> None
      | Some root \<Rightarrow> try_parse_word_only_commands_sequence root script)"

definition primary_command_from_script :: "externals \<Rightarrow> string \<Rightarrow> highlights option" where
  "primary_command_from_script X script =
     (case all_commands_from_script X script of
        None \<Rightarrow> None
      | Some commands \<Rightarrow>
          (case find (\<lambda>c. \<not> is_setup_command (pc_words c)) commands of
             None \<Rightarrow> None
           | Some primary \<Rightarrow>
               Some \<lparr>hl_prefix = sh_split_simple (take (pc_start primary) script),
                     hl_words = pc_words primary,
                     hl_suffix = sh_split_simple (drop (pc_end primary) script)\<rparr>))"

section \<open>What a successful decomposition means\<close>

definition is_command_node :: "node \<Rightarrow> bool" where
  "is_command_node n \<longleftrightarrow> is_named n \<and> kind n = ''command''"

lemma collect_commands_eq:
  "collect_commands ns found =
   (if list_all node_allowed ns then Some (found @ filter is_command_node ns) else None)"
  by (induction ns arbitrary: found) (auto simp: is_command_node_def)

lemma parse_all_SomeD:
  "parse_all src ns acc = Some out \<Longrightarrow>
   \<exists>cmds. out = acc @ cmds \<and> list_all2 (\<lambda>n c. parse_plain_command_from_node src n = Some c) ns cmds"
proof (induction ns arbitrary: acc)
  case (Cons n ns)
  then obtain c where c: "parse_plain_command_from_node src n = Some c"
    "parse_all src ns (acc @ [c]) = Some out"
    by (auto split: option.splits)
  then obtain cmds where "out = (acc @ [c]) @ cmds"
    "list_all2 (\<lambda>n c. parse_plain_command_from_node src n = Some c) ns cmds"
    using Cons.IH by blast
  with c(1) show ?case by (intro exI [of _ "c # cmds"]) simp
qed simp

text \<open>C10. A script is decomposed only if it is harmless to decompose: no syntax error, no node
  outside the allowlist anywhere in the tree (so no substitution, subshell, function, or control
  flow), and then every command node of the tree, in source order, is one of the returned
  commands: nothing the shell would run as a simple command is left out.\<close>

theorem decomposition_is_complete:
  assumes "try_parse_word_only_commands_sequence root src = Some cmds"
  shows "\<not> has_error root \<and> (\<forall>n \<in> set (all_nodes root). node_allowed n) \<and>
    (\<exists>ns. mset ns = mset (filter is_command_node (all_nodes root)) \<and> sorted (map start_byte ns) \<and>
      list_all2 (\<lambda>n c. parse_plain_command_from_node src n = Some c) ns cmds)"
proof -
  let ?ns = "sort_key start_byte (filter is_command_node (walk_nodes root))"
  have ok: "\<not> has_error root" "list_all node_allowed (walk_nodes root)" "parse_all src ?ns [] = Some cmds"
    using assms by (auto simp: try_parse_word_only_commands_sequence_def collect_commands_eq
        split: if_splits)
  have "list_all2 (\<lambda>n c. parse_plain_command_from_node src n = Some c) ?ns cmds"
    using parse_all_SomeD [OF ok(3)] by simp
  moreover have "mset ?ns = mset (filter is_command_node (all_nodes root))"
    by (simp add: walk_nodes_mset mset_filter)
  ultimately show ?thesis
    using ok(1,2) by (auto simp: list_all_iff walk_nodes_set intro!: exI [of _ ?ns])
qed

definition ls_tree :: node where
  "ls_tree = Node ''program'' True None 0 2 False
     [Node ''command'' True None 0 2 False
       [Node ''command_name'' True (Some ''name'') 0 2 False
         [Node ''word'' True None 0 2 False []]]]"

lemma ls_tree_commands:
  "try_parse_word_only_commands_sequence ls_tree ''ls'' = Some [\<lparr>pc_words = [''ls''], pc_start = 0, pc_end = 2\<rparr>]"
  by code_simp

theorem decomposition_is_complete_witness:
  "node_allowed ls_tree"
  using decomposition_is_complete [OF ls_tree_commands] all_nodes_unfold [of ls_tree] by auto

text \<open>Kinds that execute other code are outside the allowlist.\<close>

lemma no_hidden_code:
  "node_allowed n \<Longrightarrow> is_named n \<Longrightarrow>
   kind n \<notin> {''command_substitution'', ''process_substitution'', ''subshell'', ''expansion'',
     ''simple_expansion'', ''function_definition'', ''for_statement'', ''while_statement'',
     ''if_statement'', ''case_statement'', ''declaration_command''}"
  by (auto simp: node_allowed_def ALLOWED_KINDS_def Let_def)

section \<open>Soft-breaks\<close>

definition PAYLOAD_NODE_KINDS :: "string list" where
  "PAYLOAD_NODE_KINDS =
     [''heredoc_body'', ''simple_heredoc_body'', ''heredoc_content'', ''heredoc_end'',
      ''string'', ''raw_string'', ''string_content'', ''ansi_c_string'', ''translated_string'',
      ''comment'']"

definition is_soft_break_operator_kind :: "string \<Rightarrow> bool" where
  "is_soft_break_operator_kind k \<longleftrightarrow> k \<in> set [''&&'', ''||'', ''|'', '';'']"

definition is_payload_node_kind :: "string \<Rightarrow> bool" where
  "is_payload_node_kind k \<longleftrightarrow> k \<in> set PAYLOAD_NODE_KINDS"

text \<open>A walk in source order that does not enter the nodes satisfying the predicate.\<close>

fun pruned_nodes :: "(node \<Rightarrow> bool) \<Rightarrow> node \<Rightarrow> node list" where
  "pruned_nodes stop (Node k nm f a b e cs) =
     Node k nm f a b e cs #
       (if stop (Node k nm f a b e cs) then [] else concat (map (pruned_nodes stop) cs))"

definition soft_break_offsets_after_operators :: "externals \<Rightarrow> string \<Rightarrow> nat list" where
  "soft_break_offsets_after_operators X script =
     (case parse_shell X script of
        None \<Rightarrow> []
      | Some root \<Rightarrow>
          (if has_error root then []
           else remdups_adj (sort (map end_byte (filter
                  (\<lambda>n. \<not> is_payload_node_kind (kind n) \<and> is_soft_break_operator_kind (kind n) \<and>
                       0 < end_byte n \<and> end_byte n \<le> length script \<and> is_char_boundary script (end_byte n))
                  (pruned_nodes (\<lambda>n. is_payload_node_kind (kind n)) root))))))"

definition HEREDOC_PAYLOAD :: "string list" where
  "HEREDOC_PAYLOAD = [''heredoc_body'', ''simple_heredoc_body'', ''heredoc_content'']"

text \<open>Pairs of offsets are sorted lexicographically, as tuples are in Rust.\<close>

definition heredoc_payload_byte_ranges :: "externals \<Rightarrow> string \<Rightarrow> (nat \<times> nat) list" where
  "heredoc_payload_byte_ranges X script =
     (case parse_shell X script of
        None \<Rightarrow> []
      | Some root \<Rightarrow>
          (if has_error root then []
           else remdups_adj (sort_key fst (sort_key snd (map (\<lambda>n. (start_byte n, end_byte n)) (filter
                  (\<lambda>n. kind n \<in> set HEREDOC_PAYLOAD \<and> start_byte n < end_byte n \<and>
                       end_byte n \<le> length script)
                  (pruned_nodes (\<lambda>n. kind n \<in> set HEREDOC_PAYLOAD) root)))))))"

definition range_fully_inside :: "nat \<Rightarrow> nat \<Rightarrow> (nat \<times> nat) list \<Rightarrow> bool" where
  "range_fully_inside start stop ranges =
     (if stop < start then False else list_ex (\<lambda>(rs, re). rs \<le> start \<and> stop \<le> re) ranges)"

text \<open>The chunk loops: cut at each break that lies beyond the last cut.\<close>

fun cut_at :: "string \<Rightarrow> nat \<Rightarrow> nat list \<Rightarrow> string list" where
  "cut_at s start [] = (if start < length s then [drop start s] else [])"
| "cut_at s start (b # bs) =
     (if start < b \<and> b \<le> length s then take (b - start) (drop start s) # cut_at s b bs
      else cut_at s start bs)"

definition split_physical_line_at_soft_breaks :: "string \<Rightarrow> nat \<Rightarrow> nat list \<Rightarrow> string list" where
  "split_physical_line_at_soft_breaks line line_start breaks =
     (let rel = remdups_adj (filter (is_char_boundary line) (map (\<lambda>b. b - line_start)
                  (filter (\<lambda>b. line_start < b \<and> b < line_start + length line) breaks)))
      in if rel = [] then [line]
         else (let chunks = cut_at line 0 rel in if chunks = [] then [line] else chunks))"

definition soft_break_chunks :: "externals \<Rightarrow> string \<Rightarrow> string list" where
  "soft_break_chunks X script =
     (let breaks = soft_break_offsets_after_operators X script
      in if breaks = [] then [script] else cut_at script 0 breaks)"

lemma concat_cut_at: "concat (cut_at s start bs) = drop start s"
proof (induction bs arbitrary: start)
  case (Cons b bs)
  have "take (b - start) (drop start s) @ drop b s = drop start s" if "start < b"
    using that append_take_drop_id [of "b - start" "drop start s"] by simp
  with Cons show ?case by simp
qed simp

text \<open>Wrapping a command for display never changes it: the chunks of a script, and those of
  each of its lines, concatenate to the text they were cut from.\<close>

theorem soft_breaks_preserve_text:
  "concat (soft_break_chunks X script) = script \<and>
   concat (split_physical_line_at_soft_breaks line line_start breaks) = line"
  by (auto simp: soft_break_chunks_def split_physical_line_at_soft_breaks_def Let_def concat_cut_at)

end
