(* ===== verification/WebDomain.thy ===== *)
theory WebDomain
  imports PermTypes
begin

text \<open>
  \<open>web_fetch/domain.rs\<close> of the tools crate: canonical domains and the allowlist of the fetch
  tool.  A parsed URL is what \<open>host_str\<close> and \<open>path\<close> return for it.
\<close>

section \<open>Operations\<close>

definition trim_end_matches :: "char \<Rightarrow> string \<Rightarrow> string" where
  "trim_end_matches c s = rev (dropWhile (\<lambda>x. x = c) (rev s))"

definition normalize_domain :: "externals \<Rightarrow> string \<Rightarrow> string" where
  "normalize_domain X raw =
     (let s = trim_end_matches (CHR ''.'') (trim_end_matches (CHR ''/'') (trim raw));
          s = (case strip_prefix s ''www.'' of Some t \<Rightarrow> t | None \<Rightarrow> s)
      in to_lowercase X s)"

datatype host_entry = AnyPath | PathPrefixes "string list"

type_synonym domain_matcher = "string \<rightharpoonup> host_entry"

record url =
  host_str :: "string option"
  url_path :: string

definition add_prefix :: "string \<Rightarrow> host_entry \<Rightarrow> host_entry" where
  "add_prefix p e =
     (case e of PathPrefixes v \<Rightarrow> (if p \<in> set v then e else PathPrefixes (v @ [p]))
      | AnyPath \<Rightarrow> AnyPath)"

definition matcher_add :: "externals \<Rightarrow> string \<Rightarrow> domain_matcher \<Rightarrow> domain_matcher" where
  "matcher_add X raw m =
     (let normalized = normalize_domain X raw in
      if normalized = [] then m
      else (case find_byte (CHR ''/'') normalized of
              None \<Rightarrow> m(normalized \<mapsto> AnyPath)
            | Some i \<Rightarrow>
                (let host = take i normalized; raw_path = drop i normalized in
                 if m host = Some AnyPath then m
                 else
                   (let pre = trim_end_matches (CHR ''/'') raw_path in
                    if pre = [] \<or> pre = ''/'' then m(host \<mapsto> AnyPath)
                    else
                      (let pre = (if starts_with pre ''/'' then pre else ''/'' @ pre)
                       in case m host of
                            Some e \<Rightarrow> m(host \<mapsto> add_prefix pre e)
                          | None \<Rightarrow> m(host \<mapsto> PathPrefixes [pre]))))))"

definition matcher_new :: "externals \<Rightarrow> string list \<Rightarrow> domain_matcher" where
  "matcher_new X raw_entries = fold (matcher_add X) raw_entries Map.empty"

definition prefix_covers :: "string \<Rightarrow> string \<Rightarrow> bool" where
  "prefix_covers path pre \<longleftrightarrow>
     path = pre \<or> (starts_with path pre \<and> get_at path (length pre) = Some (CHR ''/''))"

text \<open>\<open>None\<close>: permitted; \<open>Some d\<close>: \<open>DomainNotAllowed d\<close>.\<close>

definition matcher_check :: "externals \<Rightarrow> domain_matcher \<Rightarrow> url \<Rightarrow> string option" where
  "matcher_check X m u =
     (case host_str u of
        None \<Rightarrow> Some []
      | Some raw_host \<Rightarrow>
          (let host = normalize_domain X raw_host in
           case m host of
             Some AnyPath \<Rightarrow> None
           | Some (PathPrefixes ps) \<Rightarrow>
               (if list_ex (prefix_covers (to_lowercase X (url_path u))) ps then None else Some host)
           | None \<Rightarrow> Some host))"

definition domain_from_url :: "externals \<Rightarrow> string \<Rightarrow> string option" where
  "domain_from_url X raw_url =
     (case parse_host X raw_url of
        Some (Some h) \<Rightarrow> Some (normalize_domain X h)
      | _ \<Rightarrow> None)"

section \<open>The allowlist as a linear scan\<close>

text \<open>What one entry permits, and what the entries of a host permit.\<close>

definition entry_allows :: "externals \<Rightarrow> string \<Rightarrow> string \<Rightarrow> string \<Rightarrow> bool" where
  "entry_allows X raw host path =
     (let n = normalize_domain X raw in
      n \<noteq> [] \<and>
      (case find_byte (CHR ''/'') n of
         None \<Rightarrow> n = host
       | Some i \<Rightarrow>
           take i n = host \<and>
           (let pre = trim_end_matches (CHR ''/'') (drop i n)
            in pre = [] \<or> prefix_covers path pre)))"

definition map_allows :: "domain_matcher \<Rightarrow> string \<Rightarrow> string \<Rightarrow> bool" where
  "map_allows m host path =
     (case m host of
        None \<Rightarrow> False
      | Some AnyPath \<Rightarrow> True
      | Some (PathPrefixes v) \<Rightarrow> list_ex (prefix_covers path) v)"

lemma find_byte_SomeD: "find_byte c s = Some i \<Longrightarrow> i < length s \<and> s ! i = c"
  by (induction s arbitrary: i) (auto split: if_splits)

lemma trim_end_matches_split: "\<exists>n. s = trim_end_matches c s @ replicate n c"
proof -
  let ?t = "takeWhile (\<lambda>x. x = c) (rev s)"
  have "replicate (length ?t) c = ?t" by (rule replicate_length_same) (auto dest: set_takeWhileD)
  moreover have "s = trim_end_matches c s @ rev ?t"
    by (simp add: trim_end_matches_def flip: rev_append)
  ultimately have "s = trim_end_matches c s @ replicate (length ?t) c" by (metis rev_replicate)
  then show ?thesis ..
qed

lemma trim_end_matches_last: "trim_end_matches c s = xs @ [c] \<Longrightarrow> False"
proof -
  assume "trim_end_matches c s = xs @ [c]"
  then have "dropWhile (\<lambda>x. x = c) (rev s) = c # rev xs"
    by (simp add: trim_end_matches_def rev_swap)
  then show False by (metis (full_types) hd_dropWhile list.discI list.sel(1))
qed

lemma path_prefix_slash:
  assumes "find_byte c n = Some i" "trim_end_matches c (drop i n) = p"
  shows "p \<noteq> [] \<Longrightarrow> starts_with p [c]" "p \<noteq> [c]"
proof -
  obtain k where k: "drop i n = p @ replicate k c" using trim_end_matches_split assms(2) by metis
  moreover have "drop i n = c # drop (Suc i) n"
    using find_byte_SomeD [OF assms(1)] by (metis Cons_nth_drop_Suc)
  ultimately show "p \<noteq> [] \<Longrightarrow> starts_with p [c]" by (cases p) auto
  show "p \<noteq> [c]" using trim_end_matches_last [of c "drop i n" "[]"] assms(2) by auto
qed

lemma list_ex_snoc [simp]: "list_ex P (xs @ [x]) \<longleftrightarrow> list_ex P xs \<or> P x"
  by (induction xs) auto

lemma add_prefix_allows:
  "e \<noteq> AnyPath \<Longrightarrow> map_allows (m(h \<mapsto> add_prefix p e)) h path \<longleftrightarrow>
   map_allows (m(h \<mapsto> e)) h path \<or> prefix_covers path p"
  by (cases e) (auto simp: map_allows_def add_prefix_def list_ex_iff)

lemma map_allows_other: "h \<noteq> h' \<Longrightarrow> map_allows (m(h \<mapsto> e)) h' path = map_allows m h' path"
  by (simp add: map_allows_def)

lemma matcher_add_allows:
  "map_allows (matcher_add X raw m) h path \<longleftrightarrow> map_allows m h path \<or> entry_allows X raw h path"
proof -
  let ?n = "normalize_domain X raw"
  consider "?n = []" | "?n \<noteq> []" "find_byte (CHR ''/'') ?n = None"
    | i where "?n \<noteq> []" "find_byte (CHR ''/'') ?n = Some i" by fastforce
  then show ?thesis
  proof cases
    case 3
    note slash = 3
    let ?h = "take i ?n" and ?p = "trim_end_matches (CHR ''/'') (drop i ?n)"
    have p: "?p \<noteq> [] \<Longrightarrow> starts_with ?p ''/''" "?p \<noteq> ''/''"
      by (rule path_prefix_slash [OF 3(2) refl], assumption) (rule path_prefix_slash [OF 3(2) refl])
    consider "m ?h = Some AnyPath" | "m ?h \<noteq> Some AnyPath" "?p = []"
      | "m ?h \<noteq> Some AnyPath" "?p \<noteq> []" by blast
    then show ?thesis
    proof cases
      case 1
      then show ?thesis
        using slash by (auto simp: matcher_add_def entry_allows_def Let_def map_allows_def)
    next
      case 2
      then show ?thesis
        using slash by (auto simp: matcher_add_def entry_allows_def Let_def map_allows_def)
    next
      case 3
      have add: "matcher_add X raw m =
          (case m ?h of Some e \<Rightarrow> m(?h \<mapsto> add_prefix ?p e) | None \<Rightarrow> m(?h \<mapsto> PathPrefixes [?p]))"
        using slash 3 p by (simp add: matcher_add_def Let_def split: option.splits)
      have entry: "entry_allows X raw h path \<longleftrightarrow> ?h = h \<and> prefix_covers path ?p"
        using slash 3 by (simp add: entry_allows_def Let_def)
      show ?thesis
      proof (cases "?h = h")
        case True
        then show ?thesis
          using 3(1) add entry add_prefix_allows [of _ m h ?p path]
          by (cases "m h") (auto simp: map_allows_def)
      next
        case False
        then show ?thesis using add entry by (auto simp: map_allows_other split: option.splits)
      qed
    qed
  qed (auto simp: matcher_add_def entry_allows_def map_allows_def)
qed

lemma fold_matcher_allows:
  "map_allows (fold (matcher_add X) raws m) h path \<longleftrightarrow>
   map_allows m h path \<or> (\<exists>raw \<in> set raws. entry_allows X raw h path)"
  by (induction raws arbitrary: m) (auto simp: matcher_add_allows)

lemma matcher_check_allows:
  "matcher_check X m u = None \<longleftrightarrow>
   (\<exists>h. host_str u = Some h \<and> map_allows m (normalize_domain X h) (to_lowercase X (url_path u)))"
  by (auto simp: matcher_check_def map_allows_def Let_def split: option.splits host_entry.splits)

text \<open>The precomputed matcher decides exactly as a scan over the raw entries: a URL is
  permitted if and only if some entry names its host, alone or with a path prefix that ends at
  a segment boundary of the URL's path.  The order of the entries, duplicates and the merging
  of prefixes do not matter.\<close>

theorem matcher_is_linear_scan:
  "matcher_check X (matcher_new X raws) u = None \<longleftrightarrow>
   (\<exists>h. host_str u = Some h \<and>
     (\<exists>raw \<in> set raws. entry_allows X raw (normalize_domain X h) (to_lowercase X (url_path u))))"
  by (simp add: matcher_check_allows matcher_new_def fold_matcher_allows)
    (simp add: map_allows_def)

end
