(* ===== verification/PolicySpec.thy ===== *)
theory PolicySpec
  imports PermPolicy
begin

text \<open>
  What a compiled policy promises: deny before ask before allow whatever the order of the rules,
  no way around a read rule by searching, no way around a command rule by chaining, wrapping or
  nesting, and no blanket rule that goes undetected.
\<close>

definition rule_applies :: "externals \<Rightarrow> access_kind \<Rightarrow> permission_rule \<Rightarrow> bool" where
  "rule_applies X access r \<longleftrightarrow>
     tool_filter_matches access (rule_tool r) \<and> pattern_matches X access r (compile_matcher X r)"

definition rules_match :: "externals \<Rightarrow> access_kind \<Rightarrow> permission_rule list \<Rightarrow> rule_action \<Rightarrow> bool" where
  "rules_match X access rs a \<longleftrightarrow> (\<exists>r \<in> set rs. rule_action r = a \<and> rule_applies X access r)"

abbreviation has_match :: "externals \<Rightarrow> permission_config \<Rightarrow> access_kind \<Rightarrow> rule_action \<Rightarrow> bool" where
  "has_match X cfg access a \<equiv> rules_match X access (config_rules cfg) a"

section \<open>Evaluation\<close>

lemma rules_match_simps [simp]:
  "\<not> rules_match X access [] a"
  "rules_match X access (r # rs) a \<longleftrightarrow>
   (rule_action r = a \<and> rule_applies X access r) \<or> rules_match X access rs a"
  by (auto simp: rules_match_def)

lemma evaluate_rules_Cons:
  "evaluate_rules X access ((r, compile_matcher X r) # ms) ask al =
   (if rule_applies X access r \<and> rule_action r = RuleDeny then Some (Reject (deny_reason r))
    else evaluate_rules X access ms
      (ask \<or> rule_applies X access r \<and> rule_action r = RuleAsk)
      (al \<or> rule_applies X access r \<and> rule_action r = RuleAllow))"
  by (cases "rule_action r") (simp_all add: rule_applies_def)

lemma evaluate_rules_spec:
  fixes rs :: "permission_rule list"
  shows "(denies (evaluate_rules X access (zip rs (map (compile_matcher X) rs)) ask al) \<longleftrightarrow>
      rules_match X access rs RuleDeny) \<and>
    (\<not> rules_match X access rs RuleDeny \<longrightarrow>
      evaluate_rules X access (zip rs (map (compile_matcher X) rs)) ask al =
        (if ask \<or> rules_match X access rs RuleAsk then Some Ask
         else if al \<or> rules_match X access rs RuleAllow then Some Allow else None))"
proof (induction rs arbitrary: ask al)
  case (Cons r rs)
  show ?case
    using Cons.IH [of "ask \<or> rule_applies X access r \<and> rule_action r = RuleAsk"
        "al \<or> rule_applies X access r \<and> rule_action r = RuleAllow"]
    by (auto simp: evaluate_rules_Cons simp del: evaluate_rules.simps)
qed simp

lemma evaluate_new:
  "evaluate X (policy_new X cfg) access =
   evaluate_rules X access (zip (config_rules cfg) (map (compile_matcher X) (config_rules cfg))) False False"
  by (simp add: evaluate_def policy_new_def)

lemma evaluate_denies_iff:
  "denies (evaluate X (policy_new X cfg) access) \<longleftrightarrow> has_match X cfg access RuleDeny"
  unfolding evaluate_new using evaluate_rules_spec by blast

lemma evaluate_undenied:
  "\<not> has_match X cfg access RuleDeny \<Longrightarrow> evaluate X (policy_new X cfg) access =
   (if has_match X cfg access RuleAsk then Some Ask
    else if has_match X cfg access RuleAllow then Some Allow else None)"
  unfolding evaluate_new using evaluate_rules_spec [of X access "config_rules cfg" False False] by simp

lemma evaluate_cases:
  "(\<exists>r. evaluate X (policy_new X cfg) access = Some (Reject r)) \<or>
   evaluate X (policy_new X cfg) access \<in> {None, Some Ask, Some Allow}"
proof -
  have "(\<exists>r. evaluate_rules X access ms ask al = Some (Reject r)) \<or>
    evaluate_rules X access ms ask al \<in> {None, Some Ask, Some Allow}" for ms ask al
    by (induction X access ms ask al rule: evaluate_rules.induct) (auto split: rule_action.splits)
  then show ?thesis unfolding evaluate_new .
qed

text \<open>C9. Deny before ask before allow, whatever the order of the rules: an access is denied exactly
  when some deny rule matches it, prompted when none does and an ask rule matches, allowed when
  only allow rules match, and left undecided when no rule matches.\<close>

theorem evaluate_precedence:
  "(denies (evaluate X (policy_new X cfg) access) = has_match X cfg access RuleDeny) \<and>
   ((evaluate X (policy_new X cfg) access = Some Ask) =
     (has_match X cfg access RuleAsk \<and> \<not> has_match X cfg access RuleDeny)) \<and>
   ((evaluate X (policy_new X cfg) access = Some Allow) =
     (has_match X cfg access RuleAllow \<and> \<not> has_match X cfg access RuleAsk \<and>
      \<not> has_match X cfg access RuleDeny)) \<and>
   ((evaluate X (policy_new X cfg) access = None) =
     (\<not> has_match X cfg access RuleAllow \<and> \<not> has_match X cfg access RuleAsk \<and>
      \<not> has_match X cfg access RuleDeny))"
proof (cases "has_match X cfg access RuleDeny")
  case True
  then show ?thesis using evaluate_denies_iff [of X cfg access] by (auto simp: denies_def)
next
  case False
  then show ?thesis using evaluate_undenied [OF False] by simp
qed

section \<open>Searching is reading\<close>

lemma read_rule_greps:
  "rule_applies X (Read (Some path)) r \<Longrightarrow> rule_applies X (Grep (Some path) g) r"
  by (cases "rule_tool r") (auto simp: rule_applies_def pattern_matches_def split: option.splits)

lemma has_match_greps:
  "has_match X cfg (Read (Some path)) a \<Longrightarrow> has_match X cfg (Grep (Some path) g) a"
  using read_rule_greps by (fastforce simp: rules_match_def)

text \<open>Grep is no way around a read rule: a path whose reading the policy prompts for or denies
  is searched only with at least as strong a decision, whatever the glob.\<close>

theorem grep_no_weaker_than_read:
  assumes "strength (Some Ask) \<le> strength (evaluate X (policy_new X cfg) (Read (Some path)))"
  shows "strength (evaluate X (policy_new X cfg) (Read (Some path))) \<le>
    strength (evaluate X (policy_new X cfg) (Grep (Some path) g))"
proof (cases "has_match X cfg (Read (Some path)) RuleDeny")
  case True
  then have "denies (evaluate X (policy_new X cfg) (Grep (Some path) g))"
    using has_match_greps by (simp add: evaluate_denies_iff)
  then show ?thesis using strength_le_4 by (simp add: denies_iff)
next
  case False
  then have "has_match X cfg (Read (Some path)) RuleAsk"
    using assms evaluate_undenied [OF False] by (auto simp: strength_def split: if_splits)
  then have "has_match X cfg (Grep (Some path) g) RuleAsk" by (rule has_match_greps)
  moreover have "strength (evaluate X (policy_new X cfg) (Read (Some path))) \<le> strength (Some Ask)"
    using evaluate_undenied [OF False] by (auto simp: strength_def)
  ultimately show ?thesis
    using evaluate_undenied [of X "Grep (Some path) g" cfg]
      evaluate_denies_iff [of X cfg "Grep (Some path) g"]
    by (cases "has_match X cfg (Grep (Some path) g) RuleDeny")
      (auto simp: denies_iff strength_le_4)
qed

text \<open>An instance of the externals for concrete runs: the grammar knows \<open>ls\<close>, patterns are
  literal, no text is a URL and no file exists.\<close>

definition tiny :: externals where
  "tiny = \<lparr>parse_shell = (\<lambda>s. if s = ''ls'' then Some ls_tree else None),
           glob_pattern = (\<lambda>p. Some (\<lambda>_ t. t = p)),
           parse_host = (\<lambda>_. None), unicode_lower = (\<lambda>s. s),
           fs_canonicalize = (\<lambda>_. None), fs_is_symlink = (\<lambda>_. None), fs_read_link = (\<lambda>_. None)\<rparr>"

definition deny_env :: permission_config where
  "deny_env = permission_config_new
     [\<lparr>rule_action = RuleDeny, rule_tool = FRead, rule_pattern = Some ''.env'', rule_mode = Glob\<rparr>]"

theorem grep_no_weaker_than_read_witness:
  "denies (evaluate tiny (policy_new tiny deny_env) (Grep (Some ''.env'') None))"
proof -
  have "denies (evaluate tiny (policy_new tiny deny_env) (Read (Some ''.env'')))"
    by (simp add: evaluate_denies_iff deny_env_def permission_config_new_def
        rule_applies_def pattern_matches_def compile_matcher_def tiny_def glob_matches_def)
  then have "strength (evaluate tiny (policy_new tiny deny_env) (Read (Some ''.env''))) = 4"
    by (simp add: denies_iff)
  then show ?thesis
    using grep_no_weaker_than_read [of tiny deny_env "''.env''" None] strength_le_4
    by (simp add: denies_iff strength_def order_antisym split: option.splits)
qed

section \<open>Chained, wrapped and nested commands\<close>

text \<open>\<open>nested_form X d cmd ws\<close>: the words \<open>ws\<close> are a simple command of the script \<open>cmd\<close>, as
  written or with its wrappers peeled, below \<open>d\<close> levels of \<open>bash -c\<close>.\<close>

inductive nested_form :: "externals \<Rightarrow> nat \<Rightarrow> string \<Rightarrow> string list \<Rightarrow> bool" for X where
  segment: "all_commands_from_script X cmd = Some segs \<Longrightarrow> s \<in> set segs \<Longrightarrow>
     ws \<in> set (forms (pc_words s)) \<Longrightarrow> nested_form X 0 cmd ws"
| inner: "all_commands_from_script X cmd = Some segs \<Longrightarrow> s \<in> set segs \<Longrightarrow>
     vs \<in> set (forms (pc_words s)) \<Longrightarrow> shell_dash_c_script vs = Some script \<Longrightarrow>
     nested_form X d script ws \<Longrightarrow> nested_form X (Suc d) cmd ws"

inductive_cases nested_form_0E: "nested_form X 0 cmd ws"
inductive_cases nested_form_SucE: "nested_form X (Suc d) cmd ws"

definition form_decision :: "externals \<Rightarrow> compiled_policy \<Rightarrow> nat \<Rightarrow> string list \<Rightarrow> decision option" where
  "form_decision X p n ws =
     combine_decisions (escalate (evaluate X p (Bash (join_words ws))))
       (case shell_dash_c_script ws of None \<Rightarrow> None | Some inner \<Rightarrow> segments_left X p n inner)"

lemma segments_left_Suc:
  "segments_left X p (Suc n) cmd =
   (case all_commands_from_script X cmd of
      None \<Rightarrow> Some Ask
    | Some segs \<Rightarrow> combine_all (map (form_decision X p n) (concat (map (forms \<circ> pc_words) segs))))"
proof -
  have step: "(let dec = combine_decisions dec (escalate (evaluate X p (Bash (join_words ws))))
      in case shell_dash_c_script ws of None \<Rightarrow> dec
         | Some inner \<Rightarrow> combine_decisions dec (segments_left X p n inner)) =
      combine_decisions dec (form_decision X p n ws)" for dec ws
    by (simp add: form_decision_def combine_assoc Let_def split: option.splits)
  have fold: "foldl (\<lambda>dec ws. combine_decisions dec (form_decision X p n ws)) a wss =
      combine_decisions a (combine_all (map (form_decision X p n) wss))" for a wss
    by (induction wss arbitrary: a) (simp_all add: combine_assoc)
  show ?thesis by (simp add: step fold comp_def split: option.splits)
qed

declare segments_left.simps(2) [simp del]

lemma segments_left_denies:
  "denies (segments_left X p n cmd) \<longleftrightarrow>
   (\<exists>d ws. d < n \<and> nested_form X d cmd ws \<and> denies (evaluate X p (Bash (join_words ws))))"
proof (induction n arbitrary: cmd)
  case (Suc n)
  have form: "denies (form_decision X p n ws) \<longleftrightarrow> denies (evaluate X p (Bash (join_words ws))) \<or>
      (\<exists>script. shell_dash_c_script ws = Some script \<and>
        (\<exists>d vs. d < n \<and> nested_form X d script vs \<and> denies (evaluate X p (Bash (join_words vs)))))" for ws
    by (simp add: form_decision_def Suc split: option.splits)
  show ?case
  proof (cases "all_commands_from_script X cmd")
    case None
    then show ?thesis by (auto simp: segments_left_Suc elim: nested_form.cases)
  next
    case (Some segs)
    have "(\<exists>d ws. d < Suc n \<and> nested_form X d cmd ws \<and> denies (evaluate X p (Bash (join_words ws)))) \<longleftrightarrow>
        (\<exists>s \<in> set segs. \<exists>ws \<in> set (forms (pc_words s)). denies (form_decision X p n ws))"
      (is "?l \<longleftrightarrow> ?r")
    proof
      assume ?l
      then obtain d ws where d: "d < Suc n" "nested_form X d cmd ws"
        "denies (evaluate X p (Bash (join_words ws)))" by blast
      from d(2) show ?r
      proof cases
        case (segment segs' s)
        then show ?thesis using Some d(3) unfolding form by auto
      next
        case (inner segs' s vs script d')
        then have "denies (form_decision X p n vs)" using d(1,3) unfolding form by auto
        then show ?thesis using inner(2-4) Some by auto
      qed
    next
      assume ?r
      then obtain s ws where s: "s \<in> set segs" "ws \<in> set (forms (pc_words s))"
        "denies (form_decision X p n ws)" by blast
      then show ?l unfolding form
        using nested_form.segment [OF Some s(1,2)] nested_form.inner [OF Some s(1,2)]
        by (metis Suc_mono zero_less_Suc)
    qed
    then show ?thesis using Some by (simp add: segments_left_Suc comp_def)
  qed
qed simp

lemma escalate_evaluate_verdict: "gate_verdict (escalate (evaluate X p access))"
proof -
  have "gate_verdict (escalate (evaluate_rules X access ms ask al))" for ms ask al
    by (induction X access ms ask al rule: evaluate_rules.induct)
      (auto simp: escalate_def split: rule_action.splits)
  then show ?thesis by (simp add: evaluate_def)
qed

lemma segments_left_verdict: "gate_verdict (segments_left X p n cmd)"
proof (induction n arbitrary: cmd)
  case (Suc n)
  have "gate_verdict (form_decision X p n ws)" for ws
    unfolding form_decision_def using Suc escalate_evaluate_verdict
    by (auto split: option.splits)
  then show ?case
    by (auto simp: segments_left_Suc intro!: gate_verdict_all split: option.splits)
qed simp

interpretation bash_gate: escalation_gate "evaluate_bash_command_policy X p"
  by unfold_locales
    (simp add: evaluate_bash_command_policy_def evaluate_bash_command_segments_def segments_left_verdict)

lemma denies_bash_restricts:
  "denies (evaluate X (policy_new X cfg) (Bash c)) \<Longrightarrow> has_bash_command_restrictions (policy_new X cfg)"
  unfolding evaluate_denies_iff
  by (auto simp: policy_new_def rules_match_def rule_applies_def list_ex_iff intro!: bexI
      elim: tool_filter_matches.elims)


text \<open>An \<open>env -S\<close> command line is not looked into.\<close>

lemma env_split_string_not_peeled:
  "forms [''env'', ''-S'', script] = [[''env'', ''-S'', script]]"
proof -
  have "env_scan [''env'', ''-S'', script] = (None, 3)"
    unfolding env_scan_def
    by (subst env_scan_from.simps, subst env_scan_from.simps)
      (simp add: env_option_def strip_prefix_def get_at_def)
  then have "strip_wrapper_command [''env'', ''-S'', script] = None"
    by (simp add: strip_wrapper_command_def wrapper_args_end_def get_from_def)
  then have "unwrap_wrappers [''env'', ''-S'', script] = [''env'', ''-S'', script]"
    by (simp add: unwrap_wrappers_def eval_nat_numeral)
  then show ?thesis by (simp add: forms_def)
qed

section \<open>Leading blanks\<close>

text \<open>Blanks in front of a command never change its evaluation.\<close>

theorem leading_blanks_irrelevant:
  assumes "\<forall>c \<in> set blanks. ascii_ws c"
  shows "evaluate X p (Bash (blanks @ cmd)) = evaluate X p (Bash cmd)"
proof -
  have t: "trim_start (blanks @ cmd) = trim_start cmd"
    using assms by (intro trim_start_blanks) auto
  have "pattern_matches X (Bash (blanks @ cmd)) r m = pattern_matches X (Bash cmd) r m" for r m
    by (simp add: pattern_matches_def t split: option.splits)
  moreover have "tool_filter_matches (Bash (blanks @ cmd)) f = tool_filter_matches (Bash cmd) f" for f
    by (cases f) simp_all
  ultimately have "evaluate_rules X (Bash (blanks @ cmd)) ms ask al = evaluate_rules X (Bash cmd) ms ask al"
    for ms ask al
    by (induction X "Bash cmd" ms ask al rule: evaluate_rules.induct)
      (simp_all split: rule_action.splits)
  then show ?thesis by (simp add: evaluate_def)
qed

theorem leading_blanks_irrelevant_witness:
  "evaluate tiny (policy_new tiny deny_env) (Bash ''  ls'') = evaluate tiny (policy_new tiny deny_env) (Bash ''ls'')"
  using leading_blanks_irrelevant [of "''  ''" tiny "policy_new tiny deny_env" "''ls''"]
  by (simp add: ascii_ws_def)

section \<open>Catch-all rules\<close>

text \<open>No blanket rule goes undetected: a rule that applies to every command, every MCP tool or
  every URL is a catch-all.\<close>

theorem blanket_rules_are_catchalls:
  assumes "(\<forall>c. rule_applies X (Bash c) r) \<or> (\<forall>n v. rule_applies X (MCPTool n v) r) \<or>
    (\<forall>u. rule_applies X (WebFetch u) r)"
  shows "rule_is_catchall X r"
  using assms unfolding rule_is_catchall_def
  by (cases "rule_tool r")
    (auto simp: rule_applies_def bash_probes_def mcp_probes_def webfetch_probes_def)

theorem blanket_rules_are_catchalls_witness:
  "rule_is_catchall tiny \<lparr>rule_action = RuleAllow, rule_tool = FAny, rule_pattern = Some ''*'', rule_mode = Glob\<rparr>"
  by (rule blanket_rules_are_catchalls) (simp add: rule_applies_def pattern_matches_def)

end
