(* ===== verification/Grants.thy ===== *)
theory Grants
  imports PolicySpec
begin

text \<open>
  \<open>permission/state.rs\<close> and the pure part of \<open>permission/manager.rs\<close>: the permission state of a
  working directory, the built-in command lists, the evaluation of the segments of a command
  against the user's grants, and the grants consulted before a prompt.
\<close>

section \<open>State (state.rs)\<close>

record permission_state =
  st_edit_policy :: edit_policy
  st_allow_bash_execute :: bool
  st_allowed_bash :: "string list"
  st_disallowed_bash :: "string list"
  st_allowed_domains :: "string list"
  st_allowed_mcp_tools :: "string list"
  st_allowed_mcp_servers :: "string list"

definition default_state :: permission_state where
  "default_state = \<lparr>st_edit_policy = EditAsk, st_allow_bash_execute = False, st_allowed_bash = [],
     st_disallowed_bash = [], st_allowed_domains = [], st_allowed_mcp_tools = [],
     st_allowed_mcp_servers = []\<rparr>"

text \<open>\<open>sanitize_client_id\<close> maps characters; a character that is not ASCII is one underscore.\<close>

definition client_id_char :: "char \<Rightarrow> bool" where
  "client_id_char c \<longleftrightarrow> ascii_alpha c \<or> ascii_digit c \<or> c = CHR ''-'' \<or> c = CHR ''_''"

definition sanitize_client_id :: "string \<Rightarrow> string" where
  "sanitize_client_id ident =
     map (\<lambda>(i, k). if client_id_char (ident ! i) then ident ! i else CHR ''_'') (char_indices 0 ident)"

definition state_file_name :: "string option \<Rightarrow> string" where
  "state_file_name client =
     (case client of
        Some ident \<Rightarrow> ''permission_'' @ sanitize_client_id ident @ ''.toml''
      | None \<Rightarrow> ''permission.toml'')"

text \<open>
  The state directory maps a file name to the state \<open>toml\<close> reads from the file: \<open>None\<close> when the
  file cannot be read, the default state when its text does not parse.
\<close>

type_synonym state_dir = "string \<rightharpoonup> permission_state"

definition load_state_from_dir :: "state_dir \<Rightarrow> string option \<Rightarrow> permission_state" where
  "load_state_from_dir dir client =
     (let shared = (case dir (state_file_name None) of Some st \<Rightarrow> st | None \<Rightarrow> default_state)
      in case client of
           Some ident \<Rightarrow>
             (case dir (state_file_name (Some ident)) of Some st \<Rightarrow> st | None \<Rightarrow> shared)
         | None \<Rightarrow> shared)"

definition persist_state_to_dir :: "permission_state \<Rightarrow> string option \<Rightarrow> state_dir \<Rightarrow> state_dir" where
  "persist_state_to_dir st client dir = dir(state_file_name client \<mapsto> st)"

section \<open>MCP grants\<close>

definition mcp_server_prefix_allowed :: "string \<Rightarrow> string list \<Rightarrow> bool" where
  "mcp_server_prefix_allowed name servers =
     (if servers = [] then False
      else case split_once ''__'' name of
             None \<Rightarrow> False
           | Some (server, _) \<Rightarrow> server \<noteq> [] \<and> server \<in> set servers)"

definition mcp_pre_decision :: "string \<Rightarrow> permission_state \<Rightarrow> bool \<Rightarrow> bool \<Rightarrow> decision option" where
  "mcp_pre_decision name st policy_forced_prompt remember_tool_approvals =
     (if policy_forced_prompt \<and> \<not> remember_tool_approvals then None
      else if name \<in> set (st_allowed_mcp_tools st) then Some Allow
      else if mcp_server_prefix_allowed name (st_allowed_mcp_servers st) then Some Allow
      else None)"

section \<open>Command lists\<close>

definition rg_has_pre_flag :: "string list \<Rightarrow> bool" where
  "rg_has_pre_flag words =
     (if first_opt words \<noteq> Some ''rg'' then False
      else list_ex (\<lambda>w. w = ''--pre'' \<or> starts_with w ''--pre='') words)"

definition matches_command_prefix :: "string \<Rightarrow> string \<Rightarrow> bool" where
  "matches_command_prefix cmd pattern \<longleftrightarrow>
     cmd = pattern \<or> (starts_with cmd pattern \<and> get_at cmd (length pattern) = Some (CHR '' ''))"

definition SAFE_COMMANDS :: "string list" where
  "SAFE_COMMANDS =
     [''ls'', ''cat'', ''pwd'', ''date'', ''git status'', ''git branch'', ''git log'', ''git diff'',
      ''git ls-files'', ''git show'', ''git rev-parse'', ''cargo check'', ''whoami'', ''hostname'',
      ''uptime'', ''grep'', ''rg'', ''kubectl get'', ''kubectl logs'', ''kubectl describe'', ''ps'',
      ''bin/explorer ls'', ''head'', ''tail'', ''wc'', ''sort'', ''uniq'', ''tr'', ''cut'']"

definition is_safe_command_words_str :: "string \<Rightarrow> bool" where
  "is_safe_command_words_str cmd = list_ex (matches_command_prefix cmd) SAFE_COMMANDS"

definition is_safe_command_words :: "string list \<Rightarrow> bool" where
  "is_safe_command_words words =
     (if words = [] then False
      else if rg_has_pre_flag words then False
      else is_safe_command_words_str (join_words words))"

definition ALWAYS_SAFE_COMMANDS :: "string list" where
  "ALWAYS_SAFE_COMMANDS =
     [''ls'', ''cat'', ''pwd'', ''date'', ''whoami'', ''hostname'', ''uptime'', ''ps'',
      ''git status'', ''git branch'', ''git log'', ''git diff'', ''git ls-files'', ''git show'',
      ''git rev-parse'', ''grep'', ''rg'', ''cargo check'', ''kubectl get'', ''kubectl logs'',
      ''kubectl describe'', ''bin/explorer ls'']"

definition is_always_safe_command_words :: "string list \<Rightarrow> bool" where
  "is_always_safe_command_words words =
     (if words = [] then False
      else if rg_has_pre_flag words then False
      else list_ex (matches_command_prefix (join_words words)) ALWAYS_SAFE_COMMANDS)"

text \<open>\<open>while n < words.len() && words[n].starts_with('-')\<close>.\<close>

definition flags_end :: "string list \<Rightarrow> nat \<Rightarrow> nat" where
  "flags_end words n = n + length (takeWhile (\<lambda>w. starts_with w ''-'') (drop n words))"

definition default_always_allow_scope :: "string list \<Rightarrow> nat" where
  "default_always_allow_scope words =
     (if words = [] then 0
      else if is_safe_command_words words \<and> is_safe_command_words_str (hd words) then 1
      else if is_safe_command_words words \<and> 2 \<le> length words \<and>
              is_safe_command_words_str (join_words (take 2 words)) then 2
      else flags_end words (min (length words) 2))"

definition DANGEROUS_COMMANDS :: "string list" where
  "DANGEROUS_COMMANDS = [''rm'', ''chmod'', ''chown'', ''chgrp'', ''chattr'', ''pkill'', ''kill'',
     ''killall'', ''git push'']"

definition is_dangerous_command_words :: "string list \<Rightarrow> bool" where
  "is_dangerous_command_words words =
     (if words = [] then False else list_ex (matches_command_prefix (join_words words)) DANGEROUS_COMMANDS)"

section \<open>Segments against the grants\<close>

datatype segment_evaluation =
    AutoAllow bool                    \<comment> \<open>via a session grant\<close>
  | SegReject string
  | NeedsPrompts "string list" bool   \<comment> \<open>segments, any dangerous\<close>
  | Unparseable

record segment_acc =
  acc_prompt :: "string list"
  acc_dangerous :: bool
  acc_grant :: bool

definition quoted :: "string \<Rightarrow> string" where
  "quoted s = [CHR 0x60] @ s @ [CHR 0x60]"

text \<open>One turn of the loop: the accumulators, or the disallowed prefix that rejects the script.\<close>

definition segment_step ::
    "permission_state \<Rightarrow> bool \<Rightarrow> segment_acc \<Rightarrow> string list \<Rightarrow> string + segment_acc" where
  "segment_step st honor_safe_lists acc raw_words =
     (let words = unwrap_wrappers raw_words in
      if is_setup_command words then Inr acc
      else
        (let s = join_words words in
         case find (matches_command_prefix s) (st_disallowed_bash st) of
           Some d \<Rightarrow> Inl (''User previously rejected '' @ quoted d @ '' for this session'')
         | None \<Rightarrow>
             (if is_dangerous_command_words words then
                Inr (acc\<lparr>acc_dangerous := True, acc_prompt := acc_prompt acc @ [s]\<rparr>)
              else
                (let matched_grant = list_ex (matches_command_prefix s) (st_allowed_bash st);
                     matched_safe = honor_safe_lists \<and>
                       (is_safe_command_words words \<or> is_always_safe_command_words words)
                 in if matched_grant \<or> matched_safe then
                      Inr (acc\<lparr>acc_grant := acc_grant acc \<or> matched_grant\<rparr>)
                    else Inr (acc\<lparr>acc_prompt := acc_prompt acc @ [s]\<rparr>)))))"

fun segments_loop ::
    "permission_state \<Rightarrow> bool \<Rightarrow> segment_acc \<Rightarrow> string list list \<Rightarrow> string + segment_acc" where
  "segments_loop st honor acc [] = Inr acc"
| "segments_loop st honor acc (w # ws) =
     (case segment_step st honor acc w of
        Inl reason \<Rightarrow> Inl reason
      | Inr acc' \<Rightarrow> segments_loop st honor acc' ws)"

definition evaluate_bash_segments_inner ::
    "externals \<Rightarrow> string \<Rightarrow> permission_state \<Rightarrow> bool \<Rightarrow> segment_evaluation" where
  "evaluate_bash_segments_inner X cmd st honor_safe_lists =
     (case all_commands_from_script X cmd of
        None \<Rightarrow> Unparseable
      | Some segments \<Rightarrow>
          (case segments_loop st honor_safe_lists
                  \<lparr>acc_prompt = [], acc_dangerous = False, acc_grant = False\<rparr> (map pc_words segments) of
             Inl reason \<Rightarrow> SegReject reason
           | Inr acc \<Rightarrow>
               (if acc_prompt acc = [] then AutoAllow (acc_grant acc)
                else NeedsPrompts (acc_prompt acc) (acc_dangerous acc))))"

definition evaluate_bash_segments :: "externals \<Rightarrow> string \<Rightarrow> permission_state \<Rightarrow> segment_evaluation" where
  "evaluate_bash_segments X cmd st = evaluate_bash_segments_inner X cmd st True"

section \<open>Grants before a prompt\<close>

datatype reason =
    R_YOLO | R_POLICY_ALLOW | R_POLICY_DENY | R_POLICY_ASK | R_AUTO_FAST_PATH
  | R_AUTO_CLASSIFIER_ALLOW | R_AUTO_CLASSIFIER_BLOCK | R_SANDBOX_AUTO | R_PERSISTED_GRANT
  | R_SESSION_GRANT | R_STATIC_ALLOWLIST | R_SAFE_COMMAND | R_SESSION_DENY | R_PROMPT_DENY
  | R_NEEDS_USER

fun reason_str :: "reason \<Rightarrow> string" where
  "reason_str R_YOLO = ''yolo''"
| "reason_str R_POLICY_ALLOW = ''policy_allow''"
| "reason_str R_POLICY_DENY = ''policy_deny''"
| "reason_str R_POLICY_ASK = ''policy_ask''"
| "reason_str R_AUTO_FAST_PATH = ''auto_fast_path''"
| "reason_str R_AUTO_CLASSIFIER_ALLOW = ''auto_classifier_allow''"
| "reason_str R_AUTO_CLASSIFIER_BLOCK = ''auto_classifier_block''"
| "reason_str R_SANDBOX_AUTO = ''sandbox_auto''"
| "reason_str R_PERSISTED_GRANT = ''persisted_grant''"
| "reason_str R_SESSION_GRANT = ''session_grant''"
| "reason_str R_STATIC_ALLOWLIST = ''static_allowlist''"
| "reason_str R_SAFE_COMMAND = ''safe_command''"
| "reason_str R_SESSION_DENY = ''session_deny''"
| "reason_str R_PROMPT_DENY = ''prompt_deny''"
| "reason_str R_NEEDS_USER = ''needs_user''"

definition clamp_yolo :: "bool \<Rightarrow> string option \<Rightarrow> bool" where
  "clamp_yolo requested yolo_pin \<longleftrightarrow> requested \<and> yolo_pin = None"

fun is_bash_access :: "access_kind \<Rightarrow> bool" where
  "is_bash_access (Bash _) = True"
| "is_bash_access _ = False"

definition auto_prompt_blocks_allow :: "access_kind \<Rightarrow> bool" where
  "auto_prompt_blocks_allow access \<longleftrightarrow> \<not> is_bash_access access"

definition persisted_bash_auto_allows :: "permission_state \<Rightarrow> string \<Rightarrow> string option \<Rightarrow> bool" where
  "persisted_bash_auto_allows st cmd yolo_pin \<longleftrightarrow>
     (st_allow_bash_execute st \<and> yolo_pin = None) \<or> cmd \<in> set (st_allowed_bash st)"

record bash_grant_opts =
  honor_safe_lists :: bool
  allow_blanket :: bool
  conservative_blanket :: bool

definition PRE_CLASSIFIER :: bash_grant_opts where
  "PRE_CLASSIFIER = \<lparr>honor_safe_lists = True, allow_blanket = True, conservative_blanket = True\<rparr>"

definition ASK_FLOOR_REMEMBER :: bash_grant_opts where
  "ASK_FLOOR_REMEMBER = \<lparr>honor_safe_lists = False, allow_blanket = False, conservative_blanket = False\<rparr>"

definition post_classify :: "bool \<Rightarrow> bash_grant_opts" where
  "post_classify auto_forced_prompt =
     \<lparr>honor_safe_lists = True, allow_blanket = \<not> auto_forced_prompt, conservative_blanket = False\<rparr>"

definition grant_allow :: "reason \<Rightarrow> (decision \<times> reason) option" where
  "grant_allow r = Some (Allow, r)"

definition bash_grant_pre_decision ::
    "externals \<Rightarrow> string \<Rightarrow> permission_state \<Rightarrow> string option \<Rightarrow> bash_grant_opts \<Rightarrow> (decision \<times> reason) option" where
  "bash_grant_pre_decision X cmd st yolo_pin opts =
     (case (if honor_safe_lists opts then evaluate_bash_segments X cmd st
            else evaluate_bash_segments_inner X cmd st False) of
        SegReject reason \<Rightarrow> Some (Reject reason, R_SESSION_DENY)
      | AutoAllow via_session_grant \<Rightarrow>
          grant_allow (if via_session_grant then R_SESSION_GRANT else R_SAFE_COMMAND)
      | NeedsPrompts _ any_dangerous \<Rightarrow>
          (if \<not> allow_blanket opts then None
           else if any_dangerous \<and> conservative_blanket opts then None
           else if persisted_bash_auto_allows st cmd yolo_pin then grant_allow R_SESSION_GRANT
           else None)
      | Unparseable \<Rightarrow>
          (if \<not> allow_blanket opts then None
           else if (if conservative_blanket opts then cmd \<in> set (st_allowed_bash st)
                    else persisted_bash_auto_allows st cmd yolo_pin)
                then grant_allow R_SESSION_GRANT
                else None))"

text \<open>A \<open>url::Url\<close> as parsed by the externals: \<open>None\<close> when the text is no URL.\<close>

type_synonym url_parser = "string \<Rightarrow> url option"

definition session_grant_pre_decision ::
    "externals \<Rightarrow> url_parser \<Rightarrow> access_kind \<Rightarrow> permission_state \<Rightarrow> bool \<Rightarrow> domain_matcher \<Rightarrow> string option \<Rightarrow>
     (decision \<times> reason) option" where
  "session_grant_pre_decision X parse_url access st allow_edits_for_session static_domains yolo_pin =
     (case access of
        MCPTool name _ \<Rightarrow> map_option (\<lambda>d. (d, R_SESSION_GRANT)) (mcp_pre_decision name st False False)
      | WebFetch u \<Rightarrow>
          (case parse_url u of
             None \<Rightarrow> None
           | Some parsed \<Rightarrow>
               (if matcher_check X static_domains parsed = None then grant_allow R_STATIC_ALLOWLIST
                else case host_str parsed of
                       None \<Rightarrow> None
                     | Some h \<Rightarrow>
                         (if normalize_domain X h \<in> set (st_allowed_domains st)
                          then grant_allow R_SESSION_GRANT else None)))
      | Edit _ \<Rightarrow> (if allow_edits_for_session then grant_allow R_SESSION_GRANT else None)
      | Bash cmd \<Rightarrow> bash_grant_pre_decision X cmd st yolo_pin PRE_CLASSIFIER
      | Read _ \<Rightarrow> None
      | Grep _ _ \<Rightarrow> None
      | WebSearch _ \<Rightarrow> None)"

end
