(* ===== verification/GrantsSpec.thy ===== *)
theory GrantsSpec
  imports Grants
begin

text \<open>
  What the grants promise: a script is auto-allowed only if each of its commands is, a rejected
  prefix rejects the script wherever it occurs, prefixes match whole words, dangerous commands
  are never allowed before the classifier, and state files stay in their directory.
\<close>

section \<open>Prefixes are whole words\<close>

lemma matches_prefix_iff: "matches_command_prefix s p \<longleftrightarrow> s = p \<or> (\<exists>r. s = p @ '' '' @ r)"
proof
  assume m: "matches_command_prefix s p"
  show "s = p \<or> (\<exists>r. s = p @ '' '' @ r)"
  proof (cases "s = p")
    case False
    then obtain t where t: "s = p @ t" "get_at s (length p) = Some (CHR '' '')"
      using m by (auto simp: matches_command_prefix_def prefix_def)
    then show ?thesis by (cases t) (auto simp: get_at_def nth_append split: if_splits)
  qed simp
qed (auto simp: matches_command_prefix_def get_at_def)

lemma join_with_append:
  "xs \<noteq> [] \<Longrightarrow> ys \<noteq> [] \<Longrightarrow> join_with sep (xs @ ys) = join_with sep xs @ sep @ join_with sep ys"
proof (induction sep xs rule: join_with.induct)
  case (2 sep x)
  then show ?case by (cases ys) simp_all
qed simp_all

text \<open>A remembered prefix is matched word by word: it covers a command exactly when its blank
  separated words are the first words of the command, so \<open>git\<close> never covers \<open>gitleaks\<close>.\<close>

theorem prefixes_match_whole_words:
  "matches_command_prefix s p = prefix (split_on (CHR '' '') p) (split_on (CHR '' '') s)"
proof
  assume "matches_command_prefix s p"
  then show "prefix (split_on (CHR '' '') p) (split_on (CHR '' '') s)"
    by (auto simp: matches_prefix_iff split_on_append)
next
  assume "prefix (split_on (CHR '' '') p) (split_on (CHR '' '') s)"
  then obtain rest where rest: "split_on (CHR '' '') s = split_on (CHR '' '') p @ rest"
    by (auto simp: prefix_def)
  have s: "s = join_with '' '' (split_on (CHR '' '') p @ rest)"
    using join_split_on [of "CHR '' ''" s] rest by simp
  show "matches_command_prefix s p"
  proof (cases "rest = []")
    case True
    then show ?thesis using s join_split_on [of "CHR '' ''" p] by (simp add: matches_prefix_iff)
  next
    case False
    then have "s = p @ '' '' @ join_with '' '' rest"
      using s join_with_append [OF split_on_not_Nil False] join_split_on [of "CHR '' ''" p] by metis
    then show ?thesis by (simp add: matches_prefix_iff)
  qed
qed

section \<open>Segments\<close>

definition disallowed_segment :: "permission_state \<Rightarrow> string list \<Rightarrow> bool" where
  "disallowed_segment st raw \<longleftrightarrow>
     (let words = unwrap_wrappers raw
      in \<not> is_setup_command words \<and> (\<exists>d \<in> set (st_disallowed_bash st). matches_command_prefix (join_words words) d))"

definition dangerous_segment :: "string list \<Rightarrow> bool" where
  "dangerous_segment raw \<longleftrightarrow>
     (let words = unwrap_wrappers raw in \<not> is_setup_command words \<and> is_dangerous_command_words words)"

definition approved_segment :: "permission_state \<Rightarrow> bool \<Rightarrow> string list \<Rightarrow> bool" where
  "approved_segment st honor raw \<longleftrightarrow>
     (let words = unwrap_wrappers raw in
      is_setup_command words \<or>
      (\<not> is_dangerous_command_words words \<and>
       ((\<exists>a \<in> set (st_allowed_bash st). matches_command_prefix (join_words words) a) \<or>
        (honor \<and> (is_safe_command_words words \<or> is_always_safe_command_words words)))))"

lemma segment_step_Inl:
  "(\<exists>r. segment_step st honor acc raw = Inl r) \<longleftrightarrow> disallowed_segment st raw"
  by (auto simp: segment_step_def disallowed_segment_def Let_def find_None dest: find_SomeD
      split: option.splits)

lemma segment_step_Inr:
  "segment_step st honor acc raw = Inr acc' \<Longrightarrow>
   (acc_prompt acc' = [] \<longleftrightarrow> acc_prompt acc = [] \<and> approved_segment st honor raw) \<and>
   (acc_dangerous acc' \<longleftrightarrow> acc_dangerous acc \<or> dangerous_segment raw)"
  by (auto simp: segment_step_def approved_segment_def dangerous_segment_def Let_def list_ex_iff
      split: option.splits if_splits)

lemma segments_loop_Inl:
  "(\<exists>r. segments_loop st honor acc ws = Inl r) \<longleftrightarrow> (\<exists>w \<in> set ws. disallowed_segment st w)"
proof (induction ws arbitrary: acc)
  case (Cons w ws)
  show ?case
  proof (cases "segment_step st honor acc w")
    case (Inl r)
    then have "disallowed_segment st w" using segment_step_Inl by blast
    with Inl show ?thesis by simp
  next
    case (Inr acc')
    then have "\<not> disallowed_segment st w" using segment_step_Inl [of st honor acc w] by simp
    with Inr Cons show ?thesis by simp
  qed
qed simp

lemma segments_loop_Inr:
  "segments_loop st honor acc ws = Inr acc' \<Longrightarrow>
   (acc_prompt acc' = [] \<longleftrightarrow> acc_prompt acc = [] \<and> (\<forall>w \<in> set ws. approved_segment st honor w)) \<and>
   (acc_dangerous acc' \<longleftrightarrow> acc_dangerous acc \<or> (\<exists>w \<in> set ws. dangerous_segment w))"
proof (induction ws arbitrary: acc)
  case (Cons w ws)
  then obtain acc1 where s: "segment_step st honor acc w = Inr acc1"
    "segments_loop st honor acc1 ws = Inr acc'"
    by (auto split: sum.splits)
  show ?case using Cons.IH [OF s(2)] segment_step_Inr [OF s(1)] by auto
qed simp

definition segments_of :: "externals \<Rightarrow> string \<Rightarrow> string list list option" where
  "segments_of X cmd = map_option (map pc_words) (all_commands_from_script X cmd)"

lemma evaluate_segments_cases:
  assumes "segments_of X cmd = Some ws"
  shows "(\<exists>r. evaluate_bash_segments_inner X cmd st honor = SegReject r) \<longleftrightarrow>
      (\<exists>w \<in> set ws. disallowed_segment st w)"
    and "(\<exists>b. evaluate_bash_segments_inner X cmd st honor = AutoAllow b) \<longleftrightarrow>
      (\<forall>w \<in> set ws. approved_segment st honor w \<and> \<not> disallowed_segment st w)"
    and "evaluate_bash_segments_inner X cmd st honor \<noteq> Unparseable"
    and "evaluate_bash_segments_inner X cmd st honor = NeedsPrompts ps d \<Longrightarrow>
      d = (\<exists>w \<in> set ws. dangerous_segment w)"
proof -
  let ?acc = "\<lparr>acc_prompt = [], acc_dangerous = False, acc_grant = False\<rparr> :: segment_acc"
  obtain segs where segs: "all_commands_from_script X cmd = Some segs" "ws = map pc_words segs"
    using assms by (auto simp: segments_of_def)
  note eval = evaluate_bash_segments_inner_def [of X cmd st honor, unfolded segs(1) option.case segs(2) [symmetric]]
  show "(\<exists>r. evaluate_bash_segments_inner X cmd st honor = SegReject r) \<longleftrightarrow>
      (\<exists>w \<in> set ws. disallowed_segment st w)"
    using segments_loop_Inl [of st honor ?acc ws] unfolding eval by (auto split: sum.splits)
  show "(\<exists>b. evaluate_bash_segments_inner X cmd st honor = AutoAllow b) \<longleftrightarrow>
      (\<forall>w \<in> set ws. approved_segment st honor w \<and> \<not> disallowed_segment st w)"
    using segments_loop_Inl [of st honor ?acc ws] segments_loop_Inr [of st honor ?acc ws]
    unfolding eval by (cases "segments_loop st honor ?acc ws") auto
  show "evaluate_bash_segments_inner X cmd st honor \<noteq> Unparseable"
    unfolding eval by (auto split: sum.splits)
  show "evaluate_bash_segments_inner X cmd st honor = NeedsPrompts ps d \<Longrightarrow>
      d = (\<exists>w \<in> set ws. dangerous_segment w)"
    using segments_loop_Inr [of st honor ?acc ws] unfolding eval by (auto split: sum.splits if_splits)
qed

lemma evaluate_segments_unparsed:
  "segments_of X cmd = None \<Longrightarrow> evaluate_bash_segments_inner X cmd st honor = Unparseable"
  by (simp add: segments_of_def evaluate_bash_segments_inner_def)

text \<open>A chain is auto-allowed only as a whole: a script runs unasked on the strength of its
  segments exactly when it decomposes and every command of it, wrappers peeled, is a setup
  command or an approved one - not dangerous, and covered by a grant or (where they count) the
  safe lists - and none is covered by a rejected prefix.\<close>

theorem auto_allow_needs_every_segment:
  "(\<exists>b. evaluate_bash_segments_inner X cmd st honor = AutoAllow b) =
   (\<exists>ws. segments_of X cmd = Some ws \<and>
     list_all (\<lambda>w. approved_segment st honor w \<and> \<not> disallowed_segment st w) ws)"
  using evaluate_segments_cases(2) evaluate_segments_unparsed
  by (cases "segments_of X cmd") (auto simp: list_all_iff)

text \<open>A rejected prefix rejects the whole script wherever in the chain it occurs, before any
  grant is considered.\<close>

theorem rejected_prefix_rejects_script:
  "(\<exists>r. bash_grant_pre_decision X cmd st pin opts = Some (Reject r, R_SESSION_DENY)) =
   (\<exists>ws. segments_of X cmd = Some ws \<and> list_ex (disallowed_segment st) ws)"
proof (cases "segments_of X cmd")
  case None
  then show ?thesis
    by (auto simp: bash_grant_pre_decision_def evaluate_bash_segments_def evaluate_segments_unparsed grant_allow_def
        split: if_splits)
next
  case (Some ws)
  have "(\<exists>r. bash_grant_pre_decision X cmd st pin opts = Some (Reject r, R_SESSION_DENY)) \<longleftrightarrow>
      (\<exists>r. evaluate_bash_segments_inner X cmd st (honor_safe_lists opts) = SegReject r)"
    by (auto simp: bash_grant_pre_decision_def evaluate_bash_segments_def grant_allow_def
        split: segment_evaluation.splits if_splits)
  with Some show ?thesis using evaluate_segments_cases(1) [OF Some] by (auto simp: list_ex_iff)
qed

text \<open>A script with a dangerous command is never allowed by a grant before the auto classifier
  has seen it, nor once the classifier asked for a prompt, nor to satisfy an ask rule; afterwards
  only a blanket grant covers it: the whole script, or all commands when no pin forbids that.\<close>

theorem dangerous_commands_need_blanket_grant:
  assumes "segments_of X cmd = Some ws" "list_ex dangerous_segment ws"
  shows "bash_grant_pre_decision X cmd st pin PRE_CLASSIFIER \<noteq> Some (Allow, r) \<and>
    bash_grant_pre_decision X cmd st pin ASK_FLOOR_REMEMBER \<noteq> Some (Allow, r) \<and>
    bash_grant_pre_decision X cmd st pin (post_classify True) \<noteq> Some (Allow, r) \<and>
    (bash_grant_pre_decision X cmd st pin (post_classify False) = Some (Allow, r) \<longrightarrow>
      r = R_SESSION_GRANT \<and>
      (cmd \<in> set (st_allowed_bash st) \<or> (st_allow_bash_execute st \<and> pin = None)))"
proof -
  have "\<not> (\<exists>b. evaluate_bash_segments_inner X cmd st h = AutoAllow b)" for h
    using assms(2) unfolding evaluate_segments_cases(2) [OF assms(1)]
    by (auto simp: list_ex_iff approved_segment_def dangerous_segment_def Let_def)
  moreover have "evaluate_bash_segments_inner X cmd st h = NeedsPrompts ps d \<Longrightarrow> d" for h ps d
    using evaluate_segments_cases(4) [OF assms(1)] assms(2) by (auto simp: list_ex_iff)
  moreover note evaluate_segments_cases(3) [OF assms(1)]
  ultimately show ?thesis
    by (auto simp: bash_grant_pre_decision_def evaluate_bash_segments_def grant_allow_def
        PRE_CLASSIFIER_def ASK_FLOOR_REMEMBER_def post_classify_def persisted_bash_auto_allows_def
        split: segment_evaluation.splits if_splits)
qed

section \<open>Concrete scripts\<close>

text \<open>The tree of a single command of plain words, and a grammar that knows the given ones.\<close>

fun arg_nodes :: "nat \<Rightarrow> string list \<Rightarrow> node list" where
  "arg_nodes i [] = []"
| "arg_nodes i (w # ws) =
     Node ''word'' True (Some ''argument'') i (i + length w) False [] # arg_nodes (i + length w + 1) ws"

fun simple_tree :: "string list \<Rightarrow> node" where
  "simple_tree [] = Node ''program'' True None 0 0 False []"
| "simple_tree (w # ws) =
     (let n = length (join_words (w # ws))
      in Node ''program'' True None 0 n False
           [Node ''command'' True None 0 n False
             (Node ''command_name'' True (Some ''name'') 0 (length w) False
                [Node ''word'' True None 0 (length w) False []]
              # arg_nodes (length w + 1) ws)])"

definition shell_for :: "string list list \<Rightarrow> externals" where
  "shell_for scripts = tiny\<lparr>parse_shell :=
     (\<lambda>s. map_option simple_tree (find (\<lambda>ws. join_words ws = s) scripts))\<rparr>"

lemma rm_segments: "segments_of (shell_for [[''rm'', ''x'']]) ''rm x'' = Some [[''rm'', ''x'']]"
  by code_simp

theorem dangerous_commands_need_blanket_grant_witness:
  "bash_grant_pre_decision (shell_for [[''rm'', ''x'']]) ''rm x''
     (default_state\<lparr>st_allowed_bash := [''rm x'']\<rparr>) None PRE_CLASSIFIER \<noteq> Some (Allow, R_SESSION_GRANT)"
proof -
  have "list_ex dangerous_segment [[''rm'', ''x'']]" by code_simp
  from dangerous_commands_need_blanket_grant [OF rm_segments this] show ?thesis by blast
qed

section \<open>What runs unasked\<close>

text \<open>Setup commands are outside every check: a script of setup commands only - \<open>cd\<close>, \<open>set\<close>,
  but also \<open>source\<close> and \<open>.\<close>, which run another script - is allowed without a prompt as a safe
  command in every grant state, even one that rejects those very prefixes.\<close>

theorem setup_only_scripts_run_unasked:
  assumes "segments_of X cmd = Some ws" "list_all (\<lambda>w. is_setup_command (unwrap_wrappers w)) ws"
  shows "bash_grant_pre_decision X cmd st pin PRE_CLASSIFIER = Some (Allow, R_SAFE_COMMAND)"
proof -
  obtain segs where segs: "all_commands_from_script X cmd = Some segs" "ws = map pc_words segs"
    using assms(1) by (auto simp: segments_of_def)
  have "segments_loop st honor acc ws = Inr acc" for honor acc
    using assms(2) by (induction ws) (simp_all add: segment_step_def Let_def)
  then show ?thesis
    using segs by (simp add: bash_grant_pre_decision_def evaluate_bash_segments_def
        evaluate_bash_segments_inner_def PRE_CLASSIFIER_def grant_allow_def)
qed

theorem setup_only_scripts_run_unasked_witness:
  "bash_grant_pre_decision (shell_for [[''source'', ''./evil.sh'']]) ''source ./evil.sh''
     (default_state\<lparr>st_disallowed_bash := [''source'']\<rparr>) None PRE_CLASSIFIER = Some (Allow, R_SAFE_COMMAND)"
proof (rule setup_only_scripts_run_unasked)
  show "segments_of (shell_for [[''source'', ''./evil.sh'']]) ''source ./evil.sh'' =
      Some [[''source'', ''./evil.sh'']]" by code_simp
  show "list_all (\<lambda>w. is_setup_command (unwrap_wrappers w)) [[''source'', ''./evil.sh'']]" by code_simp
qed

lemma flags_end_bounds: "n \<le> length words \<Longrightarrow> n \<le> flags_end words n \<and> flags_end words n \<le> length words"
  using length_takeWhile_le [of "\<lambda>w. starts_with w ''-''" "drop n words"] by (simp add: flags_end_def)

lemma scope_bounds:
  "words \<noteq> [] \<Longrightarrow> 0 < default_always_allow_scope words \<and> default_always_allow_scope words \<le> length words"
  using flags_end_bounds [of "min (length words) 2" words]
  by (auto simp: default_always_allow_scope_def Suc_le_eq simp flip: length_greater_0_conv)

lemma join_take_matches:
  assumes "0 < n" "n \<le> length words"
  shows "matches_command_prefix (join_words words) (join_words (take n words))"
proof (cases "n = length words")
  case False
  then have "take n words \<noteq> []" "drop n words \<noteq> []" using assms by auto
  from join_with_append [OF this, of "'' ''"] show ?thesis
    by (simp add: join_words_def matches_prefix_iff)
qed (simp add: matches_prefix_iff)

text \<open>The default scope of a remembered command covers that command - its words, cut at the
  scope, are a prefix that matches it - but for a safe command it is wider than the safe lists:
  remembering \<open>rg\<close> also covers \<open>rg --pre\<close>, which the safe lists exclude.\<close>

theorem default_scope_covers_command:
  assumes "words \<noteq> []"
  shows "matches_command_prefix (join_words words) (join_words (take (default_always_allow_scope words) words)) \<and>
    default_always_allow_scope [''rg'', ''x''] = 1 \<and>
    \<not> approved_segment default_state True [''rg'', ''--pre'', ''x''] \<and>
    approved_segment (default_state\<lparr>st_allowed_bash := [join_words (take 1 [''rg'', ''x''])]\<rparr>) True [''rg'', ''--pre'', ''x'']"
proof (intro conjI)
  show "matches_command_prefix (join_words words) (join_words (take (default_always_allow_scope words) words))"
    using scope_bounds [OF assms] by (intro join_take_matches) auto
  show "default_always_allow_scope [''rg'', ''x''] = 1" by code_simp
  show "\<not> approved_segment default_state True [''rg'', ''--pre'', ''x'']" by code_simp
  show "approved_segment (default_state\<lparr>st_allowed_bash := [join_words (take 1 [''rg'', ''x''])]\<rparr>) True
      [''rg'', ''--pre'', ''x'']" by code_simp
qed

theorem default_scope_covers_command_witness:
  "matches_command_prefix ''sudo git status'' (join_words (take (default_always_allow_scope [''sudo'', ''git'', ''status'']) [''sudo'', ''git'', ''status'']))"
  using default_scope_covers_command [of "[''sudo'', ''git'', ''status'']"] by (simp add: join_words_def)

section \<open>MCP and pins\<close>

lemma mcp_grant_iff:
  "mcp_pre_decision name st forced remember = Some Allow \<longleftrightarrow>
   (forced \<longrightarrow> remember) \<and>
   (name \<in> set (st_allowed_mcp_tools st) \<or>
    (\<exists>server tool. split_once ''__'' name = Some (server, tool) \<and> server \<noteq> [] \<and>
      server \<in> set (st_allowed_mcp_servers st)))"
  by (auto simp: mcp_pre_decision_def mcp_server_prefix_allowed_def split: option.splits)

lemma mcp_pre_decision_Allow: "mcp_pre_decision name st forced remember = Some d \<Longrightarrow> d = Allow"
  by (auto simp: mcp_pre_decision_def split: if_splits)

section \<open>State files\<close>

lemma client_id_char_safe: "client_id_char c \<Longrightarrow> c \<noteq> CHR ''/'' \<and> c \<noteq> CHR ''.'' \<and> c \<noteq> CHR 0x5C"
  by (auto simp: client_id_char_def ascii_alpha_def ascii_digit_def Let_def)

lemma sanitize_chars: "c \<in> set (sanitize_client_id ident) \<Longrightarrow> client_id_char c"
  by (auto simp: sanitize_client_id_def client_id_char_def split: if_splits)

text \<open>A client's grants are what was last saved for it, in a file of its own directory: the state
  loads back as it was saved; before anything was saved the shared state is used; and no client
  identifier can name a file outside the directory.\<close>

theorem state_files_roundtrip:
  "load_state_from_dir (persist_state_to_dir st client dir) client = st \<and>
   CHR ''/'' \<notin> set (state_file_name client) \<and> CHR 0x5C \<notin> set (state_file_name client) \<and>
   (dir (state_file_name (Some ident)) = None \<longrightarrow>
     load_state_from_dir dir (Some ident) = load_state_from_dir dir None)"
proof -
  have "\<not> (CHR ''/'' \<in> set (state_file_name client) \<or> CHR 0x5C \<in> set (state_file_name client))"
    using sanitize_chars client_id_char_safe
    by (cases client) (auto simp: state_file_name_def)
  then show ?thesis
    by (auto simp: load_state_from_dir_def persist_state_to_dir_def split: option.splits)
qed

theorem state_files_roundtrip_witness:
  "load_state_from_dir (Map.empty(''permission.toml'' \<mapsto> default_state)) (Some ''grok-web'') = default_state"
proof -
  let ?dir = "Map.empty(''permission.toml'' \<mapsto> default_state)"
  have "?dir (state_file_name (Some ''grok-web'')) = None"
    by (simp add: state_file_name_def)
  then have "load_state_from_dir ?dir (Some ''grok-web'') = load_state_from_dir ?dir None"
    using state_files_roundtrip [of default_state None ?dir "''grok-web''"] by blast
  then show ?thesis by (simp add: load_state_from_dir_def state_file_name_def)
qed

end
