(* ===== verification/RustPath.thy ===== *)
theory RustPath
  imports Prelude
begin

text \<open>
  \<open>std::path::Path\<close> for Unix, up to its equality (paths with the same components are the same
  path): components, \<open>join\<close>, \<open>parent\<close>, \<open>file_name\<close>.
\<close>

definition path_is_absolute :: "string \<Rightarrow> bool" where
  "path_is_absolute p \<longleftrightarrow> starts_with p ''/''"

definition path_components :: "string \<Rightarrow> string list" where
  "path_components p =
     (let segs = split_on (CHR ''/'') p;
          keep = (\<lambda>s. s \<noteq> [] \<and> s \<noteq> ''.'')
      in if path_is_absolute p then ''/'' # filter keep segs
         else if hd segs = ''.'' then ''.'' # filter keep (tl segs)
         else filter keep segs)"

definition path_join :: "string \<Rightarrow> string \<Rightarrow> string" where
  "path_join base p =
     (if path_is_absolute p then p
      else if base = [] \<or> ends_with base ''/'' then base @ p
      else base @ ''/'' @ p)"

definition path_of_components :: "string list \<Rightarrow> string" where
  "path_of_components cs = foldl path_join [] cs"

definition path_parent :: "string \<Rightarrow> string option" where
  "path_parent p =
     (let cs = path_components p
      in if cs = [] \<or> cs = [''/''] then None else Some (path_of_components (butlast cs)))"

definition path_file_name :: "string \<Rightarrow> string option" where
  "path_file_name p =
     (let cs = path_components p
      in if cs = [] \<or> last cs \<in> {''/'', ''.'', ''..''} then None else Some (last cs))"

text \<open>\<open>Path::strip_prefix\<close>: what is left of a path below another one.\<close>

definition path_strip_prefix :: "string \<Rightarrow> string \<Rightarrow> string option" where
  "path_strip_prefix p base =
     (let cs = path_components p; bs = path_components base
      in if take (length bs) cs = bs then Some (path_of_components (drop (length bs) cs)) else None)"

section \<open>Facts about components\<close>

definition kept_segments :: "string \<Rightarrow> string list" where
  "kept_segments p = filter (\<lambda>s. s \<noteq> [] \<and> s \<noteq> ''.'') (split_on (CHR ''/'') p)"

lemma components_absolute: "path_is_absolute p \<Longrightarrow> path_components p = ''/'' # kept_segments p"
  by (simp add: path_components_def kept_segments_def Let_def)

lemma kept_append: "kept_segments (p @ CHR ''/'' # q) = kept_segments p @ kept_segments q"
  by (simp add: kept_segments_def split_on_append)

lemma kept_Nil [simp]: "kept_segments [] = []"
  by (simp add: kept_segments_def)

text \<open>Joining appends components.\<close>

lemma join_absolute:
  assumes "path_is_absolute base" "\<not> path_is_absolute p"
  shows "path_components (path_join base p) = path_components base @ kept_segments p"
proof (cases "ends_with base ''/''")
  case True
  then obtain b where b: "base = b @ ''/''" by (auto simp: suffix_def)
  have "path_is_absolute (b @ CHR ''/'' # p)"
    using assms(1) b by (cases b) (auto simp: path_is_absolute_def)
  with b assms True show ?thesis
    using kept_append [of b "[]"] by (simp add: path_join_def components_absolute kept_append)
next
  case False
  have "base \<noteq> []" using assms(1) by (auto simp: path_is_absolute_def)
  moreover from this assms(1) have "path_is_absolute (base @ CHR ''/'' # p)"
    by (cases base) (auto simp: path_is_absolute_def)
  ultimately show ?thesis
    using False assms by (simp add: path_join_def components_absolute kept_append)
qed

definition plain_component :: "string \<Rightarrow> bool" where
  "plain_component s \<longleftrightarrow> s \<noteq> [] \<and> s \<noteq> ''.'' \<and> CHR ''/'' \<notin> set s"

lemma kept_plain: "s \<in> set (kept_segments p) \<Longrightarrow> plain_component s"
  by (auto simp: kept_segments_def plain_component_def dest: split_on_no_sep)

lemma plain_relative: "plain_component s \<Longrightarrow> \<not> path_is_absolute s"
  by (cases s) (auto simp: plain_component_def path_is_absolute_def)

lemma foldl_join_plain:
  assumes "list_all plain_component cs" "b \<noteq> []" "\<not> ends_with b ''/''"
  shows "foldl path_join b cs = join_with ''/'' (b # cs)"
  using assms
proof (induction cs arbitrary: b)
  case (Cons c cs)
  have c: "plain_component c" using Cons.prems(1) by simp
  have "\<not> ends_with (b @ CHR ''/'' # c) ''/''"
  proof
    assume "ends_with (b @ CHR ''/'' # c) ''/''"
    then have "last (b @ CHR ''/'' # c) = CHR ''/''" unfolding suffix_def by (metis last_snoc)
    with c show False by (auto simp: plain_component_def split: if_split_asm dest: last_in_set)
  qed
  with Cons.IH [of "b @ CHR ''/'' # c"] Cons.prems c plain_relative [OF c] show ?case
    by (cases cs) (auto simp: path_join_def)
qed simp

lemma of_components_plain:
  assumes "list_all plain_component cs"
  shows "path_of_components cs = join_with ''/'' cs"
proof (cases cs)
  case (Cons c cs')
  have c: "plain_component c" using assms Cons by simp
  then have "\<not> ends_with c ''/''" by (auto simp: plain_component_def suffix_def)
  with foldl_join_plain [of cs' c] assms Cons c plain_relative [OF c] show ?thesis
    by (auto simp: path_of_components_def path_join_def plain_component_def)
qed (simp add: path_of_components_def)

lemma kept_of_components:
  assumes "list_all plain_component cs"
  shows "kept_segments (path_of_components cs) = cs" "\<not> path_is_absolute (path_of_components cs)"
proof -
  have filter: "filter (\<lambda>s. s \<noteq> [] \<and> s \<noteq> ''.'') cs = cs"
    using assms by (auto simp: filter_id_conv list_all_iff plain_component_def)
  show "kept_segments (path_of_components cs) = cs"
  proof (cases "cs = []")
    case False
    have "\<forall>s \<in> set cs. CHR ''/'' \<notin> set s" using assms by (auto simp: list_all_iff plain_component_def)
    then have "split_on (CHR ''/'') (join_with ''/'' cs) = cs"
      using False by (rule split_join_segments [rotated])
    then show ?thesis by (simp add: kept_segments_def of_components_plain [OF assms] filter)
  qed (simp add: path_of_components_def)
  show "\<not> path_is_absolute (path_of_components cs)"
  proof (cases cs)
    case (Cons c cs')
    then have "\<not> path_is_absolute c" "c \<noteq> []"
      using assms plain_relative by (auto simp: plain_component_def)
    with Cons show ?thesis
      unfolding of_components_plain [OF assms] by (cases cs'; cases c) (auto simp: path_is_absolute_def)
  qed (simp add: path_of_components_def path_is_absolute_def)
qed

text \<open>What is left below an absolute path leads back to the path.\<close>

lemma strip_prefix_join:
  assumes "path_is_absolute base" "path_strip_prefix p base = Some r" "path_is_absolute p"
  shows "path_components (path_join base r) = path_components p" "\<not> path_is_absolute r"
    "list_all plain_component (kept_segments r)" "r = path_of_components (kept_segments r)"
proof -
  define bs where "bs = kept_segments base"
  define cs where "cs = kept_segments p"
  have eq: "take (length bs) cs = bs" "r = path_of_components (drop (length bs) cs)"
    using assms by (auto simp: path_strip_prefix_def components_absolute bs_def cs_def Let_def split: if_split_asm)
  have plain: "list_all plain_component (drop (length bs) cs)"
    unfolding cs_def by (auto simp: list_all_iff dest!: in_set_dropD intro: kept_plain)
  note r = kept_of_components [OF plain, folded eq(2)]
  show "\<not> path_is_absolute r" by (rule r(2))
  show "path_components (path_join base r) = path_components p"
    using join_absolute [OF assms(1) r(2)] r(1) eq(1) components_absolute [OF assms(1)] components_absolute [OF assms(3)]
    by (metis append_Cons append_take_drop_id bs_def cs_def)
  show "list_all plain_component (kept_segments r)" using plain r(1) by simp
  show "r = path_of_components (kept_segments r)" using eq(2) r(1) by simp
qed

end
