(* ===== verification/ShellPaths.thy ===== *)
theory ShellPaths
  imports PermTypes RustPath
begin

text \<open>
  \<open>permission/shell_access.rs\<close>, the part on paths: textual normalisation and the resolution of
  symbolic links, over the paths of \<open>RustPath\<close>.
\<close>

section \<open>Textual normalisation\<close>

definition has_drive :: "string \<Rightarrow> bool" where
  "has_drive p \<longleftrightarrow> get_at p 1 = Some (CHR '':'')"

definition is_absolute_shell_path :: "string \<Rightarrow> bool" where
  "is_absolute_shell_path p \<longleftrightarrow> starts_with p ''/'' \<or> starts_with p ''~/'' \<or> has_drive p"

definition is_quote :: "char \<Rightarrow> bool" where
  "is_quote c \<longleftrightarrow> c = CHR 0x22 \<or> c = CHR 0x27"

definition trim_quotes :: "string \<Rightarrow> string" where
  "trim_quotes p = rev (dropWhile is_quote (rev (dropWhile is_quote p)))"

definition normalize_shell_path_raw :: "string \<Rightarrow> string" where
  "normalize_shell_path_raw path =
     (let p = map (\<lambda>c. if c = CHR 0x5C then CHR ''/'' else c) (trim_quotes path)
      in case strip_prefix p ''/c/'' of
           Some rest \<Rightarrow> ''C:/'' @ rest
         | None \<Rightarrow> p)"

text \<open>The segment loop: the collected segments, last one first.\<close>

fun push_segment :: "bool \<Rightarrow> string list \<Rightarrow> string \<Rightarrow> string list" where
  "push_segment absolute out seg =
     (if seg = [] \<or> seg = ''.'' then out
      else if seg = ''..'' then
        (case out of
           s # rest \<Rightarrow> (if s \<noteq> ''..'' then rest else if \<not> absolute then ''..'' # out else out)
         | [] \<Rightarrow> (if \<not> absolute then [''..''] else []))
      else seg # out)"

definition collapse :: "bool \<Rightarrow> string list \<Rightarrow> string list" where
  "collapse absolute segs = rev (foldl (push_segment absolute) [] segs)"

definition lexical_normalize :: "string \<Rightarrow> string" where
  "lexical_normalize path =
     (let prefix_len = (if has_drive path then 2 else 0);
          pre = take prefix_len path;
          rest = drop prefix_len path;
          absolute = starts_with rest ''/'';
          body = join_with ''/'' (collapse absolute (split_on (CHR ''/'') rest))
      in case (pre = [], absolute, body = []) of
           (False, True, False) \<Rightarrow> pre @ ''/'' @ body
         | (False, True, True) \<Rightarrow> pre @ ''/''
         | (False, False, _) \<Rightarrow> pre @ body
         | (True, True, False) \<Rightarrow> ''/'' @ body
         | (True, True, True) \<Rightarrow> ''/''
         | (True, False, _) \<Rightarrow> body)"

definition normalize_shell_path :: "string \<Rightarrow> string" where
  "normalize_shell_path path = lexical_normalize (normalize_shell_path_raw path)"

section \<open>Symbolic links\<close>

definition path_has_symlink :: "externals \<Rightarrow> string \<Rightarrow> bool" where
  "path_has_symlink X absolute =
     (if \<not> path_is_absolute absolute then False
      else let cs = path_components absolute
           in list_ex (\<lambda>k. fs_is_symlink X (path_of_components (take (Suc k) cs)) = Some True)
                [0..<length cs])"

definition MAX_SYMLINK_DEPTH :: nat where
  "MAX_SYMLINK_DEPTH = 40"

text \<open>\<open>resolve_following_symlinks\<close> with \<open>n\<close> levels of recursion left.\<close>

fun resolve_left :: "externals \<Rightarrow> nat \<Rightarrow> string \<Rightarrow> string option" where
  "resolve_left X 0 path = None"
| "resolve_left X (Suc n) path =
     (case fs_canonicalize X path of
        Some canonical \<Rightarrow> Some canonical
      | None \<Rightarrow>
          (case path_parent path of
             None \<Rightarrow> None
           | Some parent \<Rightarrow>
               (case path_file_name path of
                  None \<Rightarrow> None
                | Some file_name \<Rightarrow>
                    (case resolve_left X n parent of
                       None \<Rightarrow> None
                     | Some resolved_parent \<Rightarrow>
                         (let candidate = path_join resolved_parent file_name
                          in if fs_is_symlink X candidate = Some True then
                               (case fs_read_link X candidate of
                                  None \<Rightarrow> None
                                | Some target \<Rightarrow>
                                    resolve_left X n
                                      (if path_is_absolute target then target
                                       else path_join resolved_parent target))
                             else Some candidate)))))"

definition resolve_following_symlinks :: "externals \<Rightarrow> string \<Rightarrow> nat \<Rightarrow> string option" where
  "resolve_following_symlinks X path depth = resolve_left X (Suc MAX_SYMLINK_DEPTH - depth) path"

definition resolve_symlink_target :: "externals \<Rightarrow> string \<Rightarrow> string option" where
  "resolve_symlink_target X absolute =
     (if \<not> path_is_absolute absolute then None
      else map_option normalize_shell_path (resolve_following_symlinks X absolute 0))"

section \<open>What normalisation yields\<close>

definition plain_segment :: "string \<Rightarrow> bool" where
  "plain_segment s \<longleftrightarrow> s \<noteq> [] \<and> s \<noteq> ''.'' \<and> s \<noteq> ''..''"

lemma push_segment_absolute:
  "list_all plain_segment out \<Longrightarrow> list_all plain_segment (push_segment True out seg)"
  by (cases out) (auto simp: plain_segment_def)

lemma collapse_absolute_plain: "list_all plain_segment (collapse True segs)"
proof -
  have "list_all plain_segment out \<Longrightarrow> list_all plain_segment (foldl (push_segment True) out segs)" for out
    by (induction segs arbitrary: out) (simp_all add: push_segment_absolute del: push_segment.simps)
  then show ?thesis by (simp add: collapse_def)
qed

lemma foldl_push_plain:
  "list_all plain_segment segs \<Longrightarrow> foldl (push_segment a) out segs = rev segs @ out"
  by (induction segs arbitrary: out) (auto simp: plain_segment_def)

lemma collapse_plain: "list_all plain_segment segs \<Longrightarrow> collapse a segs = segs"
  by (simp add: collapse_def foldl_push_plain)

lemma collapse_append:
  "collapse True (segs @ segs') = collapse True (collapse True segs @ segs')"
  using foldl_push_plain [OF collapse_absolute_plain [of segs], where a = True and out = "[]"]
  by (simp add: collapse_def)

lemma push_segment_set: "set (push_segment a out seg) \<subseteq> insert seg (set out)"
  by (cases out) auto

lemma collapse_set: "set (collapse a segs) \<subseteq> set segs"
proof -
  have "set (foldl (push_segment a) out segs) \<subseteq> set out \<union> set segs" for out
  proof (induction segs arbitrary: out)
    case (Cons seg segs)
    then show ?case using Cons [of "push_segment a out seg"] push_segment_set [of a out seg]
      by (simp del: push_segment.simps) blast
  qed simp
  then show ?thesis by (simp add: collapse_def) fastforce
qed

definition rooted :: "string list \<Rightarrow> string" where
  "rooted segs = ''/'' @ join_with ''/'' segs"

lemma join_eq_Nil: "list_all plain_segment segs \<Longrightarrow> join_with ''/'' segs = [] \<longleftrightarrow> segs = []"
  by (cases segs; cases "tl segs") (auto simp: plain_segment_def)

lemma no_colon_no_drive: "CHR '':'' \<notin> set p \<Longrightarrow> \<not> has_drive p"
  unfolding has_drive_def using get_at_SomeD nth_mem by metis

lemma lexical_normalize_rooted:
  assumes "CHR '':'' \<notin> set p"
  shows "lexical_normalize (''/'' @ p) = rooted (collapse True (split_on (CHR ''/'') p))"
proof -
  have "\<not> has_drive (''/'' @ p)" using assms by (simp add: no_colon_no_drive)
  moreover have "collapse True (split_on (CHR ''/'') (''/'' @ p)) = collapse True (split_on (CHR ''/'') p)"
    by (simp add: collapse_def)
  ultimately show ?thesis
    using join_eq_Nil [OF collapse_absolute_plain, of "split_on (CHR ''/'') p"]
    by (simp add: lexical_normalize_def rooted_def Let_def split: bool.splits)
qed

lemma collapse_split_segments:
  "seg \<in> set (collapse a (split_on c p)) \<Longrightarrow> c \<notin> set seg"
  using collapse_set split_on_no_sep by fast

lemma set_join_subset: "set (join_with sep segs) \<subseteq> set sep \<union> \<Union> (set ` set segs)"
  by (induction sep segs rule: join_with.induct) auto

lemma set_split_subset: "seg \<in> set (split_on c p) \<Longrightarrow> set seg \<subseteq> set p"
proof (induction p arbitrary: seg)
  case (Cons x p)
  then show ?case
    using split_on_not_Nil [of c p] by (fastforce split: list.splits if_splits)
qed simp

lemma lexical_normalize_canonical:
  assumes "CHR '':'' \<notin> set p" "CHR '':'' \<notin> set q"
  shows "\<exists>segs. lexical_normalize (''/'' @ p) = rooted segs \<and> list_all plain_segment segs \<and>
      list_all (\<lambda>s. CHR ''/'' \<notin> set s) segs"
    and "lexical_normalize (lexical_normalize (''/'' @ p) @ ''/'' @ q) = lexical_normalize (''/'' @ p @ ''/'' @ q)"
proof -
  let ?segs = "collapse True (split_on (CHR ''/'') p)"
  note norm = lexical_normalize_rooted [OF assms(1)]
  have clean: "\<forall>s \<in> set ?segs. CHR ''/'' \<notin> set s" using collapse_split_segments by blast
  then show "\<exists>segs. lexical_normalize (''/'' @ p) = rooted segs \<and> list_all plain_segment segs \<and>
      list_all (\<lambda>s. CHR ''/'' \<notin> set s) segs"
    using norm collapse_absolute_plain by (auto simp: list_all_iff)
  have "CHR '':'' \<notin> set (join_with ''/'' ?segs)"
    using set_join_subset [of "''/''" ?segs] collapse_set [of True "split_on (CHR ''/'') p"]
      set_split_subset [of _ "CHR ''/''" p] assms(1) by fastforce
  then have "lexical_normalize (rooted ?segs @ ''/'' @ q) =
      rooted (collapse True (split_on (CHR ''/'') (join_with ''/'' ?segs @ ''/'' @ q)))"
    using lexical_normalize_rooted [of "join_with ''/'' ?segs @ ''/'' @ q"] assms(2)
    by (simp add: rooted_def)
  also have "\<dots> = rooted (collapse True (?segs @ split_on (CHR ''/'') q))"
  proof (cases "?segs = []")
    case True
    then show ?thesis by (simp add: collapse_def)
  next
    case False
    then show ?thesis using split_join_segments [OF False clean]
      by (simp add: split_on_append)
  qed
  also have "\<dots> = lexical_normalize (''/'' @ p @ ''/'' @ q)"
    using lexical_normalize_rooted [of "p @ ''/'' @ q"] assms
      collapse_append [of "split_on (CHR ''/'') p" "split_on (CHR ''/'') q"]
    by (simp add: split_on_append)
  finally show "lexical_normalize (lexical_normalize (''/'' @ p) @ ''/'' @ q) =
      lexical_normalize (''/'' @ p @ ''/'' @ q)" unfolding norm .
qed

text \<open>Normalisation of an absolute path reaches a canonical form: the result is \<open>/\<close> and plain
  segments, none empty, \<open>.\<close> or \<open>..\<close>, so no \<open>..\<close> can lead a rule astray; and a path may be
  normalised before or after a relative one is joined to it.\<close>

theorem normalized_path_is_canonical:
  assumes "CHR '':'' \<notin> set p" "CHR '':'' \<notin> set q"
  shows "(\<exists>segs. lexical_normalize (''/'' @ p) = rooted segs \<and> list_all plain_segment segs \<and>
      list_all (\<lambda>s. CHR ''/'' \<notin> set s) segs) \<and>
    lexical_normalize (lexical_normalize (''/'' @ p) @ ''/'' @ q) = lexical_normalize (''/'' @ p @ ''/'' @ q)"
  using lexical_normalize_canonical [OF assms] by blast

theorem normalized_path_is_canonical_witness:
  "\<exists>segs. lexical_normalize ''/src/../etc/./passwd'' = rooted segs \<and> list_all plain_segment segs"
  using normalized_path_is_canonical [of "''src/../etc/./passwd''" "[]"] by auto

section \<open>Resolution of links\<close>

text \<open>More depth never changes a resolved path, so the bound only turns long chains into failures.\<close>

lemma resolve_left_mono: "resolve_left X n path = Some r \<Longrightarrow> n \<le> m \<Longrightarrow> resolve_left X m path = Some r"
proof (induction X n path arbitrary: m r rule: resolve_left.induct)
  case (2 X n path)
  obtain m' where m: "m = Suc m'" "n \<le> m'" using "2.prems"(2) by (cases m) auto
  show ?case
  proof (cases "fs_canonicalize X path")
    case (Some c)
    then show ?thesis using "2.prems"(1) m by simp
  next
    case None
    then obtain par f rp where p: "path_parent path = Some par" "path_file_name path = Some f"
      "resolve_left X n par = Some rp"
      using "2.prems"(1) by (auto split: option.splits)
    have rp: "resolve_left X m' par = Some rp"
      using "2.IH"(1) [OF None p(1,2,3) m(2)] p by simp
    show ?thesis
    proof (cases "fs_is_symlink X (path_join rp f) = Some True")
      case True
      then obtain t where t: "fs_read_link X (path_join rp f) = Some t"
        using "2.prems"(1) None p by (auto split: option.splits)
      have "resolve_left X n (if path_is_absolute t then t else path_join rp t) = Some r"
        using "2.prems"(1) None p True t by simp
      then have "resolve_left X m' (if path_is_absolute t then t else path_join rp t) = Some r"
        using "2.IH"(2) [OF None p refl True t _ m(2)] by simp
      then show ?thesis using None p rp True t m by simp
    next
      case False
      then show ?thesis using "2.prems"(1) None p rp m by simp
    qed
  qed
qed simp

end
