(* ===== verification/ShellAccess.thy ===== *)
theory ShellAccess
  imports PolicySpec ShellPaths
begin

text \<open>
  \<open>permission/shell_access.rs\<close>: the files a shell command reads and writes, by redirection or as
  arguments of known programs, and the gate that holds them against the file rules.
\<close>

section \<open>Modes and operands of known programs\<close>

datatype shell_file_mode = ReadMode | WriteMode

definition READERS :: "string list" where
  "READERS =
     [''cat'', ''tac'', ''nl'', ''head'', ''tail'', ''grep'', ''egrep'', ''fgrep'', ''rg'', ''sed'',
      ''awk'', ''less'', ''more'', ''bat'', ''strings'', ''xxd'', ''od'', ''hexdump'', ''base64'',
      ''base32'', ''cut'', ''sort'', ''uniq'', ''wc'', ''type'', ''get-content'', ''gc'', ''diff'',
      ''comm'', ''rev'', ''jq'', ''yq'', ''select-string'', ''sls'', ''ag'', ''ack'', ''zcat'',
      ''zless'', ''zmore'', ''zgrep'', ''zegrep'', ''zfgrep'', ''bzcat'', ''bzgrep'', ''xzcat'',
      ''xzgrep'', ''zstdcat'', ''lz4cat'']"

definition WRITERS :: "string list" where
  "WRITERS = [''tee'', ''set-content'', ''out-file'', ''add-content'', ''tee-object'', ''truncate'']"

definition file_mode_of :: "string \<Rightarrow> shell_file_mode option" where
  "file_mode_of program =
     (if program \<in> set READERS then Some ReadMode
      else if program \<in> set WRITERS then Some WriteMode
      else None)"

definition short_option_with :: "(char \<Rightarrow> bool) \<Rightarrow> string \<Rightarrow> bool" where
  "short_option_with P w \<longleftrightarrow> starts_with w ''-'' \<and> \<not> starts_with w ''--'' \<and> list_ex P w"

definition shell_sed_in_place :: "string list \<Rightarrow> bool" where
  "shell_sed_in_place words =
     list_ex (\<lambda>w. w = ''--in-place'' \<or> starts_with w ''--in-place='' \<or>
                  short_option_with (\<lambda>c. c = CHR ''i'') w) (drop 1 words)"

definition output_flag_value :: "string list \<Rightarrow> nat \<Rightarrow> string option" where
  "output_flag_value words i =
     (let token = words ! i in
      opt_or (strip_prefix token ''--output='')
        (opt_or (opt_filter (\<lambda>v. v \<noteq> []) (strip_prefix token ''-o''))
          (if token = ''--output'' \<or> token = ''-o'' then get_at words (Suc i) else None)))"

definition shell_output_flag_values :: "string list \<Rightarrow> string list" where
  "shell_output_flag_values words = List.map_filter (output_flag_value words) [0..<length words]"

definition value_flag_value :: "string list \<Rightarrow> string \<Rightarrow> nat \<Rightarrow> string option" where
  "value_flag_value words flag i =
     (let token = words ! i in
      case strip_prefix token (flag @ ''='') of
        Some v \<Rightarrow> Some v
      | None \<Rightarrow>
          (if token = flag then get_at words (Suc i)
           else if \<not> starts_with flag ''--'' then opt_filter (\<lambda>v. v \<noteq> []) (strip_prefix token flag)
           else None))"

definition value_flag_values :: "string list \<Rightarrow> string \<Rightarrow> string list" where
  "value_flag_values words flag = List.map_filter (value_flag_value words flag) [0..<length words]"

fun candidates_from :: "bool \<Rightarrow> string list \<Rightarrow> string list" where
  "candidates_from end_of_options [] = []"
| "candidates_from end_of_options (token # rest) =
     (if \<not> end_of_options \<and> token = ''--'' then candidates_from True rest
      else if end_of_options \<or> (token \<noteq> ''-'' \<and> \<not> starts_with token ''-'')
      then token # candidates_from end_of_options rest
      else candidates_from end_of_options rest)"

definition shell_file_candidates :: "string list \<Rightarrow> string list" where
  "shell_file_candidates words = candidates_from False (drop 1 words)"

definition dd_operand :: "string \<Rightarrow> (string \<times> shell_file_mode) option" where
  "dd_operand token =
     opt_or (map_option (\<lambda>p. (p, ReadMode)) (strip_prefix token ''if=''))
            (map_option (\<lambda>p. (p, WriteMode)) (strip_prefix token ''of=''))"

definition writes :: "string list \<Rightarrow> (string \<times> shell_file_mode) list" where
  "writes ps = map (\<lambda>p. (p, WriteMode)) ps"

definition special_file_operands :: "string \<Rightarrow> string list \<Rightarrow> (string \<times> shell_file_mode) list" where
  "special_file_operands program words =
     (if program = ''dd'' then List.map_filter dd_operand (drop 1 words)
      else if program \<in> set [''sort'', ''go'', ''git''] then writes (shell_output_flag_values words)
      else if program = ''rustc'' then
        writes (shell_output_flag_values words @ value_flag_values words ''--out-dir'')
      else if program = ''rustfmt'' then writes (shell_file_candidates words)
      else [])"

definition shell_path_command_operands ::
    "string \<Rightarrow> string list \<Rightarrow> (string \<times> shell_file_mode) list option" where
  "shell_path_command_operands program words =
     (let operands = shell_file_candidates words in
      if program \<in> set [''cp'', ''mv'', ''ln'', ''install''] then
        (if operands = [] then None
         else Some (map (\<lambda>s. (s, ReadMode)) (butlast operands) @ [(last operands, WriteMode)]))
      else if program \<in> set [''rm'', ''rmdir'', ''mkdir'', ''touch''] then Some (writes operands)
      else if program = ''uniq'' then
        (case operands of
           inp # out # _ \<Rightarrow> Some [(inp, ReadMode), (out, WriteMode)]
         | _ \<Rightarrow> None)
      else None)"

definition shell_arg_is_ambiguous :: "string \<Rightarrow> bool" where
  "shell_arg_is_ambiguous token \<longleftrightarrow>
     contains_char token (CHR ''*'') \<or> contains_char token (CHR ''?'') \<or> contains_char token (CHR ''['')"

definition is_directory_operand :: "string \<Rightarrow> bool" where
  "is_directory_operand token \<longleftrightarrow> token = ''.'' \<or> token = ''..'' \<or> ends_with token ''/''"

definition shell_reader_can_recurse :: "string \<Rightarrow> string list \<Rightarrow> string list \<Rightarrow> bool" where
  "shell_reader_can_recurse program words candidates =
     ((program \<in> set [''grep'', ''egrep'', ''fgrep''] \<and>
       list_ex (\<lambda>w. w = ''--recursive'' \<or> w = ''--dereference-recursive'' \<or>
                    short_option_with (\<lambda>c. c = CHR ''r'' \<or> c = CHR ''R'') w) words) \<or>
      (program \<in> set [''rg'', ''ag'', ''ack''] \<and>
       (length candidates \<le> 1 \<or> list_ex is_directory_operand (drop 1 candidates))))"

section \<open>Reading the tree\<close>

fun runs_in_current_shell :: "(node \<times> nat) list \<Rightarrow> bool" where
  "runs_in_current_shell [] = True"
| "runs_in_current_shell ((parent, i) # up) =
     (if (case get_at (children parent) (Suc i) of Some s \<Rightarrow> kind s = ''&'' | None \<Rightarrow> False) then False
      else if kind parent \<in> set [''subshell'', ''pipeline'', ''command_substitution'', ''process_substitution'']
      then False
      else runs_in_current_shell up)"

definition changes_cwd :: "string \<Rightarrow> place \<Rightarrow> bool" where
  "changes_cwd src p =
     (kind (fst p) = ''command'' \<and>
      (case child_by_field ''name'' (fst p) of
         Some n \<Rightarrow> shell_program_name (node_text src n) \<in> set [''cd'', ''pushd'', ''popd'']
       | None \<Rightarrow> False) \<and>
      runs_in_current_shell (snd p))"

definition cwd_poison_positions :: "node \<Rightarrow> string \<Rightarrow> nat list" where
  "cwd_poison_positions root src =
     map (start_byte \<circ> fst) (filter (changes_cwd src) (walk [(root, [])]))"

definition cwd_unpinned_before :: "nat list \<Rightarrow> nat \<Rightarrow> bool" where
  "cwd_unpinned_before positions pos = list_ex (\<lambda>p. p < pos) positions"

datatype arg_text = Literal string | Ambiguous

definition EXPANSIONS :: "string list" where
  "EXPANSIONS = [''expansion'', ''simple_expansion'', ''command_substitution'',
     ''arithmetic_expansion'', ''process_substitution'']"

definition node_has_expansion :: "node \<Rightarrow> bool" where
  "node_has_expansion n = list_ex (\<lambda>c. kind c \<in> set EXPANSIONS) (concat (map all_nodes (children n)))"

definition unquoted :: "string \<Rightarrow> string \<Rightarrow> string" where
  "unquoted q raw =
     (case strip_prefix raw q of
        None \<Rightarrow> raw
      | Some t \<Rightarrow> (case strip_suffix t q of None \<Rightarrow> raw | Some u \<Rightarrow> u))"

definition shell_node_arg :: "string \<Rightarrow> node \<Rightarrow> arg_text option" where
  "shell_node_arg src n =
     (let k = kind n in
      if k = ''variable_assignment'' then None
      else if k = ''word'' \<or> k = ''number'' then Some (Literal (node_text src n))
      else if k = ''raw_string'' then Some (Literal (unquoted squote (node_text src n)))
      else if k = ''string'' then
        (if node_has_expansion n then Some Ambiguous
         else Some (Literal (unquoted dquote (node_text src n))))
      else if k = ''concatenation'' then
        (if node_has_expansion n then Some Ambiguous else Some (Literal (node_text src n)))
      else Some Ambiguous)"

definition invocation_operand :: "string \<Rightarrow> node \<Rightarrow> arg_text option" where
  "invocation_operand src child =
     (if kind child = ''command_name'' then
        (case first_opt (named_children child) of None \<Rightarrow> None | Some inner \<Rightarrow> shell_node_arg src inner)
      else shell_node_arg src child)"

record invocation =
  inv_start :: nat
  inv_words :: "string list"
  inv_ambiguous :: bool

definition invocation_of :: "string \<Rightarrow> node \<Rightarrow> invocation" where
  "invocation_of src n =
     (let operands = map (invocation_operand src) (named_children n)
      in \<lparr>inv_start = start_byte n,
          inv_words = List.map_filter (\<lambda>a. case a of Some (Literal w) \<Rightarrow> Some w | _ \<Rightarrow> None) operands,
          inv_ambiguous = list_ex (\<lambda>a. a = Some Ambiguous) operands\<rparr>)"

definition shell_command_invocations :: "node \<Rightarrow> string \<Rightarrow> invocation list" where
  "shell_command_invocations root src =
     sort_key inv_start (map (invocation_of src) (filter (\<lambda>n. kind n = ''command'') (walk_nodes root)))"

text \<open>A redirection: \<open>None\<close> in place of the path when it expands at run time.\<close>

record redirect =
  rd_start :: nat
  rd_path :: "string option"
  rd_mode :: shell_file_mode
  rd_ambiguous :: bool

fun redirect_mode :: "node list \<Rightarrow> shell_file_mode option" where
  "redirect_mode [] = None"
| "redirect_mode (c # cs) =
     (if contains_str (kind c) ''<<'' then None
      else if contains_char (kind c) (CHR ''>'') then Some WriteMode
      else if contains_char (kind c) (CHR ''<'') then Some ReadMode
      else redirect_mode cs)"

definition shell_redirect_one :: "string \<Rightarrow> node \<Rightarrow> (string option \<times> shell_file_mode \<times> bool) option" where
  "shell_redirect_one src n =
     (case redirect_mode (children n) of
        None \<Rightarrow> None
      | Some mode \<Rightarrow>
          (case child_by_field ''destination'' n of
             None \<Rightarrow> None
           | Some dest \<Rightarrow>
               (case shell_node_arg src dest of
                  None \<Rightarrow> None
                | Some (Literal s) \<Rightarrow>
                    (if s = [] \<or> starts_with s ''&'' \<or> list_all ascii_digit s then None
                     else Some (Some s, mode, shell_arg_is_ambiguous s))
                | Some Ambiguous \<Rightarrow> Some (None, mode, True))))"

definition shell_redirect_targets :: "node \<Rightarrow> string \<Rightarrow> redirect list" where
  "shell_redirect_targets root src =
     List.map_filter
       (\<lambda>n. if kind n = ''file_redirect''
            then map_option (\<lambda>(path, mode, ambiguous).
                   \<lparr>rd_start = start_byte n, rd_path = path, rd_mode = mode, rd_ambiguous = ambiguous\<rparr>)
                   (shell_redirect_one src n)
            else None)
       (walk_nodes root)"

section \<open>The file gate\<close>

fun shell_access :: "shell_file_mode \<Rightarrow> string \<Rightarrow> access_kind" where
  "shell_access ReadMode path = Read (Some path)"
| "shell_access WriteMode path = Edit path"

text \<open>An operand anchored at the working directory, collapsed and not.\<close>

definition absolute_operand :: "string \<Rightarrow> string \<Rightarrow> string" where
  "absolute_operand cwd token =
     (let path = normalize_shell_path token
      in if is_absolute_shell_path path then path else normalize_shell_path (path_join cwd path))"

definition raw_absolute_operand :: "string \<Rightarrow> string \<Rightarrow> string" where
  "raw_absolute_operand cwd token =
     (let raw = normalize_shell_path_raw token
      in if is_absolute_shell_path raw then raw else normalize_shell_path_raw (path_join cwd raw))"

definition evaluate_shell_path ::
    "externals \<Rightarrow> compiled_policy \<Rightarrow> string \<Rightarrow> string \<Rightarrow> shell_file_mode \<Rightarrow> decision option" where
  "evaluate_shell_path X p cwd token mode =
     (let path = normalize_shell_path token;
          absolute = absolute_operand cwd token;
          raw_absolute = raw_absolute_operand cwd token;
          resolved_decision =
            (case resolve_symlink_target X raw_absolute of
               Some resolved \<Rightarrow>
                 (if resolved \<noteq> absolute then escalate (evaluate X p (shell_access mode resolved)) else None)
             | None \<Rightarrow> then_some (path_has_symlink X raw_absolute) Ask)
      in combine_decisions
           (combine_decisions
              (escalate (evaluate X p (shell_access mode path)))
              (escalate (evaluate X p (shell_access mode absolute))))
           resolved_decision)"

text \<open>The two accumulators of the gate: the strongest decision and whether a prompt is forced.\<close>

type_synonym file_state = "decision option \<times> bool"

definition check_operand ::
    "externals \<Rightarrow> compiled_policy \<Rightarrow> string \<Rightarrow> file_state \<Rightarrow> string \<times> shell_file_mode \<Rightarrow> file_state" where
  "check_operand X p cwd st op =
     (combine_decisions (fst st) (evaluate_shell_path X p cwd (fst op) (snd op)),
      snd st \<or> shell_arg_is_ambiguous (fst op))"

definition check_redirect ::
    "externals \<Rightarrow> compiled_policy \<Rightarrow> string \<Rightarrow> nat list \<Rightarrow> file_state \<Rightarrow> redirect \<Rightarrow> file_state" where
  "check_redirect X p cwd cwd_changes st r =
     (let forced = snd st \<or> rd_ambiguous r in
      case rd_path r of
        None \<Rightarrow> (fst st, forced)
      | Some path \<Rightarrow>
          (combine_decisions (fst st) (evaluate_shell_path X p cwd path (rd_mode r)),
           forced \<or> (cwd_unpinned_before cwd_changes (rd_start r) \<and>
                     \<not> is_absolute_shell_path (normalize_shell_path path))))"

definition operand_modes :: "string \<Rightarrow> string list \<Rightarrow> shell_file_mode list" where
  "operand_modes program words =
     (case file_mode_of program of
        Some m \<Rightarrow> (if program = ''sed'' \<and> shell_sed_in_place words then [ReadMode, WriteMode] else [m])
      | None \<Rightarrow> [])"

definition check_invocation ::
    "externals \<Rightarrow> compiled_policy \<Rightarrow> string \<Rightarrow> nat list \<Rightarrow> bool \<Rightarrow> file_state \<Rightarrow> invocation \<Rightarrow> file_state" where
  "check_invocation X p cwd cwd_changes parse_failed st call =
     (let words = unwrap_wrappers (inv_words call) in
      case words of
        [] \<Rightarrow> st
      | w # _ \<Rightarrow>
          (let program = ascii_lower (shell_program_name w) in
           if program = ''cd'' then st
           else
             (let cwd_unpinned = cwd_unpinned_before cwd_changes (inv_start call) \<or>
                                 wrapper_has_chdir (inv_words call);
                  candidates = shell_file_candidates words;
                  path_operands = shell_path_command_operands program words;
                  is_known = program = ''dd'' \<or> file_mode_of program \<noteq> None \<or> path_operands \<noteq> None;
                  st = (fst st, snd st \<or> (is_known \<and> (cwd_unpinned \<or> inv_ambiguous call \<or> parse_failed)));
                  st = foldl (check_operand X p cwd) st (special_file_operands program words)
              in if program = ''dd'' then st
                 else case path_operands of
                        Some operands \<Rightarrow> foldl (check_operand X p cwd) st operands
                      | None \<Rightarrow>
                          (if file_mode_of program = None then st
                           else
                             (let st = foldl (check_operand X p cwd) st
                                         (concat (map (\<lambda>t. map (Pair t) (operand_modes program words)) candidates))
                              in (fst st, snd st \<or> shell_reader_can_recurse program words candidates))))))"

definition evaluate_shell_file_access ::
    "externals \<Rightarrow> compiled_policy \<Rightarrow> string \<Rightarrow> string \<Rightarrow> decision option" where
  "evaluate_shell_file_access X p cmd cwd =
     (if \<not> has_file_restrictions p then None
      else case parse_shell X cmd of
             None \<Rightarrow> None
           | Some root \<Rightarrow>
               (let cwd_changes = cwd_poison_positions root cmd;
                    st = foldl (check_redirect X p cwd cwd_changes) (None, False)
                           (shell_redirect_targets root cmd);
                    st = foldl (check_invocation X p cwd cwd_changes (has_error root)) st
                           (shell_command_invocations root cmd)
                in combine_decisions (fst st) (then_some (snd st) Ask)))"

section \<open>Written paths\<close>

definition written :: "(string \<times> shell_file_mode) list \<Rightarrow> string list" where
  "written ops = map fst (filter (\<lambda>op. snd op = WriteMode) ops)"

definition command_words_write_paths :: "string list \<Rightarrow> string list" where
  "command_words_write_paths words =
     (let inner = unwrap_wrappers words in
      case inner of
        [] \<Rightarrow> []
      | w # _ \<Rightarrow>
          (let program = ascii_lower (shell_program_name w);
               out = written (special_file_operands program inner)
           in case shell_path_command_operands program inner of
                Some operands \<Rightarrow> out @ written operands
              | None \<Rightarrow>
                  (if file_mode_of program = Some WriteMode \<or> (program = ''sed'' \<and> shell_sed_in_place inner)
                   then out @ shell_file_candidates inner else out)))"

definition command_write_paths_in_tree :: "node \<Rightarrow> string \<Rightarrow> string list" where
  "command_write_paths_in_tree root src =
     List.map_filter (\<lambda>r. if rd_mode r = WriteMode then rd_path r else None) (shell_redirect_targets root src) @
     concat (map (command_words_write_paths \<circ> inv_words) (shell_command_invocations root src))"

section \<open>The accesses of a command\<close>

text \<open>The operands the gate holds against the rules.\<close>

definition invocation_operands :: "string list \<Rightarrow> (string \<times> shell_file_mode) list" where
  "invocation_operands raw =
     (let words = unwrap_wrappers raw in
      case words of
        [] \<Rightarrow> []
      | w # _ \<Rightarrow>
          (let program = ascii_lower (shell_program_name w) in
           if program = ''cd'' then []
           else special_file_operands program words @
             (if program = ''dd'' then []
              else case shell_path_command_operands program words of
                     Some operands \<Rightarrow> operands
                   | None \<Rightarrow> concat (map (\<lambda>t. map (Pair t) (operand_modes program words))
                                      (shell_file_candidates words)))))"

definition redirect_operands :: "redirect list \<Rightarrow> (string \<times> shell_file_mode) list" where
  "redirect_operands rs = List.map_filter (\<lambda>r. map_option (\<lambda>p. (p, rd_mode r)) (rd_path r)) rs"

definition touched :: "node \<Rightarrow> string \<Rightarrow> (string \<times> shell_file_mode) list" where
  "touched root src =
     redirect_operands (shell_redirect_targets root src) @
     concat (map (invocation_operands \<circ> inv_words) (shell_command_invocations root src))"

lemma fst_check_operands:
  "fst (foldl (check_operand X p cwd) st ops) =
   combine_decisions (fst st) (combine_all (map (\<lambda>op. evaluate_shell_path X p cwd (fst op) (snd op)) ops))"
  by (induction ops arbitrary: st) (simp_all add: check_operand_def combine_assoc)

lemma redirect_operands_simps [simp]:
  "redirect_operands [] = []"
  "redirect_operands (r # rs) =
   (case rd_path r of None \<Rightarrow> [] | Some p \<Rightarrow> [(p, rd_mode r)]) @ redirect_operands rs"
  by (simp_all add: redirect_operands_def List.map_filter_simps split: option.splits)

lemma fst_check_redirect:
  "fst (check_redirect X p cwd cs st r) =
   (case rd_path r of None \<Rightarrow> fst st
    | Some path \<Rightarrow> combine_decisions (fst st) (evaluate_shell_path X p cwd path (rd_mode r)))"
  by (simp add: check_redirect_def Let_def split: option.splits)

lemma fst_check_redirects:
  "fst (foldl (check_redirect X p cwd cs) st rs) =
   combine_decisions (fst st)
     (combine_all (map (\<lambda>op. evaluate_shell_path X p cwd (fst op) (snd op)) (redirect_operands rs)))"
  by (induction rs arbitrary: st)
    (simp_all add: fst_check_redirect combine_assoc split: option.splits)

lemma operand_modes_Nil: "file_mode_of program = None \<Longrightarrow> operand_modes program words = []"
  by (simp add: operand_modes_def)

lemma concat_map_Nil: "(\<And>x. f x = []) \<Longrightarrow> concat (map f xs) = []"
  by (induction xs) simp_all

lemma fst_check_invocation:
  "fst (check_invocation X p cwd cs e st call) =
   combine_decisions (fst st)
     (combine_all (map (\<lambda>op. evaluate_shell_path X p cwd (fst op) (snd op))
       (invocation_operands (inv_words call))))"
  by (simp add: check_invocation_def invocation_operands_def fst_check_operands combine_assoc Let_def
      operand_modes_Nil concat_map_Nil split: list.splits option.splits)

lemma fst_check_invocations:
  "fst (foldl (check_invocation X p cwd cs e) st invs) =
   combine_decisions (fst st)
     (combine_all (map (\<lambda>op. evaluate_shell_path X p cwd (fst op) (snd op))
       (concat (map (invocation_operands \<circ> inv_words) invs))))"
  by (induction invs arbitrary: st) (simp_all add: fst_check_invocation combine_assoc)

lemma file_access_eq:
  assumes "has_file_restrictions p" "parse_shell X cmd = Some root"
  shows "\<exists>forced. evaluate_shell_file_access X p cmd cwd =
    combine_decisions
      (combine_all (map (\<lambda>op. evaluate_shell_path X p cwd (fst op) (snd op)) (touched root cmd)))
      (then_some forced Ask)"
  using assms
  by (auto simp: evaluate_shell_file_access_def fst_check_invocations fst_check_redirects touched_def
      Let_def)

end
