(* ===== verification/ShellAccessSpec.thy ===== *)
theory ShellAccessSpec
  imports ShellAccess
begin

text \<open>
  What the file gate promises: no deny rule on a file is dodged by naming the file to a shell
  command, by a redirection, by \<open>..\<close> or by a symbolic link; what cannot be pinned down prompts;
  and the gates only ever escalate.
\<close>

section \<open>One operand\<close>

definition names_of_operand :: "externals \<Rightarrow> string \<Rightarrow> string \<Rightarrow> string set" where
  "names_of_operand X cwd token =
     {normalize_shell_path token, absolute_operand cwd token} \<union>
     set_option (resolve_symlink_target X (raw_absolute_operand cwd token))"

lemma shell_path_denies:
  "denies (evaluate_shell_path X p cwd token mode) \<longleftrightarrow>
   (\<exists>name \<in> names_of_operand X cwd token. denies (evaluate X p (shell_access mode name)))"
  by (auto simp: evaluate_shell_path_def names_of_operand_def Let_def then_some_def split: option.splits)

lemma shell_path_verdict: "gate_verdict (evaluate_shell_path X p cwd token mode)"
  by (auto simp: evaluate_shell_path_def Let_def then_some_def escalate_evaluate_verdict
      split: option.splits intro!: gate_verdict_simps(4))

lemma denied_file_restricts:
  "denies (evaluate X (policy_new X cfg) (shell_access mode name)) \<Longrightarrow>
   has_file_restrictions (policy_new X cfg)"
  unfolding evaluate_denies_iff
  by (cases mode)
    (auto simp: policy_new_def rules_match_def rule_applies_def list_ex_iff intro!: bexI
      elim: tool_filter_matches.elims)

section \<open>The gate\<close>

lemma file_access_verdict: "gate_verdict (evaluate_shell_file_access X p cmd cwd)"
proof (cases "has_file_restrictions p \<and> parse_shell X cmd \<noteq> None")
  case True
  then obtain root forced where eq: "evaluate_shell_file_access X p cmd cwd =
      combine_decisions
        (combine_all (map (\<lambda>op. evaluate_shell_path X p cwd (fst op) (snd op)) (touched root cmd)))
        (then_some forced Ask)"
    using file_access_eq by blast
  show ?thesis
    unfolding eq by (auto simp: then_some_def shell_path_verdict intro!: gate_verdict_simps(4) gate_verdict_all)
next
  case False
  then show ?thesis by (auto simp: evaluate_shell_file_access_def)
qed

interpretation file_gate: escalation_gate "\<lambda>(cmd, cwd). evaluate_shell_file_access X p cmd cwd"
  by unfold_locales (auto simp: file_access_verdict)

text \<open>The shell gates only escalate: together they say nothing, prompt or reject, and a verdict
  they are added to is an allow only if it was one and both gates are silent.\<close>

theorem shell_gates_only_escalate:
  "gate_verdict (combine_decisions (evaluate_bash_command_policy X p cmd)
     (evaluate_shell_file_access X p cmd cwd)) \<and>
   (combine_decisions (combine_decisions d (evaluate_bash_command_policy X p cmd))
     (evaluate_shell_file_access X p cmd cwd) = Some Allow) =
   (d = Some Allow \<and> evaluate_bash_command_policy X p cmd = None \<and>
     evaluate_shell_file_access X p cmd cwd = None)"
  using file_gate.allow_kept [of _ X p "(cmd, cwd)"] bash_gate.allow_kept [of d X p cmd]
    bash_gate.verdict [of X p cmd] file_gate.verdict [of X p "(cmd, cwd)"]
  by simp


section \<open>Forced prompts\<close>

lemma snd_check_operands: "snd st \<Longrightarrow> snd (foldl (check_operand X p cwd) st ops)"
  by (induction ops arbitrary: st) (simp_all add: check_operand_def)

lemma snd_check_invocation_mono: "snd st \<Longrightarrow> snd (check_invocation X p cwd cs e st call)"
  by (simp add: check_invocation_def Let_def snd_check_operands split: list.splits option.splits)

lemma snd_check_invocations_mono: "snd st \<Longrightarrow> snd (foldl (check_invocation X p cwd cs e) st calls)"
  by (induction calls arbitrary: st) (simp_all add: snd_check_invocation_mono)

definition program_of :: "string list \<Rightarrow> string" where
  "program_of words = ascii_lower (shell_program_name (hd words))"

definition known_program :: "string list \<Rightarrow> bool" where
  "known_program words \<longleftrightarrow>
     words \<noteq> [] \<and> program_of words \<noteq> ''cd'' \<and>
     (program_of words = ''dd'' \<or> file_mode_of (program_of words) \<noteq> None \<or>
      shell_path_command_operands (program_of words) words \<noteq> None)"

lemma unpinned_forces:
  assumes "known_program (unwrap_wrappers (inv_words call))"
    and "cwd_unpinned_before cs (inv_start call) \<or> wrapper_has_chdir (inv_words call) \<or>
      inv_ambiguous call \<or> e"
  shows "snd (check_invocation X p cwd cs e st call)"
  using assms
  by (cases "unwrap_wrappers (inv_words call)")
    (auto simp: known_program_def program_of_def check_invocation_def Let_def snd_check_operands
      split: option.splits)

lemma forced_prompts: "strength (Some Ask) \<le> strength (combine_decisions d (then_some True Ask))"
  by (simp add: combine_by_strength)

text \<open>What cannot be pinned down prompts: when file rules exist, a known reader or writer is
  never passed silently if its directory may have changed before it (\<open>cd\<close>, \<open>env -C\<close>), if an
  operand expands at run time, or if the command does not parse.\<close>

theorem unpinnable_operands_prompt:
  assumes "has_file_restrictions p" "parse_shell X cmd = Some root"
    and "call \<in> set (shell_command_invocations root cmd)"
    and "known_program (unwrap_wrappers (inv_words call))"
    and "cwd_unpinned_before (cwd_poison_positions root cmd) (inv_start call) \<or>
      wrapper_has_chdir (inv_words call) \<or> inv_ambiguous call \<or> has_error root"
  shows "strength (Some Ask) \<le> strength (evaluate_shell_file_access X p cmd cwd)"
proof -
  obtain before after where "shell_command_invocations root cmd = before @ call # after"
    using assms(3) by (auto simp: in_set_conv_decomp)
  moreover have "snd (check_invocation X p cwd (cwd_poison_positions root cmd) (has_error root) st call)" for st
    using unpinned_forces [OF assms(4,5)] .
  ultimately have "snd (foldl (check_invocation X p cwd (cwd_poison_positions root cmd) (has_error root)) st
      (shell_command_invocations root cmd))" for st
    by (simp add: snd_check_invocations_mono)
  then show ?thesis
    using assms(1,2) forced_prompts by (simp add: evaluate_shell_file_access_def Let_def)
qed

text \<open>A concrete command, \<open>cat /x\<close>, whose tree may carry a syntax error, and a file system in
  which \<open>/x\<close> is a link to itself.\<close>

definition cat_tree :: "bool \<Rightarrow> node" where
  "cat_tree err = Node ''program'' True None 0 6 err
     [Node ''command'' True None 0 6 False
       [Node ''command_name'' True (Some ''name'') 0 3 False
         [Node ''word'' True None 0 3 False []],
        Node ''word'' True (Some ''argument'') 4 6 False []]]"

definition looping :: "bool \<Rightarrow> externals" where
  "looping err = tiny
     \<lparr>parse_shell := (\<lambda>s. if s = ''cat /x'' then Some (cat_tree err) else None),
      fs_canonicalize := (\<lambda>p. if p = ''/'' then Some ''/'' else None),
      fs_is_symlink := (\<lambda>p. Some (p = ''/x'')),
      fs_read_link := (\<lambda>p. if p = ''/x'' then Some ''/x'' else None)\<rparr>"

lemma cat_invocations:
  "shell_command_invocations (cat_tree True) ''cat /x'' =
     [\<lparr>inv_start = 0, inv_words = [''cat'', ''/x''], inv_ambiguous = False\<rparr>]"
  by code_simp

lemma cat_known: "known_program (unwrap_wrappers [''cat'', ''/x''])"
  by code_simp

lemma cat_parsed: "parse_shell (looping err) ''cat /x'' = Some (cat_tree err)"
  by (simp add: looping_def)

lemma deny_env_restricts: "has_file_restrictions (policy_new X deny_env)"
  by (simp add: policy_new_def deny_env_def permission_config_new_def)

theorem unpinnable_operands_prompt_witness:
  "strength (Some Ask) \<le>
   strength (evaluate_shell_file_access (looping True) (policy_new (looping True) deny_env) ''cat /x'' ''/w'')"
proof (rule unpinnable_operands_prompt [OF deny_env_restricts cat_parsed])
  show "\<lparr>inv_start = 0, inv_words = [''cat'', ''/x''], inv_ambiguous = False\<rparr>
      \<in> set (shell_command_invocations (cat_tree True) ''cat /x'')" by (simp add: cat_invocations)
qed (simp_all add: cat_known cat_tree_def)

text \<open>An operand behind a link that cannot be resolved - a cycle, a chain that is too long, a
  link that cannot be read - prompts.\<close>

theorem unresolvable_links_prompt:
  assumes "has_file_restrictions p" "parse_shell X cmd = Some root" "(path, mode) \<in> set (touched root cmd)"
    and "path_has_symlink X (raw_absolute_operand cwd path)"
    and "resolve_symlink_target X (raw_absolute_operand cwd path) = None"
  shows "strength (Some Ask) \<le> strength (evaluate_shell_file_access X p cmd cwd)"
proof -
  have "strength (Some Ask) \<le> strength (evaluate_shell_path X p cwd path mode)"
    using assms(4,5) by (simp add: evaluate_shell_path_def Let_def combine_by_strength)
  also have "\<dots> \<le> strength (combine_all
      (map (\<lambda>op. evaluate_shell_path X p cwd (fst op) (snd op)) (touched root cmd)))"
    using assms(3) by (intro combine_all_strongest) force
  also have "\<dots> \<le> strength (evaluate_shell_file_access X p cmd cwd)"
    using file_access_eq [OF assms(1,2), of cwd] by (auto simp: combine_by_strength)
  finally show ?thesis .
qed

theorem unresolvable_links_prompt_witness:
  "strength (Some Ask) \<le>
   strength (evaluate_shell_file_access (looping False) (policy_new (looping False) deny_env) ''cat /x'' ''/w'')"
proof (rule unresolvable_links_prompt [OF deny_env_restricts cat_parsed])
  show "(''/x'', ReadMode) \<in> set (touched (cat_tree False) ''cat /x'')" by code_simp
  show "path_has_symlink (looping False) (raw_absolute_operand ''/w'' ''/x'')" by code_simp
  show "resolve_symlink_target (looping False) (raw_absolute_operand ''/w'' ''/x'') = None" by code_simp
qed

text \<open>A cycle of links is never resolved, whatever the depth.\<close>

lemma link_cycle_unresolved:
  assumes "q \<in> S" "\<And>q. q \<in> S \<Longrightarrow> fs_canonicalize X q = None \<and>
    (\<exists>parent f. path_parent q = Some parent \<and> path_file_name q = Some f \<and>
      (\<forall>n rp. resolve_left X n parent = Some rp \<longrightarrow>
        fs_is_symlink X (path_join rp f) = Some True \<and>
        (\<exists>t. fs_read_link X (path_join rp f) = Some t \<and>
             (if path_is_absolute t then t else path_join rp t) \<in> S)))"
  shows "resolve_left X n q = None"
  using assms(1)
proof (induction n arbitrary: q)
  case (Suc n)
  then obtain parent f where q: "fs_canonicalize X q = None" "path_parent q = Some parent"
    "path_file_name q = Some f"
    "\<And>rp. resolve_left X n parent = Some rp \<Longrightarrow> fs_is_symlink X (path_join rp f) = Some True \<and>
        (\<exists>t. fs_read_link X (path_join rp f) = Some t \<and>
             (if path_is_absolute t then t else path_join rp t) \<in> S)"
    using assms(2) [OF Suc.prems] by blast
  show ?case
  proof (cases "resolve_left X n parent")
    case (Some rp)
    then obtain t where "fs_is_symlink X (path_join rp f) = Some True"
      "fs_read_link X (path_join rp f) = Some t" "(if path_is_absolute t then t else path_join rp t) \<in> S"
      using q(4) by blast
    then show ?thesis using Suc.IH q Some by simp
  qed (use q in simp)
qed simp

section \<open>The write model agrees with the gate\<close>

lemma written_set: "set (written ops) = {p. (p, WriteMode) \<in> set ops}"
  by (force simp: written_def)

lemma cd_no_operands:
  "special_file_operands ''cd'' ws = []" "shell_path_command_operands ''cd'' ws = None"
  "file_mode_of ''cd'' = None"
  by (simp_all add: special_file_operands_def shell_path_command_operands_def file_mode_of_def
      READERS_def WRITERS_def)

lemma dd_no_positionals: "shell_path_command_operands ''dd'' ws = None" "file_mode_of ''dd'' = None"
  by (simp_all add: shell_path_command_operands_def file_mode_of_def READERS_def WRITERS_def)

lemma sed_reads: "file_mode_of ''sed'' = Some ReadMode"
  by (simp add: file_mode_of_def READERS_def)

lemma write_mode_iff:
  "WriteMode \<in> set (operand_modes program words) \<longleftrightarrow>
   file_mode_of program = Some WriteMode \<or> (program = ''sed'' \<and> shell_sed_in_place words)"
  by (auto simp: operand_modes_def sed_reads split: option.splits)

lemma pair_in_modes:
  "(p, m) \<in> set (concat (map (\<lambda>t. map (Pair t) ms) ts)) \<longleftrightarrow> p \<in> set ts \<and> m \<in> set ms"
  by auto

lemma write_paths_operands:
  "set (command_words_write_paths raw) = {p. (p, WriteMode) \<in> set (invocation_operands raw)}"
proof (cases "unwrap_wrappers raw")
  case Nil
  then show ?thesis by (simp add: command_words_write_paths_def invocation_operands_def)
next
  case (Cons w ws)
  let ?words = "w # ws" and ?p = "ascii_lower (shell_program_name w)"
  have w: "command_words_write_paths raw =
      written (special_file_operands ?p ?words) @
      (case shell_path_command_operands ?p ?words of
         Some operands \<Rightarrow> written operands
       | None \<Rightarrow> if WriteMode \<in> set (operand_modes ?p ?words) then shell_file_candidates ?words else [])"
    unfolding command_words_write_paths_def write_mode_iff using Cons by (auto simp: Let_def split: option.split)
  have o: "invocation_operands raw =
      (if ?p = ''cd'' then []
       else special_file_operands ?p ?words @
         (if ?p = ''dd'' then []
          else case shell_path_command_operands ?p ?words of
                 Some operands \<Rightarrow> operands
               | None \<Rightarrow> concat (map (\<lambda>t. map (Pair t) (operand_modes ?p ?words)) (shell_file_candidates ?words))))"
    unfolding invocation_operands_def using Cons by (simp add: Let_def)
  consider "?p = ''cd''" | "?p = ''dd''" | "?p \<noteq> ''cd''" "?p \<noteq> ''dd''" by blast
  then show ?thesis
  proof cases
    case 1
    then show ?thesis unfolding w o by (simp add: cd_no_operands operand_modes_Nil written_def)
  next
    case 2
    then show ?thesis unfolding w o by (simp add: dd_no_positionals operand_modes_Nil written_set)
  next
    case 3
    then show ?thesis
    proof (cases "shell_path_command_operands ?p ?words")
      case None
      have "set (command_words_write_paths raw) =
          {p. (p, WriteMode) \<in> set (special_file_operands ?p ?words)} \<union>
          {p. p \<in> set (shell_file_candidates ?words) \<and> WriteMode \<in> set (operand_modes ?p ?words)}"
        unfolding w by (simp add: None written_set) blast
      also have "\<dots> = {p. (p, WriteMode) \<in> set (invocation_operands raw)}"
        unfolding o using 3 None pair_in_modes [of _ WriteMode "operand_modes ?p ?words"]
        by (simp only: if_False option.case set_append Un_iff pair_in_modes) blast
      finally show ?thesis .
    next
      case (Some operands)
      then show ?thesis unfolding w o using 3 by (auto simp: written_set)
    qed
  qed
qed

text \<open>The list of paths a command writes, which auto mode uses, is exactly the list of operands
  the file gate holds against the edit rules.\<close>

theorem write_model_agrees_with_gate:
  "set (command_write_paths_in_tree root src) = {p. (p, WriteMode) \<in> set (touched root src)}"
  by (auto simp: command_write_paths_in_tree_def touched_def write_paths_operands redirect_operands_def
      set_map_filter_iff split: if_splits)

end
