(* ===== verification/AutoMode.thy ===== *)
theory AutoMode
  imports GrantsSpec ShellAccessSpec
begin

text \<open>
  \<open>permission/auto_mode.rs\<close>, the heuristic: which shell commands are routine enough to run
  without asking anybody, and the deterministic classifier built on it.
\<close>

section \<open>Lists\<close>

definition ROUTINE_PREFIXES :: "string list" where
  "ROUTINE_PREFIXES =
     [''cargo '', ''git status'', ''git diff'', ''git log'', ''git branch'', ''git add'',
      ''git commit'', ''git checkout'', ''git switch'', ''git stash'', ''git pull'',
      ''git fetch'', ''git show'', ''git blame'', ''git grep'', ''git ls-files'',
      ''git rev-parse'', ''git describe'', ''git merge-base'', ''git worktree list'',
      ''pytest'', ''python '', ''python3 '', ''node '', ''rustc '', ''rustfmt'', ''clippy'',
      ''make '', ''cmake '', ''cd'', ''pushd'', ''popd'', ''ls'', ''pwd'', ''echo '',
      ''printf '', ''cat '', ''head '', ''tail '', ''wc '', ''rg '', ''grep '', ''which '',
      ''type '', ''true'', ''false'', ''test '', ''sort '', ''uniq '', ''tr '', ''cut '',
      ''diff '', ''jq '', ''date'', ''whoami'', ''hostname'', ''uname'', ''nproc'',
      ''printenv'', ''stat '', ''file '', ''tree'', ''basename '', ''dirname '',
      ''realpath '', ''readlink '', ''strings '', ''sleep '', ''df '', ''du '', ''ps '',
      ''top'', ''htop'', ''bazel '', ''just '', ''go '', ''kubectl get'', ''kubectl logs'',
      ''kubectl describe'', ''set'']"

definition SAFE_ENV_KEYS :: "string list" where
  "SAFE_ENV_KEYS =
     [''CARGO_TERM_COLOR'', ''CARGO_TERM_PROGRESS_WHEN'', ''RUST_LOG'', ''RUST_LOG_STYLE'',
      ''RUST_BACKTRACE'', ''RUST_TEST_THREADS'', ''RUST_MIN_STACK'', ''NO_COLOR'',
      ''CLICOLOR'', ''CLICOLOR_FORCE'', ''FORCE_COLOR'', ''COLORTERM'']"

definition NPM_SAFE_SUBCOMMANDS :: "string list" where
  "NPM_SAFE_SUBCOMMANDS =
     [''install'', ''i'', ''ci'', ''add'', ''remove'', ''rm'', ''uninstall'', ''update'',
      ''up'', ''upgrade'', ''test'', ''t'', ''run'', ''run-script'', ''start'', ''build'',
      ''audit'', ''list'', ''ls'', ''ll'', ''outdated'', ''why'', ''view'', ''info'',
      ''dedupe'', ''prune'', ''version'', ''pack'', ''config'', ''link'', ''unlink'',
      ''rebuild'', ''store'', ''fetch'', ''import'']"

definition UV_SAFE_SUBCOMMANDS :: "string list" where
  "UV_SAFE_SUBCOMMANDS =
     [''sync'', ''pip'', ''lock'', ''venv'', ''add'', ''remove'', ''tree'', ''export'',
      ''build'', ''version'', ''python'', ''cache'', ''init'', ''self'', ''help'']"

definition RUSTUP_SAFE_SUBCOMMANDS :: "string list" where
  "RUSTUP_SAFE_SUBCOMMANDS =
     [''show'', ''toolchain'', ''component'', ''target'', ''default'', ''update'', ''which'',
      ''doc'', ''self'', ''completions'', ''set'', ''override'']"

definition is_safe_env_key :: "string \<Rightarrow> bool" where
  "is_safe_env_key key \<longleftrightarrow> key \<in> set SAFE_ENV_KEYS"

definition is_safe_write_sink :: "string \<Rightarrow> bool" where
  "is_safe_write_sink path \<longleftrightarrow> path \<in> {''/dev/null'', ''/dev/stdout'', ''/dev/stderr''}"

definition is_lone_wrapper :: "string list \<Rightarrow> bool" where
  "is_lone_wrapper words \<longleftrightarrow> length words = 1 \<and> is_wrapper_command words"

definition find_actions :: "string list" where
  "find_actions = [''-delete'', ''-exec'', ''-execdir'', ''-ok'', ''-okdir'', ''-fprint'',
     ''-fprint0'', ''-fprintf'', ''-fls'']"

definition find_is_read_only :: "string list \<Rightarrow> bool" where
  "find_is_read_only words = (\<not> list_ex (\<lambda>w. w \<in> set find_actions) words)"

section \<open>Environment guards\<close>

fun env_args_unsafe :: "string list \<Rightarrow> bool" where
  "env_args_unsafe [] = False"
| "env_args_unsafe (arg # args) =
     (if arg = ''--'' then False
      else if starts_with arg ''-'' then True
      else case split_once ''='' arg of
             Some (key, _) \<Rightarrow> (if \<not> is_safe_env_key key then True else env_args_unsafe args)
           | None \<Rightarrow> False)"

fun env_unsafe_upto :: "nat \<Rightarrow> string list \<Rightarrow> bool" where
  "env_unsafe_upto 0 current = False"
| "env_unsafe_upto (Suc n) current =
     (if (case current of [] \<Rightarrow> False
          | w # args \<Rightarrow> shell_program_name w = ''env'' \<and> env_args_unsafe args) then True
      else case strip_wrapper_command current of
             Some inner \<Rightarrow> env_unsafe_upto n inner
           | None \<Rightarrow> False)"

definition command_env_is_unsafe :: "string list \<Rightarrow> bool" where
  "command_env_is_unsafe words = env_unsafe_upto 8 words"

definition assignment_key :: "node \<Rightarrow> string \<Rightarrow> string" where
  "assignment_key n src =
     (case find (\<lambda>c. kind c = ''variable_name'') (children n) of
        Some c \<Rightarrow> node_text src c
      | None \<Rightarrow> hd (split_on (CHR ''='') (node_text src n)))"

definition sets_unsafe_env :: "node \<Rightarrow> string \<Rightarrow> plain_command list \<Rightarrow> bool" where
  "sets_unsafe_env root src cmds =
     (if list_ex (\<lambda>n. kind n = ''variable_assignment'' \<and> \<not> is_safe_env_key (assignment_key n src))
           (walk_nodes root)
      then True
      else list_ex (\<lambda>c. command_env_is_unsafe (pc_words c)) cmds)"

section \<open>Package managers\<close>

definition nonflag_tokens :: "string list \<Rightarrow> nat \<Rightarrow> string list" where
  "nonflag_tokens inner n = take n (filter (\<lambda>w. \<not> starts_with w ''-'') (drop 1 inner))"

definition gh_subcommand_is_read_only :: "string list \<Rightarrow> bool" where
  "gh_subcommand_is_read_only inner =
     (case nonflag_tokens inner 2 of
        [grp, sub] \<Rightarrow>
          (grp \<in> {''pr'', ''issue'', ''release'', ''run'', ''workflow'', ''repo'', ''gist''} \<and>
           sub \<in> {''view'', ''list'', ''status'', ''checks'', ''diff''}) \<or>
          (grp = ''auth'' \<and> sub = ''status'')
      | [only] \<Rightarrow> only = ''status''
      | _ \<Rightarrow> False)"

definition npm_like :: "string \<Rightarrow> bool" where
  "npm_like head \<longleftrightarrow> head \<in> {''npm'', ''pnpm'', ''yarn''}"

definition launcher_subcommand :: "string \<Rightarrow> string list \<Rightarrow> string option" where
  "launcher_subcommand head inner =
     (case get_at inner 1 of
        None \<Rightarrow> None
      | Some sub \<Rightarrow>
          Some (if npm_like head \<and> sub = ''x'' then ''exec''
                else if npm_like head \<and> sub = ''innit'' then ''init''
                else sub))"

definition is_remote_launcher :: "string \<Rightarrow> string list \<Rightarrow> bool" where
  "is_remote_launcher head inner =
     (if head = ''npx'' \<or> head = ''uvx'' then True
      else if head = ''uv'' \<and> get_at inner 1 = Some ''tool'' \<and> get_at inner 2 = Some ''run'' then True
      else case launcher_subcommand head inner of
             None \<Rightarrow> False
           | Some sub \<Rightarrow>
               (if npm_like head then
                  sub \<in> {''dlx'', ''create'', ''explore''} \<or>
                  (sub = ''init'' \<and>
                   (case get_at inner 2 of Some a \<Rightarrow> \<not> starts_with a ''-'' | None \<Rightarrow> False))
                else False))"

datatype launch_target = NotLauncher | Inner "string list" | Unresolved

text \<open>The index of the launched command's first word: \<open>Inl\<close> returns early.\<close>

definition launch_start :: "string \<Rightarrow> string \<Rightarrow> string list \<Rightarrow> launch_target + nat" where
  "launch_start head sub inner =
     (if head = ''uv'' \<and> sub = ''run'' then Inr 2
      else if head = ''rustup'' \<and> sub = ''run'' then
        (case get_at inner 2 of
           Some toolchain \<Rightarrow> if \<not> starts_with toolchain ''-'' then Inr 3 else Inl Unresolved
         | None \<Rightarrow> Inl Unresolved)
      else if npm_like head \<and> sub = ''exec'' then
        (if get_at inner 2 = Some ''--'' then Inr 3 else Inr 2)
      else Inl NotLauncher)"

definition explicit_launch_target :: "string \<Rightarrow> string list \<Rightarrow> launch_target" where
  "explicit_launch_target head inner =
     (case launcher_subcommand head inner of
        None \<Rightarrow> NotLauncher
      | Some sub \<Rightarrow>
          (case launch_start head sub inner of
             Inl t \<Rightarrow> t
           | Inr start \<Rightarrow>
               (case get_at inner start of
                  Some tok \<Rightarrow> if \<not> starts_with tok ''-'' then Inner (drop start inner) else Unresolved
                | None \<Rightarrow> Unresolved)))"

definition launched_writes_nonsink :: "string list \<Rightarrow> bool" where
  "launched_writes_nonsink words = list_ex (\<lambda>p. \<not> is_safe_write_sink p) (command_words_write_paths words)"

definition package_managers :: "string list" where
  "package_managers = [''uv'', ''uvx'', ''npm'', ''npx'', ''pnpm'', ''yarn'', ''rustup'']"

definition safe_subcommands :: "string \<Rightarrow> string list" where
  "safe_subcommands prog =
     (if npm_like prog then NPM_SAFE_SUBCOMMANDS
      else if prog = ''uv'' then UV_SAFE_SUBCOMMANDS
      else if prog = ''rustup'' then RUSTUP_SAFE_SUBCOMMANDS
      else [])"

section \<open>Routine commands\<close>

text \<open>\<open>git grep -O\<close> runs a pager, and \<open>git\<close> accepts abbreviated long options.\<close>

definition git_grep_runs_pager :: "string list \<Rightarrow> bool" where
  "git_grep_runs_pager inner \<longleftrightarrow>
     (case get_at inner 1 of Some s \<Rightarrow> ascii_lower s = ''grep'' | None \<Rightarrow> False) \<and>
     list_ex (\<lambda>w. let flag = hd (split_on (CHR ''='') w) in
       starts_with w ''-O'' \<or>
       (starts_with flag ''--o'' \<and> starts_with ''--open-files-in-pager'' flag)) inner"

definition tree_writes_output :: "string list \<Rightarrow> bool" where
  "tree_writes_output inner =
     list_ex (\<lambda>w. (starts_with w ''-'' \<and> \<not> starts_with w ''--'' \<and> contains_char w (CHR ''o'')) \<or>
       starts_with w ''--output'') inner"

definition matches_routine_prefix :: "string \<Rightarrow> bool" where
  "matches_routine_prefix joined =
     list_ex (\<lambda>p. let base = trim p in
       joined = base \<or> (starts_with joined base \<and> starts_with (drop (length base) joined) '' ''))
     ROUTINE_PREFIXES"

lemma launch_target_shorter: "explicit_launch_target h inner = Inner u \<Longrightarrow> length u < length inner"
  by (auto simp: explicit_launch_target_def launch_start_def dest!: get_at_SomeD
      split: option.splits sum.splits if_splits)

lemma unwrap_wrappers_le: "length (unwrap_wrappers words) \<le> length words"
  using unwrap_upto_suffix [of 8 words] by (auto simp: unwrap_wrappers_def dest: suffix_length_le)

function bash_command_is_routine :: "string list \<Rightarrow> bool"
  and package_manager_subcommand_is_routine :: "string \<Rightarrow> string list \<Rightarrow> bool option" where
  "bash_command_is_routine words =
     (let inner = unwrap_wrappers words in
      if inner = [] \<or> is_lone_wrapper inner then True
      else
        (let head = ascii_lower (shell_program_name (hd inner)) in
         case package_manager_subcommand_is_routine head inner of
           Some routine \<Rightarrow> routine
         | None \<Rightarrow>
             (if head = ''find'' then find_is_read_only inner
              else if head = ''git'' \<and> git_grep_runs_pager inner then False
              else if head = ''tree'' \<and> tree_writes_output inner then False
              else if head = ''gh'' then gh_subcommand_is_read_only inner
              else matches_routine_prefix (ascii_lower (join_words inner)))))"
| "package_manager_subcommand_is_routine prog inner =
     (if prog \<notin> set package_managers then None
      else if is_remote_launcher prog inner then Some False
      else case explicit_launch_target prog inner of
             Unresolved \<Rightarrow> Some False
           | Inner launched \<Rightarrow>
               Some (\<not> command_env_is_unsafe launched \<and> \<not> launched_writes_nonsink launched \<and>
                     bash_command_is_routine launched)
           | NotLauncher \<Rightarrow>
               Some (case launcher_subcommand prog inner of
                       Some s \<Rightarrow> s \<in> set (safe_subcommands prog)
                     | None \<Rightarrow> False))"
  by pat_completeness auto
termination
  by (relation "measure (\<lambda>x. case x of Inl words \<Rightarrow> 2 * length words + 1 | Inr (prog, inner) \<Rightarrow> 2 * length inner)")
    (use unwrap_wrappers_le launch_target_shorter in \<open>fastforce simp: le_imp_less_Suc\<close>)+

declare bash_command_is_routine.simps [simp del] package_manager_subcommand_is_routine.simps [simp del]

section \<open>Classification\<close>

datatype classifier_verdict = VAllow | VBlock | VUnavailable

definition classify_bash :: "externals \<Rightarrow> string \<Rightarrow> classifier_verdict" where
  "classify_bash X cmd =
     (case parse_shell X cmd of
        None \<Rightarrow> VBlock
      | Some root \<Rightarrow>
          (case try_parse_word_only_commands_sequence root cmd of
             None \<Rightarrow> VBlock
           | Some cmds \<Rightarrow>
               (if sets_unsafe_env root cmd cmds then VBlock
                else if list_ex (\<lambda>path. \<not> is_safe_write_sink path) (command_write_paths_in_tree root cmd)
                then VBlock
                else if cmds \<noteq> [] \<and> list_all (\<lambda>c. bash_command_is_routine (pc_words c)) cmds then VAllow
                else VBlock)))"

datatype classifier_turn = UserText string | AssistantToolUse string string

fun render_turn :: "classifier_turn \<Rightarrow> string" where
  "render_turn (UserText t) = ''User: '' @ t"
| "render_turn (AssistantToolUse tool args) = tool @ '' '' @ args"

record classifier_context =
  cc_turns :: "classifier_turn list"
  cc_project_instructions :: "string option"

definition newline :: string where "newline = [CHR 0x0A]"

definition transcript_text :: "classifier_context \<Rightarrow> string" where
  "transcript_text ctx = join_with newline (map render_turn (cc_turns ctx))"

definition dangerous_patterns :: "string list" where
  "dangerous_patterns =
     [''rm -rf /'', ''rm -rf /*'', ''mkfs'', ''dd if='', '':(){ :|:& };:'', ''curl | sh'',
      ''curl|sh'', ''curl | bash'', ''curl|bash'', ''wget | sh'', ''wget|sh'',
      ''wget | bash'', ''wget|bash'', ''chmod 777'', ''chmod -r 777'', ''chmod +x /tmp'',
      ''base64 -d'', ''base64 --decode'', ''nc -e'', ''ncat -e'', ''/dev/tcp/'',
      ''shutdown'', ''reboot'', ''useradd'', ''userdel'', ''passwd '', ''chown -r /'',
      ''iptables -f'', ''kill -9 1'', ''sudo rm'', ''sudo dd'', ''sudo mkfs'', ''exfiltrat'',
      ''steal credential'', ''send secrets'']"

definition hostile_intent :: "string list" where
  "hostile_intent =
     [''delete all files'', ''wipe the disk'', ''exfiltrate'', ''steal secrets'',
      ''send my credentials'', ''ignore safety'', ''bypass permission'']"

definition pipes_download_to_shell :: "string \<Rightarrow> bool" where
  "pipes_download_to_shell blob \<longleftrightarrow>
     list_ex (contains_str blob) [''curl'', ''wget'', ''fetch''] \<and>
     list_ex (contains_str blob) [''| sh'', ''|sh'', ''| bash'', ''|bash'', ''| zsh'', ''|zsh'']"

definition classify_sync ::
    "externals \<Rightarrow> string \<Rightarrow> access_kind \<Rightarrow> string option \<Rightarrow> classifier_context \<Rightarrow> classifier_verdict" where
  "classify_sync X tool_name access access_detail ctx =
     (let detail = ascii_lower (case access_detail of Some d \<Rightarrow> d | None \<Rightarrow> []);
          tool = ascii_lower tool_name;
          transcript = ascii_lower (transcript_text ctx);
          blob = tool @ '' '' @ detail @ '' '' @ transcript
      in if contains_str tool ''ask_user'' \<or> contains_str tool ''askuserquestion'' then VBlock
         else if list_ex (contains_str blob) dangerous_patterns then VBlock
         else if pipes_download_to_shell blob then VBlock
         else if list_ex (contains_str transcript) hostile_intent then VBlock
         else case access of
                Bash cmd \<Rightarrow> classify_bash X cmd
              | WebFetch _ \<Rightarrow> VBlock
              | Edit _ \<Rightarrow> VBlock
              | MCPTool _ _ \<Rightarrow> VBlock
              | Read _ \<Rightarrow> VAllow
              | Grep _ _ \<Rightarrow> VAllow
              | WebSearch _ \<Rightarrow> VAllow)"

end
