(* ===== verification/AutoModeSpec.thy ===== *)
theory AutoModeSpec
  imports AutoMode
begin

text \<open>
  What the heuristic of auto mode promises: every program it lets run is listed, at every level of
  wrappers and package-manager launchers, with a cosmetic environment and no write to a file; the
  conversation can only veto.  Where it is laxer than it looks is stated too.
\<close>

section \<open>Programs and launchers\<close>

text \<open>The commands started by a command through package-manager launchers, itself included.\<close>

definition command_head :: "string list \<Rightarrow> string" where
  "command_head inner = ascii_lower (shell_program_name (hd inner))"

inductive launches :: "string list \<Rightarrow> string list \<Rightarrow> bool" where
  launches_self: "launches w w"
| launches_inner: "launches w u"
    if "unwrap_wrappers w \<noteq> []"
      "explicit_launch_target (command_head (unwrap_wrappers w)) (unwrap_wrappers w) = Inner v" "launches v u"

inductive_cases launches_cases: "launches w u"

definition routine_programs :: "string list" where
  "routine_programs = remdups (map (\<lambda>p. hd (split_on (CHR '' '') (trim p))) ROUTINE_PREFIXES)"

text \<open>The program a routine command runs: nothing, a listed word, or one of the tools whose
  subcommands are listed.\<close>

definition runs_listed_program :: "string list \<Rightarrow> bool" where
  "runs_listed_program words \<longleftrightarrow>
     (let inner = unwrap_wrappers words in
      inner = [] \<or> is_lone_wrapper inner \<or>
      command_head inner \<in> set (package_managers @ [''find'', ''gh'']) \<or>
      hd (split_on (CHR '' '') (ascii_lower (hd inner))) \<in> set routine_programs)"

lemma ascii_lower_char_blank: "ascii_lower_char c = CHR '' '' \<longleftrightarrow> c = CHR '' ''"
proof -
  have "ascii_upper_case c \<Longrightarrow> ascii_lower_char c \<noteq> CHR '' ''"
    unfolding ascii_lower_char_def ascii_upper_case_def Let_def
    by (auto dest!: arg_cong [of _ _ "of_char :: char \<Rightarrow> nat"])
  moreover have "\<not> ascii_upper_case (CHR '' '')" by (simp add: ascii_upper_case_def)
  ultimately show ?thesis by (auto simp: ascii_lower_char_def)
qed

lemma hd_split_on: "hd (split_on c s) = takeWhile (\<lambda>x. x \<noteq> c) s"
proof (induction s)
  case (Cons x xs)
  then show ?case using split_on_not_Nil [of c xs] by (cases "split_on c xs") auto
qed simp

lemma takeWhile_lower:
  "takeWhile (\<lambda>x. x \<noteq> CHR '' '') (ascii_lower s) = ascii_lower (takeWhile (\<lambda>x. x \<noteq> CHR '' '') s)"
  by (induction s) (simp_all add: ascii_lower_def ascii_lower_char_blank)

lemma join_hd: "ws \<noteq> [] \<Longrightarrow> \<exists>rest. join_words ws = hd ws @ rest \<and> (rest = [] \<or> hd rest = CHR '' '')"
  by (cases ws; cases "tl ws") (auto simp: join_words_def)

lemma takeWhile_stop: "rest = [] \<or> \<not> P (hd rest) \<Longrightarrow> takeWhile P (xs @ rest) = takeWhile P xs"
  by (induction xs) (cases rest; simp)+

lemma hd_split_join:
  assumes "ws \<noteq> []"
  shows "hd (split_on (CHR '' '') (ascii_lower (join_words ws))) = hd (split_on (CHR '' '') (ascii_lower (hd ws)))"
proof -
  obtain rest where r: "join_words ws = hd ws @ rest" "rest = [] \<or> hd rest = CHR '' ''"
    using join_hd [OF assms] by blast
  have "takeWhile (\<lambda>x. x \<noteq> CHR '' '') (hd ws @ rest) = takeWhile (\<lambda>x. x \<noteq> CHR '' '') (hd ws)"
    using r(2) by (intro takeWhile_stop) blast
  then show ?thesis unfolding hd_split_on takeWhile_lower r(1) by simp
qed

lemma word_boundary_prefix:
  "s = b \<or> (starts_with s b \<and> starts_with (drop (length b) s) '' '') \<longleftrightarrow> matches_command_prefix s b"
proof (cases "starts_with s b")
  case True
  then obtain r where "s = b @ r" by (auto simp: prefix_def)
  then show ?thesis by (auto simp: matches_prefix_iff prefix_def)
qed (auto simp: matches_prefix_iff)

lemma matches_routine_iff:
  "matches_routine_prefix s \<longleftrightarrow> (\<exists>p \<in> set ROUTINE_PREFIXES. matches_command_prefix s (trim p))"
  unfolding matches_routine_prefix_def list_ex_iff Let_def word_boundary_prefix ..

lemma routine_prefix_listed:
  assumes "matches_routine_prefix s"
  shows "hd (split_on (CHR '' '') s) \<in> set routine_programs"
proof -
  obtain p where p: "p \<in> set ROUTINE_PREFIXES" "matches_command_prefix s (trim p)"
    using assms unfolding matches_routine_iff by blast
  from p(2) consider "s = trim p" | r where "s = trim p @ '' '' @ r"
    by (auto simp: matches_prefix_iff)
  then have "hd (split_on (CHR '' '') s) = hd (split_on (CHR '' '') (trim p))"
    by cases (auto simp: split_on_append)
  then show ?thesis using p(1) unfolding routine_programs_def by simp
qed

lemma launch_needs_manager: "explicit_launch_target h inner = Inner v \<Longrightarrow> h \<in> set package_managers"
  by (auto simp: explicit_launch_target_def launch_start_def package_managers_def npm_like_def
      split: option.splits sum.splits if_splits)

lemma lone_not_launching: "is_lone_wrapper inner \<Longrightarrow> explicit_launch_target h inner \<noteq> Inner v"
  by (auto simp: is_lone_wrapper_def explicit_launch_target_def launcher_subcommand_def get_at_def)

lemma manager_launch:
  assumes "package_manager_subcommand_is_routine h inner = Some True" "explicit_launch_target h inner = Inner v"
  shows "\<not> command_env_is_unsafe v \<and> \<not> launched_writes_nonsink v \<and> bash_command_is_routine v"
  using assms by (auto simp: package_manager_subcommand_is_routine.simps [of h inner] split: if_splits)

lemma routine_launch:
  assumes "bash_command_is_routine w" "unwrap_wrappers w \<noteq> []"
    "explicit_launch_target (command_head (unwrap_wrappers w)) (unwrap_wrappers w) = Inner v"
  shows "\<not> command_env_is_unsafe v \<and> \<not> launched_writes_nonsink v \<and> bash_command_is_routine v"
proof -
  let ?i = "unwrap_wrappers w"
  have m: "command_head ?i \<in> set package_managers" using launch_needs_manager [OF assms(3)] .
  have l: "\<not> is_lone_wrapper ?i" using lone_not_launching assms(3) by blast
  have "package_manager_subcommand_is_routine (command_head ?i) ?i \<noteq> None"
    using m unfolding package_manager_subcommand_is_routine.simps [of "command_head ?i"]
    by (auto split: launch_target.splits)
  then obtain b where b: "package_manager_subcommand_is_routine (command_head ?i) ?i = Some b" by blast
  have "b" using assms(1,2) l b by (simp add: bash_command_is_routine.simps [of w] Let_def command_head_def)
  then show ?thesis using manager_launch [OF _ assms(3)] b by simp
qed

lemma routine_listed: "bash_command_is_routine w \<Longrightarrow> runs_listed_program w"
proof -
  let ?i = "unwrap_wrappers w"
  assume r: "bash_command_is_routine w"
  show "runs_listed_program w"
  proof (cases "?i = [] \<or> is_lone_wrapper ?i \<or> command_head ?i \<in> set (package_managers @ [''find'', ''gh''])")
    case False
    then have "package_manager_subcommand_is_routine (command_head ?i) ?i = None"
      by (simp add: package_manager_subcommand_is_routine.simps)
    then have "matches_routine_prefix (ascii_lower (join_words ?i))"
      using r False by (simp add: bash_command_is_routine.simps [of w] Let_def command_head_def split: if_splits)
    from routine_prefix_listed [OF this] show ?thesis
      using hd_split_join [of ?i] False by (simp add: runs_listed_program_def Let_def)
  qed (auto simp: runs_listed_program_def Let_def)
qed

lemma launches_routine:
  assumes "launches w u" "bash_command_is_routine w"
  shows "bash_command_is_routine u \<and> (u \<noteq> w \<longrightarrow> \<not> command_env_is_unsafe u \<and> \<not> launched_writes_nonsink u)"
  using assms
proof (induction rule: launches.induct)
  case (launches_inner w v u)
  note v = routine_launch [OF launches_inner.prems launches_inner.hyps(1,2)]
  show ?case
    using launches_inner.IH v by (cases "u = v") auto
qed simp

text \<open>C6. Whatever the heuristic lets run, it knows: the script decomposes into at least one command,
  every variable it assigns is a cosmetic one, every path it writes is a sink, and each command,
  and each command it launches through package managers in turn, runs a listed program without
  exec-affecting environment, the launched ones writing to sinks only.\<close>

theorem heuristic_allows_only_listed_programs:
  assumes "classify_bash X cmd = VAllow"
  shows "\<exists>root cmds. parse_shell X cmd = Some root \<and>
    try_parse_word_only_commands_sequence root cmd = Some cmds \<and> cmds \<noteq> [] \<and>
    (\<forall>n \<in> set (all_nodes root). kind n = ''variable_assignment'' \<longrightarrow> is_safe_env_key (assignment_key n cmd)) \<and>
    (\<forall>path \<in> set (command_write_paths_in_tree root cmd). is_safe_write_sink path) \<and>
    (\<forall>c \<in> set cmds. \<forall>u. launches (pc_words c) u \<longrightarrow>
       runs_listed_program u \<and> \<not> command_env_is_unsafe u \<and>
       (u \<noteq> pc_words c \<longrightarrow> (\<forall>path \<in> set (command_words_write_paths u). is_safe_write_sink path)))"
proof -
  obtain root cmds where root: "parse_shell X cmd = Some root"
      "try_parse_word_only_commands_sequence root cmd = Some cmds" "cmds \<noteq> []"
    and env: "\<not> sets_unsafe_env root cmd cmds"
    and wr: "\<not> list_ex (\<lambda>path. \<not> is_safe_write_sink path) (command_write_paths_in_tree root cmd)"
    and rt: "list_all (\<lambda>c. bash_command_is_routine (pc_words c)) cmds"
    using assms by (auto simp: classify_bash_def split: option.splits if_splits)
  have nodes: "\<forall>n \<in> set (all_nodes root). kind n = ''variable_assignment'' \<longrightarrow> is_safe_env_key (assignment_key n cmd)"
    and envs: "\<forall>c \<in> set cmds. \<not> command_env_is_unsafe (pc_words c)"
    using env by (auto simp: sets_unsafe_env_def list_ex_iff walk_nodes_set split: if_split_asm)
  have "runs_listed_program u \<and> \<not> command_env_is_unsafe u \<and>
      (u \<noteq> pc_words c \<longrightarrow> (\<forall>path \<in> set (command_words_write_paths u). is_safe_write_sink path))"
    if "c \<in> set cmds" "launches (pc_words c) u" for c u
    using launches_routine [OF that(2)] rt that(1) envs routine_listed
    by (cases "u = pc_words c") (auto simp: list_all_iff list_ex_iff launched_writes_nonsink_def)
  with nodes show ?thesis using root wr by (auto simp: list_ex_iff)
qed

definition npm_exec :: externals where
  "npm_exec = shell_for [[''npm'', ''exec'', ''ls'']]"

lemma npm_exec_allowed: "classify_bash npm_exec ''npm exec ls'' = VAllow"
  by code_simp

lemma npm_exec_words:
  "try_parse_word_only_commands_sequence (the (parse_shell npm_exec ''npm exec ls'')) ''npm exec ls'' =
     Some [\<lparr>pc_words = [''npm'', ''exec'', ''ls''], pc_start = 0, pc_end = 11\<rparr>]"
  by code_simp

lemma npm_exec_launches: "launches [''npm'', ''exec'', ''ls''] [''ls'']"
proof (rule launches_inner [OF _ _ launches_self])
  show "unwrap_wrappers [''npm'', ''exec'', ''ls''] \<noteq> []" by code_simp
  show "explicit_launch_target (command_head (unwrap_wrappers [''npm'', ''exec'', ''ls'']))
      (unwrap_wrappers [''npm'', ''exec'', ''ls'']) = Inner [''ls'']" by code_simp
qed

theorem heuristic_allows_only_listed_programs_witness:
  "runs_listed_program [''ls''] \<and> \<not> command_env_is_unsafe [''ls'']"
  using heuristic_allows_only_listed_programs [OF npm_exec_allowed] npm_exec_words npm_exec_launches
  by force

section \<open>Laxness\<close>

text \<open>A program is recognised by the last segment of its path, in any directory: \<open>find\<close> is judged by
  its arguments, and \<open>env\<close> counts as the wrapper.\<close>

lemma program_name_in_dir:
  assumes "\<not> list_ex is_path_sep p"
  shows "shell_program_name (d @ CHR ''/'' # p) = p"
proof -
  have "last_segment is_path_sep (d @ CHR ''/'' # p) = last_segment is_path_sep p"
    by (rule last_segment_append) (simp add: is_path_sep_def)
  also have "\<dots> = p" by (rule last_segment_id) (use assms in \<open>auto simp: list_ex_iff\<close>)
  finally show ?thesis by (simp add: shell_program_name_def)
qed

lemma env_in_dir_stripped:
  "unwrap_wrappers [d @ ''/env'', ''ls''] = [''ls'']"
proof -
  have n: "shell_program_name (d @ ''/env'') = ''env''"
    using program_name_in_dir [of "''env''" d] by (simp add: is_path_sep_def)
  have scan: "env_scan [d @ ''/env'', ''ls''] = (None, 1)"
    unfolding env_scan_def by (subst env_scan_from.simps) (simp add: is_env_assignment_def)
  have "strip_wrapper_command [d @ ''/env'', ''ls''] = Some [''ls'']"
    unfolding strip_wrapper_command_def list.case n by (simp add: wrapper_args_end_def scan get_from_def)
  moreover have "strip_wrapper_command [''ls''] = None" by code_simp
  ultimately show ?thesis by (simp add: unwrap_wrappers_def numeral_eq_Suc)
qed

text \<open>Programs are judged by the last segment of their path: an executable named \<open>env\<close> in any
  directory - the working directory too - is taken for the wrapper, so a script that runs it in
  front of a safe command is allowed unasked, and one named \<open>find\<close> is routine for auto mode.\<close>

theorem programs_judged_by_base_name:
  assumes "segments_of X cmd = Some [[d @ ''/env'', ''ls'']]" "st_disallowed_bash st = []"
  shows "(\<exists>r. bash_grant_pre_decision X cmd st pin PRE_CLASSIFIER = Some (Allow, r)) \<and>
    bash_command_is_routine [d @ ''/find'']"
proof
  have words: "\<not> is_setup_command [''ls'']" "\<not> is_dangerous_command_words [''ls'']"
      "is_safe_command_words [''ls'']" by code_simp+
  obtain acc where "segment_step st True \<lparr>acc_prompt = [], acc_dangerous = False, acc_grant = False\<rparr>
      [d @ ''/env'', ''ls''] = Inr acc" "acc_prompt acc = []"
    unfolding segment_step_def env_in_dir_stripped Let_def assms(2) using words by simp
  then show "\<exists>r. bash_grant_pre_decision X cmd st pin PRE_CLASSIFIER = Some (Allow, r)"
    using assms(1) by (auto simp: segments_of_def bash_grant_pre_decision_def evaluate_bash_segments_def
        evaluate_bash_segments_inner_def PRE_CLASSIFIER_def grant_allow_def)
next
  let ?w = "[d @ ''/find'']"
  have n: "shell_program_name (d @ ''/find'') = ''find''"
    using program_name_in_dir [of "''find''" d] by (simp add: is_path_sep_def)
  have u: "unwrap_wrappers ?w = ?w"
    unfolding unwrap_wrappers_def by (simp add: numeral_eq_Suc strip_wrapper_command_def n wrapper_args_end_def)
  have "d @ ''/find'' \<notin> set find_actions" by (auto simp: find_actions_def append_eq_Cons_conv)
  then show "bash_command_is_routine ?w"
    by (simp add: bash_command_is_routine.simps [of ?w] u n Let_def is_lone_wrapper_def is_wrapper_command_def
        wrapper_names_def ascii_lower_def ascii_lower_char_def ascii_upper_case_def find_is_read_only_def
        package_manager_subcommand_is_routine.simps package_managers_def)
qed

theorem programs_judged_by_base_name_witness:
  "\<exists>r. bash_grant_pre_decision (shell_for [[''./env'', ''ls'']]) ''./env ls'' default_state None PRE_CLASSIFIER =
     Some (Allow, r)"
proof -
  have "segments_of (shell_for [[''./env'', ''ls'']]) ''./env ls'' = Some [[''.'' @ ''/env'', ''ls'']]"
    "st_disallowed_bash default_state = []" by code_simp+
  from programs_judged_by_base_name [OF this] show ?thesis by blast
qed

text \<open>A quoted word of a launched command is judged as the words it would split into.\<close>

lemma quoted_launch_word_is_routine: "bash_command_is_routine [''npm'', ''exec'', ''ls ; rm -rf x'']"
  by code_simp

section \<open>The conversation only vetoes\<close>

lemma join_with_prefix: "prefix (join_with sep xs) (join_with sep (xs @ ys))"
  using join_with_append [of xs ys sep] by (cases "xs = []"; cases "ys = []") auto

lemma transcript_prefix:
  assumes "cc_turns ctx' = cc_turns ctx @ later"
  shows "prefix (transcript_text ctx) (transcript_text ctx')"
  using join_with_prefix [of newline "map render_turn (cc_turns ctx)" "map render_turn later"]
  by (simp add: transcript_text_def assms)

lemma lower_prefix: "prefix s t \<Longrightarrow> prefix (ascii_lower s) (ascii_lower t)"
  by (auto simp: prefix_def ascii_lower_def)

lemma contains_prefix: "prefix s t \<Longrightarrow> contains_str s p \<Longrightarrow> contains_str t p"
  by (auto simp: prefix_def sublist_def) blast

text \<open>The conversation can only veto: an action the heuristic allows after some turns it allowed
  already with only the earlier ones, and the project instructions play no part.\<close>

theorem conversation_only_vetoes:
  assumes "classify_sync X tool access detail ctx' = VAllow" "cc_turns ctx' = cc_turns ctx @ later"
  shows "classify_sync X tool access detail ctx = VAllow"
proof -
  let ?t = "ascii_lower (transcript_text ctx)" and ?t' = "ascii_lower (transcript_text ctx')"
  let ?a = "ascii_lower tool @ '' '' @ ascii_lower (case detail of Some d \<Rightarrow> d | None \<Rightarrow> []) @ '' ''"
  have t: "prefix ?t ?t'" using transcript_prefix [OF assms(2)] by (rule lower_prefix)
  then have b: "prefix (?a @ ?t) (?a @ ?t')" by simp
  have lists: "list_ex (contains_str (?a @ ?t)) ps \<Longrightarrow> list_ex (contains_str (?a @ ?t')) ps"
    "list_ex (contains_str ?t) ps \<Longrightarrow> list_ex (contains_str ?t') ps" for ps
    using contains_prefix [OF b] contains_prefix [OF t] unfolding list_ex_iff by blast+
  have "pipes_download_to_shell (?a @ ?t) \<Longrightarrow> pipes_download_to_shell (?a @ ?t')"
    unfolding pipes_download_to_shell_def using lists(1) by blast
  with lists assms(1) show ?thesis
    unfolding classify_sync_def Let_def append_assoc by (auto split: if_split_asm)
qed

theorem conversation_only_vetoes_witness:
  "classify_sync npm_exec ''run_terminal_command'' (Bash ''npm exec ls'') (Some ''npm exec ls'')
     \<lparr>cc_turns = [UserText ''list files''], cc_project_instructions = None\<rparr> = VAllow"
proof (rule conversation_only_vetoes)
  show "classify_sync npm_exec ''run_terminal_command'' (Bash ''npm exec ls'') (Some ''npm exec ls'')
     \<lparr>cc_turns = [UserText ''list files'', UserText ''thanks''], cc_project_instructions = None\<rparr> = VAllow"
    by code_simp
qed simp

end
