(* ===== verification/Classifier.thy ===== *)
theory Classifier
  imports AutoModeSpec
begin

text \<open>
  \<open>permission/auto_mode.rs\<close>, the rest: what needs the user, the fast paths, the request to the
  model and the reading of its reply, and the classifier that combines model and heuristic.
  \<open>serde_json\<close> is a parameter: \<open>to_json_text\<close> prints a value, \<open>of_json_text\<close> parses one.
\<close>

section \<open>Fast paths\<close>

definition tool_name_for_access :: "access_kind \<Rightarrow> string" where
  "tool_name_for_access access =
     (case access of
        Read _ \<Rightarrow> ''read_file''
      | Grep _ _ \<Rightarrow> ''grep''
      | Edit _ \<Rightarrow> ''search_replace''
      | Bash _ \<Rightarrow> ''run_terminal_command''
      | MCPTool name _ \<Rightarrow> ''mcp:'' @ name
      | WebFetch _ \<Rightarrow> ''web_fetch''
      | WebSearch _ \<Rightarrow> ''web_search'')"

definition access_requires_user_interaction :: "string \<Rightarrow> access_kind \<Rightarrow> bool" where
  "access_requires_user_interaction tool_name access =
     (let t = ascii_lower tool_name in
      if contains_str t ''ask_user'' \<or> contains_str t ''askuserquestion'' \<or>
         contains_str t ''user_question'' \<or> t = ''ask_user_question'' then True
      else case access of
             MCPTool name _ \<Rightarrow>
               (let n = ascii_lower name in
                contains_str n ''ask_user'' \<or> (contains_str n ''confirm'' \<and> contains_str n ''human''))
           | _ \<Rightarrow> False)"

fun is_auto_mode_allowlisted_access :: "access_kind \<Rightarrow> bool" where
  "is_auto_mode_allowlisted_access (Read _) = True"
| "is_auto_mode_allowlisted_access (Grep _ _) = True"
| "is_auto_mode_allowlisted_access (WebSearch _) = True"
| "is_auto_mode_allowlisted_access _ = False"

definition allowlisted_tool_names :: "string list" where
  "allowlisted_tool_names =
     [''todo_write'', ''TodoWrite'', ''task_output'', ''TaskOutput'', ''wait_tasks'', ''WaitTasks'',
      ''ask_user_question'', ''AskUserQuestion'', ''enter_plan_mode'', ''EnterPlanMode'',
      ''exit_plan_mode'', ''ExitPlanMode'', ''switch_mode'', ''SwitchMode'', ''create_plan'',
      ''CreatePlan'', ''update_plan'', ''UpdatePlan'', ''list_mcp_resources'', ''ListMcpResources'',
      ''read_mcp_resource'', ''ReadMcpResource'', ''tool_search'', ''ToolSearch'', ''sleep'', ''Sleep'']"

definition is_auto_mode_allowlisted_tool_name :: "string \<Rightarrow> bool" where
  "is_auto_mode_allowlisted_tool_name tool_name \<longleftrightarrow> tool_name \<in> set allowlisted_tool_names"

datatype auto_fast_path = FastAllow | FastPromptUser | FastClassify

definition auto_mode_fast_path :: "access_kind \<Rightarrow> string \<Rightarrow> bool \<Rightarrow> auto_fast_path" where
  "auto_mode_fast_path access tool_name requires_user_interaction =
     (if requires_user_interaction then FastPromptUser
      else if is_auto_mode_allowlisted_access access \<or> is_auto_mode_allowlisted_tool_name tool_name
      then FastAllow
      else case access of
             Edit _ \<Rightarrow> FastAllow
           | Bash cmd \<Rightarrow>
               (if trim cmd \<in> {''true'', '':'', ''false''} then FastAllow else FastClassify)
           | _ \<Rightarrow> FastClassify)"

section \<open>The detail of an MCP call\<close>

text \<open>\<open>truncate_line\<close> of \<open>util/truncate.rs\<close>.\<close>

definition truncate_line :: "string \<Rightarrow> nat \<Rightarrow> string" where
  "truncate_line line max_chars =
     (if length line \<le> max_chars then line
      else
        (let n = char_count line in
         if n \<le> max_chars then line
         else
           (let end_byte = (case get_at (char_indices 0 line) max_chars of
                              Some (i, _) \<Rightarrow> i | None \<Rightarrow> length line)
            in take end_byte line @ '' [... truncated ('' @ decimal n @ '' chars total)]'')))"

definition MCP_ACCESS_DETAIL_MAX_LEN :: nat where
  "MCP_ACCESS_DETAIL_MAX_LEN = 1024"

definition mcp_access_detail :: "(json \<Rightarrow> string option) \<Rightarrow> string \<Rightarrow> json \<Rightarrow> string" where
  "mcp_access_detail to_json_text name input =
     (if input = JNull then name
      else
        (let compact = (case to_json_text input of Some s \<Rightarrow> s | None \<Rightarrow> [])
         in truncate_line (name @ '' '' @ compact) MCP_ACCESS_DETAIL_MAX_LEN))"

section \<open>The request to the model\<close>

datatype classifier_prompt_type = Full | NoUserToolPrefix | BareInstructions | JustCommand

datatype classifier_role = SystemRole | UserRole

record classifier_message =
  cm_role :: classifier_role
  cm_text :: string

definition AUTO_MODE_CLASSIFIER_SYSTEM_PROMPT :: string where
  "AUTO_MODE_CLASSIFIER_SYSTEM_PROMPT = concat [
      ''You review a command that a coding agent wants to run on its user'', [CHR 0x27],
      ''s machine. Decide whether it can run now (shouldBlock=false) or must wait '',
      ''for the user'', [CHR 0x27], ''s approval (shouldBlock=true).'', newline, newline,
      ''Let it run if everything it does is ordinary development work on this machine: '',
      ''building, testing, searching, and editing project files; reading the user'',
      [CHR 0x27],
      ''s own files, logs, configuration, and environment; scratch work in temp '',
      ''directories; read-only queries of the team'', [CHR 0x27],
      ''s own services, dashboards, and internal APIs made from this machine (using '',
      ''stored credentials for read access is normal); git reads and commits (status, '',
      ''diff, log, show, add, commit, amending the latest local commit, switching '',
      ''branches). A chain of safe steps, or a harmless no-op like '', [CHR 0x60],
      ''true'', [CHR 0x60],
      '', is still safe. A local VM on this machine counts as this machine.'', newline,
      newline,
      ''Make it wait if any part reaches beyond the machine or cannot be undone: '',
      ''publishing anything (git push, PR or review edits and comments, posts, '',
      ''messages), opening shells on or changing other machines (SSH sessions, '',
      ''kubectl exec, cluster mutations, production services), rewriting or discarding '',
      ''saved work (rebase, hard reset, force-clean, force-deleting branches or '',
      ''worktrees), extracting credentials or secrets, looking up people'', [CHR 0x27],
      ''s private data (even read-only), destroying files outside scratch space, '',
      ''downloading and running untrusted code, or probing systems for access.'',
      newline, newline, ''Judge by what the command actually does '', [CHR 0xE2],
      [CHR 0x80], [CHR 0x94],
      '' not by scary names in paths or strings. If you cannot tell what it does, '',
      ''make it wait.'', newline]"

definition CLASSIFIER_JSON_INSTRUCTION :: string where
  "CLASSIFIER_JSON_INSTRUCTION = concat [
      ''Respond with JSON only: {'', [CHR 0x22], ''thinking'', [CHR 0x22], '':'',
      [CHR 0x22], ''...'', [CHR 0x22], '','', [CHR 0x22], ''shouldBlock'', [CHR 0x22],
      '':true|false,'', [CHR 0x22], ''reason'', [CHR 0x22], '':'', [CHR 0x22], ''...'',
      [CHR 0x22], ''}'']"

definition agents_md_preamble :: string where
  "agents_md_preamble = concat [
      ''The following is the user'', [CHR 0x27],
      ''s AGENTS.md configuration. These are instructions the user provided to '',
      ''the agent and should be treated as part of the user'', [CHR 0x27],
      ''s intent when evaluating actions.'', newline, newline,
      ''<project_instructions>'', newline]"

definition agents_md_message :: "string \<Rightarrow> classifier_message" where
  "agents_md_message agents_md =
     \<lparr>cm_role = UserRole,
      cm_text = agents_md_preamble @ agents_md @ newline @ ''</project_instructions>''\<rparr>"

fun access_kind_str :: "access_kind \<Rightarrow> string" where
  "access_kind_str (Read _) = ''read''"
| "access_kind_str (Grep _ _) = ''grep''"
| "access_kind_str (Edit _) = ''edit''"
| "access_kind_str (Bash _) = ''bash''"
| "access_kind_str (MCPTool _ _) = ''mcp''"
| "access_kind_str (WebFetch _) = ''web_fetch''"
| "access_kind_str (WebSearch _) = ''web_search''"

definition proposed_action :: "string \<Rightarrow> access_kind \<Rightarrow> string option \<Rightarrow> string" where
  "proposed_action tool_name access access_detail =
     ''tool: '' @ tool_name @ newline @ ''access_kind: '' @ access_kind_str access @ newline @
     ''detail: '' @ (case access_detail of Some d \<Rightarrow> d | None \<Rightarrow> ''(none)'')"

definition trailing_text ::
    "string \<Rightarrow> classifier_context \<Rightarrow> classifier_prompt_type \<Rightarrow> string" where
  "trailing_text action ctx prompt_type =
     (case prompt_type of
        Full \<Rightarrow>
          ''## Recent conversation'' @ newline @
          (if cc_turns ctx = [] then ''(no recent conversation context)'' else transcript_text ctx) @
          newline @ newline @ ''## Proposed action'' @ newline @ action @ newline @ newline @
          CLASSIFIER_JSON_INSTRUCTION
      | NoUserToolPrefix \<Rightarrow>
          ''## Proposed action'' @ newline @ action @ newline @ newline @ CLASSIFIER_JSON_INSTRUCTION
      | BareInstructions \<Rightarrow>
          ''## Proposed action'' @ newline @ action @ newline @ newline @ CLASSIFIER_JSON_INSTRUCTION
      | JustCommand \<Rightarrow> action)"

definition build_classifier_messages ::
    "string \<Rightarrow> access_kind \<Rightarrow> string option \<Rightarrow> classifier_context \<Rightarrow> classifier_prompt_type \<Rightarrow>
     classifier_message list" where
  "build_classifier_messages tool_name access access_detail ctx prompt_type =
     [\<lparr>cm_role = SystemRole, cm_text = AUTO_MODE_CLASSIFIER_SYSTEM_PROMPT\<rparr>] @
     (if prompt_type = Full \<or> prompt_type = NoUserToolPrefix then
        (case cc_project_instructions ctx of Some md \<Rightarrow> [agents_md_message md] | None \<Rightarrow> [])
      else []) @
     [\<lparr>cm_role = UserRole,
       cm_text = trailing_text (proposed_action tool_name access access_detail) ctx prompt_type\<rparr>]"

section \<open>The reply of the model\<close>

fun json_get :: "json \<Rightarrow> string \<Rightarrow> json option" where
  "json_get (JObject members) key = map_of members key"
| "json_get _ key = None"

fun json_as_bool :: "json \<Rightarrow> bool option" where
  "json_as_bool (JBool b) = Some b"
| "json_as_bool _ = None"

definition block_verdict :: "bool \<Rightarrow> classifier_verdict" where
  "block_verdict b = (if b then VBlock else VAllow)"

definition should_block_key :: string where "should_block_key = ''shouldBlock''"
definition should_block_snake :: string where "should_block_snake = ''should_block''"

text \<open>The first attempt: the reply is JSON.\<close>

definition clean_verdict :: "json \<Rightarrow> bool option" where
  "clean_verdict v =
     (case Option.bind (json_get v should_block_key) json_as_bool of
        Some b \<Rightarrow> Some b
      | None \<Rightarrow> Option.bind (json_get v should_block_snake) json_as_bool)"

text \<open>The second: the text from the first brace to the last one is.\<close>

definition embedded_object :: "string \<Rightarrow> string option" where
  "embedded_object s =
     (case find_byte (CHR ''{'') s of
        None \<Rightarrow> None
      | Some start \<Rightarrow>
          (case find_byte (CHR ''}'') (rev s) of
             None \<Rightarrow> None
           | Some back \<Rightarrow>
               (let last_brace = length s - 1 - back in
                if start < last_brace then Some (take (last_brace + 1 - start) (drop start s)) else None)))"

definition embedded_verdict :: "json \<Rightarrow> bool option" where
  "embedded_verdict v =
     Option.bind (opt_or (json_get v should_block_key) (json_get v should_block_snake)) json_as_bool"

definition parse_classifier_model_text :: "(string \<Rightarrow> json option) \<Rightarrow> string \<Rightarrow> classifier_verdict" where
  "parse_classifier_model_text of_json_text reply =
     (let trimmed = trim reply in
      if trimmed = [] then VUnavailable
      else case Option.bind (of_json_text trimmed) clean_verdict of
             Some b \<Rightarrow> block_verdict b
           | None \<Rightarrow>
               (case Option.bind (Option.bind (embedded_object trimmed) of_json_text) embedded_verdict of
                  Some b \<Rightarrow> block_verdict b
                | None \<Rightarrow>
                    (let lower = ascii_lower trimmed in
                     if contains_str lower (dquote @ ''shouldblock'' @ dquote @ '': true'') \<or>
                        contains_str lower (''shouldblock'' @ dquote @ '':true'') then VBlock
                     else if trim lower \<in> {''block'', ''blocked'', ''deny'', ''denied''} then VBlock
                     else if trim lower \<in> {''allow'', ''allowed'', ''approve'', ''approved''} then VAllow
                     else VUnavailable)))"

section \<open>The classifiers\<close>

text \<open>The session channel: the request cannot be sent, the reply is dropped, or it arrives, an error
  being \<open>Inl\<close>; and the direct callback.\<close>

datatype channel_reply = SendFailed | ReplyDropped | Replied "string + string"

record llm_classifier =
  classify_text :: "(classifier_message list \<Rightarrow> string + string) option"
  classify_channel :: "(classifier_message list \<Rightarrow> channel_reply) option"
  prompt_type :: classifier_prompt_type

definition production_default :: llm_classifier where
  "production_default = \<lparr>classify_text = None, classify_channel = None, prompt_type = Full\<rparr>"

definition has_side_query :: "llm_classifier \<Rightarrow> bool" where
  "has_side_query clf \<longleftrightarrow> classify_text clf \<noteq> None \<or> classify_channel clf \<noteq> None"

definition model_text :: "llm_classifier \<Rightarrow> classifier_message list \<Rightarrow> string option" where
  "model_text clf messages =
     (case classify_channel clf of
        Some tx \<Rightarrow>
          (case tx messages of
             SendFailed \<Rightarrow> None
           | ReplyDropped \<Rightarrow> None
           | Replied (Inr t) \<Rightarrow> Some t
           | Replied (Inl _) \<Rightarrow> None)
      | None \<Rightarrow>
          (case classify_text clf of
             Some f \<Rightarrow> (case f messages of Inr t \<Rightarrow> Some t | Inl _ \<Rightarrow> None)
           | None \<Rightarrow> None))"

definition llm_classify ::
    "externals \<Rightarrow> (string \<Rightarrow> json option) \<Rightarrow> llm_classifier \<Rightarrow> string \<Rightarrow> access_kind \<Rightarrow> string option \<Rightarrow>
     classifier_context \<Rightarrow> classifier_verdict" where
  "llm_classify X of_json_text clf tool_name access access_detail ctx =
     (let heuristic = classify_sync X tool_name access access_detail ctx in
      if heuristic = VAllow then VAllow
      else case model_text clf (build_classifier_messages tool_name access access_detail ctx (prompt_type clf)) of
             Some t \<Rightarrow>
               (let v = parse_classifier_model_text of_json_text t in
                if v \<noteq> VUnavailable then v else heuristic)
           | None \<Rightarrow> heuristic)"

text \<open>\<open>dyn PermissionClassifier\<close>, for the implementations in the repository.\<close>

datatype classifier = FixedClassifier classifier_verdict | HeuristicClassifier | LlmClassifier llm_classifier

definition run_classifier ::
    "externals \<Rightarrow> (string \<Rightarrow> json option) \<Rightarrow> classifier \<Rightarrow> string \<Rightarrow> access_kind \<Rightarrow> string option \<Rightarrow>
     classifier_context \<Rightarrow> classifier_verdict" where
  "run_classifier X of_json_text clf tool_name access access_detail ctx =
     (case clf of
        FixedClassifier v \<Rightarrow> v
      | HeuristicClassifier \<Rightarrow> classify_sync X tool_name access access_detail ctx
      | LlmClassifier c \<Rightarrow> llm_classify X of_json_text c tool_name access access_detail ctx)"

definition default_auto_mode_classifier :: classifier where
  "default_auto_mode_classifier = LlmClassifier production_default"

end
