(* ===== verification/ClassifierSpec.thy ===== *)
theory ClassifierSpec
  imports Classifier
begin

text \<open>
  What auto mode promises around the heuristic: exactly which accesses skip the classifier, that an
  allow is the heuristic's or an explicit one of the model, and that the detail shown is bounded.
\<close>

section \<open>Fast paths\<close>

text \<open>An MCP tool is interactive by its name.\<close>

definition interactive_mcp :: "string \<Rightarrow> bool" where
  "interactive_mcp name \<longleftrightarrow>
     (let n = ascii_lower name in
      contains_str n ''ask_user'' \<or> contains_str n ''askuserquestion'' \<or> contains_str n ''user_question'' \<or>
      (contains_str n ''confirm'' \<and> contains_str n ''human''))"

definition expected_fast_path :: "access_kind \<Rightarrow> auto_fast_path" where
  "expected_fast_path access =
     (case access of
        Read _ \<Rightarrow> FastAllow
      | Grep _ _ \<Rightarrow> FastAllow
      | WebSearch _ \<Rightarrow> FastAllow
      | Edit _ \<Rightarrow> FastAllow
      | Bash cmd \<Rightarrow> if trim cmd \<in> {''true'', '':'', ''false''} then FastAllow else FastClassify
      | WebFetch _ \<Rightarrow> FastClassify
      | MCPTool name _ \<Rightarrow> if interactive_mcp name then FastPromptUser else FastClassify)"

lemma contains_after: "hd p \<noteq> a \<Longrightarrow> p \<noteq> [] \<Longrightarrow> contains_str (a # s) p = contains_str s p"
  by (cases p) (auto simp: sublist_Cons_right)

lemma lower_mcp: "ascii_lower (''mcp:'' @ n) = ''mcp:'' @ ascii_lower n"
  by (simp add: ascii_lower_def) code_simp

lemma mcp_name_contains:
  assumes "p \<noteq> []" "hd p \<notin> set ''mcp:''"
  shows "contains_str (''mcp:'' @ n) p = contains_str n p"
  using assms by (simp add: contains_after)

lemma interactive_mcp_iff:
  "access_requires_user_interaction (tool_name_for_access (MCPTool name input)) (MCPTool name input) =
   interactive_mcp name"
proof -
  have t: "ascii_lower (tool_name_for_access (MCPTool name input)) = ''mcp:'' @ ascii_lower name"
    unfolding tool_name_for_access_def access_kind.case by (rule lower_mcp)
  have c: "contains_str (''mcp:'' @ ascii_lower name) ''ask_user'' = contains_str (ascii_lower name) ''ask_user''"
    "contains_str (''mcp:'' @ ascii_lower name) ''askuserquestion'' = contains_str (ascii_lower name) ''askuserquestion''"
    "contains_str (''mcp:'' @ ascii_lower name) ''user_question'' = contains_str (ascii_lower name) ''user_question''"
    by (rule mcp_name_contains, simp, simp)+
  have e: "''mcp:'' @ ascii_lower name \<noteq> ''ask_user_question''" by simp
  show ?thesis
    unfolding access_requires_user_interaction_def t Let_def c interactive_mcp_def access_kind.case
    by (simp only: e if_bool_eq_disj) blast
qed

lemma mcp_not_allowlisted: "\<not> is_auto_mode_allowlisted_tool_name (''mcp:'' @ name)"
  unfolding is_auto_mode_allowlisted_tool_name_def allowlisted_tool_names_def by simp

lemma needs_user_others:
  "access_requires_user_interaction ''read_file'' (Read p) = False"
  "access_requires_user_interaction ''grep'' (Grep p g) = False"
  "access_requires_user_interaction ''search_replace'' (Edit f) = False"
  "access_requires_user_interaction ''run_terminal_command'' (Bash c) = False"
  "access_requires_user_interaction ''web_fetch'' (WebFetch u) = False"
  "access_requires_user_interaction ''web_search'' (WebSearch q) = False"
  by code_simp+

lemma others_not_allowlisted:
  "\<not> is_auto_mode_allowlisted_tool_name ''run_terminal_command''"
  "\<not> is_auto_mode_allowlisted_tool_name ''web_fetch''"
  by code_simp+

lemma fast_path_at:
  "auto_mode_fast_path access (tool_name_for_access access)
     (access_requires_user_interaction (tool_name_for_access access) access) = expected_fast_path access"
proof (cases access)
  case (MCPTool name input)
  have n: "\<not> is_auto_mode_allowlisted_tool_name (tool_name_for_access (MCPTool name input))"
    unfolding tool_name_for_access_def access_kind.case by (rule mcp_not_allowlisted)
  show ?thesis
    unfolding MCPTool interactive_mcp_iff auto_mode_fast_path_def expected_fast_path_def access_kind.case
    using n by simp
qed (simp_all only: tool_name_for_access_def access_kind.case needs_user_others others_not_allowlisted
    auto_mode_fast_path_def expected_fast_path_def is_auto_mode_allowlisted_access.simps simp_thms if_True if_False if_cancel)

text \<open>Auto mode decides without the classifier exactly reads, searches, every edit and the three
  no-op commands; it prompts without it exactly for MCP tools with an interactive name.  The
  allowlist of tool names never matters: no access has such a name.\<close>

theorem fast_path_characterised:
  "auto_mode_fast_path access (tool_name_for_access access)
     (access_requires_user_interaction (tool_name_for_access access) access) = expected_fast_path access"
  by (rule fast_path_at)

section \<open>Verdicts\<close>

lemma embedded_sublist: "embedded_object s = Some t \<Longrightarrow> sublist t s"
  by (auto simp: embedded_object_def Let_def sublist_take sublist_drop split: option.splits if_splits
      intro!: sublist_order.order_trans [OF sublist_take sublist_drop])

text \<open>A part of the reply that parses to an object with a false \<open>shouldBlock\<close>.\<close>

definition says_do_not_block :: "(string \<Rightarrow> json option) \<Rightarrow> string \<Rightarrow> bool" where
  "says_do_not_block of_json_text reply \<longleftrightarrow>
     (\<exists>part v. sublist part reply \<and> of_json_text part = Some v \<and>
        (json_get v should_block_key = Some (JBool False) \<or> json_get v should_block_snake = Some (JBool False)))"

lemma bind_bool_False: "Option.bind j json_as_bool = Some b \<longleftrightarrow> j = Some (JBool b)"
  by (cases j; simp; rename_tac v; case_tac v) simp_all

lemma clean_False: "clean_verdict v = Some False \<Longrightarrow>
  json_get v should_block_key = Some (JBool False) \<or> json_get v should_block_snake = Some (JBool False)"
  by (auto simp: clean_verdict_def bind_bool_False split: option.splits)

lemma embedded_False: "embedded_verdict v = Some False \<Longrightarrow>
  json_get v should_block_key = Some (JBool False) \<or> json_get v should_block_snake = Some (JBool False)"
  unfolding embedded_verdict_def bind_bool_False by (cases "json_get v should_block_key") simp_all

lemma parse_allow_cases:
  assumes "parse_classifier_model_text of_json_text reply = VAllow"
  shows "says_do_not_block of_json_text reply \<or>
    trim (ascii_lower (trim reply)) \<in> {''allow'', ''allowed'', ''approve'', ''approved''}"
proof -
  let ?first = "Option.bind (of_json_text (trim reply)) clean_verdict"
  let ?second = "Option.bind (Option.bind (embedded_object (trim reply)) of_json_text) embedded_verdict"
  have a: "b = False" if "block_verdict b = VAllow" for b using that by (cases b) (auto simp: block_verdict_def)
  consider "?first = Some False" | "?second = Some False"
    | "?first = None" "?second = None"
    using assms a unfolding parse_classifier_model_text_def Let_def
    by (auto split: if_split_asm option.splits)
  then show ?thesis
  proof cases
    case 1
    then obtain v where "of_json_text (trim reply) = Some v" "clean_verdict v = Some False"
      by (auto simp: bind_eq_Some_conv)
    then show ?thesis using clean_False trim_sublist unfolding says_do_not_block_def by blast
  next
    case 2
    then obtain part v where "embedded_object (trim reply) = Some part" "of_json_text part = Some v"
        "embedded_verdict v = Some False"
      by (auto simp: bind_eq_Some_conv)
    then show ?thesis
      using embedded_False embedded_sublist trim_sublist sublist_order.order_trans
      unfolding says_do_not_block_def by blast
  next
    case 3
    then show ?thesis
      using assms unfolding parse_classifier_model_text_def Let_def 3 option.case
      by (simp only: split: if_split_asm) simp_all
  qed
qed

text \<open>Auto mode allows an action only on the heuristic's word or an explicit one of the model: a
  part of its reply that is an object with a false \<open>shouldBlock\<close>, or a reply that is one of four
  words.  Without a reply, and for replies that say neither, the heuristic decides.\<close>

theorem llm_allow_is_explicit:
  assumes "llm_classify X of_json_text clf tool access detail ctx = VAllow"
  shows "classify_sync X tool access detail ctx = VAllow \<or>
    (\<exists>reply. model_text clf (build_classifier_messages tool access detail ctx (prompt_type clf)) = Some reply \<and>
      (says_do_not_block of_json_text reply \<or>
       trim (ascii_lower (trim reply)) \<in> {''allow'', ''allowed'', ''approve'', ''approved''}))"
  using assms unfolding llm_classify_def Let_def
  by (simp split: if_split_asm option.split_asm) (use parse_allow_cases in blast)+

definition yes_model :: llm_classifier where
  "yes_model = \<lparr>classify_text = Some (\<lambda>_. Inr '' Allowed ''), classify_channel = None, prompt_type = JustCommand\<rparr>"

theorem llm_allow_is_explicit_witness:
  "\<exists>reply. model_text yes_model (build_classifier_messages ''web_fetch'' (WebFetch ''x'') None
      \<lparr>cc_turns = [], cc_project_instructions = None\<rparr> JustCommand) = Some reply"
proof -
  let ?ctx = "\<lparr>cc_turns = [], cc_project_instructions = None\<rparr>"
  have "llm_classify tiny (\<lambda>_. None) yes_model ''web_fetch'' (WebFetch ''x'') None ?ctx = VAllow"
    by code_simp
  moreover have "classify_sync tiny ''web_fetch'' (WebFetch ''x'') None ?ctx \<noteq> VAllow" by code_simp
  moreover have "prompt_type yes_model = JustCommand" by (simp add: yes_model_def)
  ultimately show ?thesis using llm_allow_is_explicit by metis
qed

section \<open>The detail of an MCP call\<close>

lemma takeWhile_drop_stop: "takeWhile P (drop (length (takeWhile P xs)) xs) = []"
  by (induction xs) auto

lemma takeWhile_take_Nil: "takeWhile P xs = [] \<Longrightarrow> takeWhile P (take n xs) = []"
  by (cases xs; cases n) (auto split: if_split_asm)

lemma char_indices_cut:
  "get_at (char_indices base s) k = Some (i, n) \<Longrightarrow>
   base \<le> i \<and> length (char_indices base (take (i - base) s)) = k"
proof (induction base s arbitrary: k rule: char_indices.induct)
  case (1 base)
  then show ?case by (simp add: get_at_def)
next
  case (2 base c cs)
  let ?kk = "length (takeWhile utf8_cont cs)"
  show ?case
  proof (cases k)
    case 0
    then show ?thesis using "2.prems" by (simp add: get_at_def Let_def)
  next
    case (Suc k')
    then have g: "get_at (char_indices (base + Suc ?kk) (drop ?kk cs)) k' = Some (i, n)"
      using "2.prems" unfolding Suc by (simp add: get_at_def Let_def split: if_split_asm)
    note ih = "2.IH" [OF refl g]
    then have i: "base + Suc ?kk \<le> i" by simp
    have t: "take (i - base) (c # cs) = c # take (i - base - 1) cs"
      using i by (cases "i - base") auto
    have s: "take (i - base - 1) cs = takeWhile utf8_cont cs @ take (i - (base + Suc ?kk)) (drop ?kk cs)"
      using i take_add [of ?kk "i - (base + Suc ?kk)" cs] by (simp add: takeWhile_eq_take [symmetric])
    have "takeWhile utf8_cont (take (i - (base + Suc ?kk)) (drop ?kk cs)) = []"
      by (rule takeWhile_take_Nil [OF takeWhile_drop_stop])
    then have w: "length (takeWhile utf8_cont (take (i - base - 1) cs)) = ?kk"
      unfolding s by (subst takeWhile_append2) (auto dest: set_takeWhileD)
    have "drop ?kk (take (i - base - 1) cs) = take (i - (base + Suc ?kk)) (drop ?kk cs)"
      unfolding s by simp
    then show ?thesis using ih i t w Suc by (simp add: Let_def)
  qed
qed

lemma truncate_line_cases:
  "(char_count line \<le> m \<and> truncate_line line m = line) \<or>
   (\<exists>kept. prefix kept line \<and> char_count kept = m \<and> m < char_count line \<and>
     truncate_line line m = kept @ '' [... truncated ('' @ decimal (char_count line) @ '' chars total)]'')"
proof (cases "char_count line \<le> m")
  case True
  then show ?thesis by (simp add: truncate_line_def Let_def)
next
  case False
  then have l: "\<not> length line \<le> m" using char_count_le [of line] by linarith
  obtain i n where i: "get_at (char_indices 0 line) m = Some (i, n)"
    using False by (metis char_count_def get_at_None not_None_eq surj_pair)
  have "char_count (take i line) = m"
    using char_indices_cut [OF i] by (simp add: char_count_def)
  then show ?thesis
    using False l i unfolding truncate_line_def
    by (intro disjI2 exI [of _ "take i line"]) (simp add: Let_def take_is_prefix)
qed

text \<open>The detail of an MCP call shown to the classifier and uploaded is the call, name and
  arguments, when it has at most 1024 characters, else its first 1024 with a note of its size.\<close>

theorem mcp_detail_bounded:
  assumes "input \<noteq> JNull" "to_json_text input = Some compact"
  shows "(char_count (name @ '' '' @ compact) \<le> 1024 \<and>
      mcp_access_detail to_json_text name input = name @ '' '' @ compact) \<or>
    (\<exists>kept. prefix kept (name @ '' '' @ compact) \<and> char_count kept = 1024 \<and>
      1024 < char_count (name @ '' '' @ compact) \<and>
      mcp_access_detail to_json_text name input =
        kept @ '' [... truncated ('' @ decimal (char_count (name @ '' '' @ compact)) @ '' chars total)]'')"
proof -
  have m: "mcp_access_detail to_json_text name input = truncate_line (name @ '' '' @ compact) 1024"
    unfolding mcp_access_detail_def MCP_ACCESS_DETAIL_MAX_LEN_def using assms by (simp only: Let_def if_False option.case)
  show ?thesis unfolding m by (rule truncate_line_cases)
qed

theorem mcp_detail_bounded_witness:
  "mcp_access_detail (\<lambda>_. Some ''{}'') ''srv__tool'' (JObject []) = ''srv__tool {}''"
proof -
  have "char_count (''srv__tool'' @ '' '' @ ''{}'') = 12" by code_simp
  then show ?thesis
    using mcp_detail_bounded [of "JObject []" "\<lambda>_. Some ''{}''" "''{}''" "''srv__tool''"] by simp
qed

end
