(* ===== verification/Prompter.thy ===== *)
theory Prompter
  imports ClassifierSpec WebDomain
begin

text \<open>
  \<open>permission/prompter.rs\<close>: the options a client is offered for an access, the reading of its
  answer, and the display names of MCP tools.
\<close>

section \<open>Options\<close>

datatype option_kind = KAllowOnce | KAllowAlways | KRejectOnce | KRejectAlways | KUnknown

type_synonym meta = "(string \<times> json) list"

record permission_option =
  po_id :: string
  po_name :: string
  po_kind :: option_kind
  po_meta :: "meta option"

text \<open>An \<open>IndexMap\<close> from option ids, in insertion order; inserting an id again keeps its place.\<close>

type_synonym option_map = "(string \<times> permission_option) list"

fun im_insert :: "string \<Rightarrow> permission_option \<Rightarrow> option_map \<Rightarrow> option_map" where
  "im_insert k v [] = [(k, v)]"
| "im_insert k v (e # es) = (if fst e = k then (k, v) # es else e # im_insert k v es)"

definition shift_remove :: "string \<Rightarrow> option_map \<Rightarrow> option_map" where
  "shift_remove k es = filter (\<lambda>e. fst e \<noteq> k) es"

definition im_extend :: "option_map \<Rightarrow> option_map \<Rightarrow> option_map" where
  "im_extend es added = foldl (\<lambda>m e. im_insert (fst e) (snd e) m) es added"

definition option_new :: "string \<Rightarrow> string \<Rightarrow> option_kind \<Rightarrow> permission_option" where
  "option_new ident name k = \<lparr>po_id = ident, po_name = name, po_kind = k, po_meta = None\<rparr>"

definition option_map_of :: "permission_option list \<Rightarrow> option_map" where
  "option_map_of os = foldl (\<lambda>m opt. im_insert (po_id opt) opt m) [] os"

definition REJECT_ONCE_LABEL :: string where
  "REJECT_ONCE_LABEL = ''No, and tell Grok what to do differently''"

definition ALLOW_EDITS_SESSION_OPTION_ID :: string where
  "ALLOW_EDITS_SESSION_OPTION_ID = ''allow-edits-session''"

definition ENABLE_ALWAYS_APPROVE_OPTION_ID :: string where
  "ENABLE_ALWAYS_APPROVE_OPTION_ID = ''enable-always-approve''"

definition ENABLE_ALWAYS_APPROVE_LABEL :: string where
  "ENABLE_ALWAYS_APPROVE_LABEL =
     ''Yes, and don'' @ [CHR 0x27] @ ''t ask again for anything (always-approve mode)''"

definition enable_always_approve_option :: permission_option where
  "enable_always_approve_option =
     option_new ENABLE_ALWAYS_APPROVE_OPTION_ID ENABLE_ALWAYS_APPROVE_LABEL KAllowOnce"

definition is_enable_always_approve_option :: "permission_option \<Rightarrow> bool" where
  "is_enable_always_approve_option opt \<longleftrightarrow> po_id opt = ENABLE_ALWAYS_APPROVE_OPTION_ID"

fun client_supports_enable_always_approve :: "client_type \<Rightarrow> bool" where
  "client_supports_enable_always_approve GrokTUI = True"
| "client_supports_enable_always_approve GrokPager = True"
| "client_supports_enable_always_approve Desktop = True"
| "client_supports_enable_always_approve _ = False"

definition prepend_enable_always_approve :: "client_type \<Rightarrow> option_map \<Rightarrow> option_map" where
  "prepend_enable_always_approve client base =
     (if \<not> client_supports_enable_always_approve client then base
      else im_extend (option_map_of [enable_always_approve_option]) base)"

definition REMEMBER_TOOL_APPROVALS_GATED_IDS :: "string list" where
  "REMEMBER_TOOL_APPROVALS_GATED_IDS =
     [''allow-always-command'', ''reject-always-command'', ''allow-always-mcp'',
      ''allow-always-domain'', ''always-allow'', ''reject-always'']"

definition edit_options :: option_map where
  "edit_options = option_map_of
     [option_new ALLOW_EDITS_SESSION_OPTION_ID ''Yes, allow all edits during this session'' KAllowAlways,
      option_new ''allow-once'' ''Yes'' KAllowOnce,
      option_new ''reject-once'' REJECT_ONCE_LABEL KRejectOnce]"

definition bash_options :: option_map where
  "bash_options = option_map_of
     [option_new ''allow-once'' ''Yes, proceed'' KAllowOnce,
      option_new ''reject-once'' REJECT_ONCE_LABEL KRejectOnce]"

definition generic_bash_options :: option_map where
  "generic_bash_options = option_map_of
     [option_new ''always-allow'' (''Yes, and don'' @ [CHR 0x27] @ ''t ask again for bash commands'') KAllowAlways,
      option_new ''allow-once'' ''Yes, proceed'' KAllowOnce,
      option_new ''reject-once'' REJECT_ONCE_LABEL KRejectOnce,
      option_new ''reject-always'' (''No, and don'' @ [CHR 0x27] @ ''t run bash commands'') KRejectAlways]"

definition fallback_options :: option_map where
  "fallback_options = option_map_of
     [option_new ''always-allow'' ''always allow'' KAllowAlways,
      option_new ''allow-once'' ''allow once'' KAllowOnce,
      option_new ''reject-once'' ''reject once'' KRejectOnce]"

definition bash_scope_option :: "string \<Rightarrow> string \<Rightarrow> option_kind \<Rightarrow> highlights \<Rightarrow> permission_option" where
  "bash_scope_option ident pre k primary =
     (option_new ident (pre @ '' '' @ join_words (hl_words primary)) k)
       \<lparr>po_meta := Some [(''prompt_prefix'', JString pre)]\<rparr>"

definition mcp_option :: "string \<Rightarrow> permission_option" where
  "mcp_option tool_name =
     (option_new ''allow-always-mcp'' (''Always allow: '' @ tool_name) KAllowAlways)
       \<lparr>po_meta := Some [(''prompt_prefix'', JString ''Always allow:''), (''tool_name'', JString tool_name),
          (''server_prefix'', case split_once ''__'' tool_name of
             Some (s, _) \<Rightarrow> JString s | None \<Rightarrow> JNull)]\<rparr>"

definition build_options_inner :: "externals \<Rightarrow> client_type \<Rightarrow> access_kind \<Rightarrow> option_map" where
  "build_options_inner X client access =
     (case access of
        Edit _ \<Rightarrow> edit_options
      | Bash bash_command \<Rightarrow>
          (if client_supports_enable_always_approve client then
             (let primary_command = primary_command_from_script X bash_command;
                  scope = (\<lambda>ident pre k m. case primary_command of
                     Some primary \<Rightarrow> im_insert ident (bash_scope_option ident pre k primary) m
                   | None \<Rightarrow> m)
              in scope ''reject-always-command'' ''Never allow:'' KRejectAlways
                   (im_extend (scope ''allow-always-command'' ''Always allow:'' KAllowAlways []) bash_options))
           else generic_bash_options)
      | WebFetch u \<Rightarrow>
          (let domain = (case domain_from_url X u of Some d \<Rightarrow> d | None \<Rightarrow> ''unknown domain'')
           in option_map_of
                [option_new ''allow-always-domain'' (''Yes, always allow '' @ domain @ '' this session'') KAllowAlways,
                 option_new ''allow-once'' ''Yes, allow once'' KAllowOnce,
                 option_new ''reject-once'' REJECT_ONCE_LABEL KRejectOnce])
      | MCPTool tool_name _ \<Rightarrow>
          (if client_supports_enable_always_approve client then
             option_map_of
               [mcp_option tool_name,
                option_new ''allow-once'' ''Yes'' KAllowOnce,
                option_new ''reject-once'' REJECT_ONCE_LABEL KRejectOnce]
           else fallback_options)
      | _ \<Rightarrow> fallback_options)"

record prompter =
  pr_client_type :: client_type
  pr_remember_tool_approvals :: bool

definition build_options :: "externals \<Rightarrow> prompter \<Rightarrow> access_kind \<Rightarrow> option_map" where
  "build_options X p access =
     (let base = build_options_inner X (pr_client_type p) access;
          base' = (if \<not> pr_remember_tool_approvals p
                   then fold shift_remove REMEMBER_TOOL_APPROVALS_GATED_IDS base else base)
      in prepend_enable_always_approve (pr_client_type p) base')"

definition bash_selection_meta :: "externals \<Rightarrow> prompter \<Rightarrow> access_kind \<Rightarrow> meta option" where
  "bash_selection_meta X p access =
     (case access of
        Bash bash_command \<Rightarrow>
          (if pr_remember_tool_approvals p \<and> client_supports_enable_always_approve (pr_client_type p) then
             map_option (\<lambda>h. [(''prefix'', JArray (map JString (hl_prefix h))),
                              (''highlighted_words'', JArray (map JString (hl_words h))),
                              (''suffix'', JArray (map JString (hl_suffix h)))])
               (primary_command_from_script X bash_command)
           else None)
      | _ \<Rightarrow> None)"

section \<open>Answers\<close>

datatype prompt_outcome =
    AllowOnce
  | AllowAlways
  | AllowEditsForSession
  | AllowAlwaysBashCommand string
  | AllowAlwaysDomain string
  | AllowAlwaysMcpTool string
  | AllowAlwaysMcpServer string
  | RejectOnce
  | RejectAlwaysBashCommand string
  | OutcomeCancelled
  | OutcomeFollowup string
  | OutcomeError string

datatype mcp_scope_selection = ScopeTool string | ScopeServer string

fun json_as_str :: "json \<Rightarrow> string option" where
  "json_as_str (JString s) = Some s"
| "json_as_str _ = None"

definition meta_str :: "meta \<Rightarrow> string \<Rightarrow> string option" where
  "meta_str m k = Option.bind (map_of m k) json_as_str"

text \<open>\<open>serde_json::from_value\<close> at the two types a client may answer with.\<close>

definition decode_mcp_scope :: "meta \<Rightarrow> mcp_scope_selection option" where
  "decode_mcp_scope m =
     (if meta_str m ''kind'' = Some ''tool'' then map_option ScopeTool (meta_str m ''tool_name'')
      else if meta_str m ''kind'' = Some ''server'' then map_option ScopeServer (meta_str m ''server'')
      else None)"

fun all_strings :: "json list \<Rightarrow> string list option" where
  "all_strings [] = Some []"
| "all_strings (j # js) =
     (case (json_as_str j, all_strings js) of (Some s, Some ss) \<Rightarrow> Some (s # ss) | _ \<Rightarrow> None)"

definition decode_selected_terms :: "meta \<Rightarrow> string list option" where
  "decode_selected_terms m =
     (case map_of m ''command_parts'' of Some (JArray js) \<Rightarrow> all_strings js | _ \<Rightarrow> None)"

text \<open>The words of the always rows: the client's selection, else the primary command's.\<close>

definition selected_command :: "externals \<Rightarrow> meta option \<Rightarrow> access_kind \<Rightarrow> string option" where
  "selected_command X m access =
     (case Option.bind m decode_selected_terms of
        Some parts \<Rightarrow> Some (join_words parts)
      | None \<Rightarrow>
          (case access of
             Bash cmd \<Rightarrow> map_option (\<lambda>primary. join_words (hl_words primary)) (primary_command_from_script X cmd)
           | _ \<Rightarrow> None))"

definition mcp_scope_outcome :: "meta option \<Rightarrow> access_kind \<Rightarrow> prompt_outcome" where
  "mcp_scope_outcome m access =
     (let own_tool = (case access of MCPTool name _ \<Rightarrow> AllowAlwaysMcpTool name | _ \<Rightarrow> AllowAlways) in
      case Option.bind m decode_mcp_scope of
        Some (ScopeTool tool_name) \<Rightarrow> AllowAlwaysMcpTool tool_name
      | Some (ScopeServer server) \<Rightarrow> (if server = [] then own_tool else AllowAlwaysMcpServer server)
      | None \<Rightarrow> own_tool)"

definition map_option_kind ::
    "externals \<Rightarrow> option_kind \<Rightarrow> string \<Rightarrow> meta option \<Rightarrow> access_kind \<Rightarrow> prompt_outcome" where
  "map_option_kind X k option_id m access =
     (case k of
        KAllowOnce \<Rightarrow> AllowOnce
      | KAllowAlways \<Rightarrow>
          (if option_id = ENABLE_ALWAYS_APPROVE_OPTION_ID then AllowOnce
           else if option_id = ''allow-always-mcp'' then mcp_scope_outcome m access
           else if option_id = ''allow-always-domain'' then
             (case access of
                WebFetch u \<Rightarrow>
                  (case domain_from_url X u of
                     Some domain \<Rightarrow> if domain \<noteq> [] then AllowAlwaysDomain domain else AllowOnce
                   | None \<Rightarrow> AllowOnce)
              | _ \<Rightarrow> AllowOnce)
           else if option_id = ''allow-always-command'' then
             (case selected_command X m access of
                Some c \<Rightarrow> AllowAlwaysBashCommand c | None \<Rightarrow> AllowAlways)
           else if option_id = ALLOW_EDITS_SESSION_OPTION_ID then AllowEditsForSession
           else AllowAlways)
      | KRejectOnce \<Rightarrow>
          (case Option.bind m (\<lambda>m. meta_str m ''followup_message'') of
             Some followup \<Rightarrow> if trim followup \<noteq> [] then OutcomeFollowup followup else RejectOnce
           | None \<Rightarrow> RejectOnce)
      | KRejectAlways \<Rightarrow>
          (if option_id = ''reject-always-command'' then
             (case selected_command X m access of
                Some c \<Rightarrow> RejectAlwaysBashCommand c | None \<Rightarrow> RejectOnce)
           else RejectOnce)
      | KUnknown \<Rightarrow> OutcomeError ''unknown permission option kind'')"

definition map_selected_outcome ::
    "externals \<Rightarrow> option_map \<Rightarrow> string \<Rightarrow> meta option \<Rightarrow> access_kind \<Rightarrow> prompt_outcome" where
  "map_selected_outcome X permission_options option_id m access =
     (case map_of permission_options option_id of
        None \<Rightarrow> OutcomeError ''unknown permission option''
      | Some opt \<Rightarrow> map_option_kind X (po_kind opt) option_id m access)"

text \<open>What the gateway answers: an error, a cancellation, a selection with the response's meta, or an
  outcome this version does not know.\<close>

datatype gateway_reply =
    GatewayError
  | GatewayCancelled
  | GatewaySelected string "meta option"
  | GatewayUnknown

definition local_outcome :: "externals \<Rightarrow> prompter \<Rightarrow> access_kind \<Rightarrow> gateway_reply \<Rightarrow> prompt_outcome" where
  "local_outcome X p access reply =
     (case reply of
        GatewayError \<Rightarrow> OutcomeError ''failed to request permission''
      | GatewayCancelled \<Rightarrow> OutcomeCancelled
      | GatewaySelected option_id m \<Rightarrow>
          map_selected_outcome X (build_options X p access) option_id m access
      | GatewayUnknown \<Rightarrow> OutcomeError ''unknown permission outcome'')"

datatype logged_decision = LogAllow | LogDeny | LogCancelled | LogFollowup

fun permission_decision_for_outcome :: "prompt_outcome \<Rightarrow> logged_decision" where
  "permission_decision_for_outcome RejectOnce = LogDeny"
| "permission_decision_for_outcome (RejectAlwaysBashCommand _) = LogDeny"
| "permission_decision_for_outcome (OutcomeError _) = LogDeny"
| "permission_decision_for_outcome OutcomeCancelled = LogCancelled"
| "permission_decision_for_outcome (OutcomeFollowup _) = LogFollowup"
| "permission_decision_for_outcome _ = LogAllow"

section \<open>Display names\<close>

definition MCP_TOOL_NAME_DELIMITER :: string where
  "MCP_TOOL_NAME_DELIMITER = ''__''"

text \<open>The release build: without the \<open>debug_assert!\<close>.\<close>

definition mcp_tool_action :: "string \<Rightarrow> string option \<Rightarrow> string" where
  "mcp_tool_action tool_name server_prefix =
     (case server_prefix of
        None \<Rightarrow> tool_name
      | Some pre \<Rightarrow>
          (case Option.bind (strip_prefix tool_name pre) (\<lambda>rest. strip_prefix rest MCP_TOOL_NAME_DELIMITER) of
             Some action \<Rightarrow> action | None \<Rightarrow> tool_name))"

end
