(* ===== verification/PrompterSpec.thy ===== *)
theory PrompterSpec
  imports Prompter
begin

text \<open>
  What the prompter promises: which rows a client can choose from for an access, that the answer
  concerns that access, and that with the remember gate off no answer can leave a grant behind.
\<close>

section \<open>Option maps\<close>

lemma set_im_insert: "set (im_insert k v m) \<subseteq> insert (k, v) (set m)"
  by (induction m) auto

lemma map_of_im_insert: "map_of (im_insert k v m) = (map_of m)(k \<mapsto> v)"
  by (induction m) (auto simp: fun_eq_iff)

lemma set_im_extend: "set (im_extend m es) \<subseteq> set m \<union> set es"
  unfolding im_extend_def
proof (induction es arbitrary: m)
  case (Cons e es)
  then show ?case using Cons.IH [of "im_insert (fst e) (snd e) m"] set_im_insert [of "fst e" "snd e" m] by auto
qed simp

lemma set_option_map_of: "set (option_map_of os) \<subseteq> (\<lambda>opt. (po_id opt, opt)) ` set os"
proof -
  have "set (foldl (\<lambda>m opt. im_insert (po_id opt) opt m) m os) \<subseteq> set m \<union> (\<lambda>opt. (po_id opt, opt)) ` set os"
    for m
  proof (induction os arbitrary: m)
    case (Cons opt os)
    then show ?case using Cons.IH [of "im_insert (po_id opt) opt m"] set_im_insert [of "po_id opt" opt m] by auto
  qed simp
  from this [of "[]"] show ?thesis by (simp add: option_map_of_def)
qed

lemma set_fold_shift_remove: "set (fold shift_remove ks m) = {e \<in> set m. fst e \<notin> set ks}"
  by (induction ks arbitrary: m) (auto simp: shift_remove_def)

section \<open>The rows on offer\<close>

text \<open>The rows of an access, by id and kind.\<close>

definition common_rows :: "(string \<times> option_kind) set" where
  "common_rows = {(''allow-once'', KAllowOnce), (''reject-once'', KRejectOnce)}"

definition own_rows :: "access_kind \<Rightarrow> (string \<times> option_kind) set" where
  "own_rows access =
     (case access of
        Edit _ \<Rightarrow> {(ALLOW_EDITS_SESSION_OPTION_ID, KAllowAlways)}
      | Bash _ \<Rightarrow> {(''allow-always-command'', KAllowAlways), (''reject-always-command'', KRejectAlways),
                  (''always-allow'', KAllowAlways), (''reject-always'', KRejectAlways)}
      | WebFetch _ \<Rightarrow> {(''allow-always-domain'', KAllowAlways)}
      | MCPTool _ _ \<Rightarrow> {(''allow-always-mcp'', KAllowAlways), (''always-allow'', KAllowAlways)}
      | _ \<Rightarrow> {(''always-allow'', KAllowAlways)})"

definition row :: "string \<times> permission_option \<Rightarrow> string \<times> option_kind" where
  "row e = (fst e, po_kind (snd e))"

definition offered :: "access_kind \<Rightarrow> (string \<times> option_kind) set" where
  "offered access = insert (ENABLE_ALWAYS_APPROVE_OPTION_ID, KAllowOnce) (common_rows \<union> own_rows access)"

lemma rows_option_map: "row ` set (option_map_of os) \<subseteq> (\<lambda>opt. (po_id opt, po_kind opt)) ` set os"
  using set_option_map_of [of os] by (force simp: row_def)

lemma rows_fixed:
  "row ` set edit_options \<subseteq> common_rows \<union> own_rows (Edit f)"
  "row ` set bash_options \<subseteq> common_rows"
  "row ` set generic_bash_options \<subseteq> common_rows \<union> own_rows (Bash c)"
  "row ` set fallback_options \<subseteq> common_rows \<union> {(''always-allow'', KAllowAlways)}"
  unfolding edit_options_def bash_options_def generic_bash_options_def fallback_options_def
  by (rule order_trans [OF rows_option_map],
      simp add: option_new_def common_rows_def own_rows_def)+

lemma rows_im_insert: "row ` set (im_insert k v m) \<subseteq> insert (k, po_kind v) (row ` set m)"
  using set_im_insert [of k v m] by (force simp: row_def)

lemma rows_im_extend: "row ` set (im_extend m es) \<subseteq> row ` set m \<union> row ` set es"
  using set_im_extend [of m es] by blast

lemma rows_insert_into: "row ` set m \<subseteq> S \<Longrightarrow> row ` set (im_insert k v m) \<subseteq> insert (k, po_kind v) S"
  by (rule order_trans [OF rows_im_insert]) (rule insert_mono)

lemma rows_extend_into:
  "row ` set m \<subseteq> S \<Longrightarrow> row ` set es \<subseteq> T \<Longrightarrow> row ` set (im_extend m es) \<subseteq> S \<union> T"
  by (rule order_trans [OF rows_im_extend]) (rule Un_mono)

lemma two_of_four: "insert a ({b} \<union> C) \<subseteq> C \<union> {b, a, d, e}"
  by blast

lemma rows_bash:
  "row ` set (build_options_inner X client (Bash c)) \<subseteq> common_rows \<union> own_rows (Bash c)"
proof (cases "client_supports_enable_always_approve client")
  case True
  show ?thesis
  proof (cases "primary_command_from_script X c")
    case None
    then show ?thesis
      using True rows_im_extend [of "[]" bash_options] rows_fixed(2)
      by (auto simp: build_options_inner_def Let_def)
  next
    case (Some h)
    let ?a = "bash_scope_option ''allow-always-command'' ''Always allow:'' KAllowAlways h"
    let ?r = "bash_scope_option ''reject-always-command'' ''Never allow:'' KRejectAlways h"
    let ?m = "im_extend (im_insert ''allow-always-command'' ?a []) bash_options"
    have k: "po_kind ?a = KAllowAlways" "po_kind ?r = KRejectAlways"
      by (simp_all add: bash_scope_option_def option_new_def)
    have o: "build_options_inner X client (Bash c) = im_insert ''reject-always-command'' ?r ?m"
      using True Some by (simp add: build_options_inner_def Let_def)
    have "row ` set ?m \<subseteq> {(''allow-always-command'', po_kind ?a)} \<union> common_rows"
      by (intro rows_extend_into rows_insert_into rows_fixed(2)) simp
    then have "row ` set (im_insert ''reject-always-command'' ?r ?m) \<subseteq>
        insert (''reject-always-command'', po_kind ?r) ({(''allow-always-command'', po_kind ?a)} \<union> common_rows)"
      by (rule rows_insert_into)
    also have "\<dots> \<subseteq> common_rows \<union> own_rows (Bash c)"
      unfolding k own_rows_def access_kind.case by (rule two_of_four)
    finally show ?thesis unfolding o .
  qed
qed (use rows_fixed(3) in \<open>auto simp: build_options_inner_def\<close>)

lemma rows_inner: "row ` set (build_options_inner X client access) \<subseteq> common_rows \<union> own_rows access"
proof (cases access)
  case (Bash c)
  then show ?thesis using rows_bash by simp
next
  case (WebFetch u)
  show ?thesis unfolding WebFetch build_options_inner_def access_kind.case Let_def
    by (rule order_trans [OF rows_option_map]) (simp add: option_new_def common_rows_def own_rows_def)
next
  case (MCPTool n i)
  have "row ` set (option_map_of [mcp_option n, option_new ''allow-once'' ''Yes'' KAllowOnce,
      option_new ''reject-once'' REJECT_ONCE_LABEL KRejectOnce]) \<subseteq> common_rows \<union> own_rows access"
    by (rule order_trans [OF rows_option_map])
      (simp add: MCPTool mcp_option_def option_new_def common_rows_def own_rows_def)
  then show ?thesis using rows_fixed(4)
    by (auto simp: MCPTool build_options_inner_def own_rows_def)
qed (use rows_fixed in \<open>auto simp: build_options_inner_def own_rows_def\<close>)

lemma rows_offered:
  assumes "map_of (build_options X p access) ident = Some opt"
  shows "(ident, po_kind opt) \<in> offered access \<and>
    (\<not> pr_remember_tool_approvals p \<longrightarrow> ident \<notin> set REMEMBER_TOOL_APPROVALS_GATED_IDS)"
proof -
  let ?base = "build_options_inner X (pr_client_type p) access"
  let ?b = "if \<not> pr_remember_tool_approvals p then fold shift_remove REMEMBER_TOOL_APPROVALS_GATED_IDS ?base else ?base"
  let ?e = "option_map_of [enable_always_approve_option]"
  have e: "set ?e = {(ENABLE_ALWAYS_APPROVE_OPTION_ID, enable_always_approve_option)}"
    by (simp add: option_map_of_def enable_always_approve_option_def option_new_def)
  have "(ident, opt) \<in> set (build_options X p access)" using assms by (rule map_of_SomeD)
  then have "(ident, opt) \<in> set ?e \<or> (ident, opt) \<in> set ?b"
    using set_im_extend [of ?e ?b] unfolding build_options_def prepend_enable_always_approve_def Let_def
    by (auto split: if_split_asm)
  then show ?thesis
  proof
    assume "(ident, opt) \<in> set ?e"
    then have "ident = ENABLE_ALWAYS_APPROVE_OPTION_ID" "po_kind opt = KAllowOnce"
      unfolding e by (simp_all add: enable_always_approve_option_def option_new_def)
    moreover have "ENABLE_ALWAYS_APPROVE_OPTION_ID \<notin> set REMEMBER_TOOL_APPROVALS_GATED_IDS" by code_simp
    ultimately show ?thesis by (simp add: offered_def)
  next
    assume b: "(ident, opt) \<in> set ?b"
    then have "(ident, opt) \<in> set ?base" by (simp add: set_fold_shift_remove split: if_split_asm)
    then have "row (ident, opt) \<in> common_rows \<union> own_rows access" using rows_inner by blast
    then show ?thesis using b by (auto simp: offered_def row_def set_fold_shift_remove)
  qed
qed

section \<open>Answers concern the access\<close>

text \<open>The outcomes that leave no grant and no exclusion on disk.\<close>

fun transient :: "prompt_outcome \<Rightarrow> bool" where
  "transient AllowOnce = True"
| "transient AllowEditsForSession = True"
| "transient RejectOnce = True"
| "transient OutcomeCancelled = True"
| "transient (OutcomeFollowup _) = True"
| "transient (OutcomeError _) = True"
| "transient _ = False"

text \<open>The outcomes an access may have.\<close>

fun outcome_fits :: "externals \<Rightarrow> access_kind \<Rightarrow> prompt_outcome \<Rightarrow> bool" where
  "outcome_fits X (Edit _) AllowAlways = False"
| "outcome_fits X access AllowEditsForSession = (case access of Edit _ \<Rightarrow> True | _ \<Rightarrow> False)"
| "outcome_fits X access (AllowAlwaysBashCommand _) = is_bash_access access"
| "outcome_fits X access (RejectAlwaysBashCommand _) = is_bash_access access"
| "outcome_fits X access (AllowAlwaysDomain d) =
     (case access of WebFetch u \<Rightarrow> d \<noteq> [] \<and> domain_from_url X u = Some d | _ \<Rightarrow> False)"
| "outcome_fits X access (AllowAlwaysMcpTool _) = (case access of MCPTool _ _ \<Rightarrow> True | _ \<Rightarrow> False)"
| "outcome_fits X access (AllowAlwaysMcpServer s) = (case access of MCPTool _ _ \<Rightarrow> s \<noteq> [] | _ \<Rightarrow> False)"
| "outcome_fits X access _ = True"

lemma row_outcomes:
  "transient (map_option_kind X KAllowOnce i m access)"
  "transient (map_option_kind X KRejectOnce i m access)"
  "outcome_fits X access (map_option_kind X KAllowOnce i m access)"
  "outcome_fits X access (map_option_kind X KRejectOnce i m access)"
  by (cases access; simp add: map_option_kind_def split: option.splits)+

lemma plain_always:
  assumes "i \<notin> {ENABLE_ALWAYS_APPROVE_OPTION_ID, ''allow-always-mcp'', ''allow-always-domain'',
    ''allow-always-command'', ALLOW_EDITS_SESSION_OPTION_ID}"
  shows "map_option_kind X KAllowAlways i m access = AllowAlways"
  using assms by (simp add: map_option_kind_def)

lemma always_ids:
  "''always-allow'' \<notin> {ENABLE_ALWAYS_APPROVE_OPTION_ID, ''allow-always-mcp'', ''allow-always-domain'',
    ''allow-always-command'', ALLOW_EDITS_SESSION_OPTION_ID}"
  "''allow-always-command'' \<notin> {ENABLE_ALWAYS_APPROVE_OPTION_ID, ''allow-always-mcp'', ''allow-always-domain''}"
  "''allow-always-domain'' \<notin> {ENABLE_ALWAYS_APPROVE_OPTION_ID, ''allow-always-mcp''}"
  "''allow-always-mcp'' \<notin> {ENABLE_ALWAYS_APPROVE_OPTION_ID}"
  "ALLOW_EDITS_SESSION_OPTION_ID \<notin> {ENABLE_ALWAYS_APPROVE_OPTION_ID, ''allow-always-mcp'',
    ''allow-always-domain'', ''allow-always-command''}"
  by code_simp+

lemma edits_session_row:
  "map_option_kind X KAllowAlways ALLOW_EDITS_SESSION_OPTION_ID m access = AllowEditsForSession"
  using always_ids(5) by (simp add: map_option_kind_def)

lemma domain_row:
  "map_option_kind X KAllowAlways ''allow-always-domain'' m (WebFetch u) =
   (case domain_from_url X u of Some d \<Rightarrow> if d \<noteq> [] then AllowAlwaysDomain d else AllowOnce | None \<Rightarrow> AllowOnce)"
  using always_ids(3) by (simp add: map_option_kind_def)

lemma command_row:
  "map_option_kind X KAllowAlways ''allow-always-command'' m access =
   (case selected_command X m access of Some c \<Rightarrow> AllowAlwaysBashCommand c | None \<Rightarrow> AllowAlways)"
  using always_ids(2) by (simp add: map_option_kind_def)

lemma mcp_row: "map_option_kind X KAllowAlways ''allow-always-mcp'' m access = mcp_scope_outcome m access"
  using always_ids(4) by (simp add: map_option_kind_def)

lemma reject_always_fits: "outcome_fits X (Bash c) (map_option_kind X KRejectAlways i m (Bash c))"
  by (simp add: map_option_kind_def split: option.splits)

lemmas own_row_outcomes = edits_session_row domain_row command_row mcp_row plain_always [OF always_ids(1)]

lemma own_rows_fit:
  assumes "(i, k) \<in> own_rows access"
  shows "outcome_fits X access (map_option_kind X k i m access)"
proof (cases access)
  case (Edit f)
  then have "i = ALLOW_EDITS_SESSION_OPTION_ID" "k = KAllowAlways" using assms by (auto simp: own_rows_def)
  then show ?thesis by (simp add: edits_session_row Edit)
next
  case (Bash c)
  then consider "k = KRejectAlways" | "k = KAllowAlways" "i = ''allow-always-command''"
    | "k = KAllowAlways" "i = ''always-allow''"
    using assms unfolding own_rows_def Bash access_kind.case by blast
  then show ?thesis
    by cases (auto simp: Bash reject_always_fits own_row_outcomes split: option.splits)
next
  case (WebFetch u)
  then have "i = ''allow-always-domain''" "k = KAllowAlways" using assms by (auto simp: own_rows_def)
  then show ?thesis by (auto simp: WebFetch domain_row split: option.splits)
next
  case (MCPTool n j)
  then consider "k = KAllowAlways" "i = ''allow-always-mcp''" | "k = KAllowAlways" "i = ''always-allow''"
    using assms unfolding own_rows_def MCPTool access_kind.case by blast
  then show ?thesis
    by cases (auto simp: MCPTool own_row_outcomes mcp_scope_outcome_def Let_def
        split: option.splits mcp_scope_selection.splits)
qed (use assms in \<open>auto simp: own_rows_def own_row_outcomes\<close>)

lemma own_rows_gated:
  "(i, k) \<in> own_rows access \<Longrightarrow>
   i \<in> set REMEMBER_TOOL_APPROVALS_GATED_IDS \<or> (i = ALLOW_EDITS_SESSION_OPTION_ID \<and> k = KAllowAlways)"
  by (cases access) (auto simp: own_rows_def REMEMBER_TOOL_APPROVALS_GATED_IDS_def)

lemma offered_outcome:
  assumes "map_of (build_options X p access) i = Some opt"
  shows "(po_kind opt \<in> {KAllowOnce, KRejectOnce}) \<or> (i, po_kind opt) \<in> own_rows access"
  using rows_offered [OF assms] unfolding offered_def common_rows_def by blast

text \<open>An answer concerns the access it answers: whatever a client replies, a bash prefix comes only
  of a bash prompt, an MCP grant of an MCP prompt, the session-wide edit grant of an edit prompt,
  and a domain grant is for the domain of the very URL that was asked about.\<close>

theorem answers_fit_access:
  "outcome_fits X access (local_outcome X p access reply)"
proof (cases reply)
  case (GatewaySelected i m)
  show ?thesis
  proof (cases "map_of (build_options X p access) i")
    case None
    then show ?thesis by (cases access) (simp_all add: local_outcome_def GatewaySelected map_selected_outcome_def)
  next
    case (Some opt)
    then show ?thesis
      using offered_outcome [OF Some] own_rows_fit row_outcomes(3,4)
      by (auto simp: local_outcome_def GatewaySelected map_selected_outcome_def)
  qed
qed (cases access; simp add: local_outcome_def)+

text \<open>With the remember gate off every answer is transient, whatever option id and meta the client
  sends.\<close>

lemma gate_off_transient:
  assumes "\<not> pr_remember_tool_approvals p"
  shows "transient (local_outcome X p access reply)"
proof (cases reply)
  case (GatewaySelected i m)
  show ?thesis
  proof (cases "map_of (build_options X p access) i")
    case (Some opt)
    note o = offered_outcome [OF Some]
    have g: "i \<notin> set REMEMBER_TOOL_APPROVALS_GATED_IDS" using rows_offered [OF Some] assms by blast
    have "transient (map_option_kind X (po_kind opt) i m access)"
    proof (cases "po_kind opt \<in> {KAllowOnce, KRejectOnce}")
      case False
      then have own: "(i, po_kind opt) \<in> own_rows access" using o by blast
      have "i = ALLOW_EDITS_SESSION_OPTION_ID \<and> po_kind opt = KAllowAlways"
        using own_rows_gated [OF own] g by blast
      then show ?thesis by (simp add: edits_session_row)
    qed (use row_outcomes(1,2) in auto)
    then show ?thesis by (simp add: local_outcome_def GatewaySelected map_selected_outcome_def Some)
  qed (simp add: local_outcome_def GatewaySelected map_selected_outcome_def)
qed (simp_all add: local_outcome_def)

end
