(* ===== verification/HubPermission.thy ===== *)
theory HubPermission
  imports PrompterSpec
begin

text \<open>
  \<open>permission/hub_permission.rs\<close>: the permission request sent to chat over the hub, the reading of
  the reply, and the accesses of the tools served by the hub.  The transport is a parameter: it
  returns the reply or an error.  JSON objects are maps; the order of their members is immaterial.
\<close>

section \<open>The request\<close>

definition hitl_permission_live_enabled :: "string option \<Rightarrow> bool" where
  "hitl_permission_live_enabled env_value =
     (case env_value of
        Some v \<Rightarrow> ascii_lower (trim v) \<in> {''1'', ''true'', ''yes'', ''on''}
      | None \<Rightarrow> False)"

fun scope_for_access :: "access_kind \<Rightarrow> string" where
  "scope_for_access (Bash _) = ''write''"
| "scope_for_access (Edit _) = ''write''"
| "scope_for_access (MCPTool _ _) = ''write''"
| "scope_for_access (Read _) = ''read''"
| "scope_for_access (Grep _ _) = ''read''"
| "scope_for_access (WebFetch _) = ''read''"
| "scope_for_access (WebSearch _) = ''read''"

fun describe_access :: "access_kind \<Rightarrow> string" where
  "describe_access (Bash _) = ''Run a terminal command''"
| "describe_access (Edit path) = ''Edit '' @ path"
| "describe_access (MCPTool name _) = ''Run MCP tool '' @ name"
| "describe_access (WebFetch u) = ''Fetch '' @ u"
| "describe_access (WebSearch query) = ''Search the web for '' @ query"
| "describe_access (Read _) = ''Read a file''"
| "describe_access (Grep _ _) = ''Search file contents''"

definition build_permission_payload :: "access_kind \<Rightarrow> string \<Rightarrow> json" where
  "build_permission_payload access tool_call_id =
     JObject ([(''tool_call_id'', JString tool_call_id),
               (''tool_name'', JString (tool_name_for_access access)),
               (''description'', JString (describe_access access)),
               (''scope'', JString (scope_for_access access))] @
       (case access of
          Bash command \<Rightarrow> [(''bash_command'', JString command)]
        | Edit path \<Rightarrow> [(''edit_file_paths'', JArray [JString path])]
        | _ \<Rightarrow> []))"

section \<open>The reply\<close>

text \<open>The outcome by name, or by its number on the wire.\<close>

definition reply_outcome_name :: "json \<Rightarrow> string" where
  "reply_outcome_name reply =
     (case json_get reply ''outcome'' of
        Some (JString s) \<Rightarrow> s
      | Some (JNumber n) \<Rightarrow>
          (if n = ''1'' then ''approve''
           else if n = ''2'' then ''reject''
           else if n = ''3'' then ''always_approve''
           else if n = ''4'' then ''always_reject''
           else [])
      | _ \<Rightarrow> [])"

definition scope_kind_value :: "json \<Rightarrow> (string \<times> string option) option" where
  "scope_kind_value reply =
     (case json_get reply ''scope'' of
        None \<Rightarrow> None
      | Some scope \<Rightarrow>
          (case Option.bind (json_get scope ''kind'') json_as_str of
             None \<Rightarrow> None
           | Some k \<Rightarrow> Some (k, Option.bind (json_get scope ''value'') json_as_str)))"

definition reply_followup :: "json \<Rightarrow> string option" where
  "reply_followup reply =
     opt_filter (\<lambda>s. s \<noteq> []) (Option.bind (json_get reply ''followup_message'') json_as_str)"

definition always_approve_outcome :: "json \<Rightarrow> prompt_outcome" where
  "always_approve_outcome reply =
     (case scope_kind_value reply of
        Some (k, Some v) \<Rightarrow>
          (if k = ''bash_command'' then AllowAlwaysBashCommand v
           else if k = ''server_prefix'' then AllowAlwaysMcpServer v
           else if k = ''domain'' then AllowAlwaysDomain v
           else AllowAlways)
      | _ \<Rightarrow> AllowAlways)"

definition always_reject_outcome :: "json \<Rightarrow> prompt_outcome" where
  "always_reject_outcome reply =
     (case scope_kind_value reply of
        Some (k, Some v) \<Rightarrow> (if k = ''bash_command'' then RejectAlwaysBashCommand v else RejectOnce)
      | _ \<Rightarrow> RejectOnce)"

definition reply_to_outcome :: "json \<Rightarrow> prompt_outcome" where
  "reply_to_outcome reply =
     (let outcome = reply_outcome_name reply in
      if outcome = ''approve'' then AllowOnce
      else if outcome = ''always_approve'' then always_approve_outcome reply
      else if outcome = ''reject'' then
        (case reply_followup reply of Some message \<Rightarrow> OutcomeFollowup message | None \<Rightarrow> RejectOnce)
      else if outcome = ''always_reject'' then always_reject_outcome reply
      else if outcome = ''cancelled'' then OutcomeCancelled
      else RejectOnce)"

definition request_permission_via_hub ::
    "(json \<Rightarrow> string + json) \<Rightarrow> access_kind \<Rightarrow> string \<Rightarrow> prompt_outcome" where
  "request_permission_via_hub transport access tool_call_id =
     (case transport (build_permission_payload access tool_call_id) of
        Inr reply \<Rightarrow>
          (case (reply_to_outcome reply, access) of
             (AllowAlways, Edit _) \<Rightarrow> AllowEditsForSession
           | (other, _) \<Rightarrow> other)
      | Inl e \<Rightarrow> OutcomeError (''hub permission request failed: '' @ e))"

fun prompt_outcome_allows :: "prompt_outcome \<Rightarrow> bool" where
  "prompt_outcome_allows AllowOnce = True"
| "prompt_outcome_allows AllowAlways = True"
| "prompt_outcome_allows AllowEditsForSession = True"
| "prompt_outcome_allows (AllowAlwaysBashCommand _) = True"
| "prompt_outcome_allows (AllowAlwaysDomain _) = True"
| "prompt_outcome_allows (AllowAlwaysMcpTool _) = True"
| "prompt_outcome_allows (AllowAlwaysMcpServer _) = True"
| "prompt_outcome_allows _ = False"

section \<open>Tools served by the hub\<close>

text \<open>\<open>args.get(a).or_else(|| args.get(b)).and_then(as_str).unwrap_or(d)\<close>.\<close>

definition hub_arg_text :: "json \<Rightarrow> string \<Rightarrow> string option \<Rightarrow> string \<Rightarrow> string" where
  "hub_arg_text args a b d =
     (case Option.bind (opt_or (json_get args a) (Option.bind b (json_get args))) json_as_str of
        Some s \<Rightarrow> s | None \<Rightarrow> d)"

definition hub_tool_name :: "string \<Rightarrow> string" where
  "hub_tool_name tool_name =
     (let name = last_segment (\<lambda>c. c = CHR '':'') tool_name in
      case strip_prefix name ''GrokBuild:'' of Some n \<Rightarrow> n | None \<Rightarrow> name)"

definition access_kind_for_hub_tool :: "string \<Rightarrow> json \<Rightarrow> access_kind option" where
  "access_kind_for_hub_tool tool_name args =
     (let name = hub_tool_name tool_name in
      if name \<in> {''run_terminal_command'', ''run_terminal_cmd'', ''bash'', ''shell''} then
        Some (Bash (hub_arg_text args ''command'' (Some ''full_command'') []))
      else if name \<in> {''search_replace'', ''hashline_edit''} then
        Some (Edit (hub_arg_text args ''file_path'' (Some ''path'') ''unknown''))
      else if name \<in> {''write'', ''write_file''} then
        Some (Edit (hub_arg_text args ''file_path'' (Some ''path'') ''unknown''))
      else if name = ''apply_patch'' then Some (Edit ''apply_patch'')
      else if name = ''web_fetch'' then Some (WebFetch (hub_arg_text args ''url'' None []))
      else if contains_str name ''__'' \<or> starts_with name ''mcp'' then Some (MCPTool tool_name args)
      else None)"

section \<open>Properties\<close>

text \<open>Chat's reply fails closed: a call proceeds exactly when a reply arrived and names an approval,
  by word or number; a transport error, a missing or unknown outcome or any other number rejects.\<close>

theorem hub_allows_only_approvals:
  "prompt_outcome_allows (request_permission_via_hub transport access tcid) \<longleftrightarrow>
   (\<exists>reply. transport (build_permission_payload access tcid) = Inr reply \<and>
     json_get reply ''outcome'' \<in> {Some (JString ''approve''), Some (JString ''always_approve''),
       Some (JNumber ''1''), Some (JNumber ''3'')})"
proof (cases "transport (build_permission_payload access tcid)")
  case (Inl e)
  then show ?thesis by (simp add: request_permission_via_hub_def)
next
  case (Inr reply)
  have a: "prompt_outcome_allows (always_approve_outcome reply)"
    by (simp add: always_approve_outcome_def split: option.splits)
  have r: "\<not> prompt_outcome_allows (always_reject_outcome reply)"
    by (simp add: always_reject_outcome_def split: option.splits)
  have name: "prompt_outcome_allows (reply_to_outcome reply) \<longleftrightarrow>
      reply_outcome_name reply \<in> {''approve'', ''always_approve''}"
    using a r unfolding reply_to_outcome_def Let_def by (auto split: option.splits)
  have outc: "reply_outcome_name reply \<in> {''approve'', ''always_approve''} \<longleftrightarrow>
      json_get reply ''outcome'' \<in> {Some (JString ''approve''), Some (JString ''always_approve''),
        Some (JNumber ''1''), Some (JNumber ''3'')}"
    by (cases "json_get reply ''outcome''"; simp add: reply_outcome_name_def; rename_tac v; case_tac v; simp)
  have "prompt_outcome_allows (request_permission_via_hub transport access tcid) =
      prompt_outcome_allows (reply_to_outcome reply)"
    by (simp add: request_permission_via_hub_def Inr split: prompt_outcome.splits access_kind.splits)
  then show ?thesis using name outc Inr by simp
qed

text \<open>Any access may get a domain or server grant from the hub: the reply is not held against it.\<close>

lemma hub_domain_unchecked:
  "request_permission_via_hub (\<lambda>_. Inr (JObject [(''outcome'', JString ''always_approve''),
     (''scope'', JObject [(''kind'', JString ''domain''), (''value'', JString ''evil.example'')])]))
     (WebFetch ''https://good.example/'') tcid = AllowAlwaysDomain ''evil.example''"
  by (simp add: request_permission_via_hub_def reply_to_outcome_def reply_outcome_name_def
      always_approve_outcome_def scope_kind_value_def)

text \<open>A hub tool is gated by its name in whatever namespace it is served: the namespace never turns
  a guarded tool into an unguarded one, and only an MCP access keeps it.\<close>

theorem hub_namespace_irrelevant:
  assumes "CHR '':'' \<notin> set name"
  shows "access_kind_for_hub_tool (ns @ '':'' @ name) args =
    map_option (\<lambda>a. case a of MCPTool _ i \<Rightarrow> MCPTool (ns @ '':'' @ name) i | a \<Rightarrow> a)
      (access_kind_for_hub_tool name args)"
proof -
  have "last_segment (\<lambda>c. c = CHR '':'') (ns @ CHR '':'' # name) = last_segment (\<lambda>c. c = CHR '':'') name"
    by (rule last_segment_append) simp
  then have n: "hub_tool_name (ns @ '':'' @ name) = hub_tool_name name"
    by (simp add: hub_tool_name_def)
  show ?thesis
    unfolding access_kind_for_hub_tool_def Let_def n if_distrib [of "map_option _"] option.map access_kind.case ..
qed

theorem hub_namespace_irrelevant_witness:
  "access_kind_for_hub_tool ''GrokBuild:bash'' (JObject [(''command'', JString ''ls'')]) = Some (Bash ''ls'')"
proof -
  have "access_kind_for_hub_tool ''bash'' (JObject [(''command'', JString ''ls'')]) = Some (Bash ''ls'')"
    by code_simp
  then show ?thesis
    using hub_namespace_irrelevant [of "''bash''" "''GrokBuild''" "JObject [(''command'', JString ''ls'')]"] by simp
qed

end
