(* ===== verification/PermManager.thy ===== *)
theory PermManager
  imports HubPermission
begin

text \<open>
  The permission actor of \<open>permission/manager.rs\<close>: its state, its commands, and the whole handler of a
  request, from the managed policy over the grants, auto mode, the sandbox and the built-in rules
  to the prompt and what its answer leaves behind.

  The handler's surroundings at the time of a request are arguments: the externals, the URL parser,
  \<open>serde_json\<close>, whether the process sandbox auto-allows bash, and the answer of the prompter.  Ids,
  time stamps and queue depths of the telemetry event are left out.
\<close>

section \<open>State\<close>

text \<open>What the actor is spawned with.\<close>

record manager_config =
  mc_policy :: "compiled_policy option"
  mc_prompt_policy :: prompt_policy
  mc_cwd :: string
  mc_static_domains :: domain_matcher
  mc_yolo_pin :: "string option"
  mc_client :: "string option"
  mc_remember :: bool

record actor =
  ac_state :: permission_state
  ac_disk :: state_dir
  ac_yolo_mode :: bool
  ac_auto_mode :: bool
  ac_classifier :: "classifier option"
  ac_turns :: "classifier_turn list"
  ac_instructions :: "string option"
  ac_pin_refusal_logged :: bool
  ac_allow_edits :: bool

record surroundings =
  su_externals :: externals
  su_parse_url :: url_parser
  su_to_json_text :: "json \<Rightarrow> string option"
  su_of_json_text :: "string \<Rightarrow> json option"
  su_sandbox_allows_bash :: bool

definition seed_auto :: "bool \<Rightarrow> permission_config option \<Rightarrow> bool" where
  "seed_auto initial_yolo config \<longleftrightarrow>
     \<not> initial_yolo \<and> (case config of Some c \<Rightarrow> config_prompt_policy c = PromptAuto | None \<Rightarrow> False)"

definition config_of ::
    "externals \<Rightarrow> permission_config option \<Rightarrow> string \<Rightarrow> string list \<Rightarrow> string option \<Rightarrow> string option \<Rightarrow> bool \<Rightarrow>
     manager_config" where
  "config_of X config cwd allowed_domains yolo_pin client remember =
     \<lparr>mc_policy = map_option (policy_new X) config,
      mc_prompt_policy = (case config of Some c \<Rightarrow> config_prompt_policy c | None \<Rightarrow> PromptAsk),
      mc_cwd = cwd, mc_static_domains = matcher_new X allowed_domains, mc_yolo_pin = yolo_pin,
      mc_client = client, mc_remember = remember\<rparr>"

text \<open>The start of the actor: the loaded state, with a persisted \<open>edit_policy = allow\<close> migrated.\<close>

definition persist :: "manager_config \<Rightarrow> actor \<Rightarrow> actor" where
  "persist cfg ac = ac\<lparr>ac_disk := persist_state_to_dir (ac_state ac) (mc_client cfg) (ac_disk ac)\<rparr>"

definition migrate_edit_policy :: "manager_config \<Rightarrow> actor \<Rightarrow> actor" where
  "migrate_edit_policy cfg ac =
     (if st_edit_policy (ac_state ac) = EditAllow
      then persist cfg (ac\<lparr>ac_state := (ac_state ac)\<lparr>st_edit_policy := EditAsk\<rparr>\<rparr>)
      else ac)"

definition spawn :: "manager_config \<Rightarrow> permission_config option \<Rightarrow> bool \<Rightarrow> state_dir \<Rightarrow> actor" where
  "spawn cfg config requested_yolo disk =
     (let initial_yolo = clamp_yolo requested_yolo (mc_yolo_pin cfg) in
      migrate_edit_policy cfg
        \<lparr>ac_state = load_state_from_dir disk (mc_client cfg), ac_disk = disk,
         ac_yolo_mode = initial_yolo, ac_auto_mode = seed_auto initial_yolo config,
         ac_classifier = Some default_auto_mode_classifier, ac_turns = [], ac_instructions = None,
         ac_pin_refusal_logged = False, ac_allow_edits = False\<rparr>)"

section \<open>Mode commands\<close>

definition set_yolo_mode :: "manager_config \<Rightarrow> bool \<Rightarrow> actor \<Rightarrow> actor" where
  "set_yolo_mode cfg enabled ac =
     (let clamped = clamp_yolo enabled (mc_yolo_pin cfg);
          ac = ac\<lparr>ac_pin_refusal_logged := ac_pin_refusal_logged ac \<or> (enabled \<and> \<not> clamped),
                  ac_yolo_mode := clamped\<rparr>
      in if clamped then ac\<lparr>ac_auto_mode := False\<rparr> else ac)"

definition set_auto_mode :: "bool \<Rightarrow> actor \<Rightarrow> actor" where
  "set_auto_mode enabled ac =
     (let ac = ac\<lparr>ac_auto_mode := enabled\<rparr> in
      if enabled then
        ac\<lparr>ac_yolo_mode := False,
           ac_classifier := (case ac_classifier ac of None \<Rightarrow> Some default_auto_mode_classifier | c \<Rightarrow> c)\<rparr>
      else ac)"

definition reset_state :: "manager_config \<Rightarrow> actor \<Rightarrow> actor" where
  "reset_state cfg ac = (persist cfg (ac\<lparr>ac_state := default_state\<rparr>))\<lparr>ac_allow_edits := False\<rparr>"

section \<open>Policy\<close>

record policy_verdict =
  pv_decision :: "decision option"
  pv_shell_file_forced :: bool
  pv_shell_forced :: bool

definition shell_verdict ::
    "manager_config \<Rightarrow> (compiled_policy \<Rightarrow> string \<Rightarrow> decision option) \<Rightarrow> access_kind \<Rightarrow> decision option" where
  "shell_verdict cfg gate access =
     (case (mc_policy cfg, access) of (Some p, Bash cmd) \<Rightarrow> gate p cmd | _ \<Rightarrow> None)"

definition policy_verdict :: "externals \<Rightarrow> manager_config \<Rightarrow> access_kind \<Rightarrow> policy_verdict" where
  "policy_verdict X cfg access =
     (let direct = Option.bind (mc_policy cfg) (\<lambda>p. evaluate X p access);
          shell_command = shell_verdict cfg (evaluate_bash_command_policy X) access;
          shell_file = shell_verdict cfg (\<lambda>p cmd. evaluate_shell_file_access X p cmd (mc_cwd cfg)) access;
          file_forced = (shell_file = Some Ask)
      in \<lparr>pv_decision = combine_decisions (combine_decisions direct shell_command) shell_file,
          pv_shell_file_forced = file_forced,
          pv_shell_forced = (file_forced \<or> shell_command = Some Ask)\<rparr>)"

definition pv_forced :: "policy_verdict \<Rightarrow> bool" where
  "pv_forced pv \<longleftrightarrow> pv_decision pv = Some Ask"

section \<open>Before the prompt\<close>

text \<open>The way a request leaves the part of the handler before the prompt: answered, with the event's
  \<open>auto_approved\<close> flag and reason, or on to the prompt with its trigger.\<close>

datatype pre_prompt = Answer decision bool reason | Prompt reason

text \<open>Auto mode answers, or records why it wants the user.\<close>

datatype auto_verdict = AutoAllowed reason | AutoForced reason | AutoSilent

definition access_detail :: "surroundings \<Rightarrow> access_kind \<Rightarrow> string option" where
  "access_detail su access =
     (case access of
        Read _ \<Rightarrow> None
      | Grep path _ \<Rightarrow> path
      | Edit path \<Rightarrow> Some path
      | Bash cmd \<Rightarrow> Some cmd
      | MCPTool name input \<Rightarrow> Some (mcp_access_detail (su_to_json_text su) name input)
      | WebFetch u \<Rightarrow> Some u
      | WebSearch query \<Rightarrow> Some query)"

definition classifier_verdict_for :: "surroundings \<Rightarrow> actor \<Rightarrow> access_kind \<Rightarrow> classifier_verdict" where
  "classifier_verdict_for su ac access =
     (case ac_classifier ac of
        Some clf \<Rightarrow>
          run_classifier (su_externals su) (su_of_json_text su) clf (tool_name_for_access access) access
            (access_detail su access)
            \<lparr>cc_turns = ac_turns ac, cc_project_instructions = ac_instructions ac\<rparr>
      | None \<Rightarrow> VUnavailable)"

definition auto_mode_verdict :: "surroundings \<Rightarrow> actor \<Rightarrow> access_kind \<Rightarrow> auto_verdict" where
  "auto_mode_verdict su ac access =
     (let tool_name = tool_name_for_access access;
          needs_user = access_requires_user_interaction tool_name access
      in case auto_mode_fast_path access tool_name needs_user of
           FastAllow \<Rightarrow> AutoAllowed R_AUTO_FAST_PATH
         | FastPromptUser \<Rightarrow> AutoForced R_NEEDS_USER
         | FastClassify \<Rightarrow>
             (if classifier_verdict_for su ac access = VAllow then AutoAllowed R_AUTO_CLASSIFIER_ALLOW
              else AutoForced R_AUTO_CLASSIFIER_BLOCK))"

text \<open>The built-in rule of each kind of access.\<close>

definition edit_pre_decision :: "actor \<Rightarrow> (decision \<times> reason) option" where
  "edit_pre_decision ac =
     (if ac_allow_edits ac then Some (Allow, R_PERSISTED_GRANT)
      else if st_edit_policy (ac_state ac) = EditReject then Some (Reject ''edits prohibited'', R_SESSION_DENY)
      else None)"

definition bash_pre_decision ::
    "surroundings \<Rightarrow> manager_config \<Rightarrow> actor \<Rightarrow> policy_verdict \<Rightarrow> bool \<Rightarrow> string \<Rightarrow> (decision \<times> reason) option" where
  "bash_pre_decision su cfg ac pv auto_forced_prompt cmd =
     (if pv_forced pv then
        (if mc_remember cfg \<and> \<not> auto_forced_prompt \<and> \<not> pv_shell_file_forced pv
         then bash_grant_pre_decision (su_externals su) cmd (ac_state ac) (mc_yolo_pin cfg) ASK_FLOOR_REMEMBER
         else None)
      else bash_grant_pre_decision (su_externals su) cmd (ac_state ac) (mc_yolo_pin cfg)
             (post_classify auto_forced_prompt))"

definition web_fetch_pre_decision :: "surroundings \<Rightarrow> manager_config \<Rightarrow> actor \<Rightarrow> string \<Rightarrow> (decision \<times> reason) option" where
  "web_fetch_pre_decision su cfg ac u =
     (case su_parse_url su u of
        None \<Rightarrow> None
      | Some parsed \<Rightarrow>
          (if matcher_check (su_externals su) (mc_static_domains cfg) parsed = None
           then Some (Allow, R_STATIC_ALLOWLIST)
           else case host_str parsed of
                  None \<Rightarrow> None
                | Some h \<Rightarrow>
                    (if normalize_domain (su_externals su) h \<in> set (st_allowed_domains (ac_state ac))
                     then Some (Allow, R_PERSISTED_GRANT) else None)))"

definition access_pre_decision ::
    "surroundings \<Rightarrow> manager_config \<Rightarrow> actor \<Rightarrow> policy_verdict \<Rightarrow> bool \<Rightarrow> access_kind \<Rightarrow> (decision \<times> reason) option" where
  "access_pre_decision su cfg ac pv auto_forced_prompt access =
     (case access of
        Read _ \<Rightarrow> if pv_forced pv then None else Some (Allow, R_SAFE_COMMAND)
      | Grep _ _ \<Rightarrow> if pv_forced pv then None else Some (Allow, R_SAFE_COMMAND)
      | WebSearch _ \<Rightarrow> Some (Allow, R_SAFE_COMMAND)
      | MCPTool name _ \<Rightarrow>
          map_option (\<lambda>d. (d, R_PERSISTED_GRANT))
            (mcp_pre_decision name (ac_state ac) (pv_forced pv) (mc_remember cfg))
      | Edit _ \<Rightarrow> edit_pre_decision ac
      | Bash cmd \<Rightarrow> bash_pre_decision su cfg ac pv auto_forced_prompt cmd
      | WebFetch u \<Rightarrow> web_fetch_pre_decision su cfg ac u)"

text \<open>An auto-forced prompt neutralises a leftover allow of a non-bash access.\<close>

definition neutralise :: "bool \<Rightarrow> access_kind \<Rightarrow> (decision \<times> reason) option \<Rightarrow> (decision \<times> reason) option" where
  "neutralise auto_forced_prompt access pre =
     (if auto_forced_prompt \<and> auto_prompt_blocks_allow access \<and>
         (case pre of Some (Allow, _) \<Rightarrow> True | _ \<Rightarrow> False)
      then None else pre)"

text \<open>The handler's part after auto mode has spoken: sandbox, policy allow, built-in rules, prompt
  policy, and the trigger of the prompt.\<close>

definition after_auto ::
    "surroundings \<Rightarrow> manager_config \<Rightarrow> actor \<Rightarrow> policy_verdict \<Rightarrow> reason option \<Rightarrow> access_kind \<Rightarrow> pre_prompt" where
  "after_auto su cfg ac pv auto_prompt_reason access =
     (let auto_forced_prompt = (auto_prompt_reason \<noteq> None) in
      if is_bash_access access \<and> su_sandbox_allows_bash su \<and> \<not> pv_forced pv \<and> \<not> auto_forced_prompt
      then Answer Allow True R_SANDBOX_AUTO
      else case opt_filter (\<lambda>d. d \<noteq> Ask) (pv_decision pv) of
             Some d \<Rightarrow> Answer d True R_POLICY_ALLOW
           | None \<Rightarrow>
               (case neutralise auto_forced_prompt access
                       (access_pre_decision su cfg ac pv auto_forced_prompt access) of
                  Some (d, r) \<Rightarrow> Answer d True r
                | None \<Rightarrow>
                    (if mc_prompt_policy cfg = PromptDeny then
                       Answer (PolicyDeny ''denied by prompt policy (tool not pre-approved)'') False R_PROMPT_DENY
                     else
                       Prompt (if pv_forced pv \<or> pv_shell_forced pv then R_POLICY_ASK
                               else case auto_prompt_reason of Some r \<Rightarrow> r | None \<Rightarrow> R_NEEDS_USER))))"

definition before_prompt ::
    "surroundings \<Rightarrow> manager_config \<Rightarrow> actor \<Rightarrow> access_kind \<Rightarrow> pre_prompt" where
  "before_prompt su cfg ac access =
     (let pv = policy_verdict (su_externals su) cfg access;
          unforced = (\<not> pv_forced pv \<and> \<not> pv_shell_forced pv)
      in case pv_decision pv of
           Some (Reject r) \<Rightarrow> Answer (PolicyDeny r) False R_POLICY_DENY
         | _ \<Rightarrow>
             (if ac_yolo_mode ac \<and> \<not> pv_shell_forced pv then Answer Allow True R_YOLO
              else case (if unforced
                         then session_grant_pre_decision (su_externals su) (su_parse_url su) access (ac_state ac)
                                (ac_allow_edits ac) (mc_static_domains cfg) (mc_yolo_pin cfg)
                         else None) of
                     Some (d, r) \<Rightarrow> Answer d True r
                   | None \<Rightarrow>
                       (case (if ac_auto_mode ac \<and> unforced then auto_mode_verdict su ac access else AutoSilent) of
                          AutoAllowed r \<Rightarrow> Answer Allow True r
                        | AutoForced r \<Rightarrow> after_auto su cfg ac pv (Some r) access
                        | AutoSilent \<Rightarrow> after_auto su cfg ac pv None access)))"

section \<open>The answer of the user\<close>

definition rejected_once :: decision where
  "rejected_once = Reject ''User rejected the execution''"

definition prompt_failed :: "string \<Rightarrow> decision" where
  "prompt_failed e = Reject (''Failed to request permission from user: '' @ e)"

definition with_state :: "(permission_state \<Rightarrow> permission_state) \<Rightarrow> actor \<Rightarrow> actor" where
  "with_state f ac = ac\<lparr>ac_state := f (ac_state ac)\<rparr>"

definition allow_bash :: "string \<Rightarrow> permission_state \<Rightarrow> permission_state" where
  "allow_bash c st = st\<lparr>st_allowed_bash := hs_insert c (st_allowed_bash st)\<rparr>"

definition disallow_bash :: "string \<Rightarrow> permission_state \<Rightarrow> permission_state" where
  "disallow_bash c st = st\<lparr>st_disallowed_bash := hs_insert c (st_disallowed_bash st)\<rparr>"

definition allow_domain :: "string \<Rightarrow> permission_state \<Rightarrow> permission_state" where
  "allow_domain d st = st\<lparr>st_allowed_domains := hs_insert d (st_allowed_domains st)\<rparr>"

definition allow_mcp_tool :: "string \<Rightarrow> permission_state \<Rightarrow> permission_state" where
  "allow_mcp_tool n st = st\<lparr>st_allowed_mcp_tools := hs_insert n (st_allowed_mcp_tools st)\<rparr>"

definition allow_mcp_server :: "string \<Rightarrow> permission_state \<Rightarrow> permission_state" where
  "allow_mcp_server s st = st\<lparr>st_allowed_mcp_servers := hs_insert s (st_allowed_mcp_servers st)\<rparr>"

fun apply_bash_outcome ::
    "manager_config \<Rightarrow> string \<Rightarrow> prompt_outcome \<Rightarrow> actor \<Rightarrow> decision \<times> string \<times> actor" where
  "apply_bash_outcome cfg cmd AllowOnce ac = (Allow, ''allow_once'', ac)"
| "apply_bash_outcome cfg cmd AllowAlways ac =
     (Allow, ''allow_always'', persist cfg (with_state (allow_bash cmd) ac))"
| "apply_bash_outcome cfg cmd (AllowAlwaysBashCommand pre) ac =
     (Allow, ''allow_always_bash'', persist cfg (with_state (allow_bash pre) ac))"
| "apply_bash_outcome cfg cmd (AllowAlwaysDomain _) ac = (Allow, ''allow_once'', ac)"
| "apply_bash_outcome cfg cmd (AllowAlwaysMcpTool _) ac = (Allow, ''allow_once'', ac)"
| "apply_bash_outcome cfg cmd (AllowAlwaysMcpServer _) ac = (Allow, ''allow_once'', ac)"
| "apply_bash_outcome cfg cmd AllowEditsForSession ac = (Allow, ''allow_once'', ac)"
| "apply_bash_outcome cfg cmd RejectOnce ac = (rejected_once, ''reject_once'', ac)"
| "apply_bash_outcome cfg cmd (RejectAlwaysBashCommand pre) ac =
     (Reject (''User rejected the execution and excluded '' @ pre @ '' from this session''),
      ''reject_always_bash'', persist cfg (with_state (disallow_bash pre) ac))"
| "apply_bash_outcome cfg cmd OutcomeCancelled ac = (Cancelled, ''cancelled'', ac)"
| "apply_bash_outcome cfg cmd (OutcomeFollowup msg) ac = (FollowupMessage msg, ''followup'', ac)"
| "apply_bash_outcome cfg cmd (OutcomeError e) ac = (prompt_failed e, ''error'', ac)"

text \<open>The server of an MCP tool name: the part before the first \<open>__\<close>, if not empty.\<close>

definition canonical_server :: "string \<Rightarrow> string option" where
  "canonical_server name = opt_filter (\<lambda>s. s \<noteq> []) (map_option fst (split_once ''__'' name))"

fun apply_other_outcome ::
    "manager_config \<Rightarrow> access_kind \<Rightarrow> prompt_outcome \<Rightarrow> actor \<Rightarrow> decision \<times> string \<times> actor" where
  "apply_other_outcome cfg access AllowOnce ac = (Allow, ''allow_once'', ac)"
| "apply_other_outcome cfg access AllowEditsForSession ac =
     (Allow, ''allow_edits_for_session'', ac\<lparr>ac_allow_edits := True\<rparr>)"
| "apply_other_outcome cfg access AllowAlways ac =
     (Allow, ''allow_always'',
      persist cfg (case access of MCPTool name _ \<Rightarrow> with_state (allow_mcp_tool name) ac | _ \<Rightarrow> ac))"
| "apply_other_outcome cfg access (AllowAlwaysBashCommand _) ac = (Allow, ''allow_always_bash'', ac)"
| "apply_other_outcome cfg access (AllowAlwaysDomain domain) ac =
     (Allow, ''allow_always_domain'',
      case access of WebFetch _ \<Rightarrow> persist cfg (with_state (allow_domain domain) ac) | _ \<Rightarrow> ac)"
| "apply_other_outcome cfg access (AllowAlwaysMcpTool _) ac =
     (Allow, ''allow_always_mcp_tool'',
      case access of MCPTool name _ \<Rightarrow> persist cfg (with_state (allow_mcp_tool name) ac) | _ \<Rightarrow> ac)"
| "apply_other_outcome cfg access (AllowAlwaysMcpServer server_prefix) ac =
     (Allow, ''allow_always_mcp_server'',
      case access of
        MCPTool name _ \<Rightarrow>
          persist cfg (with_state (if canonical_server name = Some server_prefix
                                   then allow_mcp_server server_prefix else allow_mcp_tool name) ac)
      | _ \<Rightarrow> ac)"
| "apply_other_outcome cfg access (RejectAlwaysBashCommand _) ac = (rejected_once, ''reject_always_bash'', ac)"
| "apply_other_outcome cfg access RejectOnce ac = (rejected_once, ''reject_once'', ac)"
| "apply_other_outcome cfg access OutcomeCancelled ac = (Cancelled, ''cancelled'', ac)"
| "apply_other_outcome cfg access (OutcomeError e) ac = (prompt_failed e, ''error'', ac)"
| "apply_other_outcome cfg access (OutcomeFollowup msg) ac = (FollowupMessage msg, ''followup'', ac)"

section \<open>The handler\<close>

record permission_event =
  ev_tool_name :: string
  ev_access_kind :: string
  ev_access_detail :: "string option"
  ev_yolo_mode :: bool
  ev_auto_approved :: bool
  ev_user_prompted :: bool
  ev_decision :: string
  ev_prompt_outcome :: "string option"
  ev_reject_reason :: "string option"
  ev_permission_mode :: string
  ev_decision_reason :: reason

fun decision_str :: "decision \<Rightarrow> string \<times> string option" where
  "decision_str Allow = (''allow'', None)"
| "decision_str Ask = (''ask'', None)"
| "decision_str (Reject r) = (''reject'', Some r)"
| "decision_str (PolicyDeny r) = (''reject'', Some r)"
| "decision_str (FollowupMessage _) = (''followup'', None)"
| "decision_str Cancelled = (''cancelled'', None)"

definition permission_mode :: "actor \<Rightarrow> string" where
  "permission_mode ac =
     (if ac_yolo_mode ac then ''always-approve'' else if ac_auto_mode ac then ''auto'' else ''ask'')"

definition emit_event ::
    "surroundings \<Rightarrow> actor \<Rightarrow> access_kind \<Rightarrow> decision \<Rightarrow> bool \<Rightarrow> bool \<Rightarrow> string option \<Rightarrow> reason \<Rightarrow>
     permission_event" where
  "emit_event su ac access d auto_approved user_prompted prompt_outcome decision_reason =
     \<lparr>ev_tool_name = tool_name_for_access access, ev_access_kind = access_kind_str access,
      ev_access_detail = access_detail su access, ev_yolo_mode = ac_yolo_mode ac,
      ev_auto_approved = auto_approved, ev_user_prompted = user_prompted,
      ev_decision = fst (decision_str d), ev_prompt_outcome = prompt_outcome,
      ev_reject_reason = snd (decision_str d), ev_permission_mode = permission_mode ac,
      ev_decision_reason = decision_reason\<rparr>"

definition handle_request ::
    "surroundings \<Rightarrow> manager_config \<Rightarrow> access_kind \<Rightarrow> prompt_outcome \<Rightarrow> actor \<Rightarrow>
     decision \<times> permission_event \<times> actor" where
  "handle_request su cfg access outcome ac =
     (case before_prompt su cfg ac access of
        Answer d auto_approved r \<Rightarrow> (d, emit_event su ac access d auto_approved False None r, ac)
      | Prompt trigger \<Rightarrow>
          (case (case access of
                   Bash cmd \<Rightarrow> apply_bash_outcome cfg cmd outcome ac
                 | _ \<Rightarrow> apply_other_outcome cfg access outcome ac) of
             (d, outcome_str, ac') \<Rightarrow>
               (d, emit_event su ac access d False True (Some outcome_str) trigger, ac')))"

datatype command =
    SetYoloMode bool
  | SetAutoMode bool
  | SetClassifier "classifier option"
  | SetClassifierTranscript "classifier_turn list"
  | SetProjectInstructions "string option"
  | ResetState
  | Request surroundings access_kind prompt_outcome
  | Shutdown

text \<open>One turn of the command loop: \<open>None\<close> ends it.\<close>

fun actor_step :: "manager_config \<Rightarrow> command \<Rightarrow> actor \<Rightarrow> actor option" where
  "actor_step cfg (SetYoloMode enabled) ac = Some (set_yolo_mode cfg enabled ac)"
| "actor_step cfg (SetAutoMode enabled) ac = Some (set_auto_mode enabled ac)"
| "actor_step cfg (SetClassifier c) ac = Some (ac\<lparr>ac_classifier := c\<rparr>)"
| "actor_step cfg (SetClassifierTranscript turns) ac = Some (ac\<lparr>ac_turns := turns\<rparr>)"
| "actor_step cfg (SetProjectInstructions i) ac = Some (ac\<lparr>ac_instructions := i\<rparr>)"
| "actor_step cfg ResetState ac = Some (reset_state cfg ac)"
| "actor_step cfg (Request su access outcome) ac = Some (snd (snd (handle_request su cfg access outcome ac)))"
| "actor_step cfg Shutdown ac = None"

fun actor_run :: "manager_config \<Rightarrow> command list \<Rightarrow> actor \<Rightarrow> actor" where
  "actor_run cfg [] ac = ac"
| "actor_run cfg (c # cs) ac = (case actor_step cfg c ac of Some ac' \<Rightarrow> actor_run cfg cs ac' | None \<Rightarrow> ac)"

end
