(* ===== verification/PermManagerSpec.thy ===== *)
theory PermManagerSpec
  imports PermManager
begin

text \<open>
  What the permission manager promises, composing the policy, the grants, auto mode and the prompter:
  managed denials win over everything, ask rules hold except where stated, the managed pin and the
  two modes are respected by every run, and only prompts leave grants, their own ones.
\<close>

section \<open>The policy's word\<close>

abbreviation policy_of :: "surroundings \<Rightarrow> manager_config \<Rightarrow> access_kind \<Rightarrow> policy_verdict" where
  "policy_of su cfg access \<equiv> policy_verdict (su_externals su) cfg access"

lemma shell_verdict_gate:
  "(\<And>p cmd. gate_verdict (gate p cmd)) \<Longrightarrow> gate_verdict (shell_verdict cfg gate access)"
  by (auto simp: shell_verdict_def split: option.splits access_kind.splits)

lemma shell_gates:
  "gate_verdict (shell_verdict cfg (evaluate_bash_command_policy X) access)"
  "gate_verdict (shell_verdict cfg (\<lambda>p cmd. evaluate_shell_file_access X p cmd cwd) access)"
  using bash_gate.verdict file_gate.verdict by (auto intro: shell_verdict_gate)

definition direct_verdict :: "externals \<Rightarrow> manager_config \<Rightarrow> access_kind \<Rightarrow> decision option" where
  "direct_verdict X cfg access = Option.bind (mc_policy cfg) (\<lambda>p. evaluate X p access)"

text \<open>Every policy the manager runs with was compiled from a configuration.\<close>

definition compiled :: "externals \<Rightarrow> manager_config \<Rightarrow> bool" where
  "compiled X cfg \<longleftrightarrow> (\<forall>p. mc_policy cfg = Some p \<longrightarrow> (\<exists>c. p = policy_new X c))"

lemma compiled_config_of: "compiled X (config_of X config cwd domains pin client remember)"
  by (auto simp: compiled_def config_of_def)

lemma direct_cases:
  "compiled X cfg \<Longrightarrow> (\<exists>r. direct_verdict X cfg access = Some (Reject r)) \<or>
   direct_verdict X cfg access \<in> {None, Some Ask, Some Allow}"
proof (cases "mc_policy cfg")
  case (Some p)
  assume "compiled X cfg"
  then obtain c where "p = policy_new X c" using Some by (auto simp: compiled_def)
  then show ?thesis using evaluate_cases [of X c access] by (simp add: direct_verdict_def Some)
qed (simp add: direct_verdict_def)

lemma verdict_cases:
  assumes "compiled X cfg"
  shows "(\<exists>r. pv_decision (policy_verdict X cfg access) = Some (Reject r)) \<or>
    pv_decision (policy_verdict X cfg access) \<in> {None, Some Ask, Some Allow}"
proof -
  have g: "gate_verdict (shell_verdict cfg (\<lambda>p cmd. evaluate_shell_file_access X p cmd (mc_cwd cfg)) access)"
    by (rule shell_gates(2))
  show ?thesis
    using direct_cases [OF assms, of access] shell_gates(1) [of cfg X access] g
    unfolding policy_verdict_def Let_def policy_verdict.simps direct_verdict_def [symmetric] gate_verdict_def
      combine_by_strength
    by (simp split: if_split) blast
qed

lemma verdict_denies:
  assumes "compiled X cfg"
  shows "denies (pv_decision (policy_verdict X cfg access)) \<longleftrightarrow>
    (\<exists>r. pv_decision (policy_verdict X cfg access) = Some (Reject r))"
  using verdict_cases [OF assms, of access] by auto

lemma shell_forced_is_forced:
  assumes "pv_shell_forced (policy_verdict X cfg access)"
  shows "pv_forced (policy_verdict X cfg access) \<or> denies (pv_decision (policy_verdict X cfg access))"
proof -
  let ?c = "shell_verdict cfg (evaluate_bash_command_policy X) access"
  let ?f = "shell_verdict cfg (\<lambda>p cmd. evaluate_shell_file_access X p cmd (mc_cwd cfg)) access"
  let ?v = "pv_decision (policy_verdict X cfg access)"
  have v: "?v = combine_decisions (combine_decisions (direct_verdict X cfg access) ?c) ?f"
    by (simp add: policy_verdict_def direct_verdict_def Let_def)
  have "strength (Some Ask) \<le> strength ?v"
    using assms unfolding v by (auto simp: policy_verdict_def Let_def combine_by_strength)
  moreover have "strength (Some Ask) = 3" by (simp add: strength_def)
  moreover have "strength d \<ge> 3 \<Longrightarrow> d = Some Ask \<or> denies d" for d
    by (cases d; simp add: strength_def; rename_tac e; case_tac e) (simp_all add: denies_def)
  ultimately show ?thesis by (simp add: pv_forced_def)
qed

lemma shell_forced_bash: "pv_shell_forced (policy_verdict X cfg access) \<Longrightarrow> is_bash_access access"
  by (cases access) (auto simp: policy_verdict_def shell_verdict_def Let_def split: option.splits)

section \<open>Denials\<close>

lemma denied_answer:
  assumes "compiled (su_externals su) cfg" "denies (pv_decision (policy_of su cfg access))"
  obtains r where "before_prompt su cfg ac access = Answer (PolicyDeny r) False R_POLICY_DENY"
  using assms verdict_denies [OF assms(1), of access] that by (auto simp: before_prompt_def Let_def)

text \<open>What a policy denies: a deny rule for the access itself, or for a command a script runs or a file
  it touches.\<close>

definition policy_denies :: "externals \<Rightarrow> permission_config \<Rightarrow> string \<Rightarrow> access_kind \<Rightarrow> bool" where
  "policy_denies X c cwd access \<longleftrightarrow>
     has_match X c access RuleDeny \<or>
     (case access of
        Bash cmd \<Rightarrow> denies (evaluate_bash_command_policy X (policy_new X c) cmd) \<or>
                    denies (evaluate_shell_file_access X (policy_new X c) cmd cwd)
      | _ \<Rightarrow> False)"

lemma policy_denies_iff:
  assumes "mc_policy cfg = Some (policy_new X c)"
  shows "denies (pv_decision (policy_verdict X cfg access)) \<longleftrightarrow> policy_denies X c (mc_cwd cfg) access"
  by (cases access)
    (simp_all add: policy_verdict_def shell_verdict_def Let_def assms policy_denies_def evaluate_denies_iff)

text \<open>C1. Managed denials win over everything: a request that a deny rule matches - directly, or through
  a command its script runs or a file it touches - is refused without a prompt and without a trace in
  the state, whatever the mode, the grants, the classifier, the sandbox and the user would say.\<close>

theorem managed_denials_win:
  assumes "mc_policy cfg = Some (policy_new (su_externals su) c)"
    "policy_denies (su_externals su) c (mc_cwd cfg) access"
  shows "\<exists>r ev. handle_request su cfg access outcome ac = (PolicyDeny r, ev, ac) \<and>
    \<not> ev_user_prompted ev \<and> \<not> ev_auto_approved ev \<and> ev_decision_reason ev = R_POLICY_DENY"
proof -
  have "compiled (su_externals su) cfg" using assms(1) by (auto simp: compiled_def)
  moreover have "denies (pv_decision (policy_of su cfg access))"
    using assms policy_denies_iff by blast
  ultimately obtain r where "before_prompt su cfg ac access = Answer (PolicyDeny r) False R_POLICY_DENY"
    by (rule denied_answer)
  then show ?thesis by (simp add: handle_request_def emit_event_def)
qed

section \<open>Ask rules\<close>

text \<open>The grants that answer a request an ask rule forces to the user, without asking.\<close>

definition satisfies_ask :: "surroundings \<Rightarrow> manager_config \<Rightarrow> actor \<Rightarrow> access_kind \<Rightarrow> bool" where
  "satisfies_ask su cfg ac access \<longleftrightarrow>
     (case access of
        MCPTool name _ \<Rightarrow>
          mc_remember cfg \<and>
          (name \<in> set (st_allowed_mcp_tools (ac_state ac)) \<or>
           mcp_server_prefix_allowed name (st_allowed_mcp_servers (ac_state ac)))
      | Bash cmd \<Rightarrow>
          mc_remember cfg \<and> \<not> pv_shell_file_forced (policy_of su cfg access) \<and>
          (\<exists>g. evaluate_bash_segments_inner (su_externals su) cmd (ac_state ac) False = AutoAllow g)
      | Edit _ \<Rightarrow> ac_allow_edits ac
      | WebFetch u \<Rightarrow> (\<exists>r. web_fetch_pre_decision su cfg ac u = Some (Allow, r))
      | WebSearch _ \<Rightarrow> True
      | Read _ \<Rightarrow> False
      | Grep _ _ \<Rightarrow> False)"

lemma forced_before_prompt:
  assumes "pv_forced (policy_of su cfg access)"
    "\<not> ac_yolo_mode ac \<or> pv_shell_forced (policy_of su cfg access)"
  shows "before_prompt su cfg ac access = after_auto su cfg ac (policy_of su cfg access) None access"
  using assms by (auto simp: before_prompt_def Let_def pv_forced_def)

lemma ask_floor_grant:
  "bash_grant_pre_decision X cmd st pin ASK_FLOOR_REMEMBER = Some (Allow, r) \<longleftrightarrow>
   (\<exists>g. evaluate_bash_segments_inner X cmd st False = AutoAllow g \<and>
     r = (if g then R_SESSION_GRANT else R_SAFE_COMMAND))"
  by (auto simp: bash_grant_pre_decision_def ASK_FLOOR_REMEMBER_def grant_allow_def
      split: segment_evaluation.splits)

lemma mcp_pre_decision_Allow_iff:
  "mcp_pre_decision name st forced remember = Some Allow \<longleftrightarrow>
   (forced \<longrightarrow> remember) \<and>
   (name \<in> set (st_allowed_mcp_tools st) \<or> mcp_server_prefix_allowed name (st_allowed_mcp_servers st))"
  by (auto simp: mcp_pre_decision_def)

lemma forced_pre_decision:
  assumes "pv_forced (policy_of su cfg access)"
  shows "(\<exists>r. access_pre_decision su cfg ac (policy_of su cfg access) False access = Some (Allow, r)) \<longleftrightarrow>
    satisfies_ask su cfg ac access"
  using assms
  by (cases access)
    (auto simp: access_pre_decision_def satisfies_ask_def edit_pre_decision_def bash_pre_decision_def
      ask_floor_grant mcp_pre_decision_def)

lemma forced_answer:
  assumes "pv_forced (policy_of su cfg access)"
  shows "(\<exists>b r. after_auto su cfg ac (policy_of su cfg access) None access = Answer Allow b r) \<longleftrightarrow>
    satisfies_ask su cfg ac access"
  unfolding forced_pre_decision [OF assms, of ac, symmetric] after_auto_def Let_def neutralise_def
  using assms by (auto simp: pv_forced_def split: option.splits)


section \<open>Always-approve\<close>

lemma bash_grant_reason:
  "bash_grant_pre_decision X cmd st pin opts = Some (d, r) \<Longrightarrow> r \<in> {R_SESSION_DENY, R_SESSION_GRANT, R_SAFE_COMMAND}"
  by (auto simp: bash_grant_pre_decision_def grant_allow_def split: segment_evaluation.splits if_split_asm)

lemma pre_decision_reason:
  "access_pre_decision su cfg ac pv forced access = Some (d, r) \<Longrightarrow> r \<noteq> R_YOLO"
  by (cases access)
    (auto simp: access_pre_decision_def edit_pre_decision_def bash_pre_decision_def web_fetch_pre_decision_def
      dest!: bash_grant_reason split: if_split_asm option.splits)

lemma after_auto_reason:
  "(case after_auto su cfg ac pv None access of Answer d b r \<Rightarrow> r | Prompt r \<Rightarrow> r) \<noteq> R_YOLO"
  using pre_decision_reason [of su cfg ac pv False access]
  by (auto simp: after_auto_def neutralise_def Let_def split: option.splits)

text \<open>The event of a request names the reason of the stage that answered it.\<close>

lemma event_reason:
  "ev_decision_reason (fst (snd (handle_request su cfg access outcome ac))) =
   (case before_prompt su cfg ac access of Answer d b r \<Rightarrow> r | Prompt r \<Rightarrow> r)"
  by (simp add: handle_request_def emit_event_def split: pre_prompt.splits prod.splits)

text \<open>Always-approve answers every request the policy does not deny and no shell gate asks about:
  ask rules on scripts and the files they touch still reach the user, ask rules on edits, MCP tools
  and fetches do not.\<close>

theorem always_approve_skips_other_ask_rules:
  assumes "ac_yolo_mode ac" "compiled (su_externals su) cfg"
  shows "(\<exists>ev. handle_request su cfg access outcome ac = (Allow, ev, ac) \<and> ev_decision_reason ev = R_YOLO) \<longleftrightarrow>
    \<not> denies (pv_decision (policy_of su cfg access)) \<and> \<not> pv_shell_forced (policy_of su cfg access)"
proof (cases "denies (pv_decision (policy_of su cfg access))")
  case True
  with assms(2) obtain r where "before_prompt su cfg ac access = Answer (PolicyDeny r) False R_POLICY_DENY"
    by (rule denied_answer)
  then show ?thesis using True by (simp add: handle_request_def)
next
  case False
  then have d: "pv_decision (policy_of su cfg access) \<noteq> Some (Reject r)" for r by auto
  show ?thesis
  proof (cases "pv_shell_forced (policy_of su cfg access)")
    case True
    then have f: "pv_forced (policy_of su cfg access)" using shell_forced_is_forced False by blast
    have "ev_decision_reason (fst (snd (handle_request su cfg access outcome ac))) \<noteq> R_YOLO"
      unfolding event_reason forced_before_prompt [OF f disjI2 [OF True]] by (rule after_auto_reason)
    then show ?thesis using True by auto
  next
    case nf: False
    then have "before_prompt su cfg ac access = Answer Allow True R_YOLO"
      using assms(1) d by (auto simp: before_prompt_def Let_def split: option.splits decision.splits)
    then show ?thesis using nf False by (simp add: handle_request_def emit_event_def)
  qed
qed

section \<open>Runs\<close>

text \<open>The invariant of the actor: under the pin always-approve is off, the two modes exclude each other,
  no session allow of edits is in the persisted policy, and a manager started anew on the disk would
  load the state in memory.\<close>

definition actor_ok :: "manager_config \<Rightarrow> actor \<Rightarrow> bool" where
  "actor_ok cfg ac \<longleftrightarrow>
     (mc_yolo_pin cfg \<noteq> None \<longrightarrow> \<not> ac_yolo_mode ac) \<and>
     \<not> (ac_yolo_mode ac \<and> ac_auto_mode ac) \<and>
     st_edit_policy (ac_state ac) \<noteq> EditAllow \<and>
     load_state_from_dir (ac_disk ac) (mc_client cfg) = ac_state ac"

lemma load_persisted: "load_state_from_dir (persist_state_to_dir st client dir) client = st"
  by (cases client) (simp_all add: load_state_from_dir_def persist_state_to_dir_def Let_def)

lemma persist_simps [simp]:
  "ac_state (persist cfg ac) = ac_state ac" "ac_yolo_mode (persist cfg ac) = ac_yolo_mode ac"
  "ac_auto_mode (persist cfg ac) = ac_auto_mode ac" "ac_allow_edits (persist cfg ac) = ac_allow_edits ac"
  "load_state_from_dir (ac_disk (persist cfg ac)) (mc_client cfg) = ac_state ac"
  by (simp_all add: persist_def load_persisted)

lemma with_state_simps [simp]:
  "ac_state (with_state f ac) = f (ac_state ac)" "ac_yolo_mode (with_state f ac) = ac_yolo_mode ac"
  "ac_auto_mode (with_state f ac) = ac_auto_mode ac" "ac_allow_edits (with_state f ac) = ac_allow_edits ac"
  by (simp_all add: with_state_def)

lemmas grant_updates = allow_bash_def disallow_bash_def allow_domain_def allow_mcp_tool_def allow_mcp_server_def

lemma grant_updates_policy [simp]:
  "st_edit_policy (allow_bash c st) = st_edit_policy st"
  "st_edit_policy (disallow_bash c st) = st_edit_policy st"
  "st_edit_policy (allow_domain c st) = st_edit_policy st"
  "st_edit_policy (allow_mcp_tool c st) = st_edit_policy st"
  "st_edit_policy (allow_mcp_server c st) = st_edit_policy st"
  by (simp_all add: grant_updates)

lemma actor_ok_persist:
  "actor_ok cfg ac \<Longrightarrow> st_edit_policy (f (ac_state ac)) = st_edit_policy (ac_state ac) \<Longrightarrow>
   actor_ok cfg (persist cfg (with_state f ac))"
  by (simp add: actor_ok_def)

lemma actor_ok_persist_same: "actor_ok cfg ac \<Longrightarrow> actor_ok cfg (persist cfg ac)"
  by (simp add: actor_ok_def)

lemma actor_ok_bash: "actor_ok cfg ac \<Longrightarrow> actor_ok cfg (snd (snd (apply_bash_outcome cfg cmd outcome ac)))"
  by (cases outcome) (simp_all add: actor_ok_persist)

lemma actor_ok_other: "actor_ok cfg ac \<Longrightarrow> actor_ok cfg (snd (snd (apply_other_outcome cfg access outcome ac)))"
  by (cases outcome; cases access) (auto simp: actor_ok_persist actor_ok_persist_same, simp_all add: actor_ok_def)

lemma handled_actor:
  "snd (snd (handle_request su cfg access outcome ac)) =
   (case before_prompt su cfg ac access of
      Answer d b r \<Rightarrow> ac
    | Prompt r \<Rightarrow>
        snd (snd (case access of Bash cmd \<Rightarrow> apply_bash_outcome cfg cmd outcome ac
                  | _ \<Rightarrow> apply_other_outcome cfg access outcome ac)))"
  by (simp add: handle_request_def split: pre_prompt.splits prod.splits)

lemma actor_ok_request: "actor_ok cfg ac \<Longrightarrow> actor_ok cfg (snd (snd (handle_request su cfg access outcome ac)))"
  unfolding handled_actor using actor_ok_bash actor_ok_other
  by (simp split: pre_prompt.split access_kind.split)

lemma actor_ok_step: "actor_ok cfg ac \<Longrightarrow> actor_step cfg c ac = Some ac' \<Longrightarrow> actor_ok cfg ac'"
proof (cases c)
  case (SetYoloMode enabled)
  assume "actor_ok cfg ac" "actor_step cfg c ac = Some ac'"
  then show ?thesis
    by (auto simp: SetYoloMode set_yolo_mode_def clamp_yolo_def actor_ok_def Let_def split: if_split_asm)
next
  case (SetAutoMode enabled)
  assume "actor_ok cfg ac" "actor_step cfg c ac = Some ac'"
  then show ?thesis by (cases enabled) (auto simp: SetAutoMode set_auto_mode_def actor_ok_def Let_def)
next
  case ResetState
  assume "actor_ok cfg ac" "actor_step cfg c ac = Some ac'"
  then show ?thesis
    by (auto simp: ResetState reset_state_def actor_ok_def persist_def load_persisted default_state_def)
qed (auto simp: actor_ok_request, simp_all add: actor_ok_def)

lemma actor_ok_run: "actor_ok cfg ac \<Longrightarrow> actor_ok cfg (actor_run cfg cs ac)"
  by (induction cs arbitrary: ac) (auto split: option.splits dest: actor_ok_step)

lemma actor_ok_spawn: "actor_ok cfg (spawn cfg config requested disk)"
  by (auto simp: spawn_def actor_ok_def migrate_edit_policy_def seed_auto_def clamp_yolo_def Let_def
      persist_def load_persisted)

text \<open>C3. In every run of the actor, whatever commands and requests it receives: always-approve stays off
  under the managed pin, always-approve and auto mode are never both on, a session allow of edits never
  reaches the disk, and a manager restarted at any moment loads exactly the grants in memory.\<close>

theorem manager_invariant:
  "let ac = actor_run cfg cmds (spawn cfg config requested_yolo disk) in
   (mc_yolo_pin cfg \<noteq> None \<longrightarrow> \<not> ac_yolo_mode ac) \<and>
   \<not> (ac_yolo_mode ac \<and> ac_auto_mode ac) \<and>
   st_edit_policy (ac_state ac) \<noteq> EditAllow \<and>
   ac_state (spawn cfg config' yolo' (ac_disk ac)) = ac_state ac"
proof -
  have ok: "actor_ok cfg (actor_run cfg cmds (spawn cfg config requested_yolo disk))"
    by (rule actor_ok_run [OF actor_ok_spawn])
  then show ?thesis
    by (simp add: actor_ok_def Let_def spawn_def migrate_edit_policy_def)
qed

theorem manager_invariant_witness:
  "\<not> ac_yolo_mode (actor_run (config_of tiny None ''/w'' [] (Some ''pinned'') None True)
     [SetYoloMode True] (spawn (config_of tiny None ''/w'' [] (Some ''pinned'') None True) None True Map.empty))"
proof -
  have "mc_yolo_pin (config_of tiny None ''/w'' [] (Some ''pinned'') None True) \<noteq> None"
    by (simp add: config_of_def)
  then show ?thesis
    using manager_invariant [of "config_of tiny None ''/w'' [] (Some ''pinned'') None True" "[SetYoloMode True]"
        None True Map.empty None True]
    unfolding Let_def by blast
qed

section \<open>Grants\<close>

text \<open>What an answer may add to the grants of an access.\<close>

definition own_grants :: "access_kind \<Rightarrow> permission_state \<Rightarrow> permission_state \<Rightarrow> bool" where
  "own_grants access st st' \<longleftrightarrow>
     st_edit_policy st' = st_edit_policy st \<and> st_allow_bash_execute st' = st_allow_bash_execute st \<and>
     (\<not> is_bash_access access \<longrightarrow>
        st_allowed_bash st' = st_allowed_bash st \<and> st_disallowed_bash st' = st_disallowed_bash st) \<and>
     (case access of
        WebFetch _ \<Rightarrow> set (st_allowed_domains st) \<subseteq> set (st_allowed_domains st')
      | _ \<Rightarrow> st_allowed_domains st' = st_allowed_domains st) \<and>
     (case access of
        MCPTool name _ \<Rightarrow>
          set (st_allowed_mcp_tools st') \<subseteq> insert name (set (st_allowed_mcp_tools st)) \<and>
          set (st_allowed_mcp_servers st') \<subseteq> set (st_allowed_mcp_servers st) \<union> set_option (canonical_server name)
      | _ \<Rightarrow> st_allowed_mcp_tools st' = st_allowed_mcp_tools st \<and>
              st_allowed_mcp_servers st' = st_allowed_mcp_servers st)"

lemma own_grants_refl: "own_grants access st st"
  by (auto simp: own_grants_def split: access_kind.splits)

lemma own_grants_bash: "own_grants (Bash cmd) (ac_state ac) (ac_state (snd (snd (apply_bash_outcome cfg cmd outcome ac))))"
  by (cases outcome) (simp_all add: own_grants_def grant_updates)

lemma own_grants_other:
  "own_grants access (ac_state ac) (ac_state (snd (snd (apply_other_outcome cfg access outcome ac))))"
  by (cases outcome; cases access) (auto simp: own_grants_def grant_updates)


section \<open>Auto mode in the manager\<close>

text \<open>Grants of an auto-forced bash prompt were grants before the classifier.\<close>

lemma post_classify_subsumed:
  assumes "bash_grant_pre_decision X cmd st pin PRE_CLASSIFIER = None"
  shows "bash_grant_pre_decision X cmd st pin (post_classify True) = None"
  using assms by (auto simp: bash_grant_pre_decision_def PRE_CLASSIFIER_def post_classify_def grant_allow_def
      split: segment_evaluation.splits if_split_asm)

lemma auto_forced_no_allow:
  assumes "session_grant_pre_decision (su_externals su) (su_parse_url su) access (ac_state ac) (ac_allow_edits ac)
      (mc_static_domains cfg) (mc_yolo_pin cfg) = None" "\<not> pv_forced pv"
  shows "(case neutralise True access (access_pre_decision su cfg ac pv True access) of
     Some (d, r) \<Rightarrow> d \<noteq> Allow | None \<Rightarrow> True)"
proof (cases access)
  case (Bash cmd)
  then have "bash_grant_pre_decision (su_externals su) cmd (ac_state ac) (mc_yolo_pin cfg) PRE_CLASSIFIER = None"
    using assms(1) by (simp add: session_grant_pre_decision_def)
  then show ?thesis
    using post_classify_subsumed assms(2)
    by (simp add: Bash access_pre_decision_def bash_pre_decision_def neutralise_def)
qed (auto simp: neutralise_def auto_prompt_blocks_allow_def split: option.splits)


section \<open>Prompt policy\<close>

text \<open>Under a prompt policy of deny nobody is ever asked: every request is answered on the spot, and
  the state never changes.\<close>

theorem dont_ask_never_asks:
  assumes "mc_prompt_policy cfg = PromptDeny"
  shows "\<not> ev_user_prompted (fst (snd (handle_request su cfg access outcome ac))) \<and>
    snd (snd (handle_request su cfg access outcome ac)) = ac"
proof -
  have "after_auto su cfg ac pv r access \<noteq> Prompt t" for pv r t
    using assms by (auto simp: after_auto_def Let_def split: option.splits)
  then have "before_prompt su cfg ac access \<noteq> Prompt t" for t
    unfolding before_prompt_def Let_def by (auto split: option.splits decision.splits auto_verdict.splits if_splits)
  then show ?thesis
    by (simp add: handle_request_def emit_event_def split: pre_prompt.splits)
qed

section \<open>The two logs\<close>

fun log_word :: "logged_decision \<Rightarrow> string" where
  "log_word LogAllow = ''allow''"
| "log_word LogDeny = ''reject''"
| "log_word LogCancelled = ''cancelled''"
| "log_word LogFollowup = ''followup''"

lemma log_word_bash:
  "fst (decision_str (fst (apply_bash_outcome cfg cmd outcome ac))) =
   log_word (permission_decision_for_outcome outcome)"
  by (cases outcome) (simp_all add: rejected_once_def prompt_failed_def)

lemma log_word_other:
  "fst (decision_str (fst (apply_other_outcome cfg access outcome ac))) =
   log_word (permission_decision_for_outcome outcome)"
  by (cases outcome) (simp_all add: rejected_once_def prompt_failed_def)

lemma prompted_decision:
  assumes "before_prompt su cfg ac access = Prompt t"
  shows "ev_decision (fst (snd (handle_request su cfg access outcome ac))) =
    fst (decision_str (fst (case access of Bash cmd \<Rightarrow> apply_bash_outcome cfg cmd outcome ac
                            | _ \<Rightarrow> apply_other_outcome cfg access outcome ac)))"
  by (simp add: handle_request_def assms emit_event_def split: prod.split)

text \<open>The two logs agree: for a request put to the user, the decision the prompter records for an
  outcome in its events is the one the manager takes and reports.\<close>

theorem logs_agree:
  assumes "ev_user_prompted (fst (snd (handle_request su cfg access outcome ac)))"
  shows "(permission_decision_for_outcome outcome = LogAllow \<longleftrightarrow>
      ev_decision (fst (snd (handle_request su cfg access outcome ac))) = ''allow'') \<and>
    (permission_decision_for_outcome outcome = LogDeny \<longleftrightarrow>
      ev_decision (fst (snd (handle_request su cfg access outcome ac))) = ''reject'') \<and>
    (permission_decision_for_outcome outcome = LogCancelled \<longleftrightarrow>
      ev_decision (fst (snd (handle_request su cfg access outcome ac))) = ''cancelled'') \<and>
    (permission_decision_for_outcome outcome = LogFollowup \<longleftrightarrow>
      ev_decision (fst (snd (handle_request su cfg access outcome ac))) = ''followup'')"
proof -
  obtain trigger where p: "before_prompt su cfg ac access = Prompt trigger"
    using assms by (auto simp: handle_request_def emit_event_def split: pre_prompt.splits)
  have "ev_decision (fst (snd (handle_request su cfg access outcome ac))) =
      log_word (permission_decision_for_outcome outcome)"
    unfolding prompted_decision [OF p] by (cases access) (simp_all add: log_word_bash log_word_other)
  then show ?thesis by (cases "permission_decision_for_outcome outcome") simp_all
qed

section \<open>The remember gate\<close>

lemma transient_keeps_state:
  assumes "transient outcome"
  shows "ac_state (snd (snd (handle_request su cfg access outcome ac))) = ac_state ac \<and>
    ac_disk (snd (snd (handle_request su cfg access outcome ac))) = ac_disk ac"
  unfolding handled_actor using assms
  by (cases outcome) (simp_all split: pre_prompt.split access_kind.split)

text \<open>With the remember gate off, a prompt leaves nothing behind: whatever option and meta a client
  answers with, the grants in memory and on disk stay as they were.\<close>

theorem gate_off_leaves_no_grant:
  assumes "\<not> pr_remember_tool_approvals p"
  shows "ac_state (snd (snd (handle_request su cfg access (local_outcome X p access reply) ac))) = ac_state ac \<and>
    ac_disk (snd (snd (handle_request su cfg access (local_outcome X p access reply) ac))) = ac_disk ac"
  by (rule transient_keeps_state [OF gate_off_transient [OF assms]])

section \<open>Rejections of wrapped commands\<close>

lemma join_words_suffix_shorter:
  "strict_suffix ws vs \<Longrightarrow> ws \<noteq> [] \<Longrightarrow> length (join_words ws) < length (join_words vs)"
proof -
  assume s: "strict_suffix ws vs" and n: "ws \<noteq> []"
  then obtain us where u: "vs = us @ ws" "us \<noteq> []" by (auto simp: strict_suffix_def suffix_def)
  show ?thesis unfolding u(1) join_words_def join_with_append [OF u(2) n] by simp
qed

lemma wrapped_prefix_dead:
  assumes "strip_wrapper_command ws = Some inner"
  shows "\<not> matches_command_prefix (join_words (unwrap_wrappers ws)) (join_words ws)"
proof -
  have u: "unwrap_wrappers ws = unwrap_upto 7 inner"
    by (simp add: unwrap_wrappers_def assms numeral_eq_Suc)
  have i: "inner \<noteq> []" "strict_suffix inner ws" using strip_wrapper_suffix [OF assms] by auto
  have "suffix (unwrap_wrappers ws) inner" unfolding u by (rule unwrap_upto_suffix)
  then have "strict_suffix (unwrap_wrappers ws) ws" using i(2) by (meson suffix_order.le_less_trans)
  moreover have "unwrap_wrappers ws \<noteq> []" unfolding u by (rule unwrap_upto_nonempty [OF i(1)])
  ultimately have "length (join_words (unwrap_wrappers ws)) < length (join_words ws)"
    by (rule join_words_suffix_shorter)
  then show ?thesis by (auto simp: matches_prefix_iff)
qed

text \<open>C36. "Never allow" has no effect on a wrapped command: when the user rejects for good a command run
  through \<open>env\<close>, \<open>nice\<close> or another wrapper, the words remembered are those with the wrapper, the words
  later held against them are those without, and the same command is never rejected.\<close>

theorem never_allow_misses_wrapped_commands:
  assumes "segments_of X cmd = Some [ws]" "strip_wrapper_command ws = Some inner"
    "st_disallowed_bash st = []"
  shows "evaluate_bash_segments X cmd
      (ac_state (snd (snd (apply_bash_outcome cfg cmd (RejectAlwaysBashCommand (join_words ws)) (ac\<lparr>ac_state := st\<rparr>)))))
    \<noteq> SegReject reason"
proof -
  let ?st = "ac_state (snd (snd (apply_bash_outcome cfg cmd (RejectAlwaysBashCommand (join_words ws)) (ac\<lparr>ac_state := st\<rparr>))))"
  obtain st' where e: "?st = st'" and d: "st_disallowed_bash st' = [join_words ws]"
    by (simp add: disallow_bash_def assms(3) hs_insert_def)
  have "segment_step st' True acc ws \<noteq> Inl reason" for acc
    using wrapped_prefix_dead [OF assms(2)] segment_step_Inl [of st' True acc ws]
    by (auto simp: d disallowed_segment_def Let_def)
  then show ?thesis
    unfolding e using assms(1)
    by (auto simp: segments_of_def evaluate_bash_segments_def evaluate_bash_segments_inner_def
        split: sum.splits if_splits)
qed

section \<open>Concrete requests\<close>

definition demo :: surroundings where
  "demo = \<lparr>su_externals = tiny, su_parse_url = (\<lambda>_. None), su_to_json_text = (\<lambda>_. None),
     su_of_json_text = (\<lambda>_. None), su_sandbox_allows_bash = True\<rparr>"

definition rule :: "rule_action \<Rightarrow> tool_filter \<Rightarrow> permission_rule" where
  "rule a t = \<lparr>rule_action = a, rule_tool = t, rule_pattern = None, rule_mode = Glob\<rparr>"

definition demo_config :: "permission_rule list \<Rightarrow> prompt_policy \<Rightarrow> manager_config" where
  "demo_config rules pp =
     config_of tiny (Some \<lparr>config_rules = rules, config_prompt_policy = pp\<rparr>) ''/w'' [] None None True"

definition demo_actor :: "bool \<Rightarrow> bool \<Rightarrow> actor" where
  "demo_actor yolo auto = (spawn (demo_config [] PromptAsk) None yolo Map.empty)\<lparr>ac_auto_mode := auto\<rparr>"

lemma demo_policy: "mc_policy (demo_config rules pp) =
    Some (policy_new (su_externals demo) \<lparr>config_rules = rules, config_prompt_policy = pp\<rparr>)"
  by (simp add: demo_config_def config_of_def demo_def)

lemma demo_compiled: "compiled (su_externals demo) (demo_config rules pp)"
  by (auto simp: compiled_def demo_policy)

lemma demo_yolo: "ac_yolo_mode (demo_actor yolo auto) = yolo"
  by (simp add: demo_actor_def spawn_def migrate_edit_policy_def load_state_from_dir_def default_state_def
      demo_config_def config_of_def clamp_yolo_def Let_def)

lemma demo_applies: "rule_applies X access (rule a t) \<longleftrightarrow> tool_filter_matches access t"
  by (simp add: rule_applies_def rule_def pattern_matches_def)

theorem managed_denials_win_witness:
  "\<exists>r ev. handle_request demo (demo_config [rule RuleDeny FEdit] PromptAsk) (Edit ''a.rs'') AllowOnce
     (demo_actor True False) = (PolicyDeny r, ev, demo_actor True False)"
proof -
  have "policy_denies (su_externals demo) \<lparr>config_rules = [rule RuleDeny FEdit], config_prompt_policy = PromptAsk\<rparr>
      (mc_cwd (demo_config [rule RuleDeny FEdit] PromptAsk)) (Edit ''a.rs'')"
    by (simp add: policy_denies_def demo_applies) (simp add: rule_def)
  from managed_denials_win [OF demo_policy this] show ?thesis by blast
qed

lemma demo_ask:
  assumes "\<not> is_bash_access access" "tool_filter_matches access t"
  shows "pv_forced (policy_of demo (demo_config [rule RuleAsk t] pp) access)"
proof -
  have "\<not> rules_match tiny access [rule RuleAsk t] RuleDeny" "rules_match tiny access [rule RuleAsk t] RuleAsk"
    using assms(2) by (simp_all add: demo_applies) (simp_all add: rule_def)
  then have "evaluate tiny (policy_new tiny \<lparr>config_rules = [rule RuleAsk t], config_prompt_policy = pp\<rparr>) access = Some Ask"
    by (simp add: evaluate_undenied)
  then show ?thesis
    using assms(1) by (cases access) (simp_all add: pv_forced_def policy_verdict_def Let_def demo_policy
        shell_verdict_def, simp_all add: demo_def)
qed


theorem always_approve_skips_other_ask_rules_witness:
  "\<exists>ev. handle_request demo (demo_config [rule RuleAsk FEdit] PromptAsk) (Edit ''a.rs'') RejectOnce
     (demo_actor True False) = (Allow, ev, demo_actor True False)"
proof -
  have f: "pv_forced (policy_of demo (demo_config [rule RuleAsk FEdit] PromptAsk) (Edit ''a.rs''))"
    by (rule demo_ask) simp_all
  have "\<not> denies (pv_decision (policy_of demo (demo_config [rule RuleAsk FEdit] PromptAsk) (Edit ''a.rs'')))"
    using f by (simp add: pv_forced_def)
  moreover have "\<not> pv_shell_forced (policy_of demo (demo_config [rule RuleAsk FEdit] PromptAsk) (Edit ''a.rs''))"
    using shell_forced_bash by fastforce
  moreover have "ac_yolo_mode (demo_actor True False)" by (simp add: demo_yolo)
  ultimately show ?thesis
    using always_approve_skips_other_ask_rules [OF _ demo_compiled, of "demo_actor True False"] by blast
qed

lemma demo_auto: "ac_auto_mode (demo_actor yolo auto) = auto" by (simp add: demo_actor_def)

lemma demo_silent: "pv_decision (policy_of demo (demo_config [] pp) access) = None"
  by (cases access) (simp_all add: policy_verdict_def shell_verdict_def Let_def demo_policy evaluate_undenied
      evaluate_bash_command_policy_def evaluate_shell_file_access_def policy_new_def evaluate_def)


theorem dont_ask_never_asks_witness:
  "\<not> ev_user_prompted (fst (snd (handle_request demo (demo_config [] PromptDeny) (Edit ''a.rs'') AllowOnce
     (demo_actor False False))))"
  using dont_ask_never_asks [of "demo_config [] PromptDeny" demo "Edit ''a.rs''" AllowOnce "demo_actor False False"]
  by (simp add: demo_config_def config_of_def)

theorem logs_agree_witness:
  "ev_decision (fst (snd (handle_request demo (demo_config [] PromptAsk) (MCPTool ''s__t'' JNull) RejectOnce
     (demo_actor False False)))) = ''reject''"
proof -
  have "ev_user_prompted (fst (snd (handle_request demo (demo_config [] PromptAsk) (MCPTool ''s__t'' JNull) RejectOnce
     (demo_actor False False))))" by code_simp
  from logs_agree [OF this] show ?thesis by simp
qed

theorem gate_off_leaves_no_grant_witness:
  "ac_disk (snd (snd (handle_request demo (demo_config [] PromptAsk) (MCPTool ''s__t'' JNull)
     (local_outcome tiny \<lparr>pr_client_type = GrokPager, pr_remember_tool_approvals = False\<rparr> (MCPTool ''s__t'' JNull)
        (GatewaySelected ''allow-always-mcp'' None)) (demo_actor False False)))) = ac_disk (demo_actor False False)"
  by (rule conjunct2 [OF gate_off_leaves_no_grant]) simp

theorem never_allow_misses_wrapped_commands_witness:
  "evaluate_bash_segments (shell_for [[''nice'', ''rm'', ''x'']]) ''nice rm x''
     (ac_state (snd (snd (apply_bash_outcome (demo_config [] PromptAsk) ''nice rm x''
        (RejectAlwaysBashCommand (join_words [''nice'', ''rm'', ''x''])) ((demo_actor False False)\<lparr>ac_state := default_state\<rparr>)))))
   \<noteq> SegReject ''any''"
proof (rule never_allow_misses_wrapped_commands)
  show "segments_of (shell_for [[''nice'', ''rm'', ''x'']]) ''nice rm x'' = Some [[''nice'', ''rm'', ''x'']]" by code_simp
  show "strip_wrapper_command [''nice'', ''rm'', ''x''] = Some [''rm'', ''x'']" by code_simp
qed (simp add: default_state_def)

end
