(* ===== verification/PermModes.thy ===== *)
theory PermModes
  imports PermManagerSpec
begin

text \<open>
  The mode flags of \<open>PermissionHandle\<close>: atomics written by every clone of the handle and by the actor,
  which the handle also tells through the command queue.  Every store and every send is a step of its
  own, and the calls of concurrent callers and the actor interleave in any order.
\<close>

datatype flag = YoloFlag | AutoFlag

text \<open>The stores of a mode command, in order: the same ones in the handle and in the actor.\<close>

fun flag_writes :: "string option \<Rightarrow> command \<Rightarrow> (flag \<times> bool) list" where
  "flag_writes pin (SetYoloMode enabled) =
     (let clamped = clamp_yolo enabled pin in
      (YoloFlag, clamped) # (if clamped then [(AutoFlag, False)] else []))"
| "flag_writes pin (SetAutoMode enabled) =
     (AutoFlag, enabled) # (if enabled then [(YoloFlag, False)] else [])"
| "flag_writes pin _ = []"

datatype micro_op = Store flag bool | Send command

definition handle_call :: "string option \<Rightarrow> command \<Rightarrow> micro_op list" where
  "handle_call pin c = map (\<lambda>(f, b). Store f b) (flag_writes pin c) @ [Send c]"

fun mode_command :: "command \<Rightarrow> bool" where
  "mode_command (SetYoloMode _) = True"
| "mode_command (SetAutoMode _) = True"
| "mode_command _ = False"

record modes =
  atomics :: "flag \<Rightarrow> bool"
  calls :: "micro_op list list"
  queue :: "command list"
  actor_flags :: "flag \<Rightarrow> bool"
  actor_todo :: "(flag \<times> bool) list"

definition apply_writes :: "(flag \<times> bool) list \<Rightarrow> (flag \<Rightarrow> bool) \<Rightarrow> flag \<Rightarrow> bool" where
  "apply_writes ws fl = foldl (\<lambda>fl (f, b). fl(f := b)) fl ws"

definition modes_init :: "string option \<Rightarrow> bool \<Rightarrow> permission_config option \<Rightarrow> modes" where
  "modes_init pin requested_yolo config =
     (let y = clamp_yolo requested_yolo pin;
          fl = (\<lambda>f. case f of YoloFlag \<Rightarrow> y | AutoFlag \<Rightarrow> seed_auto y config)
      in \<lparr>atomics = fl, calls = [], queue = [], actor_flags = fl, actor_todo = []\<rparr>)"

inductive modes_step :: "string option \<Rightarrow> modes \<Rightarrow> modes \<Rightarrow> bool" for pin where
  step_call: "modes_step pin s (s\<lparr>calls := handle_call pin c # calls s\<rparr>)" if "mode_command c"
| step_store: "modes_step pin s (s\<lparr>atomics := (atomics s)(f := b), calls := cs @ ms # ds\<rparr>)"
    if "calls s = cs @ (Store f b # ms) # ds"
| step_send: "modes_step pin s (s\<lparr>queue := queue s @ [c], calls := cs @ ms # ds\<rparr>)"
    if "calls s = cs @ (Send c # ms) # ds"
| step_return: "modes_step pin s (s\<lparr>calls := cs @ ds\<rparr>)" if "calls s = cs @ [] # ds"
| step_dequeue: "modes_step pin s
      (s\<lparr>queue := q, actor_flags := apply_writes (flag_writes pin c) (actor_flags s),
         actor_todo := flag_writes pin c\<rparr>)"
    if "queue s = c # q" "actor_todo s = []"
| step_actor_store: "modes_step pin s (s\<lparr>atomics := (atomics s)(f := b), actor_todo := todo\<rparr>)"
    if "actor_todo s = (f, b) # todo"

inductive_cases modes_stepE: "modes_step pin s s'"

inductive modes_reachable :: "string option \<Rightarrow> modes \<Rightarrow> modes \<Rightarrow> bool" for pin where
  modes_start: "modes_reachable pin s s"
| modes_next: "modes_reachable pin s u" if "modes_reachable pin s t" "modes_step pin t u"

text \<open>The actor's flags follow the model of the actor.\<close>

lemma actor_flags_follow:
  assumes "mode_command c" "actor_step cfg c ac = Some ac'"
    "fl YoloFlag = ac_yolo_mode ac" "fl AutoFlag = ac_auto_mode ac"
  shows "apply_writes (flag_writes (mc_yolo_pin cfg) c) fl YoloFlag = ac_yolo_mode ac' \<and>
    apply_writes (flag_writes (mc_yolo_pin cfg) c) fl AutoFlag = ac_auto_mode ac'"
  using assms
  by (cases c) (auto simp: apply_writes_def set_yolo_mode_def set_auto_mode_def Let_def)

section \<open>Invariant\<close>

definition writes :: "string option \<Rightarrow> command \<Rightarrow> flag \<Rightarrow> bool" where
  "writes pin c f \<longleftrightarrow> f \<in> fst ` set (flag_writes pin c)"

text \<open>A store of the flag that the actor still has to make, or a command that will make it.\<close>

definition pending :: "string option \<Rightarrow> modes \<Rightarrow> flag \<Rightarrow> bool" where
  "pending pin s f \<longleftrightarrow>
     f \<in> fst ` set (actor_todo s) \<or> (\<exists>c \<in> set (queue s). writes pin c f) \<or>
     (\<exists>ms \<in> set (calls s). \<exists>c. Send c \<in> set ms \<and> writes pin c f)"

text \<open>A call under way is the rest of a mode command's call.\<close>

definition call_ok :: "string option \<Rightarrow> micro_op list \<Rightarrow> bool" where
  "call_ok pin ms \<longleftrightarrow> ms = [] \<or> (\<exists>c. mode_command c \<and> suffix ms (handle_call pin c))"

definition modes_inv :: "string option \<Rightarrow> modes \<Rightarrow> bool" where
  "modes_inv pin s \<longleftrightarrow>
     (\<forall>f. atomics s f = actor_flags s f \<or> pending pin s f) \<and>
     (\<forall>(f, b) \<in> set (actor_todo s). b = actor_flags s f) \<and>
     (\<forall>ms \<in> set (calls s). call_ok pin ms) \<and>
     \<not> (actor_flags s YoloFlag \<and> actor_flags s AutoFlag) \<and>
     (pin \<noteq> None \<longrightarrow> \<not> atomics s YoloFlag \<and> \<not> actor_flags s YoloFlag)"

lemma call_ok_handle [simp]: "mode_command c \<Longrightarrow> call_ok pin (handle_call pin c)"
  by (auto simp: call_ok_def)

lemma suffix_of_call:
  assumes "suffix (m # ms) (map g ws @ [x])"
  shows "(m = x \<and> ms = []) \<or> (m \<in> g ` set ws \<and> x \<in> set ms \<and> suffix ms (map g ws @ [x]))"
proof -
  obtain us where us: "map g ws @ [x] = us @ m # ms" using assms by (auto simp: suffix_def)
  have sf: "suffix ms (map g ws @ [x])" using us by (auto simp: suffix_def intro: exI [of _ "us @ [m]"])
  show ?thesis
  proof (cases ms rule: rev_cases)
    case Nil
    then show ?thesis using us by simp
  next
    case (snoc ys y)
    then have "map g ws = us @ m # ys" "x = y" using us by auto
    then have "m \<in> set (map g ws)" by simp
    then show ?thesis using sf snoc \<open>x = y\<close> by auto
  qed
qed

lemma call_ok_Store:
  assumes "call_ok pin (Store f b # ms)"
  shows "\<exists>c. mode_command c \<and> (f, b) \<in> set (flag_writes pin c) \<and> Send c \<in> set ms \<and> call_ok pin ms"
proof -
  obtain c where c: "mode_command c" "suffix (Store f b # ms) (map (\<lambda>(f, b). Store f b) (flag_writes pin c) @ [Send c])"
    using assms by (auto simp: call_ok_def handle_call_def)
  from suffix_of_call [OF c(2)] show ?thesis using c(1) by (auto simp: call_ok_def handle_call_def)
qed

lemma call_ok_Send:
  assumes "call_ok pin (Send c # ms)"
  shows "mode_command c \<and> ms = []"
proof -
  obtain d where d: "mode_command d" "suffix (Send c # ms) (map (\<lambda>(f, b). Store f b) (flag_writes pin d) @ [Send d])"
    using assms by (auto simp: call_ok_def handle_call_def)
  from suffix_of_call [OF d(2)] show ?thesis using d(1) by auto
qed

lemma writes_pinned: "(YoloFlag, b) \<in> set (flag_writes pin c) \<Longrightarrow> pin \<noteq> None \<Longrightarrow> \<not> b"
  by (cases c) (auto simp: clamp_yolo_def Let_def split: if_splits)

lemma apply_writes_other: "\<not> writes pin c f \<Longrightarrow> apply_writes (flag_writes pin c) fl f = fl f"
  by (cases c) (auto simp: writes_def apply_writes_def Let_def)

lemma apply_writes_value: "(f, b) \<in> set (flag_writes pin c) \<Longrightarrow> b = apply_writes (flag_writes pin c) fl f"
  by (cases c) (auto simp: apply_writes_def Let_def split: if_splits)

lemma apply_writes_exclusive:
  "\<not> (fl YoloFlag \<and> fl AutoFlag) \<Longrightarrow>
   \<not> (apply_writes (flag_writes pin c) fl YoloFlag \<and> apply_writes (flag_writes pin c) fl AutoFlag)"
  by (cases c) (auto simp: apply_writes_def Let_def)

lemma apply_writes_pinned:
  "pin \<noteq> None \<Longrightarrow> \<not> fl YoloFlag \<Longrightarrow> \<not> apply_writes (flag_writes pin c) fl YoloFlag"
  by (cases c) (auto simp: apply_writes_def clamp_yolo_def Let_def)

lemma modes_inv_init: "modes_inv pin (modes_init pin y config)"
  by (auto simp: modes_inv_def modes_init_def seed_auto_def clamp_yolo_def Let_def)

lemma modes_inv_step:
  assumes "modes_inv pin s" "modes_step pin s s'"
  shows "modes_inv pin s'"
  using assms(2)
proof cases
  case (step_call c)
  then show ?thesis using assms(1) by (auto simp: modes_inv_def pending_def)
next
  case (step_store cs f b ms ds)
  have "call_ok pin (Store f b # ms)" using assms(1) step_store(2) by (auto simp: modes_inv_def)
  from call_ok_Store [OF this] obtain c where
    c: "(f, b) \<in> set (flag_writes pin c)" "Send c \<in> set ms" "call_ok pin ms" by blast
  have "writes pin c f" using c(1) by (force simp: writes_def)
  then have p: "pending pin s' f" using c(2) step_store by (auto simp: pending_def)
  have q: "pending pin s g \<Longrightarrow> pending pin s' g" for g using step_store by (auto simp: pending_def)
  show ?thesis
    using assms(1) p q c(3) writes_pinned [of b pin c] c(1) step_store by (auto simp: modes_inv_def)
next
  case (step_send cs c ms ds)
  have "call_ok pin (Send c # ms)" using assms(1) step_send(2) by (auto simp: modes_inv_def)
  then have m: "ms = []" using call_ok_Send by blast
  have q: "pending pin s g \<Longrightarrow> pending pin s' g" for g using step_send m by (auto simp: pending_def)
  show ?thesis using assms(1) q step_send m by (auto simp: modes_inv_def call_ok_def)
next
  case (step_return cs ds)
  have q: "pending pin s g \<Longrightarrow> pending pin s' g" for g using step_return by (auto simp: pending_def)
  show ?thesis using assms(1) q step_return by (auto simp: modes_inv_def)
next
  case (step_dequeue c q)
  have keep: "atomics s' g = actor_flags s' g \<or> pending pin s' g" for g
  proof (cases "writes pin c g")
    case True
    then show ?thesis using step_dequeue by (auto simp: pending_def writes_def)
  next
    case False
    have "pending pin s g \<Longrightarrow> pending pin s' g" using False step_dequeue by (auto simp: pending_def)
    then show ?thesis
      using assms(1) apply_writes_other [OF False, of "actor_flags s"] step_dequeue by (auto simp: modes_inv_def)
  qed
  have pin: "pin \<noteq> None \<Longrightarrow> \<not> actor_flags s' YoloFlag"
    using assms(1) apply_writes_pinned [of pin "actor_flags s" c] step_dequeue(1) by (auto simp: modes_inv_def)
  show ?thesis
    using assms(1) keep pin apply_writes_exclusive [of "actor_flags s" pin c] step_dequeue apply_writes_value
    by (auto simp: modes_inv_def)
next
  case (step_actor_store f b todo)
  have b: "b = actor_flags s f" using assms(1) step_actor_store(2) by (auto simp: modes_inv_def)
  have q: "pending pin s g \<Longrightarrow> g \<noteq> f \<Longrightarrow> pending pin s' g" for g using step_actor_store by (auto simp: pending_def)
  show ?thesis using assms(1) b q step_actor_store by (auto simp: modes_inv_def)
qed

lemma modes_inv_reachable: "modes_reachable pin s t \<Longrightarrow> modes_inv pin s \<Longrightarrow> modes_inv pin t"
  by (induction rule: modes_reachable.induct) (auto intro: modes_inv_step)

section \<open>Agreement\<close>

definition quiescent :: "modes \<Rightarrow> bool" where
  "quiescent s \<longleftrightarrow> calls s = [] \<and> queue s = [] \<and> actor_todo s = []"

text \<open>C5. The flags every holder of a handle reads converge to the actor's: under any interleaving of
  concurrent mode changes with the actor, once the calls have returned and the queue is drained the
  atomics are the actor's flags and not both set; and under the managed pin no interleaving ever
  shows always-approve, not even in between.\<close>

theorem mode_flags_converge:
  assumes "modes_reachable pin (modes_init pin requested_yolo config) s"
  shows "(quiescent s \<longrightarrow> atomics s = actor_flags s \<and> \<not> (atomics s YoloFlag \<and> atomics s AutoFlag)) \<and>
    (pin \<noteq> None \<longrightarrow> \<not> atomics s YoloFlag \<and> \<not> actor_flags s YoloFlag)"
proof -
  have i: "modes_inv pin s" by (rule modes_inv_reachable [OF assms modes_inv_init])
  have "atomics s = actor_flags s" if "quiescent s"
    using i that by (auto simp: modes_inv_def quiescent_def pending_def fun_eq_iff)
  then show ?thesis using i by (auto simp: modes_inv_def)
qed

theorem mode_flags_converge_witness:
  "atomics (modes_init None True None) = actor_flags (modes_init None True None)"
  using mode_flags_converge [OF modes_start [of None "modes_init None True None"]]
  by (auto simp: quiescent_def modes_init_def Let_def)

section \<open>In between\<close>

text \<open>A run of a single caller: the micro-steps of its calls one after the other, then the actor's.\<close>

fun exec_op :: "micro_op \<Rightarrow> modes \<Rightarrow> modes" where
  "exec_op (Store f b) s = s\<lparr>atomics := (atomics s)(f := b)\<rparr>"
| "exec_op (Send c) s = s\<lparr>queue := queue s @ [c]\<rparr>"

lemma exec_ops_calls:
  "(fold exec_op ms (u\<lparr>calls := cs\<rparr>))\<lparr>calls := ds\<rparr> = (fold exec_op ms u)\<lparr>calls := ds\<rparr>"
proof (induction ms arbitrary: u)
  case (Cons x xs)
  have "exec_op x (u\<lparr>calls := cs\<rparr>) = (exec_op x u)\<lparr>calls := cs\<rparr>" by (cases x) simp_all
  then show ?case using Cons by simp
qed simp

lemma exec_ops_reachable:
  "modes_reachable pin s t \<Longrightarrow> calls t = [ms] \<Longrightarrow>
   modes_reachable pin s ((fold exec_op ms t)\<lparr>calls := [[]]\<rparr>)"
proof (induction ms arbitrary: t)
  case (Cons m ms)
  have "modes_step pin t ((exec_op m t)\<lparr>calls := [ms]\<rparr>)"
  proof (cases m)
    case (Store f b)
    then show ?thesis using step_store [of t "[]" f b ms "[]" pin] Cons.prems(2) by simp
  next
    case (Send c)
    then show ?thesis using step_send [of t "[]" c ms "[]" pin] Cons.prems(2) by simp
  qed
  then have "modes_reachable pin s ((exec_op m t)\<lparr>calls := [ms]\<rparr>)" by (rule modes_next [OF Cons.prems(1)])
  from Cons.IH [OF this] have "modes_reachable pin s ((fold exec_op ms ((exec_op m t)\<lparr>calls := [ms]\<rparr>))\<lparr>calls := [[]]\<rparr>)"
    by simp
  then show ?case by (simp only: exec_ops_calls fold_Cons comp_def)
next
  case Nil
  have "t\<lparr>calls := [[]]\<rparr> = t" using Nil(2) by (cases t) simp
  then show ?case using Nil(1) by simp
qed

lemma whole_call_reachable:
  assumes "modes_reachable pin s t" "calls t = []" "mode_command c"
  shows "modes_reachable pin s ((fold exec_op (handle_call pin c) t)\<lparr>calls := []\<rparr>)"
proof -
  let ?t = "t\<lparr>calls := handle_call pin c # calls t\<rparr>"
  have "modes_reachable pin s ?t" using step_call [OF assms(3)] modes_next [OF assms(1)] by blast
  from exec_ops_reachable [OF this] assms(2)
  have r: "modes_reachable pin s ((fold exec_op (handle_call pin c) ?t)\<lparr>calls := [[]]\<rparr>)" by simp
  have "modes_step pin ((fold exec_op (handle_call pin c) ?t)\<lparr>calls := [[]]\<rparr>)
      ((fold exec_op (handle_call pin c) ?t)\<lparr>calls := []\<rparr>)"
    using step_return [of "(fold exec_op (handle_call pin c) ?t)\<lparr>calls := [[]]\<rparr>" "[]" "[]" pin] by simp
  from modes_next [OF r this] show ?thesis by (simp only: exec_ops_calls)
qed

text \<open>In between they need not agree: there is a run of a single caller in which the call that turns
  always-approve on has returned as the last one, yet the handle reads it as off, because the actor
  is still storing the outcome of the call before it.\<close>

theorem returned_mode_call_can_read_stale:
  "\<exists>s. modes_reachable None (modes_init None False None) s \<and> calls s = [] \<and>
     queue s = [SetYoloMode True] \<and> \<not> atomics s YoloFlag"
proof -
  let ?i = "modes_init None False None"
  let ?a = "(fold exec_op (handle_call None (SetAutoMode True)) ?i)\<lparr>calls := []\<rparr>"
  let ?b = "(fold exec_op (handle_call None (SetYoloMode True)) ?a)\<lparr>calls := []\<rparr>"
  have a: "modes_reachable None ?i ?a" by (rule whole_call_reachable [OF modes_start]) (simp_all add: modes_init_def Let_def)
  have b: "modes_reachable None ?i ?b" by (rule whole_call_reachable [OF a]) simp_all
  have q: "queue ?b = [SetAutoMode True, SetYoloMode True]" "actor_todo ?b = []" "calls ?b = []"
    by (simp_all add: handle_call_def modes_init_def clamp_yolo_def Let_def)
  let ?c = "?b\<lparr>queue := [SetYoloMode True], actor_flags := apply_writes (flag_writes None (SetAutoMode True)) (actor_flags ?b),
    actor_todo := flag_writes None (SetAutoMode True)\<rparr>"
  have c: "modes_reachable None ?i ?c" by (rule modes_next [OF b step_dequeue [OF q(1,2)]])
  have ct: "actor_todo ?c = [(AutoFlag, True), (YoloFlag, False)]" by simp
  let ?d = "?c\<lparr>atomics := (atomics ?c)(AutoFlag := True), actor_todo := [(YoloFlag, False)]\<rparr>"
  have d: "modes_reachable None ?i ?d" by (rule modes_next [OF c step_actor_store [OF ct]])
  have dt: "actor_todo ?d = [(YoloFlag, False)]" by simp
  let ?e = "?d\<lparr>atomics := (atomics ?d)(YoloFlag := False), actor_todo := []\<rparr>"
  have e: "modes_reachable None ?i ?e" by (rule modes_next [OF d step_actor_store [OF dt]])
  have "calls ?e = []" "queue ?e = [SetYoloMode True]" "\<not> atomics ?e YoloFlag" using q(3) by simp_all
  then show ?thesis using e by blast
qed

end
