(* ===== verification/SeekSequence.thy ===== *)
theory SeekSequence
  imports Prelude
begin

text \<open>
  The fuzzy line matcher of the patch engine, \<open>codex/apply_patch/seek_sequence.rs\<close>: a block of lines is
  searched exactly, then up to trailing white space, then up to surrounding white space, then up
  to typographic punctuation.  The four loops of the code differ in the key they compare by; they
  are the four tiers of \<open>tiers\<close>.
\<close>

section \<open>Normalisation\<close>

text \<open>The code points of the \<open>match\<close> in \<open>normalise\<close>, as UTF-8, with their ASCII forms.  No sequence
  starts inside another character, so a search on bytes finds exactly the characters.\<close>

definition DASHES :: "string list" where
  "DASHES =
     [[CHR 0xE2, CHR 0x80, CHR 0x90], [CHR 0xE2, CHR 0x80, CHR 0x91], [CHR 0xE2, CHR 0x80, CHR 0x92],
      [CHR 0xE2, CHR 0x80, CHR 0x93], [CHR 0xE2, CHR 0x80, CHR 0x94], [CHR 0xE2, CHR 0x80, CHR 0x95],
      [CHR 0xE2, CHR 0x88, CHR 0x92]]"

definition SINGLE_QUOTES :: "string list" where
  "SINGLE_QUOTES =
     [[CHR 0xE2, CHR 0x80, CHR 0x98], [CHR 0xE2, CHR 0x80, CHR 0x99], [CHR 0xE2, CHR 0x80, CHR 0x9A],
      [CHR 0xE2, CHR 0x80, CHR 0x9B]]"

definition DOUBLE_QUOTES :: "string list" where
  "DOUBLE_QUOTES =
     [[CHR 0xE2, CHR 0x80, CHR 0x9C], [CHR 0xE2, CHR 0x80, CHR 0x9D], [CHR 0xE2, CHR 0x80, CHR 0x9E],
      [CHR 0xE2, CHR 0x80, CHR 0x9F]]"

definition ODD_SPACES :: "string list" where
  "ODD_SPACES =
     [[CHR 0xC2, CHR 0xA0], [CHR 0xE2, CHR 0x80, CHR 0x82], [CHR 0xE2, CHR 0x80, CHR 0x83],
      [CHR 0xE2, CHR 0x80, CHR 0x84], [CHR 0xE2, CHR 0x80, CHR 0x85], [CHR 0xE2, CHR 0x80, CHR 0x86],
      [CHR 0xE2, CHR 0x80, CHR 0x87], [CHR 0xE2, CHR 0x80, CHR 0x88], [CHR 0xE2, CHR 0x80, CHR 0x89],
      [CHR 0xE2, CHR 0x80, CHR 0x8A], [CHR 0xE2, CHR 0x80, CHR 0xAF], [CHR 0xE2, CHR 0x81, CHR 0x9F],
      [CHR 0xE3, CHR 0x80, CHR 0x80]]"

definition ascii_forms :: "(string \<times> string) list" where
  "ascii_forms =
     map (\<lambda>p. (p, ''-'')) DASHES @ map (\<lambda>p. (p, [CHR 39])) SINGLE_QUOTES @
     map (\<lambda>p. (p, [CHR 34])) DOUBLE_QUOTES @ map (\<lambda>p. (p, '' '')) ODD_SPACES"

function map_punctuation :: "string \<Rightarrow> string" where
  "map_punctuation [] = []"
| "map_punctuation (c # cs) =
     (case find (\<lambda>(p, _). starts_with (c # cs) p) ascii_forms of
        Some (p, a) \<Rightarrow> a @ map_punctuation (drop (length p - 1) cs)
      | None \<Rightarrow> c # map_punctuation cs)"
  by pat_completeness auto
termination
  by (relation "measure length") auto

definition normalise :: "string \<Rightarrow> string" where
  "normalise s = map_punctuation (trim s)"

section \<open>The search\<close>

definition window_matches :: "(string \<Rightarrow> string) \<Rightarrow> string list \<Rightarrow> string list \<Rightarrow> nat \<Rightarrow> bool" where
  "window_matches key lines pattern i \<longleftrightarrow>
     list_all2 (\<lambda>l p. key l = key p) (take (length pattern) (drop i lines)) pattern"

text \<open>\<open>for i in search_start..=lines.len().saturating_sub(pattern.len())\<close>.\<close>

definition pass :: "(string \<Rightarrow> string) \<Rightarrow> string list \<Rightarrow> string list \<Rightarrow> nat \<Rightarrow> nat option" where
  "pass key lines pattern search_start =
     find (window_matches key lines pattern) [search_start ..< Suc (length lines - length pattern)]"

definition tiers :: "(string \<Rightarrow> string) list" where
  "tiers = [\<lambda>s. s, trim_end, trim, normalise]"

fun first_pass :: "(string \<Rightarrow> string) list \<Rightarrow> string list \<Rightarrow> string list \<Rightarrow> nat \<Rightarrow> nat option" where
  "first_pass [] lines pattern search_start = None"
| "first_pass (key # keys) lines pattern search_start =
     (case pass key lines pattern search_start of
        Some i \<Rightarrow> Some i
      | None \<Rightarrow> first_pass keys lines pattern search_start)"

definition seek_sequence :: "string list \<Rightarrow> string list \<Rightarrow> nat \<Rightarrow> bool \<Rightarrow> nat option" where
  "seek_sequence lines pattern start eof =
     (if pattern = [] then Some start
      else if length lines < length pattern then None
      else first_pass tiers lines pattern
             (if eof \<and> length pattern \<le> length lines then length lines - length pattern else start))"

section \<open>What it finds\<close>

lemma find_upt_Some_iff:
  "find P [a ..< b] = Some i \<longleftrightarrow> a \<le> i \<and> i < b \<and> P i \<and> (\<forall>j. a \<le> j \<and> j < i \<longrightarrow> \<not> P j)"
proof (induction "b - a" arbitrary: a)
  case 0
  then show ?case by auto
next
  case (Suc n)
  then have "a < b" by simp
  with Suc have "find P [Suc a ..< b] = Some i \<longleftrightarrow>
      Suc a \<le> i \<and> i < b \<and> P i \<and> (\<forall>j. Suc a \<le> j \<and> j < i \<longrightarrow> \<not> P j)" by simp
  then show ?case
    using \<open>a < b\<close> by (subst upt_conv_Cons) (auto simp: Suc_le_eq order_less_le)
qed

lemma window_matches_iff:
  assumes "i + length pattern \<le> length lines"
  shows "window_matches key lines pattern i \<longleftrightarrow>
    (\<forall>k < length pattern. key (lines ! (i + k)) = key (pattern ! k))"
  using assms by (auto simp: window_matches_def list_all2_conv_all_nth)

lemma pass_Some_iff:
  assumes "length pattern \<le> length lines"
  shows "pass key lines pattern s = Some i \<longleftrightarrow>
    s \<le> i \<and> i + length pattern \<le> length lines \<and> window_matches key lines pattern i \<and>
    (\<forall>j. s \<le> j \<and> j < i \<longrightarrow> \<not> window_matches key lines pattern j)"
  using assms unfolding pass_def find_upt_Some_iff by auto

lemma pass_None_iff:
  assumes "length pattern \<le> length lines"
  shows "pass key lines pattern s = None \<longleftrightarrow>
    (\<forall>j. s \<le> j \<and> j + length pattern \<le> length lines \<longrightarrow> \<not> window_matches key lines pattern j)"
  using assms by (auto simp: pass_def find_None)

lemma first_pass_Some_iff:
  "first_pass keys lines pattern s = Some i \<longleftrightarrow>
   (\<exists>k < length keys. pass (keys ! k) lines pattern s = Some i \<and>
      (\<forall>j < k. pass (keys ! j) lines pattern s = None))"
proof (induction keys)
  case (Cons key keys)
  show ?case
  proof (cases "pass key lines pattern s")
    case None
    with Cons show ?thesis by (simp add: Ex_less_Suc2 All_less_Suc2)
  next
    case (Some i')
    then show ?thesis by (simp add: Ex_less_Suc2 All_less_Suc2)
  qed
qed simp

text \<open>Two blocks of lines are similar if some tier cannot tell them apart, line by line.\<close>

definition similar :: "string list \<Rightarrow> string list \<Rightarrow> bool" where
  "similar old pattern \<longleftrightarrow> (\<exists>key \<in> set tiers. map key old = map key pattern)"

lemma similar_length: "similar old pattern \<Longrightarrow> length old = length pattern"
  by (auto simp: similar_def dest: map_eq_imp_length_eq)

lemma similar_refl [simp]: "similar old old"
  by (auto simp: similar_def tiers_def)

lemma window_matches_map:
  "window_matches key lines pattern i \<Longrightarrow>
   map key (take (length pattern) (drop i lines)) = map key pattern"
  by (auto simp: window_matches_def list_all2_conv_all_nth intro!: nth_equalityI)

lemma seek_sequence_SomeD:
  assumes "seek_sequence lines pattern start eof = Some i" "start \<le> length lines"
  shows "i + length pattern \<le> length lines" "similar (take (length pattern) (drop i lines)) pattern"
    "\<not> eof \<Longrightarrow> start \<le> i"
proof -
  have "i + length pattern \<le> length lines \<and> similar (take (length pattern) (drop i lines)) pattern \<and>
    (\<not> eof \<longrightarrow> start \<le> i)"
  proof (cases "pattern = []")
    case False
    with assms have le: "length pattern \<le> length lines"
      by (simp add: seek_sequence_def split: if_split_asm)
    obtain k where k: "k < length tiers"
      "pass (tiers ! k) lines pattern
         (if eof \<and> length pattern \<le> length lines then length lines - length pattern else start) = Some i"
      using assms False le by (auto simp: seek_sequence_def first_pass_Some_iff)
    from k(2) le have "i + length pattern \<le> length lines"
      "window_matches (tiers ! k) lines pattern i" "\<not> eof \<longrightarrow> start \<le> i"
      unfolding pass_Some_iff [OF le] by (simp_all split: if_split_asm)
    moreover from this(2) k(1) have "similar (take (length pattern) (drop i lines)) pattern"
      unfolding similar_def by (blast intro: window_matches_map nth_mem)
    ultimately show ?thesis by blast
  qed (use assms in \<open>auto simp: seek_sequence_def\<close>)
  then show "i + length pattern \<le> length lines"
    "similar (take (length pattern) (drop i lines)) pattern" "\<not> eof \<Longrightarrow> start \<le> i" by blast+
qed

text \<open>The matcher returns the first position of the strictest tier that matches anywhere in its range,
  and an end-of-file pattern has the last position for its only candidate: there is no fallback to
  a search from \<open>start\<close>.\<close>

theorem seek_strictest_first:
  assumes "pattern \<noteq> []" "length pattern \<le> length lines"
  shows "seek_sequence lines pattern start eof = Some i \<longleftrightarrow>
    (let s = (if eof then length lines - length pattern else start);
         fits = (\<lambda>k j. s \<le> j \<and> j + length pattern \<le> length lines \<and>
                   (\<forall>m < length pattern. (tiers ! k) (lines ! (j + m)) = (tiers ! k) (pattern ! m)))
     in \<exists>k < length tiers. fits k i \<and> (\<forall>j < i. \<not> fits k j) \<and> (\<forall>k' < k. \<forall>j. \<not> fits k' j))"
proof -
  let ?s = "if eof then length lines - length pattern else start"
  have some: "pass key lines pattern s = Some i \<longleftrightarrow>
      s \<le> i \<and> i + length pattern \<le> length lines \<and>
      (\<forall>m < length pattern. key (lines ! (i + m)) = key (pattern ! m)) \<and>
      (\<forall>j < i. \<not> (s \<le> j \<and> j + length pattern \<le> length lines \<and>
         (\<forall>m < length pattern. key (lines ! (j + m)) = key (pattern ! m))))" for key s
    unfolding pass_Some_iff [OF assms(2)] using window_matches_iff by fastforce
  have none: "pass key lines pattern s = None \<longleftrightarrow>
      (\<forall>j. \<not> (s \<le> j \<and> j + length pattern \<le> length lines \<and>
         (\<forall>m < length pattern. key (lines ! (j + m)) = key (pattern ! m))))" for key s
    unfolding pass_None_iff [OF assms(2)] using window_matches_iff by blast
  have "seek_sequence lines pattern start eof = first_pass tiers lines pattern ?s"
    using assms by (simp add: seek_sequence_def)
  then show ?thesis
    by (simp only: first_pass_Some_iff some none Let_def conj_assoc)
qed

theorem seek_strictest_first_witness:
  "\<exists>k < length tiers. (tiers ! k) ''let x  '' = (tiers ! k) ''let x''"
proof -
  let ?ls = "[''a'', ''let x  '']"
  have "seek_sequence ?ls [''let x''] 0 False = Some 1" by code_simp
  with seek_strictest_first [of "[''let x'']" ?ls 0 False 1] show ?thesis by auto
qed

end
