(* ===== verification/PatchApply.thy ===== *)
theory PatchApply
  imports SeekSequence
begin

text \<open>
  The application of parsed chunks to a file's text, \<open>codex/apply_patch/apply.rs\<close>: a replacement is a
  start line, a number of lines and the new lines.
\<close>

section \<open>Data\<close>

record update_file_chunk =
  change_context :: "string option"
  old_lines :: "string list"
  new_lines :: "string list"
  is_end_of_file :: bool

datatype apply_error = ContextNotFound string string | LinesNotFound string "string list"

fun apply_error_message :: "apply_error \<Rightarrow> string" where
  "apply_error_message (ContextNotFound ctx path) =
     ''Failed to find context '' @ [CHR 39] @ ctx @ [CHR 39] @ '' in '' @ path"
| "apply_error_message (LinesNotFound path ls) =
     ''Failed to find expected lines in '' @ path @ '':'' @ [CHR 10] @ join_with [CHR 10] ls"

type_synonym replacement = "nat \<times> nat \<times> string list"

definition blank_last :: "string list \<Rightarrow> bool" where
  "blank_last ls \<longleftrightarrow> ls \<noteq> [] \<and> last ls = []"

section \<open>Computing the replacements\<close>

lemma map_sum_Inr_iff: "map_sum id f x = Inr y \<longleftrightarrow> (\<exists>z. x = Inr z \<and> y = f z)"
  by (cases x) auto

definition locate_context ::
    "string list \<Rightarrow> string \<Rightarrow> update_file_chunk \<Rightarrow> nat \<Rightarrow> apply_error + nat" where
  "locate_context original path chunk line_index =
     (case change_context chunk of
        None \<Rightarrow> Inr line_index
      | Some ctx \<Rightarrow>
          (case seek_sequence original [ctx] line_index False of
             Some idx \<Rightarrow> Inr (idx + 1)
           | None \<Rightarrow> Inl (ContextNotFound ctx path)))"

text \<open>The block to replace: the old lines, or the old lines without a blank last one.\<close>

definition locate_old ::
    "string list \<Rightarrow> update_file_chunk \<Rightarrow> nat \<Rightarrow> (nat \<times> nat \<times> string list) option" where
  "locate_old original chunk line_index =
     (let pattern = old_lines chunk;
          seek = (\<lambda>p. seek_sequence original p line_index (is_end_of_file chunk))
      in case seek pattern of
           Some i \<Rightarrow> Some (i, length pattern, new_lines chunk)
         | None \<Rightarrow>
             (if blank_last pattern then
                (let shorter = butlast pattern;
                     new_slice = (if blank_last (new_lines chunk) then butlast (new_lines chunk)
                                  else new_lines chunk)
                 in map_option (\<lambda>i. (i, length shorter, new_slice)) (seek shorter))
              else None))"

fun replacements_from ::
    "string list \<Rightarrow> string \<Rightarrow> nat \<Rightarrow> update_file_chunk list \<Rightarrow> apply_error + replacement list" where
  "replacements_from original path line_index [] = Inr []"
| "replacements_from original path line_index (chunk # chunks) =
     (case locate_context original path chunk line_index of
        Inl e \<Rightarrow> Inl e
      | Inr line_index \<Rightarrow>
          (if old_lines chunk = [] then
             (let insertion = (if blank_last original then length original - 1 else length original)
              in map_sum id (\<lambda>rs. (insertion, 0, new_lines chunk) # rs)
                   (replacements_from original path line_index chunks))
           else
             (case locate_old original chunk line_index of
                None \<Rightarrow> Inl (LinesNotFound path (old_lines chunk))
              | Some (start, n, new) \<Rightarrow>
                  map_sum id (\<lambda>rs. (start, n, new) # rs)
                    (replacements_from original path (start + n) chunks))))"

definition compute_replacements ::
    "string list \<Rightarrow> string \<Rightarrow> update_file_chunk list \<Rightarrow> apply_error + replacement list" where
  "compute_replacements original path chunks =
     map_sum id (sort_key fst) (replacements_from original path 0 chunks)"

section \<open>Applying the replacements\<close>

text \<open>\<open>Vec::remove\<close> behind its guard, and \<open>Vec::insert\<close>, which panics past the end: \<open>None\<close>.\<close>

definition remove_at :: "nat \<Rightarrow> 'a list \<Rightarrow> 'a list" where
  "remove_at i xs = (if i < length xs then take i xs @ drop (Suc i) xs else xs)"

definition vec_insert :: "nat \<Rightarrow> 'a \<Rightarrow> 'a list \<Rightarrow> 'a list option" where
  "vec_insert i x xs = (if i \<le> length xs then Some (take i xs @ x # drop i xs) else None)"

fun insert_lines :: "nat \<Rightarrow> string list \<Rightarrow> string list \<Rightarrow> string list option" where
  "insert_lines i [] xs = Some xs"
| "insert_lines i (l # ls) xs = Option.bind (vec_insert i l xs) (insert_lines (Suc i) ls)"

definition apply_replacement :: "replacement \<Rightarrow> string list \<Rightarrow> string list option" where
  "apply_replacement r xs =
     (case r of (start, old_len, new) \<Rightarrow> insert_lines start new ((remove_at start ^^ old_len) xs))"

fun apply_in_order :: "replacement list \<Rightarrow> string list \<Rightarrow> string list option" where
  "apply_in_order [] xs = Some xs"
| "apply_in_order (r # rs) xs = Option.bind (apply_replacement r xs) (apply_in_order rs)"

definition apply_replacements :: "string list \<Rightarrow> replacement list \<Rightarrow> string list option" where
  "apply_replacements xs replacements = apply_in_order (rev replacements) xs"

text \<open>\<open>None\<close> is a panic; \<open>Some (Inl e)\<close> the error of the code.\<close>

definition content_lines :: "string \<Rightarrow> string list" where
  "content_lines content =
     (let ls = split_on (CHR 10) content in if blank_last ls then butlast ls else ls)"

definition lines_content :: "string list \<Rightarrow> string" where
  "lines_content ls = join_with [CHR 10] (if blank_last ls then ls else ls @ [[]])"

definition derive_new_contents ::
    "string \<Rightarrow> string \<Rightarrow> update_file_chunk list \<Rightarrow> (apply_error + string) option" where
  "derive_new_contents original_content path chunks =
     (let original = content_lines original_content
      in case compute_replacements original path chunks of
           Inl e \<Rightarrow> Some (Inl e)
         | Inr rs \<Rightarrow> map_option (\<lambda>ls. Inr (lines_content ls)) (apply_replacements original rs))"

end
