(* ===== verification/RustLines.thy ===== *)
theory RustLines
  imports Prelude
begin

text \<open>
  \<open>str::lines\<close>, and the texts it takes apart and a join with newlines puts together again.
\<close>

section \<open>Lines\<close>

text \<open>\<open>str::lines\<close>: the lines between newlines, each without a trailing carriage return if a newline
  ended it; a final newline does not start another line.\<close>

fun str_lines_of :: "string list \<Rightarrow> string list" where
  "str_lines_of [] = []"
| "str_lines_of [l] = (if l = [] then [] else [l])"
| "str_lines_of (l # l' # ls) =
     (case strip_suffix l [CHR 13] of Some m \<Rightarrow> m | None \<Rightarrow> l) # str_lines_of (l' # ls)"

definition str_lines :: "string \<Rightarrow> string list" where
  "str_lines s = str_lines_of (split_on (CHR 10) s)"

definition line_ok :: "string \<Rightarrow> bool" where
  "line_ok l \<longleftrightarrow> CHR 10 \<notin> set l \<and> (l = [] \<or> last l \<noteq> CHR 13)"

lemma str_lines_of_ok:
  "list_all line_ok ls \<Longrightarrow> ls \<noteq> [] \<Longrightarrow> last ls \<noteq> [] \<Longrightarrow> str_lines_of ls = ls"
proof (induction ls rule: str_lines_of.induct)
  case (3 l l' ls)
  then have "strip_suffix l [CHR 13] = None"
    by (auto simp: line_ok_def strip_suffix_def suffix_def)
  with 3 show ?case by simp
qed auto

lemma str_lines_join:
  assumes "list_all line_ok ls" "ls \<noteq> []" "last ls \<noteq> []"
  shows "str_lines (join_with [CHR 10] ls) = ls"
  using assms str_lines_of_ok by (simp add: str_lines_def split_join_segments line_ok_def list_all_iff)

text \<open>A text whose every line ends in a newline, from its lines.\<close>

definition unlines :: "string list \<Rightarrow> string" where
  "unlines ls = concat (map (\<lambda>l. l @ [CHR 10]) ls)"

lemma unlines_simps [simp]:
  "unlines [] = []" "unlines (l # ls) = l @ CHR 10 # unlines ls" "unlines (ls @ ls') = unlines ls @ unlines ls'"
  by (simp_all add: unlines_def)

lemma unlines_eq_Nil [simp]: "unlines ls = [] \<longleftrightarrow> ls = []"
  by (cases ls) auto

lemma unlines_join: "ls \<noteq> [] \<Longrightarrow> unlines ls = join_with [CHR 10] ls @ [CHR 10]"
  by (induction ls rule: induct_list012) auto

lemma split_on_unlines:
  "\<forall>l \<in> set ls. CHR 10 \<notin> set l \<Longrightarrow> split_on (CHR 10) (unlines ls) = ls @ [[]]"
proof (induction ls)
  case (Cons l ls)
  then have "split_on (CHR 10) l = [l]" by (induction l) auto
  with Cons show ?case using split_on_append [of "CHR 10" l "unlines ls"] by simp
qed simp

lemma str_lines_of_unlines: "list_all line_ok ls \<Longrightarrow> str_lines_of (ls @ [[]]) = ls"
proof (induction ls)
  case (Cons l ls)
  have "strip_suffix l [CHR 13] = None"
    using Cons.prems by (auto simp: line_ok_def strip_suffix_def suffix_def)
  with Cons show ?case by (cases ls) auto
qed simp

lemma str_lines_unlines: "list_all line_ok ls \<Longrightarrow> str_lines (unlines ls) = ls"
  using str_lines_of_unlines by (simp add: str_lines_def split_on_unlines line_ok_def list_all_iff)

end
