(* ===== verification/PatchParser.thy ===== *)
theory PatchParser
  imports PatchApply RustLines
begin

text \<open>
  The parser of the patch format, \<open>codex/apply_patch/parser.rs\<close>: the envelope, the three kinds of file
  section, and the chunks of an update.  It works on the list of the patch's lines; every function
  that consumes lines returns how many.
\<close>

section \<open>Data\<close>

datatype hunk =
    AddFile (hunk_path: string) (hunk_contents: string)
  | DeleteFile (hunk_path: string)
  | UpdateFile (hunk_path: string) (hunk_move: "string option") (hunk_chunks: "update_file_chunk list")

record parsed_patch =
  pp_hunks :: "hunk list"
  pp_patch :: string

datatype parse_error = InvalidPatch string | InvalidHunk string nat

datatype parse_mode = Strict | Lenient

definition BEGIN_PATCH_MARKER :: string where "BEGIN_PATCH_MARKER = ''*** Begin Patch''"
definition END_PATCH_MARKER :: string where "END_PATCH_MARKER = ''*** End Patch''"
definition ADD_FILE_MARKER :: string where "ADD_FILE_MARKER = ''*** Add File: ''"
definition DELETE_FILE_MARKER :: string where "DELETE_FILE_MARKER = ''*** Delete File: ''"
definition UPDATE_FILE_MARKER :: string where "UPDATE_FILE_MARKER = ''*** Update File: ''"
definition MOVE_TO_MARKER :: string where "MOVE_TO_MARKER = ''*** Move to: ''"
definition EOF_MARKER :: string where "EOF_MARKER = ''*** End of File''"
definition CHANGE_CONTEXT_MARKER :: string where "CHANGE_CONTEXT_MARKER = ''@@ ''"
definition EMPTY_CHANGE_CONTEXT_MARKER :: string where "EMPTY_CHANGE_CONTEXT_MARKER = ''@@''"

lemmas marker_defs = BEGIN_PATCH_MARKER_def END_PATCH_MARKER_def ADD_FILE_MARKER_def DELETE_FILE_MARKER_def
  UPDATE_FILE_MARKER_def MOVE_TO_MARKER_def EOF_MARKER_def CHANGE_CONTEXT_MARKER_def
  EMPTY_CHANGE_CONTEXT_MARKER_def

definition quoted :: "string \<Rightarrow> string" where
  "quoted s = [CHR 39] @ s @ [CHR 39]"

section \<open>The envelope\<close>

definition check_start_and_end_lines_strict :: "string option \<Rightarrow> string option \<Rightarrow> parse_error + unit" where
  "check_start_and_end_lines_strict first_line last_line =
     (case (map_option trim first_line, map_option trim last_line) of
        (Some f, Some l) \<Rightarrow>
          (if f = BEGIN_PATCH_MARKER \<and> l = END_PATCH_MARKER then Inr ()
           else if f \<noteq> BEGIN_PATCH_MARKER
           then Inl (InvalidPatch (''The first line of the patch must be '' @ quoted BEGIN_PATCH_MARKER))
           else Inl (InvalidPatch (''The last line of the patch must be '' @ quoted END_PATCH_MARKER)))
      | (Some f, None) \<Rightarrow>
          (if f \<noteq> BEGIN_PATCH_MARKER
           then Inl (InvalidPatch (''The first line of the patch must be '' @ quoted BEGIN_PATCH_MARKER))
           else Inl (InvalidPatch (''The last line of the patch must be '' @ quoted END_PATCH_MARKER)))
      | _ \<Rightarrow> Inl (InvalidPatch (''The last line of the patch must be '' @ quoted END_PATCH_MARKER)))"

definition check_patch_boundaries_strict :: "string list \<Rightarrow> parse_error + unit" where
  "check_patch_boundaries_strict ls =
     (case ls of
        [] \<Rightarrow> check_start_and_end_lines_strict None None
      | l # _ \<Rightarrow> check_start_and_end_lines_strict (Some l) (Some (last ls)))"

definition heredoc_openers :: "string list" where
  "heredoc_openers = [''<<EOF'', ''<<'' @ quoted ''EOF'', ''<<'' @ [CHR 34] @ ''EOF'' @ [CHR 34]]"

definition check_patch_boundaries_lenient :: "string list \<Rightarrow> parse_error \<Rightarrow> parse_error + string list" where
  "check_patch_boundaries_lenient ls e =
     (case ls of
        f # _ # _ \<Rightarrow>
          (if f \<in> set heredoc_openers \<and> ends_with (last ls) ''EOF'' \<and> 4 \<le> length ls then
             (let inner_lines = butlast (tl ls)
              in case check_patch_boundaries_strict inner_lines of
                   Inr _ \<Rightarrow> Inr inner_lines
                 | Inl e' \<Rightarrow> Inl e')
           else Inl e)
      | _ \<Rightarrow> Inl e)"

section \<open>Chunks\<close>

definition no_lines :: string where
  "no_lines = ''Update hunk does not contain any lines''"

text \<open>The loop over the lines of a chunk, with the number of lines parsed so far.\<close>

fun chunk_lines ::
    "nat \<Rightarrow> nat \<Rightarrow> string list \<Rightarrow> update_file_chunk \<Rightarrow> parse_error + update_file_chunk \<times> nat" where
  "chunk_lines line_number parsed [] c = Inr (c, parsed)"
| "chunk_lines line_number parsed (l # ls) c =
     (if l = EOF_MARKER then
        (if parsed = 0 then Inl (InvalidHunk no_lines (line_number + 1))
         else Inr (c\<lparr>is_end_of_file := True\<rparr>, parsed + 1))
      else case l of
        [] \<Rightarrow>
          chunk_lines line_number (parsed + 1) ls
            (c\<lparr>old_lines := old_lines c @ [[]], new_lines := new_lines c @ [[]]\<rparr>)
      | ch # body \<Rightarrow>
          (if ch = CHR '' '' then
             chunk_lines line_number (parsed + 1) ls
               (c\<lparr>old_lines := old_lines c @ [body], new_lines := new_lines c @ [body]\<rparr>)
           else if ch = CHR ''+'' then
             chunk_lines line_number (parsed + 1) ls (c\<lparr>new_lines := new_lines c @ [body]\<rparr>)
           else if ch = CHR ''-'' then
             chunk_lines line_number (parsed + 1) ls (c\<lparr>old_lines := old_lines c @ [body]\<rparr>)
           else if parsed = 0 then
             Inl (InvalidHunk
               (''Unexpected line found in update hunk: '' @ quoted l @ ''. '' @
                ''Every line should start with '' @ quoted '' '' @ '' (context line), '' @
                quoted ''+'' @ '' (added line), or '' @ quoted ''-'' @ '' (removed line)'')
               (line_number + 1))
           else Inr (c, parsed)))"

definition empty_chunk :: "string option \<Rightarrow> update_file_chunk" where
  "empty_chunk ctx = \<lparr>change_context = ctx, old_lines = [], new_lines = [], is_end_of_file = False\<rparr>"

text \<open>The context marker, if any, and the index of the first line after it.\<close>

definition chunk_context :: "string \<Rightarrow> nat \<Rightarrow> bool \<Rightarrow> parse_error + string option \<times> nat" where
  "chunk_context l line_number allow_missing_context =
     (if l = EMPTY_CHANGE_CONTEXT_MARKER then Inr (None, 1)
      else case strip_prefix l CHANGE_CONTEXT_MARKER of
             Some ctx \<Rightarrow> Inr (Some ctx, 1)
           | None \<Rightarrow>
               (if \<not> allow_missing_context then
                  Inl (InvalidHunk
                    (''Expected update hunk to start with a @@ context marker, got: '' @ quoted l) line_number)
                else Inr (None, 0)))"

definition parse_update_file_chunk ::
    "string list \<Rightarrow> nat \<Rightarrow> bool \<Rightarrow> parse_error + update_file_chunk \<times> nat" where
  "parse_update_file_chunk ls line_number allow_missing_context =
     (case ls of
        [] \<Rightarrow> Inl (InvalidHunk no_lines line_number)
      | l # _ \<Rightarrow>
          (case chunk_context l line_number allow_missing_context of
             Inl e \<Rightarrow> Inl e
           | Inr (ctx, start_index) \<Rightarrow>
               (if length ls \<le> start_index then Inl (InvalidHunk no_lines (line_number + 1))
                else map_sum id (\<lambda>(c, parsed). (c, parsed + start_index))
                       (chunk_lines line_number 0 (drop start_index ls) (empty_chunk ctx)))))"

section \<open>Sections\<close>

lemma chunk_lines_progress:
  "chunk_lines n k ls c = Inr (c', k') \<Longrightarrow> k \<le> k' \<and> k' \<le> k + length ls \<and> (k = 0 \<longrightarrow> ls \<noteq> [] \<longrightarrow> 0 < k')"
proof (induction n k ls c rule: chunk_lines.induct)
  case (2 n k l ls c)
  then show ?case
    by (cases l) (fastforce split: if_split_asm)+
qed simp

lemma parse_chunkD:
  assumes "parse_update_file_chunk ls n b = Inr (c, k)"
  obtains ctx i k' where "chunk_context (hd ls) n b = Inr (ctx, i)" "i < length ls"
    "chunk_lines n 0 (drop i ls) (empty_chunk ctx) = Inr (c, k')" "k = k' + i"
  using assms
  by (auto simp: parse_update_file_chunk_def map_sum_Inr_iff split: list.splits sum.splits if_split_asm)

lemma parse_chunk_progress:
  assumes "parse_update_file_chunk ls n b = Inr (c, k)"
  shows "0 < k" "k \<le> length ls"
proof -
  from assms obtain ctx i k' where k: "i < length ls"
    "chunk_lines n 0 (drop i ls) (empty_chunk ctx) = Inr (c, k')" "k = k' + i"
    by (rule parse_chunkD)
  then have "drop i ls \<noteq> []" by simp
  with chunk_lines_progress [OF k(2)] k show "0 < k" "k \<le> length ls" by auto
qed

text \<open>The \<open>while\<close> of an update: skip blank lines, stop at a line that starts with \<open>***\<close>, otherwise a
  chunk.  \<open>parsed\<close> counts the lines consumed; \<open>chunks\<close> are the chunks so far.\<close>

function update_chunks ::
    "nat \<Rightarrow> nat \<Rightarrow> update_file_chunk list \<Rightarrow> string list \<Rightarrow> parse_error + update_file_chunk list \<times> nat" where
  "update_chunks line_number parsed chunks ls =
     (case ls of
        [] \<Rightarrow> Inr (chunks, parsed)
      | l # rest \<Rightarrow>
          (if trim l = [] then update_chunks line_number (parsed + 1) chunks rest
           else if starts_with l ''***'' then Inr (chunks, parsed)
           else case parse_update_file_chunk ls (line_number + parsed) (chunks = []) of
                  Inl e \<Rightarrow> Inl e
                | Inr (c, k) \<Rightarrow> update_chunks line_number (parsed + k) (chunks @ [c]) (drop k ls)))"
  by pat_completeness auto
termination
  by (relation "measure (\<lambda>(n, p, cs, ls). length ls)") (auto dest: parse_chunk_progress)

declare update_chunks.simps [simp del]

definition add_lines :: "string list \<Rightarrow> string list" where
  "add_lines ls = map tl (takeWhile (\<lambda>l. starts_with l ''+'') ls)"

definition parse_one_hunk :: "string list \<Rightarrow> nat \<Rightarrow> parse_error + hunk \<times> nat" where
  "parse_one_hunk ls line_number =
     (let first_line = trim (hd ls)
      in case strip_prefix first_line ADD_FILE_MARKER of
           Some path \<Rightarrow>
             (let added = add_lines (tl ls)
              in Inr (AddFile path (concat (map (\<lambda>l. l @ [CHR 10]) added)), 1 + length added))
         | None \<Rightarrow>
      (case strip_prefix first_line DELETE_FILE_MARKER of
           Some path \<Rightarrow> Inr (DeleteFile path, 1)
         | None \<Rightarrow>
      (case strip_prefix first_line UPDATE_FILE_MARKER of
           Some path \<Rightarrow>
             (let move_path = Option.bind (first_opt (tl ls)) (\<lambda>l. strip_prefix l MOVE_TO_MARKER);
                  moved = (if move_path = None then 0 else 1)
              in case update_chunks line_number (1 + moved) [] (drop (1 + moved) ls) of
                   Inl e \<Rightarrow> Inl e
                 | Inr (chunks, parsed) \<Rightarrow>
                     (if chunks = [] then
                        Inl (InvalidHunk (''Update file hunk for path '' @ quoted path @ '' is empty'') line_number)
                      else Inr (UpdateFile path move_path chunks, parsed)))
         | None \<Rightarrow>
             Inl (InvalidHunk
               (quoted first_line @ '' is not a valid hunk header. Valid hunk headers: '' @
                quoted ''*** Add File: {path}'' @ '', '' @ quoted ''*** Delete File: {path}'' @ '', '' @
                quoted ''*** Update File: {path}'') line_number))))"

lemma update_chunks_progress:
  "update_chunks n p cs ls = Inr (cs', p') \<Longrightarrow> p \<le> p' \<and> p' \<le> p + length ls"
proof (induction n p cs ls rule: update_chunks.induct)
  case (1 n p cs ls)
  show ?case
  proof (cases ls)
    case Nil
    with 1 show ?thesis by (simp add: update_chunks.simps)
  next
    case (Cons l rest)
    consider (blank) "trim l = []" | (header) "trim l \<noteq> []" "starts_with l ''***''"
      | (chunk) c k where "trim l \<noteq> []" "\<not> starts_with l ''***''"
        "parse_update_file_chunk (l # rest) (n + p) (cs = []) = Inr (c, k)"
      using "1.prems" Cons by (auto simp: update_chunks.simps [of n p cs "l # rest"] split: sum.splits if_split_asm)
    then show ?thesis
    proof cases
      case blank
      with 1 Cons show ?thesis by (fastforce simp: update_chunks.simps [of n p cs "l # rest"])
    next
      case header
      with 1 Cons show ?thesis by (simp add: update_chunks.simps [of n p cs "l # rest"])
    next
      case chunk
      then have "update_chunks n (p + k) (cs @ [c]) (drop k ls) = Inr (cs', p')"
        using "1.prems" Cons by (simp add: update_chunks.simps [of n p cs "l # rest"])
      from "1.IH"(2) [OF Cons _ _ chunk(3) [folded Cons] _ this] chunk
      have "p + k \<le> p' \<and> p' \<le> p + k + length (drop k ls)" using Cons by simp
      then show ?thesis using parse_chunk_progress(2) [OF chunk(3)] Cons by auto
    qed
  qed
qed

lemma parse_hunk_progress:
  assumes "parse_one_hunk ls n = Inr (h, k)"
  shows "0 < k" "ls \<noteq> [] \<Longrightarrow> k \<le> length ls"
proof -
  have added: "length (add_lines xs) \<le> length xs" for xs
    by (simp add: add_lines_def length_takeWhile_le)
  show "0 < k"
    using assms
    by (auto simp: parse_one_hunk_def Let_def split: option.splits sum.splits if_split_asm
        dest: update_chunks_progress)
  assume ls: "ls \<noteq> []"
  then obtain l rest where "ls = l # rest" by (cases ls) auto
  with assms show "k \<le> length ls"
    using added [of rest]
    by (cases rest) (auto simp: parse_one_hunk_def Let_def split: option.splits sum.splits if_split_asm
        dest!: update_chunks_progress)
qed

section \<open>The patch\<close>

function parse_hunks :: "nat \<Rightarrow> string list \<Rightarrow> parse_error + hunk list" where
  "parse_hunks line_number ls =
     (if ls = [] then Inr []
      else case parse_one_hunk ls line_number of
             Inl e \<Rightarrow> Inl e
           | Inr (h, k) \<Rightarrow> map_sum id (\<lambda>hs. h # hs) (parse_hunks (line_number + k) (drop k ls)))"
  by pat_completeness auto
termination
  by (relation "measure (\<lambda>(n, ls). length ls)") (auto dest: parse_hunk_progress)

declare parse_hunks.simps [simp del]

definition patch_body :: "parse_mode \<Rightarrow> string list \<Rightarrow> parse_error + string list" where
  "patch_body mode ls =
     (case check_patch_boundaries_strict ls of
        Inr _ \<Rightarrow> Inr ls
      | Inl e \<Rightarrow> (case mode of Strict \<Rightarrow> Inl e | Lenient \<Rightarrow> check_patch_boundaries_lenient ls e))"

definition parse_patch_text :: "string \<Rightarrow> parse_mode \<Rightarrow> parse_error + parsed_patch" where
  "parse_patch_text patch mode =
     (case patch_body mode (str_lines (trim patch)) of
        Inl e \<Rightarrow> Inl e
      | Inr ls \<Rightarrow>
          map_sum id (\<lambda>hs. \<lparr>pp_hunks = hs, pp_patch = join_with [CHR 10] ls\<rparr>)
            (parse_hunks 2 (drop 1 (take (length ls - 1) ls))))"

definition PARSE_IN_STRICT_MODE :: bool where
  "PARSE_IN_STRICT_MODE = False"

definition parse_patch :: "string \<Rightarrow> parse_error + parsed_patch" where
  "parse_patch patch = parse_patch_text patch (if PARSE_IN_STRICT_MODE then Strict else Lenient)"

end
