(* ===== verification/FileSystem.thy ===== *)
theory FileSystem
  imports RustPath
begin

text \<open>
  The file system interface of the tools, \<open>computer/types.rs\<close>, with two of its implementations: the
  in-memory one of \<open>computer/local/mock_fs.rs\<close>, and the retry loop of the local one.  The world is a
  type parameter; an operation returns the new world, with an error if it failed.  Directory
  creation goes to the operating system directly, not through the trait.
\<close>

section \<open>The interface\<close>

text \<open>An I/O error carries its message and, if known, the name of its kind.\<close>

datatype computer_error = IOError string "string option" | CommandNotQuoted

fun computer_error_message :: "computer_error \<Rightarrow> string" where
  "computer_error_message (IOError m _) = ''IO Error: '' @ m"
| "computer_error_message CommandNotQuoted = ''UnQuoted command''"

record 'w async_fs =
  fs_read :: "'w \<Rightarrow> string \<Rightarrow> computer_error + string"
  fs_write :: "string \<Rightarrow> string \<Rightarrow> 'w \<Rightarrow> computer_error option \<times> 'w"
  fs_delete :: "string \<Rightarrow> 'w \<Rightarrow> computer_error option \<times> 'w"
  fs_mkdirs :: "string \<Rightarrow> 'w \<Rightarrow> string option \<times> 'w"

text \<open>Two paths name the same file if they have the same components.  The laws of a file store: what
  is read is what the store holds, and an operation that succeeds changes its own file only; one
  that fails may have changed its own file, but no other.\<close>

type_synonym file_map = "string list \<Rightarrow> string option"

locale file_store =
  fixes fs :: "'w async_fs"
    and contents :: "'w \<Rightarrow> file_map"
  assumes read_law: "fs_read fs w p = Inr d \<longleftrightarrow> contents w (path_components p) = Some d"
    and write_law: "fs_write fs p d w = (None, w') \<Longrightarrow> contents w' = (contents w)(path_components p \<mapsto> d)"
    and delete_law: "fs_delete fs p w = (None, w') \<Longrightarrow> contents w' = (contents w)(path_components p := None)"
    and mkdirs_law: "fs_mkdirs fs p w = (e', w') \<Longrightarrow> contents w' = contents w"
    and write_frame: "fs_write fs p d w = (Some e, w') \<Longrightarrow> k \<noteq> path_components p \<Longrightarrow> contents w' k = contents w k"
    and delete_frame: "fs_delete fs p w = (Some e, w') \<Longrightarrow> k \<noteq> path_components p \<Longrightarrow> contents w' k = contents w k"

section \<open>The in-memory implementation\<close>

definition mock_read :: "file_map \<Rightarrow> string \<Rightarrow> computer_error + string" where
  "mock_read files path =
     (case files (path_components path) of
        Some d \<Rightarrow> Inr d
      | None \<Rightarrow> Inl (IOError (''File not found: '' @ path) (Some ''NotFound'')))"

definition mock_write :: "string \<Rightarrow> string \<Rightarrow> file_map \<Rightarrow> computer_error option \<times> file_map" where
  "mock_write path data files = (None, files(path_components path \<mapsto> data))"

definition mock_delete :: "string \<Rightarrow> file_map \<Rightarrow> computer_error option \<times> file_map" where
  "mock_delete path files = (None, files(path_components path := None))"

definition mock_fs :: "file_map async_fs" where
  "mock_fs = \<lparr>fs_read = mock_read, fs_write = mock_write, fs_delete = mock_delete, fs_mkdirs = (\<lambda>_ files. (None, files))\<rparr>"

interpretation mock: file_store mock_fs "\<lambda>files. files"
  by unfold_locales
    (auto simp: mock_fs_def mock_read_def mock_write_def mock_delete_def split: option.splits)

section \<open>Writing with retries\<close>

definition WRITE_RETRY_DELAYS :: "nat list" where
  "WRITE_RETRY_DELAYS = [25, 50, 100, 200, 400]"

text \<open>\<open>write_file_with_retry_hooks\<close>: one attempt, then one more after each delay while the error is
  retryable.  The result carries the number of attempts and the delays slept.\<close>

fun write_with_retries ::
    "('w \<Rightarrow> 'e option \<times> 'w) \<Rightarrow> ('e \<Rightarrow> bool) \<Rightarrow> nat list \<Rightarrow> 'w \<Rightarrow> 'e option \<times> nat \<times> nat list \<times> 'w" where
  "write_with_retries attempt retryable delays w =
     (case attempt w of
        (None, w') \<Rightarrow> (None, 1, [], w')
      | (Some e, w') \<Rightarrow>
          (if \<not> retryable e then (Some e, 1, [], w')
           else case delays of
                  [] \<Rightarrow> (Some e, 1, [], w')
                | d # ds \<Rightarrow>
                    (case write_with_retries attempt retryable ds w' of
                       (r, n, slept, w'') \<Rightarrow> (r, Suc n, d # slept, w''))))"

declare write_with_retries.simps [simp del]

lemma write_attempts:
  assumes "write_with_retries attempt retryable delays w = (r, n, slept, w')"
  shows "1 \<le> n" "n = Suc (length slept)" "slept = take (length slept) delays"
    "w' = ((\<lambda>w. snd (attempt w)) ^^ n) w" "r = fst (attempt (((\<lambda>w. snd (attempt w)) ^^ (n - 1)) w))"
proof -
  have "n = Suc (length slept) \<and> slept = take (length slept) delays \<and>
    w' = ((\<lambda>w. snd (attempt w)) ^^ n) w \<and> r = fst (attempt (((\<lambda>w. snd (attempt w)) ^^ (n - 1)) w))"
    using assms
  proof (induction delays arbitrary: w r n slept)
    case Nil
    then show ?case
      by (subst (asm) write_with_retries.simps) (auto split: prod.splits option.splits if_split_asm)
  next
    case (Cons d ds)
    show ?case
    proof (cases "\<exists>e w1. attempt w = (Some e, w1) \<and> retryable e")
      case False
      with Cons.prems show ?thesis
        by (subst (asm) write_with_retries.simps) (auto split: prod.splits option.splits if_split_asm)
    next
      case True
      then obtain e w1 where w1: "attempt w = (Some e, w1)" "retryable e" by blast
      obtain r' n' s' w2 where rec: "write_with_retries attempt retryable ds w1 = (r', n', s', w2)"
        by (cases "write_with_retries attempt retryable ds w1") auto
      have eqs: "r = r'" "n = Suc n'" "slept = d # s'" "w' = w2"
        using Cons.prems w1 rec by (auto simp: write_with_retries.simps [of attempt retryable "d # ds" w])
      from Cons.IH [of w1 r' n' s'] rec eqs have IH: "n' = Suc (length s')" "s' = take (length s') ds"
        "w' = ((\<lambda>w. snd (attempt w)) ^^ n') w1" "r' = fst (attempt (((\<lambda>w. snd (attempt w)) ^^ (n' - 1)) w1))"
        by auto
      have "((\<lambda>w. snd (attempt w)) ^^ Suc m) w = ((\<lambda>w. snd (attempt w)) ^^ m) w1" for m
        using w1 by (simp only: funpow_Suc_right comp_def snd_conv)
      moreover have "n = Suc (Suc (n' - 1))" using IH(1) eqs by simp
      ultimately show ?thesis using eqs IH by (metis diff_Suc_1 length_Cons take_Suc_Cons)
    qed
  qed
  then show "1 \<le> n" "n = Suc (length slept)" "slept = take (length slept) delays"
    "w' = ((\<lambda>w. snd (attempt w)) ^^ n) w" "r = fst (attempt (((\<lambda>w. snd (attempt w)) ^^ (n - 1)) w))" by auto
qed

text \<open>At most six attempts and 775 ms of sleep, and the result is that of the last attempt.\<close>

lemma local_write_bounded:
  assumes "write_with_retries attempt retryable WRITE_RETRY_DELAYS w = (r, n, slept, w')"
  shows "n \<le> 6" "sum_list slept \<le> 775"
proof -
  have "length slept = min (length WRITE_RETRY_DELAYS) (length slept)"
    using write_attempts(3) [OF assms] by (metis length_take)
  then have "length slept \<le> 5" by (simp add: WRITE_RETRY_DELAYS_def)
  then show "n \<le> 6" using write_attempts(2) [OF assms] by simp
  have "sum_list WRITE_RETRY_DELAYS = sum_list slept + sum_list (drop (length slept) WRITE_RETRY_DELAYS)"
    using write_attempts(3) [OF assms] by (metis append_take_drop_id sum_list_append)
  then show "sum_list slept \<le> 775" by (simp add: WRITE_RETRY_DELAYS_def)
qed

end
