(* ===== verification/Utf8.thy ===== *)
theory Utf8
  imports Prelude
begin

text \<open>
  \<open>String::from_utf8_lossy\<close>: a byte sequence read as UTF-8, each maximal part of an ill-formed sequence
  replaced by U+FFFD.
\<close>

section \<open>Decoding one step\<close>

definition byte_in :: "nat \<Rightarrow> nat \<Rightarrow> string \<Rightarrow> nat \<Rightarrow> bool" where
  "byte_in lo hi s i \<longleftrightarrow> i < length s \<and> lo \<le> of_char (s ! i) \<and> of_char (s ! i) \<le> hi"

text \<open>The range of the second byte, by the first, and the number of bytes of the character.\<close>

definition utf8_lead :: "nat \<Rightarrow> (nat \<times> nat \<times> nat) option" where
  "utf8_lead b =
     (if 0xC2 \<le> b \<and> b \<le> 0xDF then Some (2, 0x80, 0xBF)
      else if b = 0xE0 then Some (3, 0xA0, 0xBF)
      else if b = 0xED then Some (3, 0x80, 0x9F)
      else if 0xE1 \<le> b \<and> b \<le> 0xEF then Some (3, 0x80, 0xBF)
      else if b = 0xF0 then Some (4, 0x90, 0xBF)
      else if 0xF1 \<le> b \<and> b \<le> 0xF3 then Some (4, 0x80, 0xBF)
      else if b = 0xF4 then Some (4, 0x80, 0x8F)
      else None)"

text \<open>The number of bytes the decoder takes from the front, and whether they are a character.\<close>

definition utf8_step :: "string \<Rightarrow> nat \<times> bool" where
  "utf8_step s =
     (case utf8_lead (of_char (hd s)) of
        None \<Rightarrow> (1, of_char (hd s) < (0x80 :: nat))
      | Some (n, lo, hi) \<Rightarrow>
          (if \<not> byte_in lo hi s 1 then (1, False)
           else if n = 2 then (2, True)
           else if \<not> byte_in 0x80 0xBF s 2 then (2, False)
           else if n = 3 then (3, True)
           else if \<not> byte_in 0x80 0xBF s 3 then (3, False)
           else (4, True)))"

lemma utf8_step_pos: "0 < fst (utf8_step s)"
  by (auto simp: utf8_step_def split: option.split)

definition REPLACEMENT :: string where
  "REPLACEMENT = [CHR 0xEF, CHR 0xBF, CHR 0xBD]"

function utf8_lossy :: "string \<Rightarrow> string" where
  "utf8_lossy [] = []"
| "utf8_lossy (c # cs) =
     (let n = fst (utf8_step (c # cs))
      in (if snd (utf8_step (c # cs)) then take n (c # cs) else REPLACEMENT) @ utf8_lossy (drop n (c # cs)))"
  by pat_completeness auto
termination
  by (relation "measure length") (simp_all add: utf8_step_pos drop_Cons')

function valid_utf8 :: "string \<Rightarrow> bool" where
  "valid_utf8 [] \<longleftrightarrow> True"
| "valid_utf8 (c # cs) \<longleftrightarrow>
     snd (utf8_step (c # cs)) \<and> valid_utf8 (drop (fst (utf8_step (c # cs))) (c # cs))"
  by pat_completeness auto
termination
  by (relation "measure length") (simp_all add: utf8_step_pos drop_Cons')

lemma utf8_lossy_valid: "valid_utf8 s \<Longrightarrow> utf8_lossy s = s"
proof (induction s rule: valid_utf8.induct)
  case (2 c cs)
  then show ?case
    using append_take_drop_id [of "fst (utf8_step (c # cs))" "c # cs"] by (simp add: Let_def)
qed simp

lemma valid_utf8_ascii: "list_all (\<lambda>c. (of_char c :: nat) < 0x80) s \<Longrightarrow> valid_utf8 s"
proof (induction s)
  case (Cons c s)
  then have "utf8_step (c # s) = (1, True)" by (simp add: utf8_step_def utf8_lead_def)
  with Cons show ?case by simp
qed simp

declare utf8_lossy.simps [simp del] valid_utf8.simps [simp del]

text \<open>A stray byte of a legacy encoding becomes three bytes: reading is not reversible.\<close>

lemma utf8_lossy_changes: "utf8_lossy [CHR 0xE9, CHR ''t''] = REPLACEMENT @ ''t''"
  by code_simp

end
