(* ===== verification/ApplyPatchTool.thy ===== *)
theory ApplyPatchTool
  imports PatchParser FileSystem Utf8
begin

text \<open>
  The \<open>apply_patch\<close> tool, \<open>codex/apply_patch/tool.rs\<close>: it parses the patch, computes every change in
  memory from the files as they are, and only then writes, change by change.  The notifications are
  those handed to the notification handle, in order.
\<close>

section \<open>Data\<close>

datatype file_change =
    ChangeAdd string string
  | ChangeDelete string string
  | ChangeUpdate string string string
  | ChangeMove string string string string

record file_written =
  fw_path :: string
  fw_content :: string
  fw_previous :: "string option"
  fw_is_new :: bool

record file_result =
  fr_path :: string
  fr_action :: string
  fr_old_text :: "string option"
  fr_new_text :: string
  fr_move_to :: "string option"

datatype patch_output =
    PatchSuccess "file_result list" string
  | PatchParseError string
  | PatchApplicationError string
  | PatchEmpty string

section \<open>Computing the changes\<close>

definition read_file_as_string :: "'w async_fs \<Rightarrow> 'w \<Rightarrow> string \<Rightarrow> string + string" where
  "read_file_as_string fs w path = map_sum computer_error_message utf8_lossy (fs_read fs w path)"

text \<open>One hunk; \<open>None\<close> is a panic of the engine.\<close>

definition compute_change :: "'w async_fs \<Rightarrow> 'w \<Rightarrow> string \<Rightarrow> hunk \<Rightarrow> (string + file_change) option" where
  "compute_change fs w cwd h =
     (case h of
        AddFile path text \<Rightarrow> Some (Inr (ChangeAdd (path_join cwd path) text))
      | DeleteFile path \<Rightarrow>
          (let resolved = path_join cwd path
           in case read_file_as_string fs w resolved of
                Inl e \<Rightarrow> Some (Inl (''Failed to read file: '' @ resolved @ '', '' @ e))
              | Inr original \<Rightarrow> Some (Inr (ChangeDelete resolved original)))
      | UpdateFile path move_path chunks \<Rightarrow>
          (let resolved = path_join cwd path
           in case read_file_as_string fs w resolved of
                Inl e \<Rightarrow> Some (Inl (''Failed to read file to update: '' @ resolved @ '', '' @ e))
              | Inr original \<Rightarrow>
                  (case derive_new_contents original resolved chunks of
                     None \<Rightarrow> None
                   | Some (Inl e) \<Rightarrow> Some (Inl (apply_error_message e))
                   | Some (Inr new) \<Rightarrow>
                       Some (Inr (case move_path of
                                    Some dest \<Rightarrow> ChangeMove resolved (path_join cwd dest) original new
                                  | None \<Rightarrow> ChangeUpdate resolved original new)))))"

fun compute_all_changes :: "'w async_fs \<Rightarrow> 'w \<Rightarrow> string \<Rightarrow> hunk list \<Rightarrow> (string + file_change list) option" where
  "compute_all_changes fs w cwd [] = Some (Inr [])"
| "compute_all_changes fs w cwd (h # hs) =
     (case compute_change fs w cwd h of
        None \<Rightarrow> None
      | Some (Inl e) \<Rightarrow> Some (Inl e)
      | Some (Inr c) \<Rightarrow> map_option (map_sum id (\<lambda>cs. c # cs)) (compute_all_changes fs w cwd hs))"

section \<open>Writing the changes\<close>

definition ensure_parent_dirs :: "'w async_fs \<Rightarrow> string \<Rightarrow> 'w \<Rightarrow> string option \<times> 'w" where
  "ensure_parent_dirs fs path w =
     (case path_parent path of
        Some parent \<Rightarrow> (if parent \<noteq> [] then fs_mkdirs fs parent w else (None, w))
      | None \<Rightarrow> (None, w))"

definition write_step :: "'w async_fs \<Rightarrow> string \<Rightarrow> string \<Rightarrow> 'w \<Rightarrow> string option \<times> 'w" where
  "write_step fs path data w = apfst (map_option computer_error_message) (fs_write fs path data w)"

definition delete_step :: "'w async_fs \<Rightarrow> string \<Rightarrow> 'w \<Rightarrow> string option \<times> 'w" where
  "delete_step fs path w = apfst (map_option computer_error_message) (fs_delete fs path w)"

text \<open>\<open>?\<close> after a step: the rest runs only if it succeeded.\<close>

definition then_step :: "(string option \<times> 'w) \<Rightarrow> ('w \<Rightarrow> string option \<times> 'w) \<Rightarrow> string option \<times> 'w" where
  "then_step r k = (case r of (Some e, w) \<Rightarrow> (Some e, w) | (None, w) \<Rightarrow> k w)"

definition write_change :: "'w async_fs \<Rightarrow> file_change \<Rightarrow> 'w \<Rightarrow> string option \<times> 'w" where
  "write_change fs c w =
     (case c of
        ChangeAdd path text \<Rightarrow> then_step (ensure_parent_dirs fs path w) (write_step fs path text)
      | ChangeDelete path _ \<Rightarrow> delete_step fs path w
      | ChangeUpdate path _ new \<Rightarrow> write_step fs path new w
      | ChangeMove source dest _ new \<Rightarrow>
          then_step (then_step (ensure_parent_dirs fs dest w) (write_step fs dest new)) (delete_step fs source))"

fun notifications :: "file_change \<Rightarrow> file_written list" where
  "notifications (ChangeAdd path text) = [\<lparr>fw_path = path, fw_content = text, fw_previous = None, fw_is_new = True\<rparr>]"
| "notifications (ChangeDelete path original) =
     [\<lparr>fw_path = path, fw_content = [], fw_previous = Some original, fw_is_new = False\<rparr>]"
| "notifications (ChangeUpdate path original new) =
     [\<lparr>fw_path = path, fw_content = new, fw_previous = Some original, fw_is_new = False\<rparr>]"
| "notifications (ChangeMove source dest original new) =
     [\<lparr>fw_path = dest, fw_content = new, fw_previous = None, fw_is_new = True\<rparr>,
      \<lparr>fw_path = source, fw_content = [], fw_previous = Some original, fw_is_new = False\<rparr>]"

fun file_result_of :: "file_change \<Rightarrow> file_result" where
  "file_result_of (ChangeAdd path text) =
     \<lparr>fr_path = path, fr_action = ''added'', fr_old_text = None, fr_new_text = text, fr_move_to = None\<rparr>"
| "file_result_of (ChangeDelete path original) =
     \<lparr>fr_path = path, fr_action = ''deleted'', fr_old_text = Some original, fr_new_text = [], fr_move_to = None\<rparr>"
| "file_result_of (ChangeUpdate path original new) =
     \<lparr>fr_path = path, fr_action = ''modified'', fr_old_text = Some original, fr_new_text = new, fr_move_to = None\<rparr>"
| "file_result_of (ChangeMove source dest original new) =
     \<lparr>fr_path = source, fr_action = ''moved'', fr_old_text = Some original, fr_new_text = new, fr_move_to = Some dest\<rparr>"

text \<open>The loop stops at the first error, with the changes before it written and notified.\<close>

fun write_changes :: "'w async_fs \<Rightarrow> file_change list \<Rightarrow> 'w \<Rightarrow> string option \<times> file_written list \<times> 'w" where
  "write_changes fs [] w = (None, [], w)"
| "write_changes fs (c # cs) w =
     (case write_change fs c w of
        (Some e, w') \<Rightarrow> (Some e, [], w')
      | (None, w') \<Rightarrow>
          (case write_changes fs cs w' of (r, log, w'') \<Rightarrow> (r, notifications c @ log, w'')))"

definition build_summary :: "file_result list \<Rightarrow> string" where
  "build_summary results =
     ''Success. Updated the following files:'' @ [CHR 10] @
     concat (map (\<lambda>r. (if fr_action r = ''added'' then ''A''
                       else if fr_action r = ''deleted'' then ''D'' else ''M'') @ '' '' @ fr_path r @ [CHR 10])
               results)"

fun parse_error_text :: "parse_error \<Rightarrow> string" where
  "parse_error_text (InvalidPatch m) = ''Invalid patch: '' @ m"
| "parse_error_text (InvalidHunk m n) = ''Invalid patch hunk on line '' @ decimal n @ '': '' @ m"

section \<open>The tool\<close>

text \<open>The result is the tool's output, or the error of the tool call; \<open>None\<close> would be a panic.\<close>

definition run ::
    "'w async_fs \<Rightarrow> string \<Rightarrow> string \<Rightarrow> 'w \<Rightarrow> ((string + patch_output) \<times> file_written list \<times> 'w) option" where
  "run fs cwd patch w =
     (case parse_patch patch of
        Inl e \<Rightarrow> Some (Inr (PatchParseError (parse_error_text e)), [], w)
      | Inr parsed \<Rightarrow>
          (if pp_hunks parsed = [] then Some (Inr (PatchEmpty ''No files were modified.''), [], w)
           else case compute_all_changes fs w cwd (pp_hunks parsed) of
                  None \<Rightarrow> None
                | Some (Inl e) \<Rightarrow> Some (Inr (PatchApplicationError e), [], w)
                | Some (Inr changes) \<Rightarrow>
                    (case write_changes fs changes w of
                       (Some e, log, w') \<Rightarrow> Some (Inl e, log, w')
                     | (None, log, w') \<Rightarrow>
                         (let results = map file_result_of changes
                          in Some (Inr (PatchSuccess results (build_summary results)), log, w')))))"

end
