(* ===== verification/PatchParserSpec.thy ===== *)
theory PatchParserSpec
  imports PatchParser
begin

text \<open>
  The patch format is unambiguous: a list of sections, written out in the format, parses back to
  itself.
\<close>

section \<open>Writing a patch\<close>

fun render_context :: "string option \<Rightarrow> string" where
  "render_context None = ''@@''"
| "render_context (Some ctx) = ''@@ '' @ ctx"

definition render_chunk :: "update_file_chunk \<Rightarrow> string list" where
  "render_chunk c =
     render_context (change_context c) #
     map (\<lambda>l. CHR ''-'' # l) (old_lines c) @ map (\<lambda>l. CHR ''+'' # l) (new_lines c) @
     (if is_end_of_file c then [''*** End of File''] else [])"

fun render_hunk :: "hunk \<Rightarrow> string list" where
  "render_hunk (AddFile path contents) =
     (''*** Add File: '' @ path) # map (\<lambda>l. CHR ''+'' # l) (butlast (split_on (CHR 10) contents))"
| "render_hunk (DeleteFile path) = [''*** Delete File: '' @ path]"
| "render_hunk (UpdateFile path move chunks) =
     (''*** Update File: '' @ path) #
     (case move of None \<Rightarrow> [] | Some dest \<Rightarrow> [''*** Move to: '' @ dest]) @ concat (map render_chunk chunks)"

definition render_patch :: "hunk list \<Rightarrow> string" where
  "render_patch hs =
     join_with [CHR 10] (''*** Begin Patch'' # concat (map render_hunk hs) @ [''*** End Patch''])"

section \<open>What can be written\<close>

text \<open>A line has no newline and no carriage return at its end; a path in a header has no white space
  at its end; an update has chunks, and a chunk has lines.\<close>

definition path_ok :: "string \<Rightarrow> bool" where
  "path_ok p \<longleftrightarrow> p \<noteq> [] \<and> CHR 10 \<notin> set p \<and> skip_ws_end p = None"

definition chunk_ok :: "update_file_chunk \<Rightarrow> bool" where
  "chunk_ok c \<longleftrightarrow>
     (case change_context c of None \<Rightarrow> True | Some ctx \<Rightarrow> line_ok ctx) \<and>
     list_all line_ok (old_lines c) \<and> list_all line_ok (new_lines c) \<and> old_lines c @ new_lines c \<noteq> []"

fun hunk_ok :: "hunk \<Rightarrow> bool" where
  "hunk_ok (AddFile path contents) \<longleftrightarrow>
     path_ok path \<and> (contents = [] \<or> last contents = CHR 10) \<and>
     list_all line_ok (split_on (CHR 10) contents)"
| "hunk_ok (DeleteFile path) \<longleftrightarrow> path_ok path"
| "hunk_ok (UpdateFile path move chunks) \<longleftrightarrow>
     path_ok path \<and> (case move of None \<Rightarrow> True | Some dest \<Rightarrow> line_ok dest) \<and>
     chunks \<noteq> [] \<and> list_all chunk_ok chunks"

section \<open>Lines\<close>

lemma trim_end_visible: "visible c \<Longrightarrow> \<exists>t. trim_end (c # s) = c # t"
proof (induction "length s" arbitrary: s rule: less_induct)
  case less
  show ?case
  proof (cases "skip_ws_end (c # s)")
    case None
    then show ?thesis by (simp add: trim_end.simps)
  next
    case (Some t)
    have "\<exists>t'. t = c # t'"
    proof (cases "ascii_ws (last (c # s))")
      case True
      with Some less.prems show ?thesis by (cases s) (auto simp: skip_ws_end_def visible_def)
    next
      case False
      with Some obtain w where w: "w \<in> set ws_sequences" "suffix w (c # s)"
        "t = take (length (c # s) - length w) (c # s)"
        by (auto simp: skip_ws_end_def split: option.splits dest!: find_SomeD)
      have "w \<noteq> c # s"
        using ws_sequences_high [OF w(1), of c] less.prems by (auto simp: visible_def)
      then have "length w < length (c # s)" using w(2) by (metis suffix_length_le suffix_def
            append_eq_append_conv append_Nil le_neq_implies_less)
      with w(3) show ?thesis by (simp add: take_Cons')
    qed
    then obtain t' where t': "t = c # t'" ..
    with skip_ws_end_shorter [OF Some] less.hyps [OF _ less.prems, of t'] Some show ?thesis
      by (simp add: trim_end.simps [of "c # s"])
  qed
qed

lemma trim_not_Nil: "visible c \<Longrightarrow> trim (c # s) \<noteq> []"
  using trim_end_visible [of c s] by (auto simp: trim_def trim_start_fixed)

lemma visible_marks [simp]: "visible (CHR ''*'')" "visible (CHR ''@'')" "visible (CHR ''h'')"
  by (simp_all add: visible_def ascii_ws_def)

lemma trim_header:
  assumes "path_ok p" "m \<noteq> []" "visible (hd m)" "\<forall>c \<in> set m. (of_char c :: nat) < 128"
  shows "trim (m @ p) = m @ p"
proof -
  have "\<not> suffix w (m @ p)" if w: "w \<in> set ws_sequences" for w
  proof
    assume "suffix w (m @ p)"
    then consider "suffix w p" | m' where "w = m' @ p" "suffix m' m" "m' \<noteq> []"
      unfolding suffix_append by fastforce
    then show False
    proof cases
      case 1
      then show ?thesis using assms(1) w by (auto simp: path_ok_def skip_ws_end_None_iff)
    next
      case (2 m')
      then have "hd m' \<in> set m" "hd m' \<in> set w"
        using set_mono_suffix [of m' m] by (auto simp: hd_in_set subset_iff)
      then show ?thesis using ws_sequences_high [OF w] assms(4) by fastforce
    qed
  qed
  then have "skip_ws_end (m @ p) = None"
    using assms(1) by (auto simp: path_ok_def skip_ws_end_None_iff)
  moreover have "skip_ws (m @ p) = None" using assms(2,3) by (cases m) auto
  ultimately show ?thesis by (simp add: trim_fixed_iff)
qed

section \<open>Parsing what was written\<close>

text \<open>What may follow a chunk: nothing, a context marker, or a header.\<close>

definition chunk_stop :: "string list \<Rightarrow> bool" where
  "chunk_stop rest \<longleftrightarrow>
     rest = [] \<or> (\<exists>c s. hd rest = c # s \<and> c \<in> {CHR ''@'', CHR ''*''} \<and> hd rest \<noteq> EOF_MARKER)"

definition header_stop :: "string list \<Rightarrow> bool" where
  "header_stop rest \<longleftrightarrow> rest = [] \<or> starts_with (hd rest) ''***'' \<and> hd rest \<noteq> EOF_MARKER"

lemma header_chunk_stop: "header_stop rest \<Longrightarrow> chunk_stop rest"
  by (auto simp: header_stop_def chunk_stop_def prefix_def)

lemma chunk_lines_stop:
  "chunk_stop rest \<Longrightarrow> 0 < k \<Longrightarrow> chunk_lines n k rest c = Inr (c, k)"
  by (cases rest) (auto simp: chunk_stop_def split: list.splits)

lemma chunk_lines_old:
  "chunk_lines n k (map (\<lambda>l. CHR ''-'' # l) ls @ rest) c =
   chunk_lines n (k + length ls) rest (c\<lparr>old_lines := old_lines c @ ls\<rparr>)"
proof (induction ls arbitrary: k c)
  case (Cons l ls)
  then show ?case by (simp add: EOF_MARKER_def)
qed simp

lemma chunk_lines_new:
  "chunk_lines n k (map (\<lambda>l. CHR ''+'' # l) ls @ rest) c =
   chunk_lines n (k + length ls) rest (c\<lparr>new_lines := new_lines c @ ls\<rparr>)"
proof (induction ls arbitrary: k c)
  case (Cons l ls)
  then show ?case by (simp add: EOF_MARKER_def)
qed simp

lemma parse_rendered_chunk:
  assumes "chunk_ok c" "chunk_stop rest"
  shows "parse_update_file_chunk (render_chunk c @ rest) n b = Inr (c, length (render_chunk c))"
proof -
  let ?k = "length (old_lines c) + length (new_lines c)"
  have k: "0 < ?k" using assms(1) by (auto simp: chunk_ok_def)
  have ctx: "chunk_context (render_context (change_context c)) n b = Inr (change_context c, 1)"
    by (cases "change_context c") (simp_all add: chunk_context_def marker_defs strip_prefix_def)
  have "chunk_lines n 0 (tl (render_chunk c) @ rest) (empty_chunk (change_context c)) =
      Inr (c, ?k + (if is_end_of_file c then 1 else 0))"
    using k chunk_lines_stop [OF assms(2) k]
    by (cases c) (auto simp add: render_chunk_def chunk_lines_old chunk_lines_new empty_chunk_def EOF_MARKER_def)
  then show ?thesis
    using ctx k by (auto simp: parse_update_file_chunk_def render_chunk_def)
qed

lemma render_chunk_head: "\<exists>s. hd (render_chunk c @ rest) = CHR ''@'' # s"
  by (cases "change_context c") (auto simp: render_chunk_def)

lemma update_rendered_chunks:
  assumes "list_all chunk_ok chunks" "header_stop rest"
  shows "update_chunks n p cs (concat (map render_chunk chunks) @ rest) =
    Inr (cs @ chunks, p + length (concat (map render_chunk chunks)))"
  using assms(1)
proof (induction chunks arbitrary: p cs)
  case Nil
  show ?case
  proof (cases rest)
    case (Cons l rest')
    then obtain s where "l = CHR ''*'' # s" "starts_with l ''***''"
      using assms(2) by (auto simp: header_stop_def prefix_def)
    then show ?thesis using Cons trim_not_Nil by (subst update_chunks.simps) auto
  qed (simp add: update_chunks.simps)
next
  case (Cons c chunks)
  let ?rest = "concat (map render_chunk chunks) @ rest"
  have stop: "chunk_stop ?rest"
  proof (cases chunks)
    case Nil
    then show ?thesis using assms(2) header_chunk_stop by simp
  next
    case (Cons c' chunks')
    then show ?thesis
      using render_chunk_head [of c' "concat (map render_chunk chunks') @ rest"]
      by (auto simp: chunk_stop_def EOF_MARKER_def)
  qed
  obtain s ls where head: "render_chunk c = (CHR ''@'' # s) # ls"
    using render_chunk_head [of c "[]"] by (cases "render_chunk c") (auto simp: render_chunk_def)
  have "update_chunks n p cs (render_chunk c @ ?rest) =
      update_chunks n (p + length (render_chunk c)) (cs @ [c]) ?rest"
    using Cons.prems parse_rendered_chunk [OF _ stop, of c "n + p" "cs = []"] trim_not_Nil [of "CHR ''@''" s]
    by (subst update_chunks.simps) (simp add: head)
  with Cons show ?case by simp
qed

lemma add_lines_rendered:
  assumes "header_stop rest"
  shows "add_lines (map (\<lambda>l. CHR ''+'' # l) ls @ rest) = ls"
proof -
  have "takeWhile (\<lambda>l. starts_with l ''+'') rest = []"
    using assms by (cases rest) (auto simp: header_stop_def prefix_def)
  then show ?thesis by (induction ls) (simp_all add: add_lines_def)
qed

lemma contents_lines:
  assumes "contents = [] \<or> last contents = CHR 10"
  shows "concat (map (\<lambda>l. l @ [CHR 10]) (butlast (split_on (CHR 10) contents))) = contents"
proof -
  have "contents @ [CHR 10] = concat (map (\<lambda>l. l @ [CHR 10]) (split_on (CHR 10) contents))" for contents
  proof (induction contents)
    case (Cons x xs)
    obtain y ys where "split_on (CHR 10) xs = y # ys"
      using split_on_not_Nil by (metis list.exhaust)
    with Cons show ?case by auto
  qed simp
  note ends = this
  show ?thesis
  proof (cases "contents = []")
    case False
    then have "contents = butlast contents @ [CHR 10]" using assms append_butlast_last_id by metis
    moreover from this have "split_on (CHR 10) contents = split_on (CHR 10) (butlast contents) @ [[]]"
      using split_on_append [of "CHR 10" "butlast contents" "[]"] by simp
    ultimately show ?thesis using ends [of "butlast contents"] by simp
  qed simp
qed

lemma render_hunk_head:
  obtains s ls where "render_hunk h = (''*** '' @ s) # ls" "''*** '' @ s \<noteq> EOF_MARKER"
  by (cases h) (auto simp: EOF_MARKER_def)

lemma strip_header [simp]:
  "strip_prefix (''*** Add File: '' @ p) ADD_FILE_MARKER = Some p"
  "strip_prefix (''*** Delete File: '' @ p) ADD_FILE_MARKER = None"
  "strip_prefix (''*** Delete File: '' @ p) DELETE_FILE_MARKER = Some p"
  "strip_prefix (''*** Update File: '' @ p) ADD_FILE_MARKER = None"
  "strip_prefix (''*** Update File: '' @ p) DELETE_FILE_MARKER = None"
  "strip_prefix (''*** Update File: '' @ p) UPDATE_FILE_MARKER = Some p"
  "strip_prefix (''*** Move to: '' @ p) MOVE_TO_MARKER = Some p"
  by (simp_all add: marker_defs strip_prefix_def)

lemma trim_headers:
  assumes "path_ok p"
  shows "trim (''*** Add File: '' @ p) = ''*** Add File: '' @ p"
    "trim (''*** Delete File: '' @ p) = ''*** Delete File: '' @ p"
    "trim (''*** Update File: '' @ p) = ''*** Update File: '' @ p"
  by (rule trim_header [OF assms]; simp)+

lemma parse_rendered_hunk:
  assumes "hunk_ok h" "header_stop rest"
  shows "parse_one_hunk (render_hunk h @ rest) n = Inr (h, length (render_hunk h))"
proof (cases h)
  case (AddFile p contents)
  let ?ls = "butlast (split_on (CHR 10) contents)"
  have ok: "path_ok p" "contents = [] \<or> last contents = CHR 10" using assms(1) AddFile by auto
  have "parse_one_hunk (render_hunk h @ rest) n =
      Inr (AddFile p (concat (map (\<lambda>l. l @ [CHR 10]) ?ls)), 1 + length ?ls)"
    using trim_headers(1) [OF ok(1)] add_lines_rendered [OF assms(2), of ?ls] AddFile
    by (simp add: parse_one_hunk_def Let_def del: append.simps)
  then show ?thesis using contents_lines [OF ok(2)] AddFile by simp
next
  case (DeleteFile p)
  then show ?thesis
    using trim_headers(2) [of p] assms(1) by (simp add: parse_one_hunk_def Let_def del: append.simps)
next
  case (UpdateFile p move chunks)
  have ok: "path_ok p" "chunks \<noteq> []" "list_all chunk_ok chunks" using assms(1) UpdateFile by auto
  let ?moved = "case move of None \<Rightarrow> [] | Some dest \<Rightarrow> [''*** Move to: '' @ dest]"
  let ?tail = "concat (map render_chunk chunks) @ rest"
  obtain s ls where "?tail = (CHR ''@'' # s) # ls"
    using ok(2) render_chunk_head [of "hd chunks" "concat (map render_chunk (tl chunks)) @ rest"]
    by (cases chunks) (auto simp: render_chunk_def)
  then have "Option.bind (first_opt ?tail) (\<lambda>l. strip_prefix l MOVE_TO_MARKER) = None"
    by (simp add: strip_prefix_def MOVE_TO_MARKER_def)
  then have "Option.bind (first_opt (?moved @ ?tail)) (\<lambda>l. strip_prefix l MOVE_TO_MARKER) = move"
    by (cases move) (simp_all add: strip_prefix_def MOVE_TO_MARKER_def)
  moreover have "drop (if move = None then 0 else 1) (?moved @ ?tail) = ?tail" by (cases move) auto
  moreover have "update_chunks n (1 + (if move = None then 0 else 1)) [] ?tail =
      Inr (chunks, length (render_hunk h))"
    using update_rendered_chunks [OF ok(3) assms(2)] UpdateFile by (cases move) simp_all
  ultimately show ?thesis
    using trim_headers(3) [OF ok(1)] UpdateFile ok(2)
    by (simp add: parse_one_hunk_def Let_def del: append.simps)
qed

lemma parse_rendered_hunks:
  assumes "list_all hunk_ok hs"
  shows "parse_hunks n (concat (map render_hunk hs)) = Inr hs"
  using assms
proof (induction hs arbitrary: n)
  case Nil
  then show ?case by (simp add: parse_hunks.simps)
next
  case (Cons h hs)
  let ?rest = "concat (map render_hunk hs)"
  have "header_stop ?rest"
  proof (cases hs)
    case (Cons h' hs')
    obtain s ls where "render_hunk h' = (''*** '' @ s) # ls" "''*** '' @ s \<noteq> EOF_MARKER"
      by (rule render_hunk_head)
    with Cons show ?thesis by (simp add: header_stop_def)
  qed (simp add: header_stop_def)
  then have "parse_one_hunk (render_hunk h @ ?rest) n = Inr (h, length (render_hunk h))"
    using Cons.prems by (intro parse_rendered_hunk) auto
  moreover have "render_hunk h \<noteq> []" by (cases h) auto
  ultimately show ?case
    using Cons by (subst parse_hunks.simps) simp
qed

lemma join_with_ends: "\<exists>m. join_with sep (x # ls @ [y]) = x @ m @ y"
proof (induction ls arbitrary: x)
  case Nil
  show ?case by (intro exI [of _ sep]) simp
next
  case (Cons l ls)
  then obtain m where "join_with sep (l # ls @ [y]) = l @ m @ y" by blast
  then show ?case by (intro exI [of _ "sep @ l @ m"]) simp
qed

lemma render_hunk_lines:
  assumes "hunk_ok h"
  shows "list_all line_ok (render_hunk h)"
proof -
  have tagged: "line_ok (c # l)" if "line_ok l" "c \<noteq> CHR 10" "c \<noteq> CHR 13" for c l
    using that by (auto simp: line_ok_def)
  have path: "line_ok p" if "path_ok p" for p
  proof -
    have "last p \<noteq> CHR 13" using that by (auto simp: path_ok_def skip_ws_end_None_iff ascii_ws_def)
    then show ?thesis using that by (simp add: line_ok_def path_ok_def)
  qed
  have marked: "line_ok (m @ l)" if "line_ok l" "line_ok m" for m l
    using that by (cases l) (auto simp: line_ok_def)
  have chunks: "list_all line_ok (render_chunk c)" if "chunk_ok c" for c
  proof -
    have ok: "\<forall>l \<in> set (old_lines c). line_ok l" "\<forall>l \<in> set (new_lines c). line_ok l"
      using that by (simp_all add: chunk_ok_def list_all_iff)
    have "line_ok (render_context (change_context c))"
      using that marked [of _ "''@@ ''"] by (cases "change_context c") (simp_all add: chunk_ok_def line_ok_def)
    moreover have "line_ok ''*** End of File''" by (simp add: line_ok_def)
    moreover have "\<forall>l \<in> set (old_lines c). line_ok (CHR ''-'' # l)" "\<forall>l \<in> set (new_lines c). line_ok (CHR ''+'' # l)"
      using ok tagged by simp_all
    ultimately show ?thesis
      unfolding render_chunk_def list_all_iff by (simp add: ball_Un image_Un)
  qed
  show ?thesis
  proof (cases h)
    case (AddFile p contents)
    then have "\<forall>l \<in> set (butlast (split_on (CHR 10) contents)). line_ok l"
      using assms by (auto simp: list_all_iff dest: in_set_butlastD)
    then show ?thesis
      using marked [of p "''*** Add File: ''"] path [of p] tagged [of _ "CHR ''+''"] assms AddFile
      by (auto simp: list_all_iff line_ok_def)
  next
    case (DeleteFile p)
    then show ?thesis
      using marked [of p "''*** Delete File: ''"] path [of p] assms by (simp add: line_ok_def)
  next
    case (UpdateFile p move cs)
    have "\<forall>c \<in> set cs. list_all line_ok (render_chunk c)"
      using chunks assms UpdateFile by (auto simp: list_all_iff)
    moreover have "\<forall>dest. move = Some dest \<longrightarrow> line_ok (''*** Move to: '' @ dest)"
      using marked [of _ "''*** Move to: ''"] assms UpdateFile by (auto simp: line_ok_def)
    moreover have "line_ok (''*** Update File: '' @ p)"
      using marked [of p "''*** Update File: ''"] path [of p] assms UpdateFile by (simp add: line_ok_def)
    ultimately show ?thesis using UpdateFile by (auto simp: list_all_iff split: option.split)
  qed
qed

text \<open>C31. A patch, written out in the format, parses back to its sections, whatever their order, their
  contents and the number of their chunks.\<close>

theorem patch_roundtrip:
  assumes "list_all hunk_ok hs"
  shows "parse_patch (render_patch hs) = Inr \<lparr>pp_hunks = hs, pp_patch = render_patch hs\<rparr>"
proof -
  let ?ls = "''*** Begin Patch'' # concat (map render_hunk hs) @ [''*** End Patch'']"
  have ok: "list_all line_ok ?ls"
    using assms render_hunk_lines by (auto simp: line_ok_def list_all_iff)
  obtain m where "render_patch hs = ''*** Begin Patch'' @ m @ ''*** End Patch''"
    using join_with_ends unfolding render_patch_def by blast
  then have "\<exists>s. render_patch hs = CHR ''*'' # s @ [CHR ''h'']"
    by (intro exI [of _ "''** Begin Patch'' @ m @ ''*** End Patc''"]) simp
  then have trim: "trim (render_patch hs) = render_patch hs" by auto
  have "str_lines (render_patch hs) = ?ls"
    unfolding render_patch_def using ok by (intro str_lines_join) auto
  moreover have "check_patch_boundaries_strict ?ls = Inr ()"
  proof -
    have "trim ''*** Begin Patch'' = BEGIN_PATCH_MARKER" "trim ''*** End Patch'' = END_PATCH_MARKER"
      by code_simp+
    then show ?thesis by (simp add: check_patch_boundaries_strict_def check_start_and_end_lines_strict_def)
  qed
  moreover have "drop 1 (take (length ?ls - 1) ?ls) = concat (map render_hunk hs)" by simp
  ultimately show ?thesis
    using trim parse_rendered_hunks [OF assms]
    by (simp add: parse_patch_def parse_patch_text_def patch_body_def render_patch_def)
qed

definition sample_hunks :: "hunk list" where
  "sample_hunks =
     [UpdateFile ''src/a.rs'' (Some ''src/b.rs'')
        [\<lparr>change_context = Some ''fn f()'', old_lines = [''a'', []], new_lines = [''b''], is_end_of_file = False\<rparr>,
         \<lparr>change_context = None, old_lines = [], new_lines = [''c''], is_end_of_file = True\<rparr>],
      AddFile ''new file'' (''x'' @ [CHR 10, CHR 10]), DeleteFile ''gone'']"

theorem patch_roundtrip_witness:
  "\<exists>text. parse_patch text = Inr \<lparr>pp_hunks = sample_hunks, pp_patch = text\<rparr>"
proof -
  have "list_all hunk_ok sample_hunks" by code_simp
  from patch_roundtrip [OF this] show ?thesis by blast
qed

end
