(* ===== verification/PatchApplySpec.thy ===== *)
theory PatchApplySpec
  imports PatchApply "HOL-Library.Multiset"
begin

text \<open>
  The patch engine on one file: it never panics, and its result is an edit script of the file, block
  by block in the order of the chunks.  Two chunk shapes defeat it: an addition when the file ends in
  a blank line that a later chunk replaces, and end-of-file chunks that overlap.
\<close>

section \<open>One replacement\<close>

lemma remove_at_pow: "(remove_at i ^^ n) xs = take i xs @ drop (i + n) xs"
proof (induction n)
  case (Suc n)
  then show ?case
    by (cases "i + n < length xs") (auto simp: remove_at_def min_def)
qed simp

lemma insert_lines_eq: "i \<le> length xs \<Longrightarrow> insert_lines i new xs = Some (take i xs @ new @ drop i xs)"
proof (induction new arbitrary: i xs)
  case (Cons l ls)
  then show ?case by (simp add: vec_insert_def min_def)
qed simp

lemma apply_replacement_eq:
  "s \<le> length xs \<Longrightarrow> apply_replacement (s, n, new) xs = Some (take s xs @ new @ drop (s + n) xs)"
  by (simp add: apply_replacement_def remove_at_pow insert_lines_eq)

lemma apply_in_order_append:
  "apply_in_order (rs @ rs') xs = Option.bind (apply_in_order rs xs) (apply_in_order rs')"
proof (induction rs arbitrary: xs)
  case (Cons r rs)
  then show ?case by (cases "apply_replacement r xs") auto
qed simp

section \<open>No panic\<close>

lemma apply_descending:
  assumes "sorted_wrt (\<lambda>r r'. fst r' \<le> fst r) rs" "\<forall>r \<in> set rs. fst r \<le> length xs"
  shows "apply_in_order rs xs \<noteq> None"
  using assms
proof (induction rs arbitrary: xs)
  case (Cons r rs)
  obtain s n new where r: "r = (s, n, new)" by (cases r)
  with Cons.prems have "s \<le> length (take s xs @ new @ drop (s + n) xs)" "s \<le> length xs" by auto
  moreover from this Cons.prems r have
    "apply_in_order rs (take s xs @ new @ drop (s + n) xs) \<noteq> None"
    by (intro Cons.IH) (auto simp del: length_append intro: order_trans)
  ultimately show ?case using r by (simp add: apply_replacement_eq)
qed simp

definition context_in :: "update_file_chunk \<Rightarrow> string list \<Rightarrow> bool" where
  "context_in c ls \<longleftrightarrow>
     (case change_context c of None \<Rightarrow> True | Some ctx \<Rightarrow> (\<exists>l \<in> set ls. similar [l] [ctx]))"

lemma context_in_mono: "context_in c ls \<Longrightarrow> set ls \<subseteq> set ls' \<Longrightarrow> context_in c ls'"
  by (auto simp: context_in_def split: option.splits)

lemma take_drop_interval: "pos \<le> j \<Longrightarrow> take pos xs @ take (j - pos) (drop pos xs) = take j xs"
  by (metis le_add_diff_inverse take_add)

lemma locate_contextD:
  assumes "locate_context original path c pos = Inr j" "pos \<le> length original"
  shows "j \<le> length original" "pos \<le> j" "context_in c (take (j - pos) (drop pos original))"
proof -
  have "j \<le> length original \<and> pos \<le> j \<and> context_in c (take (j - pos) (drop pos original))"
  proof (cases "change_context c")
    case None
    then show ?thesis using assms by (simp add: locate_context_def context_in_def)
  next
    case (Some ctx)
    with assms(1) obtain i where i: "seek_sequence original [ctx] pos False = Some i" "j = i + 1"
      by (auto simp: locate_context_def split: option.splits)
    note found = seek_sequence_SomeD [OF i(1) assms(2)]
    have "original ! i \<in> set (take (j - pos) (drop pos original))"
      using found i(2) by (auto simp: in_set_conv_nth intro!: exI [of _ "i - pos"])
    moreover have "similar [original ! i] [ctx]"
      using found(1,2) by (simp add: take_Suc_conv_app_nth take_Suc hd_drop_conv_nth)
    ultimately show ?thesis using found i Some by (auto simp: context_in_def)
  qed
  then show "j \<le> length original" "pos \<le> j" "context_in c (take (j - pos) (drop pos original))" by auto
qed

text \<open>The two ways a block of old lines can be found.\<close>

definition shortened_new :: "update_file_chunk \<Rightarrow> string list" where
  "shortened_new c = (if blank_last (new_lines c) then butlast (new_lines c) else new_lines c)"

definition replaces :: "update_file_chunk \<Rightarrow> string list \<Rightarrow> string list \<Rightarrow> bool" where
  "replaces c old new \<longleftrightarrow>
     (similar old (old_lines c) \<and> new = new_lines c) \<or>
     (blank_last (old_lines c) \<and> similar old (butlast (old_lines c)) \<and> new = shortened_new c)"

lemma locate_oldD:
  assumes "locate_old original c pos = Some (s, n, new)" "pos \<le> length original"
  shows "s + n \<le> length original" "replaces c (take n (drop s original)) new"
    "\<not> is_end_of_file c \<Longrightarrow> pos \<le> s" "n = 0 \<Longrightarrow> old_lines c = [] \<or> old_lines c = [[]] \<and> new = shortened_new c"
proof -
  consider (full) "seek_sequence original (old_lines c) pos (is_end_of_file c) = Some s"
      "n = length (old_lines c)" "new = new_lines c"
    | (short) "seek_sequence original (butlast (old_lines c)) pos (is_end_of_file c) = Some s"
      "n = length (butlast (old_lines c))" "new = shortened_new c" "blank_last (old_lines c)"
    using assms(1) by (auto simp: locate_old_def Let_def shortened_new_def split: option.splits if_split_asm)
  then have "s + n \<le> length original \<and> replaces c (take n (drop s original)) new \<and>
    (\<not> is_end_of_file c \<longrightarrow> pos \<le> s) \<and>
    (n = 0 \<longrightarrow> old_lines c = [] \<or> old_lines c = [[]] \<and> new = shortened_new c)"
  proof cases
    case full
    then show ?thesis using seek_sequence_SomeD [OF full(1) assms(2)] by (auto simp: replaces_def)
  next
    case short
    have "old_lines c = butlast (old_lines c) @ [[]]"
      using short(4) by (metis append_butlast_last_id blank_last_def)
    then have "n = 0 \<longrightarrow> old_lines c = [[]]" using short(2) by (cases "butlast (old_lines c)") auto
    then show ?thesis using seek_sequence_SomeD [OF short(1) assms(2)] short by (auto simp: replaces_def)
  qed
  then show "s + n \<le> length original" "replaces c (take n (drop s original)) new"
    "\<not> is_end_of_file c \<Longrightarrow> pos \<le> s"
    "n = 0 \<Longrightarrow> old_lines c = [] \<or> old_lines c = [[]] \<and> new = shortened_new c" by auto
qed

lemma replacements_in_range:
  assumes "replacements_from original path pos chunks = Inr rs" "pos \<le> length original" "r \<in> set rs"
  shows "fst r \<le> length original"
  using assms
proof (induction chunks arbitrary: pos rs)
  case (Cons c chunks)
  from Cons.prems(1) obtain j where j: "locate_context original path c pos = Inr j"
    by (auto split: sum.splits)
  note ctx = locate_contextD [OF j Cons.prems(2)]
  show ?case
  proof (cases "old_lines c = []")
    case True
    with Cons.prems j ctx(1) show ?thesis by (auto simp: map_sum_Inr_iff intro: Cons.IH)
  next
    case False
    with Cons.prems(1) j obtain s n new rs' where l: "locate_old original c j = Some (s, n, new)"
      "replacements_from original path (s + n) chunks = Inr rs'" "rs = (s, n, new) # rs'"
      by (auto simp: map_sum_Inr_iff split: option.splits)
    have "s + n \<le> length original" using locate_oldD(1) [OF l(1) ctx(1)] .
    with Cons.IH [OF l(2)] Cons.prems(3) l(3) show ?thesis by auto
  qed
qed simp

text \<open>Whatever the patch, applying it does not panic: no insertion is past the end.\<close>

lemma apply_never_panics: "derive_new_contents content path chunks \<noteq> None"
proof (cases "compute_replacements (content_lines content) path chunks")
  case (Inr rs)
  then obtain rs0 where rs: "replacements_from (content_lines content) path 0 chunks = Inr rs0"
    "rs = sort_key fst rs0"
    by (auto simp: compute_replacements_def map_sum_Inr_iff)
  have "sorted_wrt (\<lambda>r r'. fst r' \<le> fst r) (rev rs)"
    using sorted_sort_key [of fst rs0] rs(2) by (simp add: sorted_wrt_rev sorted_map)
  moreover have "\<forall>r \<in> set (rev rs). fst r \<le> length (content_lines content)"
    using replacements_in_range [OF rs(1)] rs(2) by simp
  ultimately show ?thesis
    using apply_descending Inr by (auto simp: derive_new_contents_def apply_replacements_def Let_def)
qed (simp add: derive_new_contents_def)

section \<open>The replacements as one left-to-right splice\<close>

fun splice_from :: "nat \<Rightarrow> string list \<Rightarrow> replacement list \<Rightarrow> string list" where
  "splice_from pos xs [] = drop pos xs"
| "splice_from pos xs ((s, n, new) # rs) = take (s - pos) (drop pos xs) @ new @ splice_from (s + n) xs rs"

fun disjoint_from :: "nat \<Rightarrow> nat \<Rightarrow> replacement list \<Rightarrow> bool" where
  "disjoint_from pos len [] \<longleftrightarrow> pos \<le> len"
| "disjoint_from pos len ((s, n, new) # rs) \<longleftrightarrow> pos \<le> s \<and> disjoint_from (s + n) len rs"

lemma disjoint_from_le: "disjoint_from pos len rs \<Longrightarrow> pos \<le> len"
  by (induction pos len rs rule: disjoint_from.induct) auto

lemma apply_disjoint:
  "disjoint_from pos (length xs) rs \<Longrightarrow> apply_in_order (rev rs) xs = Some (take pos xs @ splice_from pos xs rs)"
proof (induction pos xs rs rule: splice_from.induct)
  case (2 pos xs s n new rs)
  then have s: "pos \<le> s" "s + n \<le> length xs" using disjoint_from_le by auto
  let ?ys = "take (s + n) xs @ splice_from (s + n) xs rs"
  have "apply_in_order (rev ((s, n, new) # rs)) xs = apply_replacement (s, n, new) ?ys"
    using 2 by (cases "apply_replacement (s, n, new) ?ys") (auto simp: apply_in_order_append)
  also have "\<dots> = Some (take s ?ys @ new @ drop (s + n) ?ys)"
    using s(2) by (intro apply_replacement_eq) simp
  also have "take s ?ys @ new @ drop (s + n) ?ys = take s xs @ new @ splice_from (s + n) xs rs"
    using s(2) by (simp add: min_def)
  also have "take s xs = take pos xs @ take (s - pos) (drop pos xs)"
    using s(1) by (simp add: take_drop_interval)
  finally show ?case by simp
qed simp

lemma splice_from_earlier:
  assumes "disjoint_from j len rs" "pos \<le> j"
  shows "splice_from pos xs rs = take (j - pos) (drop pos xs) @ splice_from j xs rs"
proof (cases rs)
  case Nil
  have "drop pos xs = take (j - pos) (drop pos xs) @ drop (j - pos) (drop pos xs)"
    by (rule append_take_drop_id [symmetric])
  with Nil assms(2) show ?thesis by simp
next
  case (Cons r rs')
  obtain s n new where r: "r = (s, n, new)" by (cases r)
  with Cons assms have "pos \<le> j" "j \<le> s" by auto
  then have "take (s - pos) (drop pos xs) = take (j - pos) (drop pos xs) @ take (s - j) (drop j xs)"
    using take_add [of "j - pos" "s - j" "drop pos xs"] by simp
  with Cons r show ?thesis by simp
qed

text \<open>Replacements past the last line only append.\<close>

lemma splice_from_append:
  assumes "disjoint_from pos (length xs) rs" "\<forall>r \<in> set tail. fst r = length xs \<and> fst (snd r) = 0"
  shows "splice_from pos xs (rs @ tail) = splice_from pos xs rs @ concat (map (\<lambda>r. snd (snd r)) tail)"
    and "disjoint_from pos (length xs) (rs @ tail)"
proof -
  have tail: "splice_from p xs tail = drop p xs @ concat (map (\<lambda>r. snd (snd r)) tail) \<and>
      disjoint_from p (length xs) tail" if "p \<le> length xs" for p
    using assms(2) that
  proof (induction tail arbitrary: p)
    case (Cons r tail)
    then show ?case by (cases r) auto
  qed simp
  have "splice_from p xs (rs @ tail) = splice_from p xs rs @ concat (map (\<lambda>r. snd (snd r)) tail) \<and>
      disjoint_from p (length xs) (rs @ tail)" if "disjoint_from p (length xs) rs" for p
    using that tail by (induction p "length xs" rs rule: disjoint_from.induct) auto
  then show "splice_from pos xs (rs @ tail) = splice_from pos xs rs @ concat (map (\<lambda>r. snd (snd r)) tail)"
    "disjoint_from pos (length xs) (rs @ tail)" using assms(1) by blast+
qed

section \<open>The edit script\<close>

text \<open>
  \<open>edited chunks xs ys zs\<close>: reading the chunks in order over the remaining lines \<open>xs\<close> gives the
  lines \<open>ys\<close> and the additions \<open>zs\<close> at the end.  Each chunk leaves the lines before its block, which
  hold its context, and turns a block similar to its old lines into its new lines; a chunk without
  old lines (or whose only old line is a blank one) may add its new lines at the end.
\<close>

inductive edited :: "update_file_chunk list \<Rightarrow> string list \<Rightarrow> string list \<Rightarrow> string list \<Rightarrow> bool" where
  edited_done: "edited [] xs xs []"
| edited_replace: "edited (c # cs) (keep @ old @ xs) (keep @ new @ ys) zs"
    if "context_in c keep" "replaces c old new" "old_lines c \<noteq> []" "edited cs xs ys zs"
| edited_add: "edited (c # cs) (keep @ xs) (keep @ ys) (new_lines c @ zs)"
    if "context_in c keep" "old_lines c = []" "edited cs xs ys zs"
| edited_add_blank: "edited (c # cs) (keep @ xs) (keep @ ys) (shortened_new c @ zs)"
    if "context_in c keep" "old_lines c = [[]]" "edited cs xs ys zs"

definition inner :: "nat \<Rightarrow> replacement list \<Rightarrow> replacement list" where
  "inner len rs = filter (\<lambda>r. fst r < len) rs"

definition outer :: "nat \<Rightarrow> replacement list \<Rightarrow> replacement list" where
  "outer len rs = filter (\<lambda>r. fst r = len) rs"

lemma inner_outer_simps [simp]:
  "inner len [] = []" "outer len [] = []"
  "inner len (r # rs) = (if fst r < len then r # inner len rs else inner len rs)"
  "outer len (r # rs) = (if fst r = len then r # outer len rs else outer len rs)"
  by (auto simp: inner_def outer_def)

lemma interval_split:
  assumes "pos \<le> j" "j \<le> s"
  shows "drop pos xs = take (j - pos) (drop pos xs) @ take (s - j) (drop j xs) @ take n (drop s xs) @ drop (s + n) xs"
proof -
  have "drop s xs = take n (drop s xs) @ drop (s + n) xs"
    using append_take_drop_id [of n "drop s xs"] by (simp add: add.commute)
  moreover have "drop j xs = take (s - j) (drop j xs) @ drop s xs"
    using append_take_drop_id [of "s - j" "drop j xs"] assms by simp
  moreover have "drop pos xs = take (j - pos) (drop pos xs) @ drop j xs"
    using append_take_drop_id [of "j - pos" "drop pos xs"] assms by simp
  ultimately show ?thesis by simp
qed

text \<open>What is needed of the chunks and the file for the blocks to be found in order.\<close>

definition in_order_patch :: "update_file_chunk list \<Rightarrow> string list \<Rightarrow> bool" where
  "in_order_patch chunks original \<longleftrightarrow>
     (\<forall>c \<in> set chunks. is_end_of_file c \<longrightarrow> old_lines c = []) \<and>
     (blank_last original \<longrightarrow> (\<forall>c \<in> set chunks. old_lines c \<noteq> []))"

lemma replacements_edit:
  assumes "replacements_from original path pos chunks = Inr rs" "pos \<le> length original"
    "in_order_patch chunks original"
  shows "disjoint_from pos (length original) (inner (length original) rs) \<and>
    (\<forall>r \<in> set rs. fst r \<le> length original) \<and>
    (\<forall>r \<in> set (outer (length original) rs). fst (snd r) = 0) \<and>
    edited chunks (drop pos original) (splice_from pos original (inner (length original) rs))
      (concat (map (\<lambda>r. snd (snd r)) (outer (length original) rs)))"
  using assms
proof (induction chunks arbitrary: pos rs)
  case Nil
  then show ?case by (auto intro: edited_done)
next
  case (Cons c chunks)
  let ?len = "length original"
  from Cons.prems(1) obtain j where j: "locate_context original path c pos = Inr j"
    by (auto split: sum.splits)
  note ctx = locate_contextD [OF j Cons.prems(2)]
  have ordered: "in_order_patch chunks original"
    using Cons.prems(3) by (auto simp: in_order_patch_def)
  show ?case
  proof (cases "old_lines c = []")
    case True
    then have blank: "\<not> blank_last original" using Cons.prems(3) by (auto simp: in_order_patch_def)
    with True Cons.prems(1) j obtain rs' where rs':
      "replacements_from original path j chunks = Inr rs'" "rs = (?len, 0, new_lines c) # rs'"
      by (auto simp: map_sum_Inr_iff)
    note IH = Cons.IH [OF rs'(1) ctx(1) ordered]
    have "edited (c # chunks) (take (j - pos) (drop pos original) @ drop j original)
        (take (j - pos) (drop pos original) @ splice_from j original (inner ?len rs'))
        (new_lines c @ concat (map (\<lambda>r. snd (snd r)) (outer ?len rs')))"
      using edited_add [OF ctx(3) True] IH by blast
    moreover have "drop pos original = take (j - pos) (drop pos original) @ drop j original"
      using interval_split [of pos j j original 0] ctx(2) by simp
    moreover have "splice_from pos original (inner ?len rs') =
        take (j - pos) (drop pos original) @ splice_from j original (inner ?len rs')"
      using IH ctx(2) by (intro splice_from_earlier) auto
    moreover have "disjoint_from pos ?len (inner ?len rs')"
      using IH ctx(2) by (cases "inner ?len rs'") (auto intro: order_trans)
    ultimately show ?thesis using rs' IH by auto
  next
    case False
    with Cons.prems(1) j obtain s n new rs' where l: "locate_old original c j = Some (s, n, new)"
      "replacements_from original path (s + n) chunks = Inr rs'" "rs = (s, n, new) # rs'"
      by (auto simp: map_sum_Inr_iff split: option.splits)
    have no_eof: "\<not> is_end_of_file c" using False Cons.prems(3) by (auto simp: in_order_patch_def)
    note old = locate_oldD [OF l(1) ctx(1)]
    have s: "j \<le> s" "s + n \<le> ?len" using old no_eof by auto
    note IH = Cons.IH [OF l(2) s(2) ordered]
    let ?keep = "take (j - pos) (drop pos original) @ take (s - j) (drop j original)"
    have "context_in c ?keep" by (rule context_in_mono [OF ctx(3)]) simp
    have xs: "drop pos original = ?keep @ take n (drop s original) @ drop (s + n) original"
      using interval_split [OF ctx(2) s(1)] by simp
    have keep: "?keep = take (s - pos) (drop pos original)"
      using take_add [of "j - pos" "s - j" "drop pos original"] ctx(2) s(1) by simp
    show ?thesis
    proof (cases "s < ?len")
      case True
      have "edited (c # chunks) (?keep @ take n (drop s original) @ drop (s + n) original)
          (?keep @ new @ splice_from (s + n) original (inner ?len rs'))
          (concat (map (\<lambda>r. snd (snd r)) (outer ?len rs')))"
        using edited_replace [OF \<open>context_in c ?keep\<close> old(2) False] IH by blast
      with True l(3) IH s ctx(2) keep xs show ?thesis by auto
    next
      case False
      with s have tail: "s = ?len" "n = 0" by auto
      then have blank: "old_lines c = [[]]" "new = shortened_new c"
        using old(4) \<open>old_lines c \<noteq> []\<close> by auto
      have "inner ?len rs' = []"
        using IH tail by (cases "inner ?len rs'") (auto simp: inner_def dest: filter_eq_ConsD)
      moreover have "edited (c # chunks) (?keep @ drop (s + n) original)
          (?keep @ splice_from (s + n) original (inner ?len rs'))
          (shortened_new c @ concat (map (\<lambda>r. snd (snd r)) (outer ?len rs')))"
        using edited_add_blank [OF \<open>context_in c ?keep\<close> blank(1)] IH by blast
      ultimately show ?thesis using l(3) IH tail blank(2) xs Cons.prems(2) keep by auto
    qed
  qed
qed

lemma sorted_disjoint: "disjoint_from pos len rs \<Longrightarrow> sorted (map fst rs) \<and> (\<forall>r \<in> set rs. pos \<le> fst r)"
  by (induction pos len rs rule: disjoint_from.induct) (auto intro: order_trans)

lemma sort_inner_outer:
  assumes "disjoint_from pos len (inner len rs)" "\<forall>r \<in> set rs. fst r \<le> len"
  shows "sort_key fst rs = inner len rs @ outer len rs"
proof (rule properties_for_sort_key)
  show "mset (inner len rs @ outer len rs) = mset rs"
    using assms(2) by (induction rs) auto
  show "filter (\<lambda>x. fst k = fst x) (inner len rs @ outer len rs) = filter (\<lambda>x. fst k = fst x) rs"
    if "k \<in> set (inner len rs @ outer len rs)" for k
  proof (cases "fst k = len")
    case True
    then show ?thesis by (auto simp: inner_def outer_def intro!: filter_cong)
  next
    case False
    then show ?thesis using that by (auto simp: inner_def outer_def intro!: filter_cong)
  qed
  show "sorted (map fst (inner len rs @ outer len rs))"
  proof -
    have "map fst (outer len rs) = replicate (length (outer len rs)) len"
      by (simp add: outer_def map_replicate_const [symmetric])
    then have "sorted (map fst (outer len rs))" by (metis sorted_replicate)
    then show ?thesis using sorted_disjoint [OF assms(1)] by (auto simp: sorted_append inner_def outer_def)
  qed
qed


section \<open>Patches it gets wrong\<close>

definition chunk :: "string list \<Rightarrow> string list \<Rightarrow> bool \<Rightarrow> update_file_chunk" where
  "chunk old new eof = \<lparr>change_context = None, old_lines = old, new_lines = new, is_end_of_file = eof\<rparr>"

definition text_of :: "string list \<Rightarrow> string" where
  "text_of ls = concat (map (\<lambda>l. l @ [CHR 10]) ls)"

text \<open>In a file that ends in a blank line, an added line is inserted before it; a later chunk that
  replaces the lines around it removes the added line and keeps the blank one.\<close>

theorem addition_is_lost:
  "derive_new_contents (text_of [''a'', []]) ''f'' [chunk [] [''new''] False, chunk [''a'', []] [''b''] False] =
   Some (Inr (text_of [''b'']))"
  by code_simp

text \<open>A blank last line of the file is taken for the final newline and dropped.\<close>

theorem trailing_blank_line_eaten:
  "derive_new_contents (text_of [''a'', []]) ''f'' [chunk [''a''] [''b''] False] = Some (Inr (text_of [''b'']))"
  by code_simp

theorem addition_is_kept:
  "derive_new_contents (text_of [''a'', ''x'']) ''f'' [chunk [] [''new''] False, chunk [''a'', ''x''] [''b''] False] =
   Some (Inr (text_of [''b'', ''new'']))"
  by code_simp

text \<open>An end-of-file chunk ignores the position reached: it can overlap the block before it, which
  then swallows its new lines.\<close>

theorem eof_chunks_overlap:
  "derive_new_contents (text_of [''a'', ''b'', ''c'']) ''f''
     [chunk [''b'', ''c''] [''B'', ''C''] False, chunk [''c''] [''d''] True] =
   Some (Inr (text_of [''a'', ''B'', ''C'']))"
  by code_simp


end
