(* ===== verification/ApplyPatchSpec.thy ===== *)
theory ApplyPatchSpec
  imports ApplyPatchTool PatchParserSpec PatchApplySpec
begin

text \<open>
  The tool as a whole: it never panics; a patch it rejects leaves no trace; one it accepts acts like its
  sections applied one after the other, provided no file is named twice.  When a file is named
  twice, edits are lost.
\<close>

section \<open>No panic\<close>

lemma compute_change_total: "compute_change fs w cwd h \<noteq> None"
  by (cases h) (auto simp: apply_never_panics compute_change_def Let_def split: sum.splits option.splits)

lemma compute_all_changes_total: "compute_all_changes fs w cwd hs \<noteq> None"
proof (induction hs)
  case (Cons h hs)
  then show ?case using compute_change_total [of fs w cwd h] by (auto split: option.splits sum.splits)
qed simp


section \<open>The sections in sequence\<close>

text \<open>The file a path names, and the files a section names.\<close>

definition key :: "string \<Rightarrow> string \<Rightarrow> string list" where
  "key cwd path = path_components (path_join cwd path)"

fun touched :: "string \<Rightarrow> hunk \<Rightarrow> string list list" where
  "touched cwd (AddFile path _) = [key cwd path]"
| "touched cwd (DeleteFile path) = [key cwd path]"
| "touched cwd (UpdateFile path None _) = [key cwd path]"
| "touched cwd (UpdateFile path (Some dest) _) = [key cwd path, key cwd dest]"

text \<open>What a section means for the files, read where it stands in the sequence.\<close>

definition hunk_effect :: "string \<Rightarrow> hunk \<Rightarrow> file_map \<Rightarrow> file_map" where
  "hunk_effect cwd h m =
     (case h of
        AddFile path text \<Rightarrow> m(key cwd path \<mapsto> text)
      | DeleteFile path \<Rightarrow> m(key cwd path := None)
      | UpdateFile path move chunks \<Rightarrow>
          (case m (key cwd path) of
             None \<Rightarrow> m
           | Some d \<Rightarrow>
               (case derive_new_contents (utf8_lossy d) (path_join cwd path) chunks of
                  Some (Inr new) \<Rightarrow>
                    (case move of
                       None \<Rightarrow> m(key cwd path \<mapsto> new)
                     | Some dest \<Rightarrow> (m(key cwd dest \<mapsto> new))(key cwd path := None))
                | _ \<Rightarrow> m)))"

fun change_effect :: "file_change \<Rightarrow> file_map \<Rightarrow> file_map" where
  "change_effect (ChangeAdd path text) m = m(path_components path \<mapsto> text)"
| "change_effect (ChangeDelete path _) m = m(path_components path := None)"
| "change_effect (ChangeUpdate path _ new) m = m(path_components path \<mapsto> new)"
| "change_effect (ChangeMove source dest _ new) m =
     (m(path_components dest \<mapsto> new))(path_components source := None)"

fun change_keys :: "file_change \<Rightarrow> string list set" where
  "change_keys (ChangeAdd path _) = {path_components path}"
| "change_keys (ChangeDelete path _) = {path_components path}"
| "change_keys (ChangeUpdate path _ _) = {path_components path}"
| "change_keys (ChangeMove source dest _ _) = {path_components source, path_components dest}"

lemma hunk_effect_frame: "k \<notin> set (touched cwd h) \<Longrightarrow> hunk_effect cwd h m k = m k"
  by (cases h) (auto simp: hunk_effect_def split: option.splits sum.splits)

lemma then_step_None: "then_step r k = (None, w') \<longleftrightarrow> (\<exists>w. r = (None, w) \<and> k w = (None, w'))"
  by (auto simp: then_step_def split: prod.splits option.splits)

lemma then_step_Some:
  "then_step r k = (Some e, w') \<longleftrightarrow> r = (Some e, w') \<or> (\<exists>w. r = (None, w) \<and> k w = (Some e, w'))"
  by (auto simp: then_step_def split: prod.splits option.splits)

context file_store
begin

lemma write_step_None: "write_step fs p d w = (None, w') \<Longrightarrow> contents w' = (contents w)(path_components p \<mapsto> d)"
  using write_law by (cases "fs_write fs p d w") (auto simp: write_step_def)

lemma delete_step_None: "delete_step fs p w = (None, w') \<Longrightarrow> contents w' = (contents w)(path_components p := None)"
  using delete_law by (cases "fs_delete fs p w") (auto simp: delete_step_def)

lemma parent_dirs_contents: "ensure_parent_dirs fs p w = (r, w') \<Longrightarrow> contents w' = contents w"
  using mkdirs_law by (auto simp: ensure_parent_dirs_def split: option.splits if_split_asm)

lemma write_step_frame:
  "write_step fs p d w = (r, w') \<Longrightarrow> k \<noteq> path_components p \<Longrightarrow> contents w' k = contents w k"
  using write_law [of p d w w'] write_frame [of p d w _ w' k]
  by (cases "fs_write fs p d w"; cases "fst (fs_write fs p d w)") (auto simp: write_step_def)

lemma delete_step_frame:
  "delete_step fs p w = (r, w') \<Longrightarrow> k \<noteq> path_components p \<Longrightarrow> contents w' k = contents w k"
  using delete_law [of p w w'] delete_frame [of p w _ w' k]
  by (cases "fs_delete fs p w"; cases "fst (fs_delete fs p w)") (auto simp: delete_step_def)

lemma write_change_effect:
  assumes "write_change fs c w = (None, w')"
  shows "contents w' = change_effect c (contents w)"
proof (cases c)
  case (ChangeMove source dest original new)
  with assms obtain w1 w2 where "ensure_parent_dirs fs dest w = (None, w1)"
    "write_step fs dest new w1 = (None, w2)" "delete_step fs source w2 = (None, w')"
    by (auto simp: write_change_def then_step_None)
  with ChangeMove show ?thesis
    using parent_dirs_contents write_step_None delete_step_None by (metis change_effect.simps(4))
next
  case (ChangeAdd path d)
  with assms obtain w1 where "ensure_parent_dirs fs path w = (None, w1)" "write_step fs path d w1 = (None, w')"
    by (auto simp: write_change_def then_step_None)
  with ChangeAdd show ?thesis using parent_dirs_contents write_step_None by (metis change_effect.simps(1))
qed (use assms write_step_None delete_step_None in \<open>auto simp: write_change_def\<close>)

lemma write_change_frame:
  assumes "write_change fs c w = (Some e, w')" "k \<notin> change_keys c"
  shows "contents w' k = contents w k"
  using assms
  by (cases c; simp add: write_change_def then_step_Some then_step_None)
    (metis parent_dirs_contents write_step_frame delete_step_frame)+

lemma write_changes_effect:
  "write_changes fs cs w = (None, log, w') \<Longrightarrow>
   contents w' = fold change_effect cs (contents w) \<and> log = concat (map notifications cs)"
proof (induction cs arbitrary: w log)
  case (Cons c cs)
  then obtain w1 log' where "write_change fs c w = (None, w1)" "write_changes fs cs w1 = (None, log', w')"
    "log = notifications c @ log'"
    by (auto split: prod.splits option.splits)
  with Cons.IH write_change_effect show ?case by auto
qed simp

lemma write_changes_error:
  "write_changes fs cs w = (Some e, log, w') \<Longrightarrow>
   \<exists>done c rest. cs = done @ c # rest \<and> log = concat (map notifications done) \<and>
     (\<forall>k. k \<notin> change_keys c \<longrightarrow> contents w' k = fold change_effect done (contents w) k)"
proof (induction cs arbitrary: w log)
  case (Cons c cs)
  show ?case
  proof (cases "fst (write_change fs c w)")
    case (Some e')
    with Cons.prems have "write_change fs c w = (Some e, w')" "log = []"
      by (auto split: prod.splits option.splits)
    then show ?thesis
      by (intro exI [of _ "[]"] exI [of _ c] exI [of _ cs]) (auto intro: write_change_frame)
  next
    case None
    then obtain w1 where w1: "write_change fs c w = (None, w1)" by (cases "write_change fs c w") auto
    with Cons.prems obtain log' where rec: "write_changes fs cs w1 = (Some e, log', w')"
      "log = notifications c @ log'"
      by (auto split: prod.splits)
    from Cons.IH [OF rec(1)] obtain ds d rest where IH: "cs = ds @ d # rest"
      "log' = concat (map notifications ds)"
      "\<forall>k. k \<notin> change_keys d \<longrightarrow> contents w' k = fold change_effect ds (contents w1) k" by blast
    then show ?thesis
      using rec(2) write_change_effect [OF w1]
      by (intro exI [of _ "c # ds"] exI [of _ d] exI [of _ rest]) simp
  qed
qed simp

lemma read_string:
  "read_file_as_string fs w p = Inr s \<longleftrightarrow> (\<exists>d. contents w (path_components p) = Some d \<and> s = utf8_lossy d)"
  by (cases "fs_read fs w p") (auto simp: read_file_as_string_def read_law [symmetric])

lemma compute_change_effect:
  assumes "compute_change fs w cwd h = Some (Inr c)" "\<forall>k \<in> set (touched cwd h). m k = contents w k"
  shows "change_effect c m = hunk_effect cwd h m"
proof (cases h)
  case (UpdateFile path move chunks)
  with assms(1) obtain original new where
    "read_file_as_string fs w (path_join cwd path) = Inr original"
    "derive_new_contents original (path_join cwd path) chunks = Some (Inr new)"
    "c = (case move of Some dest \<Rightarrow> ChangeMove (path_join cwd path) (path_join cwd dest) original new
          | None \<Rightarrow> ChangeUpdate (path_join cwd path) original new)"
    by (auto simp: compute_change_def Let_def split: sum.splits option.splits)
  moreover from this obtain d where "contents w (key cwd path) = Some d" "original = utf8_lossy d"
    by (auto simp: read_string key_def)
  moreover from this assms(2) UpdateFile have "m (key cwd path) = Some d" by (cases move) auto
  ultimately show ?thesis using UpdateFile by (auto simp: hunk_effect_def key_def split: option.split)
qed (use assms in \<open>auto simp: compute_change_def Let_def hunk_effect_def key_def split: sum.splits\<close>)

lemma compute_all_effect:
  assumes "compute_all_changes fs w cwd hs = Some (Inr cs)" "distinct (concat (map (touched cwd) hs))"
    "\<forall>h \<in> set hs. \<forall>k \<in> set (touched cwd h). m k = contents w k"
  shows "fold change_effect cs m = fold (hunk_effect cwd) hs m"
  using assms
proof (induction hs arbitrary: cs m)
  case (Cons h hs)
  then obtain c cs' where c: "compute_change fs w cwd h = Some (Inr c)"
    "compute_all_changes fs w cwd hs = Some (Inr cs')" "cs = c # cs'"
    by (auto simp: map_sum_Inr_iff split: option.splits sum.splits)
  have "hunk_effect cwd h m k = contents w k" if "h' \<in> set hs" "k \<in> set (touched cwd h')" for h' k
    using that Cons.prems by (subst hunk_effect_frame) auto
  then have "fold change_effect cs' (hunk_effect cwd h m) = fold (hunk_effect cwd) hs (hunk_effect cwd h m)"
    using Cons.prems c by (intro Cons.IH) auto
  moreover have "change_effect c m = hunk_effect cwd h m"
    using compute_change_effect [OF c(1)] Cons.prems by auto
  ultimately show ?case using c(3) by simp
qed simp

end

section \<open>The tool's promises\<close>

lemma run_changesD:
  assumes "run fs cwd patch w = Some (r, log, w')" "parse_patch patch = Inr parsed" "pp_hunks parsed = hs" "hs \<noteq> []"
  obtains e where "compute_all_changes fs w cwd hs = Some (Inl e)" "r = Inr (PatchApplicationError e)"
      "log = []" "w' = w"
    | cs where "compute_all_changes fs w cwd hs = Some (Inr cs)" "write_changes fs cs w = (None, log, w')"
      "r = Inr (PatchSuccess (map file_result_of cs) (build_summary (map file_result_of cs)))"
    | cs e where "compute_all_changes fs w cwd hs = Some (Inr cs)" "write_changes fs cs w = (Some e, log, w')"
      "r = Inl e"
  using assms by (auto simp: run_def Let_def split: sum.splits option.splits prod.splits if_split_asm)

text \<open>C33. A patch that is accepted acts on the files like its sections one after the other, each reading
  what the ones before it left - if no file is named twice - and its notifications are those of its
  changes, in order.\<close>

theorem sections_act_in_sequence:
  assumes "file_store fs contents" "run fs cwd patch w = Some (Inr (PatchSuccess rs s), log, w')"
    "parse_patch patch = Inr parsed" "distinct (concat (map (touched cwd) (pp_hunks parsed)))"
  shows "contents w' = fold (hunk_effect cwd) (pp_hunks parsed) (contents w) \<and>
    map fr_path rs = map (\<lambda>h. path_join cwd (hunk_path h)) (pp_hunks parsed)"
proof -
  have ne: "pp_hunks parsed \<noteq> []" using assms(2,3) by (auto simp: run_def)
  obtain cs where cs: "compute_all_changes fs w cwd (pp_hunks parsed) = Some (Inr cs)"
    "write_changes fs cs w = (None, log, w')" "rs = map file_result_of cs"
    by (rule run_changesD [OF assms(2,3) refl ne]) auto
  have "contents w' = fold (hunk_effect cwd) (pp_hunks parsed) (contents w)"
    using file_store.write_changes_effect [OF assms(1) cs(2)]
      file_store.compute_all_effect [OF assms(1) cs(1) assms(4)] by simp
  moreover have "map fr_path (map file_result_of cs) = map (\<lambda>h. path_join cwd (hunk_path h)) hs"
    if "compute_all_changes fs w cwd hs = Some (Inr cs)" for hs
    using that
  proof (induction hs arbitrary: cs)
    case (Cons h hs)
    then obtain c cs' where c: "compute_change fs w cwd h = Some (Inr c)"
      "compute_all_changes fs w cwd hs = Some (Inr cs')" "cs = c # cs'"
      by (auto simp: map_sum_Inr_iff split: option.splits sum.splits)
    have "fr_path (file_result_of c) = path_join cwd (hunk_path h)"
      using c(1) by (cases h) (auto simp: compute_change_def Let_def split: sum.splits option.splits)
    with Cons.IH [OF c(2)] c(3) show ?case by simp
  qed simp
  ultimately show ?thesis using cs by blast
qed


section \<open>Files named twice\<close>

lemma run_two_hunks:
  assumes "file_store fs contents" "run fs cwd patch w = Some (Inr (PatchSuccess rs s), log, w')"
    "parse_patch patch = Inr parsed" "pp_hunks parsed = hs"
  shows "\<exists>cs. compute_all_changes fs w cwd hs = Some (Inr cs) \<and> contents w' = fold change_effect cs (contents w)"
proof -
  have ne: "hs \<noteq> []" using assms(2-4) by (auto simp: run_def)
  show ?thesis
    by (rule run_changesD [OF assms(2-4) ne]) (use file_store.write_changes_effect [OF assms(1)] in auto)
qed

text \<open>Two updates of one file, under any two names of it: the second is computed from the file as it
  was, so the edits of the first are lost, and the tool reports success.\<close>

theorem second_update_discards_first:
  assumes "file_store fs contents" "run fs cwd patch w = Some (Inr (PatchSuccess rs s), log, w')"
    "parse_patch patch = Inr parsed" "pp_hunks parsed = [UpdateFile p None cs1, UpdateFile q None cs2]"
    "key cwd p = key cwd q"
  shows "\<exists>d new. contents w (key cwd q) = Some d \<and>
    derive_new_contents (utf8_lossy d) (path_join cwd q) cs2 = Some (Inr new) \<and>
    contents w' (key cwd q) = Some new"
proof -
  obtain cs where cs: "compute_all_changes fs w cwd [UpdateFile p None cs1, UpdateFile q None cs2] = Some (Inr cs)"
    "contents w' = fold change_effect cs (contents w)"
    using run_two_hunks [OF assms(1-4)] by blast
  then obtain o1 n1 o2 n2 where "cs = [ChangeUpdate (path_join cwd p) o1 n1, ChangeUpdate (path_join cwd q) o2 n2]"
    "read_file_as_string fs w (path_join cwd q) = Inr o2"
    "derive_new_contents o2 (path_join cwd q) cs2 = Some (Inr n2)"
    by (auto simp: compute_change_def Let_def split: sum.splits option.splits)
  then show ?thesis using cs(2) file_store.read_string [OF assms(1)] by (auto simp: key_def)
qed

text \<open>A file moved onto itself, under any two names of it, is edited, deleted and reported as moved.\<close>

theorem move_onto_itself_deletes:
  assumes "file_store fs contents" "run fs cwd patch w = Some (Inr (PatchSuccess rs s), log, w')"
    "parse_patch patch = Inr parsed" "pp_hunks parsed = [UpdateFile p (Some q) cs]" "key cwd p = key cwd q"
  shows "contents w (key cwd p) \<noteq> None \<and> contents w' (key cwd p) = None"
proof -
  obtain ch where ch: "compute_all_changes fs w cwd [UpdateFile p (Some q) cs] = Some (Inr ch)"
    "contents w' = fold change_effect ch (contents w)"
    using run_two_hunks [OF assms(1-4)] by blast
  then obtain d new where "ch = [ChangeMove (path_join cwd p) (path_join cwd q) d new]"
    "read_file_as_string fs w (path_join cwd p) = Inr d"
    by (auto simp: compute_change_def Let_def split: sum.splits option.splits)
  then show ?thesis using ch(2) file_store.read_string [OF assms(1)] by (auto simp: key_def)
qed

section \<open>Instances\<close>

definition demo_files :: file_map where
  "demo_files = [path_components ''/w/a.txt'' \<mapsto> text_of [''one'', ''two'']]"

definition demo_patch :: "hunk list \<Rightarrow> string" where
  "demo_patch hs = render_patch hs"

definition update_a :: "string \<Rightarrow> string option \<Rightarrow> string \<Rightarrow> string \<Rightarrow> hunk" where
  "update_a path move old new =
     UpdateFile path move [\<lparr>change_context = None, old_lines = [old], new_lines = [new], is_end_of_file = False\<rparr>]"

lemma demo_parse:
  "parse_patch (demo_patch [update_a ''a.txt'' None ''one'' ''ONE'', AddFile ''b.txt'' (text_of [''new''])]) =
     Inr \<lparr>pp_hunks = [update_a ''a.txt'' None ''one'' ''ONE'', AddFile ''b.txt'' (text_of [''new''])],
       pp_patch = demo_patch [update_a ''a.txt'' None ''one'' ''ONE'', AddFile ''b.txt'' (text_of [''new''])]\<rparr>"
  "parse_patch (demo_patch [update_a ''a.txt'' None ''one'' ''ONE'', update_a ''./a.txt'' None ''two'' ''TWO'']) =
     Inr \<lparr>pp_hunks = [update_a ''a.txt'' None ''one'' ''ONE'', update_a ''./a.txt'' None ''two'' ''TWO''],
       pp_patch = demo_patch [update_a ''a.txt'' None ''one'' ''ONE'', update_a ''./a.txt'' None ''two'' ''TWO'']\<rparr>"
  "parse_patch (demo_patch [update_a ''a.txt'' (Some ''./a.txt'') ''one'' ''ONE'']) =
     Inr \<lparr>pp_hunks = [update_a ''a.txt'' (Some ''./a.txt'') ''one'' ''ONE''],
       pp_patch = demo_patch [update_a ''a.txt'' (Some ''./a.txt'') ''one'' ''ONE'']\<rparr>"
  by code_simp+

lemma demo_store: "file_store mock_fs (\<lambda>files. files)" ..

definition succeeds :: "string \<Rightarrow> bool" where
  "succeeds patch \<longleftrightarrow>
     (case run mock_fs ''/w'' patch demo_files of Some (Inr (PatchSuccess _ _), _, _) \<Rightarrow> True | _ \<Rightarrow> False)"

lemma succeedsE:
  assumes "succeeds patch"
  obtains rs s log w' where "run mock_fs ''/w'' patch demo_files = Some (Inr (PatchSuccess rs s), log, w')"
  using assms by (auto simp: succeeds_def split: option.splits prod.splits sum.splits patch_output.splits)

theorem sections_act_in_sequence_witness:
  "\<exists>r log w'. run mock_fs ''/w'' (demo_patch [update_a ''a.txt'' None ''one'' ''ONE'', AddFile ''b.txt'' (text_of [''new''])])
       demo_files = Some (r, log, w') \<and>
     w' (path_components ''/w/a.txt'') = Some (text_of [''ONE'', ''two''])"
proof -
  let ?hs = "[update_a ''a.txt'' None ''one'' ''ONE'', AddFile ''b.txt'' (text_of [''new''])]"
  have "succeeds (demo_patch ?hs)" by code_simp
  then obtain rs s log w' where r: "run mock_fs ''/w'' (demo_patch ?hs) demo_files = Some (Inr (PatchSuccess rs s), log, w')"
    by (rule succeedsE)
  have "distinct (concat (map (touched ''/w'') ?hs))" by code_simp
  with sections_act_in_sequence [OF demo_store r demo_parse(1)]
  have "w' = fold (hunk_effect ''/w'') ?hs demo_files" by simp
  moreover have "fold (hunk_effect ''/w'') ?hs demo_files (path_components ''/w/a.txt'') = Some (text_of [''ONE'', ''two''])"
    by code_simp
  ultimately show ?thesis using r by blast
qed


theorem second_update_discards_first_witness:
  "\<exists>r log w'. run mock_fs ''/w'' (demo_patch [update_a ''a.txt'' None ''one'' ''ONE'', update_a ''./a.txt'' None ''two'' ''TWO''])
       demo_files = Some (r, log, w') \<and>
     w' (path_components ''/w/a.txt'') = Some (text_of [''one'', ''TWO''])"
proof -
  let ?hs = "[update_a ''a.txt'' None ''one'' ''ONE'', update_a ''./a.txt'' None ''two'' ''TWO'']"
  have "succeeds (demo_patch ?hs)" by code_simp
  then obtain rs s log w' where r: "run mock_fs ''/w'' (demo_patch ?hs) demo_files = Some (Inr (PatchSuccess rs s), log, w')"
    by (rule succeedsE)
  have k: "key ''/w'' ''a.txt'' = key ''/w'' ''./a.txt''" "key ''/w'' ''./a.txt'' = path_components ''/w/a.txt''"
    by code_simp+
  obtain d new where d: "demo_files (key ''/w'' ''./a.txt'') = Some d"
    "derive_new_contents (utf8_lossy d) (path_join ''/w'' ''./a.txt'')
       [\<lparr>change_context = None, old_lines = [''two''], new_lines = [''TWO''], is_end_of_file = False\<rparr>] = Some (Inr new)"
    "w' (key ''/w'' ''./a.txt'') = Some new"
    using second_update_discards_first [OF demo_store r demo_parse(2)] k(1) by (auto simp: update_a_def)
  have "d = text_of [''one'', ''two'']" using d(1) k(2) by (simp add: demo_files_def)
  moreover have "derive_new_contents (utf8_lossy (text_of [''one'', ''two''])) (path_join ''/w'' ''./a.txt'')
      [\<lparr>change_context = None, old_lines = [''two''], new_lines = [''TWO''], is_end_of_file = False\<rparr>] =
      Some (Inr (text_of [''one'', ''TWO'']))" by code_simp
  ultimately have "new = text_of [''one'', ''TWO'']" using d(2) by simp
  then show ?thesis using r d(3) k(2) by auto
qed

theorem move_onto_itself_deletes_witness:
  "\<exists>r log w'. run mock_fs ''/w'' (demo_patch [update_a ''a.txt'' (Some ''./a.txt'') ''one'' ''ONE'']) demo_files =
     Some (r, log, w') \<and> w' (path_components ''/w/a.txt'') = None"
proof -
  let ?hs = "[update_a ''a.txt'' (Some ''./a.txt'') ''one'' ''ONE'']"
  have "succeeds (demo_patch ?hs)" by code_simp
  then obtain rs s log w' where r: "run mock_fs ''/w'' (demo_patch ?hs) demo_files = Some (Inr (PatchSuccess rs s), log, w')"
    by (rule succeedsE)
  have k: "key ''/w'' ''a.txt'' = key ''/w'' ''./a.txt''" "key ''/w'' ''a.txt'' = path_components ''/w/a.txt''"
    by code_simp+
  have "w' (key ''/w'' ''a.txt'') = None"
    using move_onto_itself_deletes [OF demo_store r demo_parse(3)] k(1) by (simp add: update_a_def)
  then show ?thesis using r k(2) by auto
qed

end
