(* ===== verification/HunkDiff.thy ===== *)
theory HunkDiff
  imports RustLines
begin

text \<open>
  The hunk tracker's data and its diff module: \<open>xai-hunk-tracker/src/types.rs\<close> and \<open>diff.rs\<close>.

  The line diff itself is the \<open>similar\<close> crate's: an argument, which gives the tagged lines of two
  texts, or \<open>None\<close> when it ran into its deadline.  Paths are absolute and normalised, so equality of
  paths is equality of strings.  An id is a number the caller supplies, in place of a fresh UUID;
  creation times are left out.
\<close>

section \<open>Data\<close>

type_synonym hunk_id = nat

record hunk_line_info =
  old_start :: nat
  old_count :: nat
  new_start :: nat
  new_count :: nat

datatype hunk_source = AgentEdit nat | ExternalEditOnAgentFile | External

fun is_agent_edit :: "hunk_source \<Rightarrow> bool" where
  "is_agent_edit (AgentEdit _) = True"
| "is_agent_edit _ = False"

fun is_agent_tracked :: "hunk_source \<Rightarrow> bool" where
  "is_agent_tracked (AgentEdit _) = True"
| "is_agent_tracked ExternalEditOnAgentFile = True"
| "is_agent_tracked External = False"

fun is_external :: "hunk_source \<Rightarrow> bool" where
  "is_external External = True"
| "is_external ExternalEditOnAgentFile = True"
| "is_external (AgentEdit _) = False"

fun source_prompt_index :: "hunk_source \<Rightarrow> nat option" where
  "source_prompt_index (AgentEdit p) = Some p"
| "source_prompt_index _ = None"

record hunk =
  hk_id :: hunk_id
  hk_path :: string
  line_info :: hunk_line_info
  hk_source :: hunk_source
  old_text :: "string option"
  new_text :: string
  hk_patch :: "string option"
  hk_selected :: bool

datatype hunk_action = Accept | RejectAction

section \<open>Whole-file hunks\<close>

definition line_count :: "string \<Rightarrow> nat" where
  "line_count text = max (length (str_lines text)) 1"

definition file_created :: "hunk_id \<Rightarrow> string \<Rightarrow> string \<Rightarrow> hunk_source \<Rightarrow> hunk" where
  "file_created i path text source =
     \<lparr>hk_id = i, hk_path = path,
      line_info = \<lparr>old_start = 0, old_count = 0, new_start = 1, new_count = line_count text\<rparr>,
      hk_source = source, old_text = None, new_text = text, hk_patch = None, hk_selected = False\<rparr>"

definition file_deleted :: "hunk_id \<Rightarrow> string \<Rightarrow> string \<Rightarrow> hunk_source \<Rightarrow> hunk" where
  "file_deleted i path text source =
     \<lparr>hk_id = i, hk_path = path,
      line_info = \<lparr>old_start = 1, old_count = line_count text, new_start = 0, new_count = 0\<rparr>,
      hk_source = source, old_text = Some text, new_text = [], hk_patch = None, hk_selected = False\<rparr>"

section \<open>Hunks of a diff\<close>

datatype change_tag = Equal | Delete | Insert

type_synonym diff_engine = "string \<Rightarrow> string \<Rightarrow> (change_tag \<times> string) list option"

definition MAX_DIFF_FILE_SIZE :: nat where
  "MAX_DIFF_FILE_SIZE = 1024 * 1024"

record hunk_builder =
  hb_old_start :: nat
  hb_new_start :: nat
  hb_old_lines :: "string list"
  hb_new_lines :: "string list"

definition builder_new :: "nat \<Rightarrow> nat \<Rightarrow> hunk_builder" where
  "builder_new old_line new_line =
     \<lparr>hb_old_start = old_line, hb_new_start = new_line, hb_old_lines = [], hb_new_lines = []\<rparr>"

definition add_old_line :: "string \<Rightarrow> hunk_builder \<Rightarrow> hunk_builder" where
  "add_old_line l b = b\<lparr>hb_old_lines := hb_old_lines b @ [l]\<rparr>"

definition add_new_line :: "string \<Rightarrow> hunk_builder \<Rightarrow> hunk_builder" where
  "add_new_line l b = b\<lparr>hb_new_lines := hb_new_lines b @ [l]\<rparr>"

definition builder_build :: "string \<Rightarrow> hunk_source \<Rightarrow> hunk_id \<Rightarrow> hunk_builder \<Rightarrow> hunk" where
  "builder_build path source i b =
     \<lparr>hk_id = i, hk_path = path,
      line_info = \<lparr>old_start = hb_old_start b, old_count = length (hb_old_lines b),
                   new_start = hb_new_start b, new_count = length (hb_new_lines b)\<rparr>,
      hk_source = source,
      old_text = (if hb_old_lines b = [] then None else Some (concat (hb_old_lines b))),
      new_text = concat (hb_new_lines b), hk_patch = None, hk_selected = False\<rparr>"

definition or_new :: "hunk_builder option \<Rightarrow> nat \<Rightarrow> nat \<Rightarrow> hunk_builder" where
  "or_new b old_line new_line = (case b of Some x \<Rightarrow> x | None \<Rightarrow> builder_new old_line new_line)"

text \<open>The loop over the changes, with the two line counters and the hunk under construction.\<close>

fun scan_changes ::
    "nat \<Rightarrow> nat \<Rightarrow> hunk_builder option \<Rightarrow> (change_tag \<times> string) list \<Rightarrow> hunk_builder list" where
  "scan_changes old_line new_line current [] = (case current of Some b \<Rightarrow> [b] | None \<Rightarrow> [])"
| "scan_changes old_line new_line current ((Equal, _) # cs) =
     (case current of Some b \<Rightarrow> [b] | None \<Rightarrow> []) @ scan_changes (old_line + 1) (new_line + 1) None cs"
| "scan_changes old_line new_line current ((Delete, l) # cs) =
     scan_changes (old_line + 1) new_line (Some (add_old_line l (or_new current old_line new_line))) cs"
| "scan_changes old_line new_line current ((Insert, l) # cs) =
     scan_changes old_line (new_line + 1) (Some (add_new_line l (or_new current old_line new_line))) cs"

definition compute_hunks ::
    "diff_engine \<Rightarrow> hunk_id \<Rightarrow> string \<Rightarrow> string \<Rightarrow> string \<Rightarrow> hunk_source \<Rightarrow> hunk list" where
  "compute_hunks D next path baseline current source =
     (if baseline = current then []
      else if MAX_DIFF_FILE_SIZE < length baseline \<or> MAX_DIFF_FILE_SIZE < length current then []
      else case D baseline current of
             None \<Rightarrow> []
           | Some changes \<Rightarrow>
               (let bs = scan_changes 1 1 None changes
                in map (\<lambda>(i, b). builder_build path source i b) (zip [next ..< next + length bs] bs)))"

section \<open>Patching\<close>

definition patch_lines :: "string \<Rightarrow> nat \<Rightarrow> nat \<Rightarrow> string \<Rightarrow> string" where
  "patch_lines text start_line remove_count insert_text =
     (let ls = str_lines text;
          start_idx = start_line - 1;
          end_idx = min (start_idx + remove_count) (length ls);
          result = take (min start_idx (length ls)) ls @
                   (if insert_text \<noteq> [] then str_lines insert_text else []) @ drop end_idx ls;
          out = join_with [CHR 10] result
      in if ends_with text [CHR 10] \<and> out \<noteq> [] then out @ [CHR 10] else out)"

text \<open>Adopting a hunk patches the baseline, undoing it the current text; a batch goes from the end of
  the file to its start (\<open>sort_by_key\<close> with \<open>Reverse\<close> is stable).\<close>

definition accept_patch :: "hunk \<Rightarrow> string \<Rightarrow> string" where
  "accept_patch h baseline = patch_lines baseline (old_start (line_info h)) (old_count (line_info h)) (new_text h)"

definition reject_patch :: "hunk \<Rightarrow> string \<Rightarrow> string" where
  "reject_patch h current =
     patch_lines current (new_start (line_info h)) (new_count (line_info h))
       (case old_text h of Some t \<Rightarrow> t | None \<Rightarrow> [])"

definition accept_patches :: "hunk list \<Rightarrow> string \<Rightarrow> string" where
  "accept_patches hs baseline = fold accept_patch (sort_key (\<lambda>h. - int (old_start (line_info h))) hs) baseline"

definition reject_patches :: "hunk list \<Rightarrow> string \<Rightarrow> string" where
  "reject_patches hs current = fold reject_patch (sort_key (\<lambda>h. - int (new_start (line_info h))) hs) current"

section \<open>Comparing hunks\<close>

definition hunks_match_content :: "hunk \<Rightarrow> hunk \<Rightarrow> bool" where
  "hunks_match_content a b \<longleftrightarrow> hk_path a = hk_path b \<and> old_text a = old_text b \<and> new_text a = new_text b"

definition hunk_moved :: "hunk \<Rightarrow> hunk \<Rightarrow> bool" where
  "hunk_moved old new \<longleftrightarrow> hunks_match_content old new \<and> line_info old \<noteq> line_info new"

definition old_end :: "hunk_line_info \<Rightarrow> nat" where
  "old_end l = old_start l + old_count l"

definition hunks_overlap :: "hunk \<Rightarrow> hunk \<Rightarrow> bool" where
  "hunks_overlap a b \<longleftrightarrow>
     hk_path a = hk_path b \<and>
     (let la = line_info a; lb = line_info b in
      if old_count la = 0 \<and> old_count lb = 0 then old_start la = old_start lb
      else if old_count la = 0 then old_start lb \<le> old_start la \<and> old_start la \<le> old_end lb
      else if old_count lb = 0 then old_start la \<le> old_start lb \<and> old_start lb \<le> old_end la
      else \<not> (old_end la < old_start lb \<or> old_end lb < old_start la))"

definition calculate_overlap_size :: "hunk_line_info \<Rightarrow> hunk_line_info \<Rightarrow> nat" where
  "calculate_overlap_size a b = min (old_end a) (old_end b) - max (old_start a) (old_start b)"

text \<open>\<open>min_by_key\<close> returns the first minimum, \<open>max_by_key\<close> the last maximum.\<close>

fun min_by :: "('a \<Rightarrow> nat) \<Rightarrow> 'a list \<Rightarrow> 'a option" where
  "min_by f [] = None"
| "min_by f (x # xs) =
     (case min_by f xs of None \<Rightarrow> Some x | Some y \<Rightarrow> Some (if f x \<le> f y then x else y))"

fun max_by :: "('a \<Rightarrow> nat) \<Rightarrow> 'a list \<Rightarrow> 'a option" where
  "max_by f [] = None"
| "max_by f (x # xs) =
     (case max_by f xs of None \<Rightarrow> Some x | Some y \<Rightarrow> Some (if f y < f x then x else y))"

definition abs_diff :: "nat \<Rightarrow> nat \<Rightarrow> nat" where
  "abs_diff a b = (if a < b then b - a else a - b)"

definition find_matching_old_hunk :: "hunk \<Rightarrow> hunk list \<Rightarrow> hunk option" where
  "find_matching_old_hunk new olds =
     (let content_matches = filter (\<lambda>old. hunks_match_content old new) olds
      in if content_matches \<noteq> []
         then min_by (\<lambda>old. abs_diff (new_start (line_info old)) (new_start (line_info new))) content_matches
         else max_by (\<lambda>old. calculate_overlap_size (line_info old) (line_info new))
                (filter (\<lambda>old. hunks_overlap old new) olds))"

section \<open>Display\<close>

definition line :: "string \<Rightarrow> string" where
  "line s = s @ [CHR 10]"

definition CONTEXT_LINES :: nat where
  "CONTEXT_LINES = 3"

definition slice :: "nat \<Rightarrow> nat \<Rightarrow> string list \<Rightarrow> string list" where
  "slice a b ls = take (b - a) (drop a ls)"

definition header_text :: "nat \<Rightarrow> nat \<Rightarrow> nat \<Rightarrow> nat \<Rightarrow> string" where
  "header_text a b c d =
     ''@@ -'' @ decimal a @ '','' @ decimal b @ '' +'' @ decimal c @ '','' @ decimal d @ '' @@''"

text \<open>The two subtractions for the context after the change underflow when the hunk reaches past the
  text: \<open>None\<close>, a panic where overflow is checked.\<close>

definition generate_hunk_patch :: "string \<Rightarrow> string \<Rightarrow> hunk \<Rightarrow> string option" where
  "generate_hunk_patch baseline current h =
     (let old_ls = str_lines baseline; new_ls = str_lines current; li = line_info h;
          old_start_idx = old_start li - 1;
          new_start_idx = new_start li - 1;
          before = old_start_idx - CONTEXT_LINES;
          changes_end_new = new_start_idx + new_count li;
          after_end = min (changes_end_new + CONTEXT_LINES) (length new_ls);
          changes_end_old = old_start_idx + old_count li;
          after_end_old = min (changes_end_old + CONTEXT_LINES) (length old_ls);
          total_old = (old_start_idx - before) + old_count li + (after_end_old - changes_end_old);
          total_new = (old_start_idx - before) + new_count li + (after_end - changes_end_new)
      in if after_end_old < changes_end_old \<or> after_end < changes_end_new then None
         else Some
          (line (header_text (before + 1) total_old (before + 1) total_new) @
           concat (map (\<lambda>l. line ('' '' @ l)) (slice before old_start_idx old_ls)) @
           (case old_text h of Some t \<Rightarrow> concat (map (\<lambda>l. line (''-'' @ l)) (str_lines t)) | None \<Rightarrow> []) @
           concat (map (\<lambda>l. line (''+'' @ l)) (str_lines (new_text h))) @
           concat (map (\<lambda>l. line ('' '' @ l)) (slice changes_end_new after_end new_ls))))"

definition format_unified_diff :: "hunk \<Rightarrow> string" where
  "format_unified_diff h =
     (let li = line_info h
      in line (''--- a/'' @ hk_path h) @ line (''+++ b/'' @ hk_path h) @
         line (header_text (old_start li) (old_count li) (new_start li) (new_count li)) @
         (case old_text h of Some t \<Rightarrow> concat (map (\<lambda>l. line (''-'' @ l)) (str_lines t)) | None \<Rightarrow> []) @
         concat (map (\<lambda>l. line (''+'' @ l)) (str_lines (new_text h))))"

end
