(* ===== verification/HunkState.thy ===== *)
theory HunkState
  imports HunkDiff Utf8 RustPath "HOL-Library.AList"
begin

text \<open>
  The state of the hunk tracker: \<open>xai-hunk-tracker/src/actor/state.rs\<close>, \<open>actor/file_utils.rs\<close>,
  \<open>events.rs\<close>, and the actor's record of \<open>actor/mod.rs\<close>.

  The disk is part of the state, since the tracker writes to it; other programs may change it between
  any two operations.  What git says, the diff engine and the outcome of writes and removals are the
  \<open>world\<close>, an argument of every operation.  A hash map is an association list: its order is the
  order in which the code happens to iterate.
\<close>

section \<open>File contents\<close>

definition MAX_TRACKED_TEXT_BYTES :: nat where
  "MAX_TRACKED_TEXT_BYTES = 1024 * 1024"

datatype content_state =
    Missing
  | Binary "nat option"
  | TooLarge nat
  | LfsPointer nat
  | Symlink
  | Full string

fun content_text :: "content_state \<Rightarrow> string option" where
  "content_text (Full s) = Some s"
| "content_text _ = None"

fun is_diffable :: "content_state \<Rightarrow> bool" where
  "is_diffable (Full _) = True"
| "is_diffable _ = False"

fun content_byte_len :: "content_state \<Rightarrow> nat option" where
  "content_byte_len Missing = Some 0"
| "content_byte_len (Binary n) = n"
| "content_byte_len (TooLarge n) = Some n"
| "content_byte_len (LfsPointer n) = Some n"
| "content_byte_len Symlink = None"
| "content_byte_len (Full s) = Some (length s)"

definition LFS_POINTER_PREFIX :: string where
  "LFS_POINTER_PREFIX = ''version https://git-lfs.github.com/spec/v1'' @ [CHR 10]"

definition is_lfs_pointer :: "string \<Rightarrow> bool" where
  "is_lfs_pointer bytes \<longleftrightarrow> length bytes < 1024 \<and> starts_with bytes LFS_POINTER_PREFIX"

definition is_binary :: "string \<Rightarrow> bool" where
  "is_binary content \<longleftrightarrow> CHR 0x00 \<in> set (take (min (length content) 8000) content)"

definition classify_bytes :: "string \<Rightarrow> content_state" where
  "classify_bytes bytes =
     (let byte_len = length bytes
      in if MAX_TRACKED_TEXT_BYTES < byte_len then TooLarge byte_len
         else if is_lfs_pointer bytes then LfsPointer byte_len
         else if is_binary bytes then Binary (Some byte_len)
         else if valid_utf8 bytes then Full bytes
         else Binary (Some byte_len))"

definition classify_string :: "string \<Rightarrow> content_state" where
  "classify_string s =
     (let byte_len = length s
      in if MAX_TRACKED_TEXT_BYTES < byte_len then TooLarge byte_len
         else if is_lfs_pointer s then LfsPointer byte_len
         else if is_binary s then Binary (Some byte_len)
         else Full s)"

text \<open>What a path names on disk.  A file that cannot be opened still has a size; reading a directory
  fails.\<close>

datatype link_target = Dangling | ToFile | ToDirectory

datatype disk_entry =
    NoEntry
  | FileEntry string
  | UnreadableFile nat
  | LinkEntry link_target
  | Directory nat

definition read_prefix :: "string \<Rightarrow> content_state" where
  "read_prefix bytes =
     (let byte_len = length bytes;
          prefix_size = min 8000 byte_len;
          prefix = take prefix_size bytes
      in if is_lfs_pointer prefix then LfsPointer byte_len
         else if is_binary prefix then Binary (Some byte_len)
         else (let full = (if prefix_size < byte_len then prefix @ drop prefix_size bytes else prefix)
               in if valid_utf8 full then Full full else Binary (Some byte_len)))"

fun read_file_bounded :: "disk_entry \<Rightarrow> content_state" where
  "read_file_bounded NoEntry = Missing"
| "read_file_bounded (LinkEntry _) = Symlink"
| "read_file_bounded (UnreadableFile n) = (if MAX_TRACKED_TEXT_BYTES < n then TooLarge n else Missing)"
| "read_file_bounded (Directory n) = (if MAX_TRACKED_TEXT_BYTES < n then TooLarge n else Missing)"
| "read_file_bounded (FileEntry bytes) =
     (if MAX_TRACKED_TEXT_BYTES < length bytes then TooLarge (length bytes) else read_prefix bytes)"

fun path_exists :: "disk_entry \<Rightarrow> bool" where
  "path_exists NoEntry = False"
| "path_exists (LinkEntry k) = (k \<noteq> Dangling)"
| "path_exists _ = True"

fun path_is_dir :: "disk_entry \<Rightarrow> bool" where
  "path_is_dir (Directory _) = True"
| "path_is_dir (LinkEntry k) = (k = ToDirectory)"
| "path_is_dir _ = False"

text \<open>Reading a file in two parts classifies it as if it were read whole.\<close>

lemma lfs_prefix: "is_lfs_pointer (take (min 8000 (length s)) s) = is_lfs_pointer s"
  by (cases "length s \<le> 8000") (auto simp: is_lfs_pointer_def min_def)

lemma binary_prefix: "is_binary (take (min 8000 (length s)) s) = is_binary s"
  by (simp add: is_binary_def min.commute)

lemma read_file_classifies: "read_file_bounded (FileEntry s) = classify_bytes s"
proof -
  have "(if min 8000 (length s) < length s then take (min 8000 (length s)) s @ drop (min 8000 (length s)) s
      else take (min 8000 (length s)) s) = s" by (simp add: min_def)
  then show ?thesis by (simp add: classify_bytes_def read_prefix_def Let_def lfs_prefix binary_prefix)
qed

lemma classify_string_bytes: "valid_utf8 s \<Longrightarrow> classify_string s = classify_bytes s"
  by (simp add: classify_string_def classify_bytes_def Let_def)

section \<open>Events\<close>

datatype removal_reason = Accepted | Rejected | Superseded

datatype hunk_event =
    HunkAdded string hunk
  | HunkRemoved string hunk_id removal_reason
  | HunkMoved string hunk_id hunk_line_info
  | HunkContentChanged string hunk hunk_source nat nat
  | FileAdded string bool
  | FileRemoved string
  | BaselineUpdated string

section \<open>The tracker\<close>

record file_state =
  fs_baseline :: content_state
  fs_current :: content_state
  fs_hunks :: "hunk list"
  fs_agent :: bool
  fs_accepted :: bool

datatype tracking_mode = AgentOnly | AllDirty

datatype repo_state = Unknown | NotARepo | Discovered

record repo_sync =
  rs_head :: "string option"
  rs_index :: "nat option"

record session_stats =
  accepted_hunks :: nat
  rejected_hunks :: nat
  accepted_lines_added :: nat
  accepted_lines_removed :: nat
  rejected_lines_added :: nat
  rejected_lines_removed :: nat

definition no_stats :: session_stats where
  "no_stats = \<lparr>accepted_hunks = 0, rejected_hunks = 0, accepted_lines_added = 0,
     accepted_lines_removed = 0, rejected_lines_added = 0, rejected_lines_removed = 0\<rparr>"

type_synonym turn_index = "(nat \<times> hunk_id list) list"

record tracker =
  tk_dir :: string
  tk_files :: "(string \<times> file_state) list"
  tk_turns :: turn_index
  tk_dirty :: "string list"
  tk_staged :: "string list"
  tk_repo :: repo_state
  tk_sync :: repo_sync
  tk_mode :: tracking_mode
  tk_stats :: session_stats
  tk_events :: "hunk_event list"
  tk_disk :: "string \<Rightarrow> disk_entry"
  tk_next :: hunk_id

definition new_tracker :: "string \<Rightarrow> tracking_mode \<Rightarrow> (string \<Rightarrow> disk_entry) \<Rightarrow> tracker" where
  "new_tracker dir mode disk =
     \<lparr>tk_dir = dir, tk_files = [], tk_turns = [], tk_dirty = [], tk_staged = [], tk_repo = Unknown,
      tk_sync = \<lparr>rs_head = None, rs_index = None\<rparr>, tk_mode = mode, tk_stats = no_stats, tk_events = [],
      tk_disk = disk, tk_next = 0\<rparr>"

text \<open>The rest of the world: the diff engine; whether git finds a repository, what it lists as changed
  (with a mark for staged changes) for a scope, what a path is in its head commit, and its head and
  index; and the operating system's errors, a failed write with what it leaves of the file.\<close>

datatype git_blob = NoBlob | LinkBlob | Blob string

record world =
  wd_diff :: diff_engine
  wd_is_repo :: bool
  wd_status :: "string list option \<Rightarrow> (string \<times> bool) list"
  wd_blob :: "string \<Rightarrow> git_blob"
  wd_sync :: repo_sync
  wd_write :: "string \<Rightarrow> (string \<times> disk_entry) option"
  wd_remove :: "string \<Rightarrow> string option"

section \<open>Small operations\<close>

definition send_event :: "hunk_event \<Rightarrow> tracker \<Rightarrow> tracker" where
  "send_event e t = t\<lparr>tk_events := tk_events t @ [e]\<rparr>"

definition send_events :: "hunk_event list \<Rightarrow> tracker \<Rightarrow> tracker" where
  "send_events es t = t\<lparr>tk_events := tk_events t @ es\<rparr>"

abbreviation file_of :: "tracker \<Rightarrow> string \<Rightarrow> file_state option" where
  "file_of t path \<equiv> map_of (tk_files t) path"

definition put_file :: "string \<Rightarrow> file_state \<Rightarrow> tracker \<Rightarrow> tracker" where
  "put_file path st t = t\<lparr>tk_files := AList.update path st (tk_files t)\<rparr>"

definition unindex :: "hunk_id \<Rightarrow> hunk_source \<Rightarrow> turn_index \<Rightarrow> turn_index" where
  "unindex i source turns =
     (case source_prompt_index source of
        None \<Rightarrow> turns
      | Some p \<Rightarrow> (case map_of turns p of
                     None \<Rightarrow> turns
                   | Some ids \<Rightarrow> AList.update p (removeAll i ids) turns))"

definition enter_turn :: "hunk_id \<Rightarrow> hunk_source \<Rightarrow> turn_index \<Rightarrow> turn_index" where
  "enter_turn i source turns =
     (case source_prompt_index source of
        None \<Rightarrow> turns
      | Some p \<Rightarrow> AList.update p (hs_insert i (case map_of turns p of None \<Rightarrow> [] | Some ids \<Rightarrow> ids)) turns)"

definition unindex_hunks :: "hunk list \<Rightarrow> turn_index \<Rightarrow> turn_index" where
  "unindex_hunks hs turns = fold (\<lambda>h. unindex (hk_id h) (hk_source h)) hs turns"

definition index_hunks :: "hunk list \<Rightarrow> turn_index \<Rightarrow> turn_index" where
  "index_hunks hs turns = fold (\<lambda>h. enter_turn (hk_id h) (hk_source h)) hs turns"

definition without :: "hunk_id list \<Rightarrow> hunk list \<Rightarrow> hunk list" where
  "without ids hs = filter (\<lambda>h. hk_id h \<notin> set ids) hs"

text \<open>The path below the working directory, the key of the git caches.\<close>

definition cache_key :: "tracker \<Rightarrow> string \<Rightarrow> string" where
  "cache_key t path = (case path_strip_prefix path (tk_dir t) of Some rel \<Rightarrow> rel | None \<Rightarrow> path)"

definition git_dirty :: "tracker \<Rightarrow> string \<Rightarrow> bool" where
  "git_dirty t path \<longleftrightarrow> cache_key t path \<in> set (tk_dirty t)"

section \<open>Recomputing the hunks of a file\<close>

text \<open>The hunks of a pair of contents, with fresh ids from \<open>next\<close> on.\<close>

fun hunks_between ::
    "diff_engine \<Rightarrow> hunk_id \<Rightarrow> string \<Rightarrow> hunk_source \<Rightarrow> content_state \<Rightarrow> content_state \<Rightarrow> hunk list" where
  "hunks_between D next path source (Full baseline) (Full current) =
     compute_hunks D next path baseline current source"
| "hunks_between D next path source (Full baseline) Missing =
     (if baseline = [] then [] else [file_deleted next path baseline source])"
| "hunks_between D next path source Missing (Full current) =
     (if current = [] then [] else [file_created next path current source])"
| "hunks_between D next path source _ _ = []"

text \<open>A new hunk takes the id of the old hunk it matches, and its attribution to the agent if the edit
  was external; an old hunk is matched once.\<close>

definition inherit :: "hunk \<Rightarrow> hunk \<Rightarrow> hunk" where
  "inherit old new = new\<lparr>hk_id := hk_id old,
     hk_source := (if is_external (hk_source new) \<and> is_agent_edit (hk_source old)
                   then hk_source old else hk_source new)\<rparr>"

fun preserve_ids :: "hunk list \<Rightarrow> hunk_id list \<Rightarrow> hunk list \<Rightarrow> hunk list" where
  "preserve_ids olds claimed [] = []"
| "preserve_ids olds claimed (new # news) =
     (case find_matching_old_hunk new olds of
        None \<Rightarrow> new # preserve_ids olds claimed news
      | Some best \<Rightarrow>
          (if hk_id best \<in> set claimed then new # preserve_ids olds claimed news
           else inherit best new # preserve_ids olds (hk_id best # claimed) news))"

definition removal_events :: "string \<Rightarrow> hunk list \<Rightarrow> hunk list \<Rightarrow> hunk_event list" where
  "removal_events path olds news =
     map (\<lambda>old. HunkRemoved path (hk_id old) Superseded)
       (filter (\<lambda>old. \<not> (\<exists>n \<in> set news. hunks_overlap old n \<or> hunks_match_content old n)) olds)"

definition change_event :: "string \<Rightarrow> hunk list \<Rightarrow> hunk_source \<Rightarrow> hunk \<Rightarrow> hunk_event list" where
  "change_event path olds trigger new =
     (case find (\<lambda>old. hunks_match_content old new) olds of
        Some old \<Rightarrow> (if hunk_moved old new then [HunkMoved path (hk_id old) (line_info new)] else [])
      | None \<Rightarrow>
          (if \<not> (\<exists>old \<in> set olds. hunks_overlap old new) then [HunkAdded path new]
           else (let prev = opt_or (find (\<lambda>old. hk_id old = hk_id new) olds) (find (\<lambda>old. hunks_overlap old new) olds)
                 in [HunkContentChanged path new trigger
                       (case prev of Some h \<Rightarrow> new_count (line_info h) | None \<Rightarrow> 0)
                       (case prev of Some h \<Rightarrow> old_count (line_info h) | None \<Rightarrow> 0)])))"

definition hunk_diff_events :: "string \<Rightarrow> hunk list \<Rightarrow> hunk list \<Rightarrow> hunk_source \<Rightarrow> hunk_event list" where
  "hunk_diff_events path olds news trigger =
     removal_events path olds news @ concat (map (change_event path olds trigger) news)"

definition recompute_hunks ::
    "diff_engine \<Rightarrow> string \<Rightarrow> content_state option \<Rightarrow> hunk_source \<Rightarrow> tracker \<Rightarrow> tracker" where
  "recompute_hunks D path new_current source t =
     (case file_of t path of
        None \<Rightarrow> t
      | Some st \<Rightarrow>
          (let olds = fs_hunks st;
               current = (case new_current of Some c \<Rightarrow> c | None \<Rightarrow> Missing);
               fresh = hunks_between D (tk_next t) path source (fs_baseline st) current;
               news = preserve_ids olds [] fresh
           in send_events (hunk_diff_events path olds news source)
                (put_file path (st\<lparr>fs_current := current, fs_hunks := news\<rparr>)
                   (t\<lparr>tk_turns := index_hunks news (unindex_hunks olds (tk_turns t)),
                      tk_next := tk_next t + length fresh\<rparr>))))"

end
