(* ===== verification/HunkActions.thy ===== *)
theory HunkActions
  imports HunkState
begin

text \<open>
  Adopting and undoing hunks: \<open>xai-hunk-tracker/src/actor/actions.rs\<close>.  Adopting patches the
  baseline, undoing patches the file on disk and then the tracked content; a batch treats the hunks
  of a file together.  An error is that of the first write or removal that fails.
\<close>

section \<open>Statistics\<close>

definition USIZE_MAX :: nat where
  "USIZE_MAX = 2 ^ 64 - 1"

definition sat_add :: "nat \<Rightarrow> nat \<Rightarrow> nat" where
  "sat_add a b = min (a + b) USIZE_MAX"

definition update_session_stats :: "hunk_line_info \<Rightarrow> bool \<Rightarrow> session_stats \<Rightarrow> session_stats" where
  "update_session_stats li accepted s =
     (let lines_added = new_count li; lines_removed = old_count li
      in if accepted
         then s\<lparr>accepted_hunks := sat_add (accepted_hunks s) 1,
                accepted_lines_added := sat_add (accepted_lines_added s) lines_added,
                accepted_lines_removed := sat_add (accepted_lines_removed s) lines_removed\<rparr>
         else s\<lparr>rejected_hunks := sat_add (rejected_hunks s) 1,
                rejected_lines_added := sat_add (rejected_lines_added s) lines_added,
                rejected_lines_removed := sat_add (rejected_lines_removed s) lines_removed\<rparr>)"

definition count_hunk :: "hunk_action \<Rightarrow> hunk \<Rightarrow> tracker \<Rightarrow> tracker" where
  "count_hunk action h t =
     t\<lparr>tk_stats := update_session_stats (line_info h) (action = Accept) (tk_stats t),
       tk_turns := unindex (hk_id h) (hk_source h) (tk_turns t)\<rparr>"

section \<open>The disk\<close>

datatype hunk_action_error =
    HunkNotFound hunk_id
  | WriteError string string
  | DeleteError string string

text \<open>A write goes through a symbolic link; a failed one may leave anything in the file.\<close>

definition write_file :: "world \<Rightarrow> string \<Rightarrow> string \<Rightarrow> tracker \<Rightarrow> hunk_action_error option \<times> tracker" where
  "write_file W path contents t =
     (case wd_write W path of
        Some (e, left) \<Rightarrow> (Some (WriteError path e), t\<lparr>tk_disk := (tk_disk t)(path := left)\<rparr>)
      | None \<Rightarrow>
          (None, t\<lparr>tk_disk := (tk_disk t)(path :=
             (case tk_disk t path of LinkEntry _ \<Rightarrow> LinkEntry ToFile | _ \<Rightarrow> FileEntry contents))\<rparr>))"

definition remove_file :: "world \<Rightarrow> string \<Rightarrow> tracker \<Rightarrow> hunk_action_error option \<times> tracker" where
  "remove_file W path t =
     (case wd_remove W path of
        Some e \<Rightarrow> (Some (DeleteError path e), t)
      | None \<Rightarrow> (None, t\<lparr>tk_disk := (tk_disk t)(path := NoEntry)\<rparr>))"

section \<open>One hunk\<close>

definition remaining_source :: "tracker \<Rightarrow> string \<Rightarrow> hunk_source" where
  "remaining_source t path =
     (case file_of t path of
        Some st \<Rightarrow> (case fs_hunks st of h # _ \<Rightarrow> hk_source h | [] \<Rightarrow> External)
      | None \<Rightarrow> External)"

definition recompute_remaining :: "world \<Rightarrow> string \<Rightarrow> content_state \<Rightarrow> tracker \<Rightarrow> tracker" where
  "recompute_remaining W path current t =
     recompute_hunks (wd_diff W) path (Some current) (remaining_source t path) t"

definition removed :: "string \<Rightarrow> removal_reason \<Rightarrow> hunk list \<Rightarrow> hunk_event list" where
  "removed path reason hs = map (\<lambda>h. HunkRemoved path (hk_id h) reason) hs"

definition accept_hunk :: "world \<Rightarrow> string \<Rightarrow> hunk \<Rightarrow> tracker \<Rightarrow> tracker" where
  "accept_hunk W path h t =
     (case file_of t path of
        None \<Rightarrow> t
      | Some st \<Rightarrow>
          (let events = removed path Accepted [h] @ [BaselineUpdated path];
               left = without [hk_id h] (fs_hunks st)
           in if fs_baseline st = Missing
              then send_events events
                     (put_file path (st\<lparr>fs_baseline := fs_current st, fs_accepted := True, fs_hunks := left\<rparr>) t)
              else (let baseline = (case fs_baseline st of Full b \<Rightarrow> Full (accept_patch h b) | b \<Rightarrow> b)
                    in recompute_remaining W path (fs_current st)
                         (send_events events
                           (put_file path (st\<lparr>fs_baseline := baseline, fs_accepted := True, fs_hunks := left\<rparr>) t)))))"

datatype reject_action = RestoreDeleted string | DeleteCreated | RevertChange string | NoOp

definition reject_plan :: "file_state \<Rightarrow> hunk \<Rightarrow> reject_action" where
  "reject_plan st h =
     (case (fs_current st, fs_baseline st) of
        (Missing, Full baseline) \<Rightarrow> RestoreDeleted baseline
      | (Full _, Missing) \<Rightarrow> DeleteCreated
      | (Full current, _) \<Rightarrow> RevertChange (reject_patch h current)
      | _ \<Rightarrow> NoOp)"

definition reject_hunk :: "world \<Rightarrow> string \<Rightarrow> hunk \<Rightarrow> tracker \<Rightarrow> hunk_action_error option \<times> tracker" where
  "reject_hunk W path h t =
     (case file_of t path of
        None \<Rightarrow> (None, t)
      | Some st \<Rightarrow>
          (let events = removed path Rejected [h];
               left = without [hk_id h] (fs_hunks st)
           in case reject_plan st h of
                NoOp \<Rightarrow> (None, t)
              | RestoreDeleted baseline \<Rightarrow>
                  (case write_file W path baseline t of
                     (Some e, t) \<Rightarrow> (Some e, t)
                   | (None, t) \<Rightarrow>
                       (None, send_events events
                         (put_file path (st\<lparr>fs_current := Full baseline, fs_hunks := left\<rparr>) t)))
              | DeleteCreated \<Rightarrow>
                  (case remove_file W path t of
                     (Some e, t) \<Rightarrow> (Some e, t)
                   | (None, t) \<Rightarrow>
                       (None, send_events events
                         (put_file path (st\<lparr>fs_current := Missing, fs_hunks := left\<rparr>) t)))
              | RevertChange patched \<Rightarrow>
                  (case write_file W path patched t of
                     (Some e, t) \<Rightarrow> (Some e, t)
                   | (None, t) \<Rightarrow>
                       (None, recompute_remaining W path (Full patched)
                         (send_events events
                           (put_file path (st\<lparr>fs_current := Full patched, fs_hunks := left\<rparr>) t))))))"

fun find_hunk :: "hunk_id \<Rightarrow> (string \<times> file_state) list \<Rightarrow> (string \<times> hunk) option" where
  "find_hunk i [] = None"
| "find_hunk i ((path, st) # files) =
     (case find (\<lambda>h. hk_id h = i) (fs_hunks st) of
        Some h \<Rightarrow> Some (path, h)
      | None \<Rightarrow> find_hunk i files)"

definition apply_hunk_action ::
    "world \<Rightarrow> hunk_id \<Rightarrow> hunk_action \<Rightarrow> tracker \<Rightarrow> hunk_action_error option \<times> tracker" where
  "apply_hunk_action W i action t =
     (case find_hunk i (tk_files t) of
        None \<Rightarrow> (Some (HunkNotFound i), t)
      | Some (path, h) \<Rightarrow>
          (let t' = count_hunk action h t
           in case action of
                Accept \<Rightarrow> (None, accept_hunk W path h t')
              | RejectAction \<Rightarrow> reject_hunk W path h t'))"

section \<open>All hunks of a file\<close>

definition accept_hunks_batch :: "world \<Rightarrow> string \<Rightarrow> hunk list \<Rightarrow> tracker \<Rightarrow> tracker" where
  "accept_hunks_batch W path hs t =
     (if hs = [] then t
      else case file_of t path of
        None \<Rightarrow> t
      | Some st \<Rightarrow>
          (let events = removed path Accepted hs @ [BaselineUpdated path];
               left = without (map hk_id hs) (fs_hunks st)
           in if fs_baseline st = Missing
              then send_events events
                     (put_file path (st\<lparr>fs_baseline := fs_current st, fs_accepted := True, fs_hunks := left\<rparr>) t)
              else (let baseline = (case fs_baseline st of Full b \<Rightarrow> Full (accept_patches hs b) | b \<Rightarrow> b)
                    in recompute_remaining W path (fs_current st)
                         (send_events events
                           (put_file path (st\<lparr>fs_baseline := baseline, fs_accepted := True, fs_hunks := left\<rparr>) t)))))"

definition reject_hunks_batch ::
    "world \<Rightarrow> string \<Rightarrow> hunk list \<Rightarrow> tracker \<Rightarrow> hunk_action_error option \<times> tracker" where
  "reject_hunks_batch W path hs t =
     (if hs = [] then (None, t)
      else case file_of t path of
        None \<Rightarrow> (None, t)
      | Some st \<Rightarrow>
          (let events = removed path Rejected hs;
               left = without (map hk_id hs) (fs_hunks st)
           in case (fs_current st, fs_baseline st) of
                (Missing, Full baseline) \<Rightarrow>
                  (case write_file W path baseline t of
                     (Some e, t) \<Rightarrow> (Some e, t)
                   | (None, t) \<Rightarrow>
                       (None, send_events events
                         (put_file path (st\<lparr>fs_current := fs_baseline st, fs_hunks := left\<rparr>) t)))
              | (Full _, Missing) \<Rightarrow>
                  (case remove_file W path t of
                     (Some e, t) \<Rightarrow> (Some e, t)
                   | (None, t) \<Rightarrow>
                       (None, send_events events
                         (put_file path (st\<lparr>fs_current := Missing, fs_hunks := left\<rparr>) t)))
              | (Full current, _) \<Rightarrow>
                  (let patched = reject_patches hs current
                   in case write_file W path patched t of
                        (Some e, t) \<Rightarrow> (Some e, t)
                      | (None, t) \<Rightarrow>
                          (None, recompute_remaining W path (Full patched)
                            (send_events events
                              (put_file path (st\<lparr>fs_current := Full patched, fs_hunks := left\<rparr>) t))))
              | _ \<Rightarrow> (None, t)))"

fun apply_action_batch ::
    "world \<Rightarrow> (string \<times> hunk list) list \<Rightarrow> hunk_action \<Rightarrow> tracker \<Rightarrow>
     (hunk_action_error + hunk_id list) \<times> tracker" where
  "apply_action_batch W [] action t = (Inr [], t)"
| "apply_action_batch W ((path, hs) # files) action t =
     (let t' = fold (count_hunk action) hs t;
          (err, t'') = (case action of
             Accept \<Rightarrow> (None, accept_hunks_batch W path hs t')
           | RejectAction \<Rightarrow> reject_hunks_batch W path hs t')
      in case err of
           Some e \<Rightarrow> (Inl e, t'')
         | None \<Rightarrow> (case apply_action_batch W files action t'' of
                      (r, t''') \<Rightarrow> (map_sum id (\<lambda>ids. map hk_id hs @ ids) r, t''')))"

definition apply_file_action ::
    "world \<Rightarrow> string \<Rightarrow> hunk_action \<Rightarrow> tracker \<Rightarrow> (hunk_action_error + hunk_id list) \<times> tracker" where
  "apply_file_action W path action t =
     (case file_of t path of
        None \<Rightarrow> (Inr [], t)
      | Some st \<Rightarrow>
          (if fs_hunks st = [] then (Inr [], t)
           else apply_action_batch W [(path, fs_hunks st)] action t))"

definition apply_all_action ::
    "world \<Rightarrow> hunk_action \<Rightarrow> tracker \<Rightarrow> (hunk_action_error + hunk_id list) \<times> tracker" where
  "apply_all_action W action t =
     (let files = map (\<lambda>(path, st). (path, fs_hunks st)) (filter (\<lambda>(path, st). fs_hunks st \<noteq> []) (tk_files t))
      in if files = [] then (Inr [], t) else apply_action_batch W files action t)"

definition turn_hunks :: "nat \<Rightarrow> file_state \<Rightarrow> hunk list" where
  "turn_hunks p st = filter (\<lambda>h. source_prompt_index (hk_source h) = Some p) (fs_hunks st)"

definition apply_turn_action ::
    "world \<Rightarrow> nat \<Rightarrow> hunk_action \<Rightarrow> tracker \<Rightarrow> (hunk_action_error + hunk_id list) \<times> tracker" where
  "apply_turn_action W p action t =
     (let files = filter (\<lambda>(path, hs). hs \<noteq> []) (map (\<lambda>(path, st). (path, turn_hunks p st)) (tk_files t))
      in if files = [] then (Inr [], t) else apply_action_batch W files action t)"

end
