(* ===== verification/HunkMutations.thy ===== *)
theory HunkMutations
  imports HunkState
begin

text \<open>
  What the tracker does on writes of the agent, notices from the file watcher and moves of git's head:
  \<open>xai-hunk-tracker/src/actor/mutations.rs\<close> and \<open>git.rs\<close>.  Blocking tasks are taken not to be cancelled;
  a path is normalised and no link on the way to it is resolved.
\<close>

section \<open>Git\<close>

fun blob_state :: "git_blob \<Rightarrow> content_state" where
  "blob_state NoBlob = Missing"
| "blob_state LinkBlob = Symlink"
| "blob_state (Blob bytes) = classify_bytes bytes"

text \<open>The first look for a repository is remembered.\<close>

definition open_or_discover :: "world \<Rightarrow> tracker \<Rightarrow> tracker" where
  "open_or_discover W t =
     (if tk_repo t = Unknown then t\<lparr>tk_repo := (if wd_is_repo W then Discovered else NotARepo)\<rparr> else t)"

definition head_content :: "world \<Rightarrow> tracker \<Rightarrow> string \<Rightarrow> content_state" where
  "head_content W t path =
     (if tk_repo t = NotARepo \<or> tk_repo t = Unknown \<and> \<not> wd_is_repo W then Missing
      else blob_state (wd_blob W path))"

definition read_baseline :: "world \<Rightarrow> string \<Rightarrow> tracker \<Rightarrow> content_state \<times> tracker" where
  "read_baseline W path t = (head_content W t path, open_or_discover W t)"

definition read_baselines_batch ::
    "world \<Rightarrow> string list \<Rightarrow> tracker \<Rightarrow> (string \<times> content_state) list \<times> tracker" where
  "read_baselines_batch W paths t =
     (if paths = [] \<or> tk_repo t = NotARepo then ([], t)
      else (map (\<lambda>p. (p, head_content W t p)) paths, open_or_discover W t))"

definition read_repo_sync_state :: "world \<Rightarrow> tracker \<Rightarrow> repo_sync option \<times> tracker" where
  "read_repo_sync_state W t =
     (if tk_repo t = NotARepo then (None, t)
      else (if tk_repo t = Unknown \<and> \<not> wd_is_repo W then None else Some (wd_sync W), open_or_discover W t))"

section \<open>One file\<close>

definition strip_single_trailing_newline :: "string \<Rightarrow> string" where
  "strip_single_trailing_newline s =
     (case opt_or (strip_suffix s [CHR 13, CHR 10]) (strip_suffix s [CHR 10]) of Some r \<Rightarrow> r | None \<Rightarrow> s)"

definition tracked :: "content_state \<Rightarrow> content_state \<Rightarrow> bool \<Rightarrow> file_state" where
  "tracked baseline current agent =
     \<lparr>fs_baseline = baseline, fs_current = current, fs_hunks = [], fs_agent = agent, fs_accepted = False\<rparr>"

definition start_tracking ::
    "string \<Rightarrow> content_state \<Rightarrow> content_state \<Rightarrow> bool \<Rightarrow> tracker \<Rightarrow> tracker" where
  "start_tracking path baseline current agent t =
     send_event (FileAdded path agent) (put_file path (tracked baseline current agent) t)"

definition record_agent_write ::
    "world \<Rightarrow> string \<Rightarrow> string \<Rightarrow> nat \<Rightarrow> string option \<Rightarrow> tracker \<Rightarrow> tracker" where
  "record_agent_write W path contents prompt_index previous_content t =
     (let source = AgentEdit prompt_index; current = classify_string contents
      in if \<not> is_diffable current
         then (case file_of t path of
                 None \<Rightarrow>
                   (let (baseline, t) = (case previous_content of
                          Some prev \<Rightarrow> (classify_string prev, t)
                        | None \<Rightarrow> read_baseline W path t)
                    in start_tracking path baseline current True t)
               | Some st \<Rightarrow> put_file path (st\<lparr>fs_agent := True, fs_current := current, fs_hunks := []\<rparr>) t)
         else recompute_hunks (wd_diff W) path (Some current) source
           (case file_of t path of
              None \<Rightarrow>
                (let (head, t) = read_baseline W path t;
                     baseline = (case head of
                       Missing \<Rightarrow> (case previous_content of Some prev \<Rightarrow> classify_string prev | None \<Rightarrow> Missing)
                     | other \<Rightarrow> other)
                 in start_tracking path baseline current True t)
            | Some st \<Rightarrow> put_file path (st\<lparr>fs_agent := True\<rparr>) t))"

definition take_baseline ::
    "world \<Rightarrow> content_state option \<Rightarrow> string \<Rightarrow> tracker \<Rightarrow> content_state \<times> tracker" where
  "take_baseline W preloaded path t =
     (case preloaded of Some b \<Rightarrow> (b, t) | None \<Rightarrow> read_baseline W path t)"

text \<open>In the mode for all dirty files a path without a baseline is ignored unless git calls it dirty or it
  is a directory.\<close>

definition gitignored :: "tracker \<Rightarrow> string \<Rightarrow> content_state \<Rightarrow> bool" where
  "gitignored t path baseline \<longleftrightarrow>
     tk_mode t = AllDirty \<and> baseline = Missing \<and> \<not> path_is_dir (tk_disk t path) \<and> \<not> git_dirty t path"

definition content_matches_head :: "tracker \<Rightarrow> string \<Rightarrow> content_state \<Rightarrow> content_state \<Rightarrow> bool" where
  "content_matches_head t path current head =
     (case (current, head) of
        (Full c, Full h) \<Rightarrow> strip_single_trailing_newline c = strip_single_trailing_newline h
      | (Missing, Missing) \<Rightarrow> True
      | (Binary _, Binary _) \<Rightarrow> True
      | (TooLarge _, TooLarge _) \<Rightarrow> True
      | (LfsPointer _, LfsPointer _) \<Rightarrow> True
      | (Symlink, Symlink) \<Rightarrow> True
      | (Symlink, Full _) \<Rightarrow> \<not> git_dirty t path
      | (Full _, Symlink) \<Rightarrow> \<not> git_dirty t path
      | _ \<Rightarrow> False)"

definition external_source :: "tracker \<Rightarrow> string \<Rightarrow> hunk_source" where
  "external_source t path =
     (case file_of t path of
        Some st \<Rightarrow> (if fs_agent st then ExternalEditOnAgentFile else External)
      | None \<Rightarrow> External)"

definition process_file_change ::
    "world \<Rightarrow> string \<Rightarrow> content_state option \<Rightarrow> tracker \<Rightarrow> tracker" where
  "process_file_change W path preloaded t =
     (let is_tracked = (file_of t path \<noteq> None);
          current = read_file_bounded (tk_disk t path);
          finish = (\<lambda>t. recompute_hunks (wd_diff W) path (Some current) (external_source t path) t)
      in if tk_mode t = AgentOnly \<and> \<not> is_tracked then t
         else if \<not> is_diffable current \<and> \<not> is_tracked then
           (let (baseline, t) = (if tk_mode t = AllDirty then take_baseline W preloaded path t else (Missing, t))
            in if gitignored t path baseline then t
               else (let t = start_tracking path baseline current False t
                     in if is_diffable baseline then recompute_hunks (wd_diff W) path None External t else t))
         else case file_of t path of
           None \<Rightarrow>
             (let (baseline, t) = take_baseline W preloaded path t
              in if gitignored t path baseline then t
                 else finish (start_tracking path baseline Missing False t))
         | Some st \<Rightarrow>
             (if fs_accepted st then
                (let (head, t) = take_baseline W preloaded path t
                 in if content_matches_head t path current head
                    then put_file path
                      (st\<lparr>fs_baseline := head, fs_current := head, fs_accepted := False, fs_hunks := []\<rparr>) t
                    else finish t)
              else finish t))"

definition handle_file_change :: "world \<Rightarrow> string \<Rightarrow> tracker \<Rightarrow> tracker" where
  "handle_file_change W path t = process_file_change W path None t"

definition needs_baseline :: "tracker \<Rightarrow> string \<Rightarrow> bool" where
  "needs_baseline t path =
     (case file_of t path of
        None \<Rightarrow> tk_mode t \<noteq> AgentOnly
      | Some st \<Rightarrow> fs_accepted st)"

fun process_changes ::
    "world \<Rightarrow> string list \<Rightarrow> (string \<times> content_state) list \<Rightarrow> tracker \<Rightarrow> tracker" where
  "process_changes W [] baselines t = t"
| "process_changes W (path # paths) baselines t =
     process_changes W paths (AList.delete path baselines)
       (process_file_change W path (map_of baselines path) t)"

definition handle_file_changes_batch :: "world \<Rightarrow> string list \<Rightarrow> tracker \<Rightarrow> tracker" where
  "handle_file_changes_batch W paths t =
     (let (baselines, t) = read_baselines_batch W (filter (needs_baseline t) paths) t
      in process_changes W paths baselines t)"

definition handle_file_deleted :: "world \<Rightarrow> string \<Rightarrow> tracker \<Rightarrow> tracker" where
  "handle_file_deleted W path t =
     (case file_of t path of
        None \<Rightarrow>
          (if tk_mode t = AgentOnly then t
           else if path_exists (tk_disk t path) then t
           else (let (baseline, t) = read_baseline W path t
                 in if baseline = Missing then t
                    else recompute_hunks (wd_diff W) path None External
                      (start_tracking path baseline Missing False t)))
      | Some st \<Rightarrow>
          (if path_exists (tk_disk t path) then handle_file_change W path t
           else recompute_hunks (wd_diff W) path None (external_source t path) t))"

text \<open>Dropping hunks: their index entries and a removal event for each.\<close>

definition drop_hunks :: "string \<Rightarrow> hunk list \<Rightarrow> tracker \<Rightarrow> tracker" where
  "drop_hunks path hs t =
     send_events (map (\<lambda>h. HunkRemoved path (hk_id h) Superseded) hs)
       (t\<lparr>tk_turns := unindex_hunks hs (tk_turns t)\<rparr>)"

definition reset_baseline :: "string \<Rightarrow> tracker \<Rightarrow> tracker" where
  "reset_baseline path t =
     (case file_of t path of
        None \<Rightarrow> t
      | Some st \<Rightarrow>
          send_event (BaselineUpdated path) (drop_hunks path (fs_hunks st)
            (put_file path (st\<lparr>fs_baseline := fs_current st, fs_accepted := False, fs_hunks := []\<rparr>) t)))"

section \<open>The git caches\<close>

text \<open>\<open>status_paths\<close> are the paths git lists, as the set iterates; the newly dirty ones are tracked in the
  mode for all dirty files.\<close>

definition refresh_git_dirty_cache :: "world \<Rightarrow> string list option \<Rightarrow> tracker \<Rightarrow> tracker" where
  "refresh_git_dirty_cache W scope t =
     (if tk_repo t = NotARepo then t
      else (let items = (if tk_repo t = Unknown \<and> \<not> wd_is_repo W then [] else wd_status W scope);
                dirty = remdups (map fst items);
                t = open_or_discover W t;
                to_track = filter (\<lambda>rel. file_of t (path_join (tk_dir t) rel) = None) dirty;
                t = t\<lparr>tk_dirty := dirty, tk_staged := remdups (map fst (filter snd items))\<rparr>
            in if tk_mode t = AllDirty
               then fold (\<lambda>rel t. handle_file_change W (path_join (tk_dir t) rel) t) to_track t
               else t))"

definition refresh_clean :: "tracker \<Rightarrow> string \<Rightarrow> content_state \<Rightarrow> content_state \<Rightarrow> bool" where
  "refresh_clean t path baseline current =
     (case (baseline, current) of
        (Full b, Full c) \<Rightarrow> strip_single_trailing_newline b = strip_single_trailing_newline c
      | (Binary _, Binary _) \<Rightarrow> \<not> git_dirty t path
      | (TooLarge _, TooLarge _) \<Rightarrow> \<not> git_dirty t path
      | (LfsPointer _, _) \<Rightarrow> \<not> git_dirty t path
      | (_, LfsPointer _) \<Rightarrow> \<not> git_dirty t path
      | (Symlink, Symlink) \<Rightarrow> \<not> git_dirty t path
      | (Symlink, Full _) \<Rightarrow> \<not> git_dirty t path
      | (Full _, Symlink) \<Rightarrow> \<not> git_dirty t path
      | (Missing, Missing) \<Rightarrow> \<not> path_exists (tk_disk t path)
      | (Missing, _) \<Rightarrow> \<not> git_dirty t path
      | _ \<Rightarrow> False)"

definition refresh_file :: "world \<Rightarrow> string \<Rightarrow> content_state \<Rightarrow> content_state \<Rightarrow> tracker \<Rightarrow> tracker" where
  "refresh_file W path baseline current t =
     (case file_of t path of
        None \<Rightarrow> t
      | Some st \<Rightarrow>
          (let agent = fs_agent st;
               st' = st\<lparr>fs_baseline := baseline, fs_current := current, fs_accepted := False\<rparr>;
               clean = refresh_clean t path baseline current
           in if clean \<and> \<not> agent then
                send_event (FileRemoved path) (drop_hunks path (fs_hunks st)
                  (t\<lparr>tk_files := AList.delete path (tk_files t)\<rparr>))
              else if clean then
                send_event (BaselineUpdated path) (drop_hunks path (fs_hunks st)
                  (put_file path (st'\<lparr>fs_hunks := []\<rparr>) t))
              else
                send_event (BaselineUpdated path)
                  (recompute_hunks (wd_diff W) path (Some current)
                    (if agent then ExternalEditOnAgentFile else External) (put_file path st' t))))"

text \<open>The contents of all files are read before the first of them is treated.\<close>

definition lookup_content :: "(string \<times> content_state) list \<Rightarrow> string \<Rightarrow> content_state" where
  "lookup_content contents path = (case map_of contents path of Some c \<Rightarrow> c | None \<Rightarrow> Missing)"

definition refresh_scope :: "tracker \<Rightarrow> string list option" where
  "refresh_scope t =
     (case tk_mode t of
        AllDirty \<Rightarrow> None
      | AgentOnly \<Rightarrow> Some (List.map_filter (\<lambda>p. path_strip_prefix p (tk_dir t)) (map fst (tk_files t))))"

definition refresh_files :: "world \<Rightarrow> string list \<Rightarrow> tracker \<Rightarrow> tracker" where
  "refresh_files W skip t =
     (let paths = filter (\<lambda>p. p \<notin> set skip) (map fst (tk_files t));
          (baselines, t) = read_baselines_batch W paths t;
          contents = map (\<lambda>p. (p, read_file_bounded (tk_disk t p))) paths
      in fold (\<lambda>p. refresh_file W p (lookup_content baselines p) (lookup_content contents p)) paths t)"

definition refresh_all_baselines_except :: "world \<Rightarrow> string list \<Rightarrow> tracker \<Rightarrow> tracker" where
  "refresh_all_baselines_except W skip t =
     (if tk_mode t = AgentOnly \<and> tk_files t = [] then t
      else (let (sync, t) = read_repo_sync_state W t
            in if sync = Some (tk_sync t) then t
               else (let t = (case sync of Some s \<Rightarrow> t\<lparr>tk_sync := s\<rparr> | None \<Rightarrow> t);
                         t = (case refresh_scope t of
                                Some [] \<Rightarrow> t\<lparr>tk_dirty := [], tk_staged := []\<rparr>
                              | scope \<Rightarrow> refresh_git_dirty_cache W scope t)
                     in refresh_files W skip t)))"

definition refresh_all_baselines :: "world \<Rightarrow> tracker \<Rightarrow> tracker" where
  "refresh_all_baselines W t = refresh_all_baselines_except W [] t"

section \<open>The mode\<close>

definition drop_file :: "string \<Rightarrow> tracker \<Rightarrow> tracker" where
  "drop_file path t =
     (case file_of t path of
        None \<Rightarrow> t
      | Some st \<Rightarrow>
          send_event (FileRemoved path) (drop_hunks path (fs_hunks st)
            (t\<lparr>tk_files := AList.delete path (tk_files t)\<rparr>)))"

definition set_mode :: "world \<Rightarrow> tracking_mode \<Rightarrow> tracker \<Rightarrow> tracker" where
  "set_mode W mode t =
     (let old_mode = tk_mode t; t = t\<lparr>tk_mode := mode\<rparr>
      in if old_mode = AgentOnly \<and> mode = AllDirty then refresh_git_dirty_cache W None t
         else if old_mode = AllDirty \<and> mode = AgentOnly
         then fold drop_file (map fst (filter (\<lambda>(p, st). \<not> fs_agent st) (tk_files t))) t
         else t)"

end
