(* ===== verification/HunkActor.thy ===== *)
theory HunkActor
  imports HunkActions HunkMutations
begin

text \<open>
  The tracker's queries, snapshots, commands and their coalescing: \<open>xai-hunk-tracker/src/actor/queries.rs\<close>,
  \<open>actor/mod.rs\<close>, \<open>commands.rs\<close> and the views of \<open>types.rs\<close>.
\<close>

section \<open>Views\<close>

datatype content_status = StMissing | StBinary | StTooLarge | StLfsPointer | StSymlink | StFull

record content_view =
  cv_status :: content_status
  cv_byte_len :: "nat option"
  cv_content :: "string option"

fun view_of :: "content_state \<Rightarrow> content_view" where
  "view_of Missing = \<lparr>cv_status = StMissing, cv_byte_len = None, cv_content = None\<rparr>"
| "view_of (Binary n) = \<lparr>cv_status = StBinary, cv_byte_len = n, cv_content = None\<rparr>"
| "view_of (TooLarge n) = \<lparr>cv_status = StTooLarge, cv_byte_len = Some n, cv_content = None\<rparr>"
| "view_of (LfsPointer n) = \<lparr>cv_status = StLfsPointer, cv_byte_len = Some n, cv_content = None\<rparr>"
| "view_of Symlink = \<lparr>cv_status = StSymlink, cv_byte_len = None, cv_content = None\<rparr>"
| "view_of (Full s) = \<lparr>cv_status = StFull, cv_byte_len = Some (length s), cv_content = Some s\<rparr>"

record file_hunk_data =
  fd_hunks :: "hunk list"
  fd_baseline :: content_view
  fd_current :: content_view
  fd_baseline_content :: "string option"
  fd_current_content :: "string option"

record content_entry =
  ce_path :: string
  ce_baseline :: content_view
  ce_current :: content_view
  ce_agent :: bool
  ce_staged :: bool

section \<open>Queries\<close>

definition all_hunks :: "tracker \<Rightarrow> hunk list" where
  "all_hunks t = concat (map (\<lambda>(_, st). fs_hunks st) (tk_files t))"

definition get_hunks_for_path :: "tracker \<Rightarrow> string \<Rightarrow> hunk list" where
  "get_hunks_for_path t path = (case file_of t path of Some st \<Rightarrow> fs_hunks st | None \<Rightarrow> [])"

text \<open>The patch of a hunk, from the texts its file has; \<open>None\<close> if its bounds underflow.\<close>

definition with_patch :: "string option \<Rightarrow> string option \<Rightarrow> hunk \<Rightarrow> hunk option" where
  "with_patch baseline current h =
     (let patch = (case (baseline, current) of
            (Some b, Some c) \<Rightarrow> map_option Some (generate_hunk_patch b c h)
          | (None, Some c) \<Rightarrow> map_option Some (generate_hunk_patch [] c h)
          | (Some b, None) \<Rightarrow> map_option Some (generate_hunk_patch b [] h)
          | (None, None) \<Rightarrow> Some None)
      in map_option (\<lambda>p. h\<lparr>hk_patch := p\<rparr>) patch)"

definition file_data :: "file_state \<Rightarrow> file_hunk_data option" where
  "file_data st =
     (let baseline = view_of (fs_baseline st); current = view_of (fs_current st)
      in map_option (\<lambda>hs. \<lparr>fd_hunks = hs, fd_baseline = baseline, fd_current = current,
             fd_baseline_content = cv_content baseline, fd_current_content = cv_content current\<rparr>)
           (those (map (with_patch (content_text (fs_baseline st)) (content_text (fs_current st))) (fs_hunks st))))"

definition get_file_hunk_data :: "tracker \<Rightarrow> string \<Rightarrow> file_hunk_data option" where
  "get_file_hunk_data t path =
     (case file_of t path of
        Some st \<Rightarrow> file_data st
      | None \<Rightarrow> Some \<lparr>fd_hunks = [], fd_baseline = view_of Missing, fd_current = view_of Missing,
                  fd_baseline_content = None, fd_current_content = None\<rparr>)"

datatype source_filter = AgentHunks | ExternalHunks

fun source_matches :: "source_filter \<Rightarrow> hunk \<Rightarrow> bool" where
  "source_matches AgentHunks h = is_agent_edit (hk_source h)"
| "source_matches ExternalHunks h = is_external (hk_source h)"

definition get_hunks_by_source :: "tracker \<Rightarrow> source_filter \<Rightarrow> hunk list" where
  "get_hunks_by_source t f = filter (source_matches f) (all_hunks t)"

definition get_hunk :: "tracker \<Rightarrow> hunk_id \<Rightarrow> hunk option" where
  "get_hunk t i = find (\<lambda>h. hk_id h = i) (all_hunks t)"

definition get_hunks_for_turn :: "tracker \<Rightarrow> nat \<Rightarrow> hunk list" where
  "get_hunks_for_turn t p =
     (case map_of (tk_turns t) p of
        None \<Rightarrow> []
      | Some ids \<Rightarrow> List.map_filter (get_hunk t) ids)"

definition is_agent_file :: "tracker \<Rightarrow> string \<Rightarrow> bool" where
  "is_agent_file t path = (case file_of t path of Some st \<Rightarrow> fs_agent st | None \<Rightarrow> False)"

definition staged_files :: "tracker \<Rightarrow> string list" where
  "staged_files t = remdups (map (path_join (tk_dir t)) (tk_staged t))"

definition all_file_contents :: "tracker \<Rightarrow> content_entry list" where
  "all_file_contents t =
     map (\<lambda>(path, st). \<lparr>ce_path = path, ce_baseline = view_of (fs_baseline st),
            ce_current = view_of (fs_current st), ce_agent = fs_agent st,
            ce_staged = (cache_key t path \<in> set (tk_staged t))\<rparr>) (tk_files t)"

section \<open>The session summary\<close>

record turn_data =
  td_files :: "string list"
  td_pending :: "hunk list"
  td_added :: nat
  td_removed :: nat

record turn_summary =
  ts_prompt :: nat
  ts_data :: turn_data

record session_summary =
  ss_stats :: session_stats
  ss_turns :: "turn_summary list"
  ss_files_modified :: nat
  ss_files_with_pending :: nat
  ss_pending_hunks :: nat
  ss_pending_added :: nat
  ss_pending_removed :: nat
  ss_unattributed :: nat

definition no_turn_data :: turn_data where
  "no_turn_data = \<lparr>td_files = [], td_pending = [], td_added = 0, td_removed = 0\<rparr>"

definition add_pending :: "string \<Rightarrow> hunk \<Rightarrow> turn_data \<Rightarrow> turn_data" where
  "add_pending path h d =
     \<lparr>td_files = hs_insert path (td_files d), td_pending = td_pending d @ [h],
      td_added = td_added d + new_count (line_info h), td_removed = td_removed d + old_count (line_info h)\<rparr>"

type_synonym summary_acc = "(nat \<times> turn_data) list \<times> nat"

definition summarise_hunk :: "string \<Rightarrow> hunk \<Rightarrow> summary_acc \<Rightarrow> summary_acc" where
  "summarise_hunk path h acc =
     (case (acc, source_prompt_index (hk_source h)) of
        ((by_prompt, unattributed), Some p) \<Rightarrow>
          (AList.update p (add_pending path h
             (case map_of by_prompt p of Some d \<Rightarrow> d | None \<Rightarrow> no_turn_data)) by_prompt, unattributed)
      | ((by_prompt, unattributed), None) \<Rightarrow> (by_prompt, unattributed + 1))"

definition summarise_file :: "string \<times> file_state \<Rightarrow> summary_acc \<Rightarrow> summary_acc" where
  "summarise_file f acc = fold (summarise_hunk (fst f)) (fs_hunks (snd f)) acc"

definition has_agent_hunks :: "file_state \<Rightarrow> bool" where
  "has_agent_hunks st \<longleftrightarrow> (\<exists>h \<in> set (fs_hunks st). source_prompt_index (hk_source h) \<noteq> None)"

definition compute_session_summary :: "tracker \<Rightarrow> session_summary" where
  "compute_session_summary t =
     (let (by_prompt, unattributed) = fold summarise_file (tk_files t) ([], 0);
          turns = sort_key ts_prompt (map (\<lambda>(p, d). \<lparr>ts_prompt = p, ts_data = d\<rparr>) by_prompt);
          files = map fst (filter (\<lambda>(_, st). has_agent_hunks st) (tk_files t))
      in \<lparr>ss_stats = tk_stats t, ss_turns = turns,
          ss_files_modified = length (remdups files), ss_files_with_pending = length (remdups files),
          ss_pending_hunks = sum_list (map (\<lambda>s. length (td_pending (ts_data s))) turns),
          ss_pending_added = sum_list (map (\<lambda>s. td_added (ts_data s)) turns),
          ss_pending_removed = sum_list (map (\<lambda>s. td_removed (ts_data s)) turns),
          ss_unattributed = unattributed\<rparr>)"

section \<open>Snapshots\<close>

text \<open>A file's snapshot has the fields of its state.\<close>

type_synonym file_snapshot = file_state

record tracker_snapshot =
  sn_files :: "(string \<times> file_snapshot) list"
  sn_turns :: turn_index
  sn_stats :: session_stats

record turn_delta =
  dl_prompt :: nat
  dl_files :: "(string \<times> file_snapshot) list"
  dl_ids :: "hunk_id list"

definition take_snapshot :: "tracker \<Rightarrow> tracker_snapshot" where
  "take_snapshot t = \<lparr>sn_files = tk_files t, sn_turns = tk_turns t, sn_stats = tk_stats t\<rparr>"

definition take_turn_delta :: "nat \<Rightarrow> tracker \<Rightarrow> turn_delta" where
  "take_turn_delta p t =
     (let ids = (case map_of (tk_turns t) p of Some ids \<Rightarrow> ids | None \<Rightarrow> [])
      in \<lparr>dl_prompt = p,
          dl_files = filter (\<lambda>(_, st). \<exists>h \<in> set (fs_hunks st). hk_id h \<in> set ids) (tk_files t),
          dl_ids = ids\<rparr>)"

text \<open>A fresh id differs from every id there is, those of a restored snapshot included.\<close>

definition ids_of_files :: "(string \<times> file_state) list \<Rightarrow> hunk_id list" where
  "ids_of_files files = concat (map (\<lambda>(_, st). map hk_id (fs_hunks st)) files)"

definition ids_of_turns :: "turn_index \<Rightarrow> hunk_id list" where
  "ids_of_turns turns = concat (map snd turns)"

definition restore_snapshot :: "tracker_snapshot \<Rightarrow> tracker \<Rightarrow> tracker" where
  "restore_snapshot s t =
     t\<lparr>tk_files := sn_files s, tk_turns := sn_turns s, tk_stats := sn_stats s,
       tk_next := fold (\<lambda>i n. max n (Suc i)) (ids_of_files (sn_files s) @ ids_of_turns (sn_turns s)) (tk_next t)\<rparr>"

definition rewrite_single_path :: "string \<Rightarrow> string \<Rightarrow> string \<Rightarrow> string \<Rightarrow> string option" where
  "rewrite_single_path path old_cwd canonical_old new_cwd =
     map_option (path_join new_cwd)
       (opt_or (path_strip_prefix path canonical_old) (path_strip_prefix path old_cwd))"

definition rewrite_file :: "string \<Rightarrow> string \<Rightarrow> string \<Rightarrow> string \<times> file_snapshot \<Rightarrow> string \<times> file_snapshot" where
  "rewrite_file old_cwd canonical_old new_cwd f =
     (case f of (path, st) \<Rightarrow>
        (let target = (case rewrite_single_path path old_cwd canonical_old new_cwd of Some p \<Rightarrow> p | None \<Rightarrow> path)
         in (target, st\<lparr>fs_hunks := map (\<lambda>h. h\<lparr>hk_path := target\<rparr>) (fs_hunks st)\<rparr>)))"

definition rewrite_paths :: "string \<Rightarrow> string \<Rightarrow> string \<Rightarrow> tracker_snapshot \<Rightarrow> tracker_snapshot" where
  "rewrite_paths old_cwd canonical_old new_cwd s =
     s\<lparr>sn_files := fold (\<lambda>f files. AList.update (fst f) (snd f) files)
         (map (rewrite_file old_cwd canonical_old new_cwd) (sn_files s)) []\<rparr>"

section \<open>Commands\<close>

datatype command =
    RecordAgentWrite string string nat "string option"
  | HandleFileChange string
  | HandleFileDeleted string
  | RefreshGitDirtyCache
  | ResetBaseline string
  | SetMode tracking_mode
  | HunkAction hunk_id hunk_action
  | FileAction string hunk_action
  | AllAction hunk_action
  | TurnAction nat hunk_action
  | GetAllHunks
  | GetHunksForPath string
  | GetFileHunkData string
  | GetHunksBySource source_filter
  | GetHunk hunk_id
  | IsAgentFile string
  | GetAllTrackedPaths
  | GetStagedFiles
  | GetAllFileContents
  | GetSessionSummary
  | GetTurnHunks nat
  | ResetStats
  | RefreshAllBaselines
  | SnapshotState
  | SnapshotTurnDelta nat
  | RestoreState tracker_snapshot

datatype reply =
    NoReply
  | ActionReply "hunk_action_error option"
  | IdsReply "hunk_action_error + hunk_id list"
  | HunksReply "hunk list"
  | DataReply "file_hunk_data option"
  | HunkReply "hunk option"
  | BoolReply bool
  | PathsReply "string list"
  | ContentsReply "content_entry list"
  | SummaryReply session_summary
  | SnapshotReply tracker_snapshot
  | DeltaReply turn_delta

primrec handle_command :: "world \<Rightarrow> command \<Rightarrow> tracker \<Rightarrow> reply \<times> tracker" where
  "handle_command W (RecordAgentWrite path c p prev) t = (NoReply, record_agent_write W path c p prev t)"
| "handle_command W (HandleFileChange path) t = (NoReply, handle_file_change W path t)"
| "handle_command W (HandleFileDeleted path) t = (NoReply, handle_file_deleted W path t)"
| "handle_command W RefreshGitDirtyCache t = (NoReply, refresh_git_dirty_cache W None t)"
| "handle_command W (ResetBaseline path) t = (NoReply, reset_baseline path t)"
| "handle_command W (SetMode mode) t = (NoReply, set_mode W mode t)"
| "handle_command W (HunkAction i action) t = (case apply_hunk_action W i action t of (r, t) \<Rightarrow> (ActionReply r, t))"
| "handle_command W (FileAction path action) t =
     (case apply_file_action W path action t of (r, t) \<Rightarrow> (IdsReply r, t))"
| "handle_command W (AllAction action) t = (case apply_all_action W action t of (r, t) \<Rightarrow> (IdsReply r, t))"
| "handle_command W (TurnAction p action) t =
     (case apply_turn_action W p action t of (r, t) \<Rightarrow> (IdsReply r, t))"
| "handle_command W GetAllHunks t = (HunksReply (all_hunks t), t)"
| "handle_command W (GetHunksForPath path) t = (HunksReply (get_hunks_for_path t path), t)"
| "handle_command W (GetFileHunkData path) t = (DataReply (get_file_hunk_data t path), t)"
| "handle_command W (GetHunksBySource f) t = (HunksReply (get_hunks_by_source t f), t)"
| "handle_command W (GetHunk i) t = (HunkReply (get_hunk t i), t)"
| "handle_command W (IsAgentFile path) t = (BoolReply (is_agent_file t path), t)"
| "handle_command W GetAllTrackedPaths t = (PathsReply (map fst (tk_files t)), t)"
| "handle_command W GetStagedFiles t = (PathsReply (staged_files t), t)"
| "handle_command W GetAllFileContents t = (ContentsReply (all_file_contents t), t)"
| "handle_command W GetSessionSummary t = (SummaryReply (compute_session_summary t), t)"
| "handle_command W (GetTurnHunks p) t = (HunksReply (get_hunks_for_turn t p), t)"
| "handle_command W ResetStats t = (NoReply, t\<lparr>tk_stats := no_stats\<rparr>)"
| "handle_command W RefreshAllBaselines t = (NoReply, refresh_all_baselines W t)"
| "handle_command W SnapshotState t = (SnapshotReply (take_snapshot t), t)"
| "handle_command W (SnapshotTurnDelta p) t = (DeltaReply (take_turn_delta p t), t)"
| "handle_command W (RestoreState s) t = (NoReply, restore_snapshot s t)"

section \<open>Coalescing\<close>

datatype path_action = Changed | Deleted | DeletedThenChanged

record batch =
  cb_files :: "(string \<times> path_action) list"
  cb_refresh_all :: bool
  cb_refresh_dirty :: bool
  cb_others :: "command list"

definition empty_batch :: batch where
  "empty_batch = \<lparr>cb_files = [], cb_refresh_all = False, cb_refresh_dirty = False, cb_others = []\<rparr>"

fun add_command :: "command \<Rightarrow> batch \<Rightarrow> batch" where
  "add_command (HandleFileChange path) b =
     b\<lparr>cb_files := AList.update path
         (case map_of (cb_files b) path of
            Some Deleted \<Rightarrow> DeletedThenChanged | Some a \<Rightarrow> a | None \<Rightarrow> Changed) (cb_files b)\<rparr>"
| "add_command (HandleFileDeleted path) b = b\<lparr>cb_files := AList.update path Deleted (cb_files b)\<rparr>"
| "add_command RefreshAllBaselines b = b\<lparr>cb_refresh_all := True\<rparr>"
| "add_command RefreshGitDirtyCache b = b\<lparr>cb_refresh_dirty := True\<rparr>"
| "add_command cmd b = b\<lparr>cb_others := cb_others b @ [cmd]\<rparr>"

fun is_coalescable :: "command \<Rightarrow> bool" where
  "is_coalescable (HandleFileChange _) = True"
| "is_coalescable (HandleFileDeleted _) = True"
| "is_coalescable RefreshAllBaselines = True"
| "is_coalescable RefreshGitDirtyCache = True"
| "is_coalescable _ = False"

text \<open>The file actions of a batch, in the order the map iterates.  Before a refresh of everything only
  unknown files are looked at, and known files that went away.\<close>

fun pre_refresh :: "world \<Rightarrow> (string \<times> path_action) list \<Rightarrow> string list \<times> tracker \<Rightarrow> string list \<times> tracker" where
  "pre_refresh W [] (seen, t) = (seen, t)"
| "pre_refresh W ((path, Deleted) # acts) (seen, t) =
     pre_refresh W acts (seen, if file_of t path \<noteq> None then handle_file_deleted W path t else t)"
| "pre_refresh W ((path, _) # acts) (seen, t) =
     pre_refresh W acts
       (if file_of t path = None then (hs_insert path seen, handle_file_change W path t) else (seen, t))"

fun deletions_first :: "world \<Rightarrow> (string \<times> path_action) list \<Rightarrow> string list \<times> tracker \<Rightarrow> string list \<times> tracker" where
  "deletions_first W [] (changed, t) = (changed, t)"
| "deletions_first W ((path, Deleted) # acts) (changed, t) =
     deletions_first W acts (changed, handle_file_deleted W path t)"
| "deletions_first W ((path, _) # acts) (changed, t) = deletions_first W acts (changed @ [path], t)"

fun handle_commands :: "world \<Rightarrow> command list \<Rightarrow> tracker \<Rightarrow> reply list \<times> tracker" where
  "handle_commands W [] t = ([], t)"
| "handle_commands W (cmd # cmds) t =
     (case handle_command W cmd t of (r, t) \<Rightarrow>
        (case handle_commands W cmds t of (rs, t) \<Rightarrow> (r # rs, t)))"

definition handle_coalesced_batch :: "world \<Rightarrow> batch \<Rightarrow> tracker \<Rightarrow> reply list \<times> tracker" where
  "handle_coalesced_batch W b t =
     (let t = (if cb_refresh_dirty b \<and> \<not> cb_refresh_all b then refresh_git_dirty_cache W None t else t);
          t = (if cb_refresh_all b
               then (case pre_refresh W (cb_files b) ([], t) of
                       (seen, t) \<Rightarrow> refresh_all_baselines_except W seen t)
               else (case deletions_first W (cb_files b) ([], t) of
                       (changed, t) \<Rightarrow> handle_file_changes_batch W changed t))
      in handle_commands W (cb_others b) t)"

text \<open>One turn of the actor's loop, on the commands that are in its channel: it takes the first one and,
  if that one coalesces, all of them.  The batch's files are taken in some order.\<close>

definition drain_and_coalesce :: "command list \<Rightarrow> batch" where
  "drain_and_coalesce cmds = fold add_command cmds empty_batch"

fun actor_turn :: "world \<Rightarrow> command list \<Rightarrow> tracker \<Rightarrow> command list \<times> reply list \<times> tracker" where
  "actor_turn W [] t = ([], [], t)"
| "actor_turn W (cmd # cmds) t =
     (if is_coalescable cmd
      then (case handle_coalesced_batch W (drain_and_coalesce (cmd # cmds)) t of (rs, t) \<Rightarrow> ([], rs, t))
      else (case handle_command W cmd t of (r, t) \<Rightarrow> (cmds, [r], t)))"

text \<open>At startup the mode for all dirty files looks at git once.\<close>

definition start_actor :: "world \<Rightarrow> tracker \<Rightarrow> tracker" where
  "start_actor W t = (if tk_mode t = AllDirty then refresh_git_dirty_cache W None t else t)"

end
