(* ===== verification/HunkInvariants.thy ===== *)
theory HunkInvariants
  imports HunkActor
begin

text \<open>
  Invariants of the hunk tracker.  They speak of its core: the tracked files, the turn index and the
  next id.  \<open>tracker_laws\<close> is the contract of an invariant: what it must survive for every operation
  to keep it.
\<close>

section \<open>The core of the state\<close>

type_synonym core = "(string \<times> file_state) list \<times> turn_index \<times> hunk_id"

definition core :: "tracker \<Rightarrow> core" where
  "core t = (tk_files t, tk_turns t, tk_next t)"

definition turn_ids :: "turn_index \<Rightarrow> nat \<Rightarrow> hunk_id list" where
  "turn_ids turns p = (case map_of turns p of None \<Rightarrow> [] | Some ids \<Rightarrow> ids)"

definition recomputed ::
    "diff_engine \<Rightarrow> string \<Rightarrow> content_state option \<Rightarrow> hunk_source \<Rightarrow> core \<Rightarrow> core" where
  "recomputed D path new_current source c =
     (case c of (files, turns, next) \<Rightarrow>
       (case map_of files path of
          None \<Rightarrow> c
        | Some st \<Rightarrow>
            (let current = (case new_current of Some c \<Rightarrow> c | None \<Rightarrow> Missing);
                 fresh = hunks_between D next path source (fs_baseline st) current;
                 news = preserve_ids (fs_hunks st) [] fresh
             in (AList.update path (st\<lparr>fs_current := current, fs_hunks := news\<rparr>) files,
                 index_hunks news (unindex_hunks (fs_hunks st) turns), next + length fresh))))"

lemma core_simps [simp]:
  "core (send_event e t) = core t"
  "core (send_events es t) = core t"
  "core (t\<lparr>tk_disk := disk\<rparr>) = core t"
  "core (t\<lparr>tk_dirty := d\<rparr>) = core t"
  "core (t\<lparr>tk_staged := d\<rparr>) = core t"
  "core (t\<lparr>tk_repo := r\<rparr>) = core t"
  "core (t\<lparr>tk_sync := y\<rparr>) = core t"
  "core (t\<lparr>tk_mode := m\<rparr>) = core t"
  "core (t\<lparr>tk_stats := s\<rparr>) = core t"
  "core (t\<lparr>tk_events := es\<rparr>) = core t"
  "core (t\<lparr>tk_turns := turns\<rparr>) = (tk_files t, turns, tk_next t)"
  "core (t\<lparr>tk_files := files\<rparr>) = (files, tk_turns t, tk_next t)"
  by (simp_all add: core_def send_event_def send_events_def)

lemma core_put_file: "core (put_file path st t) = (AList.update path st (tk_files t), tk_turns t, tk_next t)"
  by (simp add: core_def put_file_def)

lemma core_recompute: "core (recompute_hunks D path c source t) = recomputed D path c source (core t)"
  by (simp add: recompute_hunks_def recomputed_def core_def send_events_def put_file_def Let_def split: option.split)

lemma fields_recompute [simp]:
  "tk_disk (recompute_hunks D path c source t) = tk_disk t"
  "tk_mode (recompute_hunks D path c source t) = tk_mode t"
  "tk_stats (recompute_hunks D path c source t) = tk_stats t"
  by (simp_all add: recompute_hunks_def send_events_def put_file_def Let_def split: option.split)

section \<open>The turn index\<close>

lemma source_prompt_index_Some [simp]: "source_prompt_index s = Some p \<longleftrightarrow> s = AgentEdit p"
  by (cases s) auto

lemma turn_ids_unindex:
  "turn_ids (unindex i s turns) p = (if s = AgentEdit p then removeAll i (turn_ids turns p) else turn_ids turns p)"
  by (cases s) (auto simp: unindex_def turn_ids_def update_conv split: option.split)

lemma turn_ids_enter:
  "turn_ids (enter_turn i s turns) p = (if s = AgentEdit p then hs_insert i (turn_ids turns p) else turn_ids turns p)"
  by (cases s) (auto simp: enter_turn_def turn_ids_def update_conv split: option.split)

lemma turn_ids_unindex_hunks:
  "set (turn_ids (unindex_hunks hs turns) p) =
     set (turn_ids turns p) - {hk_id h |h. h \<in> set hs \<and> hk_source h = AgentEdit p}"
  unfolding unindex_hunks_def by (induction hs arbitrary: turns) (auto simp: turn_ids_unindex)

lemma turn_ids_index_hunks:
  "set (turn_ids (index_hunks hs turns) p) =
     set (turn_ids turns p) \<union> {hk_id h |h. h \<in> set hs \<and> hk_source h = AgentEdit p}"
  unfolding index_hunks_def by (induction hs arbitrary: turns) (auto simp: turn_ids_enter)

lemma distinct_turn_ids:
  "distinct (turn_ids turns p) \<Longrightarrow> distinct (turn_ids (unindex_hunks hs turns) p)"
  "distinct (turn_ids turns p) \<Longrightarrow> distinct (turn_ids (index_hunks hs turns) p)"
  unfolding unindex_hunks_def index_hunks_def
  by (induction hs arbitrary: turns) (auto simp: turn_ids_unindex turn_ids_enter distinct_removeAll)

section \<open>Files\<close>

lemma ids_of_files_simps [simp]:
  "ids_of_files [] = []"
  "ids_of_files ((p, st) # files) = map hk_id (fs_hunks st) @ ids_of_files files"
  "ids_of_files (files @ files') = ids_of_files files @ ids_of_files files'"
  by (simp_all add: ids_of_files_def)

lemma in_ids_of_files:
  "i \<in> set (ids_of_files files) \<longleftrightarrow> (\<exists>p st h. (p, st) \<in> set files \<and> h \<in> set (fs_hunks st) \<and> i = hk_id h)"
  by (auto simp: ids_of_files_def)

lemma update_split:
  assumes "map_of files path = Some st"
  obtains xs ys where "files = xs @ (path, st) # ys" "path \<notin> fst ` set xs"
    "\<And>st'. AList.update path st' files = xs @ (path, st') # ys"
proof -
  have "\<exists>xs ys. files = xs @ (path, st) # ys \<and> path \<notin> fst ` set xs \<and>
      (\<forall>st'. AList.update path st' files = xs @ (path, st') # ys)"
    using assms
  proof (induction files)
    case (Cons f files)
    show ?case
    proof (cases "fst f = path")
      case True
      with Cons.prems have "f = (path, st)" by (cases f) simp
      then show ?thesis by (intro exI [of _ "[]"] exI [of _ files]) auto
    next
      case False
      with Cons.prems have "map_of files path = Some st" by (cases f) auto
      from Cons.IH [OF this] obtain xs ys where "files = xs @ (path, st) # ys" "path \<notin> fst ` set xs"
        "\<forall>st'. AList.update path st' files = xs @ (path, st') # ys" by blast
      with False show ?thesis by (intro exI [of _ "f # xs"] exI [of _ ys]) (cases f, auto)
    qed
  qed simp
  then show thesis using that by blast
qed

lemma update_new: "map_of files path = None \<Longrightarrow> AList.update path st files = files @ [(path, st)]"
  by (induction files) auto

text \<open>What a hunk says of its file, without its id and source.\<close>

definition shape :: "hunk \<Rightarrow> string \<times> hunk_line_info \<times> string option \<times> string" where
  "shape h = (hk_path h, line_info h, old_text h, new_text h)"

definition diff_shapes :: "diff_engine \<Rightarrow> string \<Rightarrow> file_state \<Rightarrow> (string \<times> hunk_line_info \<times> string option \<times> string) list" where
  "diff_shapes D path st = map shape (hunks_between D 0 path External (fs_baseline st) (fs_current st))"

text \<open>A file without hunks, or with those of its two contents.\<close>

definition file_ok :: "diff_engine \<Rightarrow> string \<Rightarrow> file_state \<Rightarrow> bool" where
  "file_ok D path st \<longleftrightarrow> fs_hunks st = [] \<or> map shape (fs_hunks st) = diff_shapes D path st"

fun tracker_ok :: "diff_engine \<Rightarrow> core \<Rightarrow> bool" where
  "tracker_ok D (files, turns, next) \<longleftrightarrow>
     distinct (map fst files) \<and> distinct (ids_of_files files) \<and>
     (\<forall>i \<in> set (ids_of_files files). i < next) \<and>
     (\<forall>p. distinct (turn_ids turns p) \<and> (\<forall>i \<in> set (turn_ids turns p). i < next)) \<and>
     (\<forall>path st. (path, st) \<in> set files \<longrightarrow> file_ok D path st \<and>
        (\<forall>h \<in> set (fs_hunks st). \<forall>p. hk_id h \<in> set (turn_ids turns p) \<longrightarrow> hk_source h = AgentEdit p))"

text \<open>The index has every hunk of the agent under its turn.\<close>

fun index_complete :: "core \<Rightarrow> bool" where
  "index_complete (files, turns, next) \<longleftrightarrow>
     (\<forall>path st. (path, st) \<in> set files \<longrightarrow>
        (\<forall>h \<in> set (fs_hunks st). \<forall>p. hk_source h = AgentEdit p \<longrightarrow> hk_id h \<in> set (turn_ids turns p)))"

section \<open>New hunks\<close>

lemma min_by_in: "min_by f xs = Some x \<Longrightarrow> x \<in> set xs"
  by (induction xs arbitrary: x) (auto split: option.splits if_splits)

lemma max_by_in: "max_by f xs = Some x \<Longrightarrow> x \<in> set xs"
  by (induction xs arbitrary: x) (auto split: option.splits if_splits)

lemma find_matching_in: "find_matching_old_hunk new olds = Some old \<Longrightarrow> old \<in> set olds"
  by (auto simp: find_matching_old_hunk_def Let_def split: if_splits dest: min_by_in max_by_in)

lemma find_matching_Nil [simp]: "find_matching_old_hunk h [] = None"
  by (simp add: find_matching_old_hunk_def)

lemma preserve_Nil [simp]: "preserve_ids [] claimed news = news"
  by (induction news) simp_all

lemma shape_inherit [simp]: "shape (inherit old new) = shape new"
  by (simp add: shape_def inherit_def)

lemma preserve_shapes: "map shape (preserve_ids olds claimed news) = map shape news"
  by (induction olds claimed news rule: preserve_ids.induct) (auto split: option.split)

lemma preserve_length [simp]: "length (preserve_ids olds claimed news) = length news"
  using preserve_shapes [of olds claimed news] by (metis length_map)

text \<open>Ids are kept or fresh, and stay unique.\<close>

lemma preserve_ids_unique:
  assumes "distinct (map hk_id news)" "set (map hk_id news) \<inter> set (map hk_id olds) = {}"
  shows "set (map hk_id (preserve_ids olds claimed news)) \<subseteq>
      (set (map hk_id olds) - set claimed) \<union> set (map hk_id news) \<and>
    distinct (map hk_id (preserve_ids olds claimed news))"
  using assms
proof (induction olds claimed news rule: preserve_ids.induct)
  case (2 olds claimed new news)
  have new: "hk_id new \<notin> set (map hk_id olds)" "hk_id new \<notin> set (map hk_id news)"
    "distinct (map hk_id news)" "set (map hk_id news) \<inter> set (map hk_id olds) = {}" using "2.prems" by auto
  show ?case
  proof (cases "find_matching_old_hunk new olds")
    case None
    from "2.IH"(1) [OF None new(3,4)] None new show ?thesis by auto
  next
    case (Some best)
    have best: "hk_id best \<in> set (map hk_id olds)" using find_matching_in [OF Some] by auto
    show ?thesis
    proof (cases "hk_id best \<in> set claimed")
      case True
      from "2.IH"(2) [OF Some True new(3,4)] True Some new show ?thesis by auto
    next
      case False
      note IH = "2.IH"(3) [OF Some False new(3,4)]
      have "hk_id best \<notin> set (map hk_id news)" using best new(4) by blast
      with IH have "hk_id best \<notin> set (map hk_id (preserve_ids olds (hk_id best # claimed) news))" by auto
      moreover have "set (map hk_id (preserve_ids olds (hk_id best # claimed) news)) \<subseteq>
          set (map hk_id olds) - set claimed \<union> set (map hk_id (new # news))" using IH by auto
      ultimately show ?thesis using IH Some False best by (simp add: inherit_def)
    qed
  qed
qed simp

lemma hunks_between_ids:
  "map hk_id (hunks_between D next path source b c) =
     [next ..< next + length (hunks_between D next path source b c)]"
proof -
  have "map (\<lambda>(i, b). hk_id (builder_build path source i b)) (zip [next ..< next + length bs] bs) =
      [next ..< next + length bs]" for bs
  proof -
    have "map (\<lambda>(i, b). hk_id (builder_build path source i b)) (zip [next ..< next + length bs] bs) =
        map fst (zip [next ..< next + length bs] bs)"
      by (rule map_cong) (auto simp: builder_build_def)
    then show ?thesis by simp
  qed
  then show ?thesis
    by (induction D "next" path source b c rule: hunks_between.induct)
      (auto simp: compute_hunks_def file_deleted_def file_created_def comp_def split_def Let_def split: option.split)
qed

lemma hunks_between_shape:
  "map shape (hunks_between D next path source b c) = map shape (hunks_between D 0 path External b c)"
proof -
  have "map (\<lambda>z. shape (builder_build path source (fst z) (snd z))) (zip [next ..< next + length bs] bs) =
      map (\<lambda>z. shape (builder_build path External (fst z) (snd z))) (zip [0 ..< length bs] bs)" for bs
    by (rule nth_equalityI) (auto simp: shape_def builder_build_def)
  then show ?thesis
    by (induction D "next" path source b c rule: hunks_between.induct)
      (auto simp: compute_hunks_def file_deleted_def file_created_def comp_def split_def Let_def shape_def split: option.split)
qed

section \<open>The contract of an invariant\<close>

text \<open>An invariant survives clearing or dropping a file, forgetting index entries of hunks that are gone,
  and recomputing a file some of whose hunks were taken out of the index.  If \<open>faults\<close> are considered
  it survives the loss of any index entry too.\<close>

locale tracker_laws =
  fixes D :: diff_engine and I :: "core \<Rightarrow> bool" and faults :: bool
  assumes ok: "I c \<Longrightarrow> tracker_ok D c"
    and put_clear: "I (files, turns, n) \<Longrightarrow> fs_hunks st = [] \<Longrightarrow> I (AList.update path st files, turns, n)"
    and delete: "I (files, turns, n) \<Longrightarrow> I (AList.delete path files, turns, n)"
    and unindex_dead: "I (files, turns, n) \<Longrightarrow> set (map hk_id hs) \<inter> set (ids_of_files files) = {} \<Longrightarrow>
      I (files, unindex_hunks hs turns, n)"
    and unindex_any: "faults \<Longrightarrow> I (files, turns, n) \<Longrightarrow> I (files, unindex_hunks hs turns, n)"
    and renumber: "I (files, turns, n) \<Longrightarrow> \<forall>i \<in> set (ids_of_files files @ ids_of_turns turns). i < m \<Longrightarrow> I (files, turns, m)"
    and remake: "I (files, turns, n) \<Longrightarrow> map_of files path = Some st \<Longrightarrow> set hs \<subseteq> set (fs_hunks st) \<Longrightarrow>
      fs_hunks st' = without (map hk_id hs) (fs_hunks st) \<Longrightarrow>
      I (recomputed D path nc source (AList.update path st' files, unindex_hunks hs turns, n))"

lemma file_ok_clear [simp]: "fs_hunks st = [] \<Longrightarrow> file_ok D path st"
  by (simp add: file_ok_def)

lemma set_delete: "set (AList.delete k al) \<subseteq> set al"
  by (simp add: AList.delete_eq)

lemma ids_delete: "distinct (ids_of_files files) \<Longrightarrow> distinct (ids_of_files (AList.delete path files))"
  "set (ids_of_files (AList.delete path files)) \<subseteq> set (ids_of_files files)"
proof -
  have sub: "set (ids_of_files (AList.delete path files)) \<subseteq> set (ids_of_files files)" for files :: "(string \<times> file_state) list"
    by (induction files) (auto simp: AList.delete_eq)
  then show "set (ids_of_files (AList.delete path files)) \<subseteq> set (ids_of_files files)" .
  assume "distinct (ids_of_files files)"
  then show "distinct (ids_of_files (AList.delete path files))"
    using sub by (induction files) (auto simp: AList.delete_eq, fastforce)
qed

lemma ids_update_clear:
  assumes "fs_hunks st = []"
  shows "distinct (ids_of_files files) \<Longrightarrow> distinct (ids_of_files (AList.update path st files))"
    "set (ids_of_files (AList.update path st files)) \<subseteq> set (ids_of_files files)"
proof -
  have "\<exists>xs ys st'. files = xs @ (path, st') # ys \<and> AList.update path st files = xs @ (path, st) # ys"
    if "map_of files path \<noteq> None" using that by (metis option.exhaust update_split)
  then have "set (ids_of_files (AList.update path st files)) \<subseteq> set (ids_of_files files) \<and>
      (distinct (ids_of_files files) \<longrightarrow> distinct (ids_of_files (AList.update path st files)))"
    using assms by (cases "map_of files path = None") (auto simp: update_new)
  then show "set (ids_of_files (AList.update path st files)) \<subseteq> set (ids_of_files files)"
    "distinct (ids_of_files files) \<Longrightarrow> distinct (ids_of_files (AList.update path st files))" by auto
qed

lemma set_update_subset: "set (AList.update k v al) \<subseteq> insert (k, v) (set al)"
  by (induction al) auto

lemma tracker_ok_put_clear:
  assumes "tracker_ok D (files, turns, n)" "fs_hunks st = []"
  shows "tracker_ok D (AList.update path st files, turns, n)"
proof -
  have "(q, s) = (path, st) \<or> (q, s) \<in> set files" if "(q, s) \<in> set (AList.update path st files)" for q s
    using that set_update_subset by fast
  then show ?thesis
    using assms ids_update_clear [OF assms(2), where files = files and path = path]
    by (fastforce simp: distinct_update)
qed

lemma tracker_ok_delete:
  "tracker_ok D (files, turns, n) \<Longrightarrow> tracker_ok D (AList.delete path files, turns, n)"
  using ids_delete [where files = files and path = path] subsetD [OF set_delete, of _ path files]
  by (simp add: distinct_delete) blast

lemma tracker_ok_unindex:
  "tracker_ok D (files, turns, n) \<Longrightarrow> tracker_ok D (files, unindex_hunks hs turns, n)"
  by (auto simp: turn_ids_unindex_hunks distinct_turn_ids)

lemma set_without: "set (without ids hs) = {h \<in> set hs. hk_id h \<notin> set ids}"
  by (simp add: without_def)

lemma distinct_without: "distinct (map hk_id hs) \<Longrightarrow> distinct (map hk_id (without ids hs))"
  unfolding without_def by (induction hs) auto

text \<open>What a recomputed file has.\<close>

lemma recomputed_split:
  assumes "map_of files path = Some st"
  obtains xs ys news st'' where "files = xs @ (path, st) # ys"
    "recomputed D path c source (AList.update path st' files, turns, n) =
       (xs @ (path, st'') # ys, index_hunks news (unindex_hunks (fs_hunks st') turns), n + length news)"
    "fs_hunks st'' = news" "map shape news = diff_shapes D path st''"
    "\<And>ids. set ids = set (map hk_id (fs_hunks st')) \<Longrightarrow> (\<forall>i \<in> set ids. i < n) \<Longrightarrow>
       distinct (map hk_id news) \<and> set (map hk_id news) \<subseteq> set ids \<union> {n ..< n + length news}"
proof -
  obtain xs ys where split: "files = xs @ (path, st) # ys" "path \<notin> fst ` set xs"
    "\<And>st'. AList.update path st' files = xs @ (path, st') # ys" using update_split [OF assms] by blast
  let ?cur = "case c of Some c \<Rightarrow> c | None \<Rightarrow> Missing"
  let ?fresh = "hunks_between D n path source (fs_baseline st') ?cur"
  let ?news = "preserve_ids (fs_hunks st') [] ?fresh"
  let ?st = "st'\<lparr>fs_current := ?cur, fs_hunks := ?news\<rparr>"
  have "map_of xs path = None" using split(2) by (metis map_of_eq_None_iff)
  then have "map_of (xs @ (path, st') # ys) path = Some st'" by (simp add: map_add_def)
  moreover have "AList.update path ?st (xs @ (path, st') # ys) = xs @ (path, ?st) # ys"
    using split(2) by (induction xs) auto
  ultimately have "recomputed D path c source (AList.update path st' files, turns, n) =
      (xs @ (path, ?st) # ys, index_hunks ?news (unindex_hunks (fs_hunks st') turns), n + length ?news)"
    by (simp add: recomputed_def split(3) Let_def)
  moreover have "map shape ?news = diff_shapes D path ?st"
    using hunks_between_shape [of D n path source "fs_baseline st'" ?cur]
    by (simp add: preserve_shapes diff_shapes_def)
  moreover have "distinct (map hk_id ?news) \<and> set (map hk_id ?news) \<subseteq> set ids \<union> {n ..< n + length ?news}"
    if "set ids = set (map hk_id (fs_hunks st'))" "\<forall>i \<in> set ids. i < n" for ids
  proof -
    have fresh: "map hk_id ?fresh = [n ..< n + length ?fresh]" by (rule hunks_between_ids)
    then have "set (map hk_id ?fresh) \<inter> set (map hk_id (fs_hunks st')) = {}"
      using that by (metis Int_emptyI atLeastLessThan_iff not_le set_upt)
    moreover have "distinct (map hk_id ?fresh)" using fresh by simp
    ultimately show ?thesis using preserve_ids_unique [of ?fresh "fs_hunks st'" "[]"] fresh that
      by (metis Diff_empty empty_set preserve_length set_upt)
  qed
  ultimately show ?thesis using that [of xs ys ?st ?news] split(1) by auto
qed

lemma tracker_ok_remake:
  assumes "tracker_ok D (files, turns, n)" "map_of files path = Some st" "set hs \<subseteq> set (fs_hunks st)"
    "fs_hunks st' = without (map hk_id hs) (fs_hunks st)"
  shows "tracker_ok D (recomputed D path nc source (AList.update path st' files, unindex_hunks hs turns, n))"
proof -
  let ?turns = "unindex_hunks hs turns"
  obtain xs ys news st'' where split: "files = xs @ (path, st) # ys"
    "recomputed D path nc source (AList.update path st' files, ?turns, n) =
       (xs @ (path, st'') # ys, index_hunks news (unindex_hunks (fs_hunks st') ?turns), n + length news)"
    "fs_hunks st'' = news" "map shape news = diff_shapes D path st''"
    and ids: "\<And>ids. set ids = set (map hk_id (fs_hunks st')) \<Longrightarrow> (\<forall>i \<in> set ids. i < n) \<Longrightarrow>
       distinct (map hk_id news) \<and> set (map hk_id news) \<subseteq> set ids \<union> {n ..< n + length news}"
    using recomputed_split [OF assms(2)] by metis
  have ok: "distinct (map fst files)" "distinct (ids_of_files files)" "\<And>i. i \<in> set (ids_of_files files) \<Longrightarrow> i < n"
    "\<And>p. distinct (turn_ids turns p)" "\<And>p i. i \<in> set (turn_ids turns p) \<Longrightarrow> i < n"
    "\<And>q s. (q, s) \<in> set files \<Longrightarrow> file_ok D q s"
    "\<And>q s h p. (q, s) \<in> set files \<Longrightarrow> h \<in> set (fs_hunks s) \<Longrightarrow> hk_id h \<in> set (turn_ids turns p) \<Longrightarrow> hk_source h = AgentEdit p"
    using assms(1) by (auto simp: split(1))
  have left: "set (fs_hunks st') \<subseteq> set (fs_hunks st)" using assms(4) by (auto simp: set_without)
  have own: "set (map hk_id (fs_hunks st)) \<subseteq> set (ids_of_files files)" by (auto simp: split(1))
  have news: "distinct (map hk_id news)" "set (map hk_id news) \<subseteq> set (map hk_id (fs_hunks st')) \<union> {n ..< n + length news}"
    using ids [of "map hk_id (fs_hunks st')"] left own ok(3) by auto
  have others: "set (map hk_id news) \<inter> set (ids_of_files (xs @ ys)) = {}"
  proof -
    have "set (map hk_id (fs_hunks st)) \<inter> set (ids_of_files (xs @ ys)) = {}"
      using ok(2) by (auto simp: split(1))
    moreover have "\<forall>i \<in> set (ids_of_files (xs @ ys)). i < n" using ok(3) by (auto simp: split(1))
    ultimately show ?thesis using news(2) left by fastforce
  qed
  have old_turns: "set (turn_ids (unindex_hunks (fs_hunks st') ?turns) p) \<subseteq> set (turn_ids turns p)" for p
    by (auto simp: turn_ids_unindex_hunks)
  have bound: "i < n + length news"
    if "i \<in> set (turn_ids (index_hunks news (unindex_hunks (fs_hunks st') ?turns)) p)" for i p
  proof -
    have "i \<in> set (turn_ids turns p) \<or> i \<in> set (map hk_id news)"
      using that old_turns [of p] by (auto simp: turn_ids_index_hunks)
    then show ?thesis using ok(3,5) news(2) left own by fastforce
  qed
  have source: "hk_source h = AgentEdit p"
    if "(q, s) \<in> set (xs @ (path, st'') # ys)" "h \<in> set (fs_hunks s)"
      "hk_id h \<in> set (turn_ids (index_hunks news (unindex_hunks (fs_hunks st') ?turns)) p)" for q s h p
  proof (cases "\<exists>h' \<in> set news. hk_source h' = AgentEdit p \<and> hk_id h' = hk_id h")
    case True
    then obtain h' where h': "h' \<in> set news" "hk_source h' = AgentEdit p" "hk_id h' = hk_id h" by blast
    have "h \<in> set news"
    proof (rule ccontr)
      assume "h \<notin> set news"
      then have "hk_id h \<in> set (ids_of_files (xs @ ys))"
        using that(1,2) split(3) unfolding in_ids_of_files by fastforce
      with others h' show False by (metis disjoint_iff in_set_conv_nth length_map nth_map)
    qed
    with h' news(1) show ?thesis by (metis distinct_map inj_onD)
  next
    case False
    then have t: "hk_id h \<in> set (turn_ids (unindex_hunks (fs_hunks st') ?turns) p)"
      using that(3) by (auto simp: turn_ids_index_hunks)
    then have old: "hk_id h \<in> set (turn_ids turns p)" using old_turns by blast
    show ?thesis
    proof (cases "(q, s) \<in> set xs \<union> set ys")
      case True
      then show ?thesis using ok(7) [of q s h p] that(2) old by (auto simp: split(1))
    next
      case False
      with that(1) have "s = st''" by auto
      with that(2) split(3) have "hk_id h \<in> set (map hk_id news)" by auto
      then have "hk_id h \<in> set (map hk_id (fs_hunks st'))" using news(2) ok(5) [OF old] by fastforce
      then obtain h' where h': "h' \<in> set (fs_hunks st')" "hk_id h' = hk_id h" by auto
      then have "hk_source h' = AgentEdit p" using ok(7) [of path st h' p] left old by (auto simp: split(1))
      with h' t show ?thesis by (auto simp: turn_ids_unindex_hunks)
    qed
  qed
  have "distinct (ids_of_files (xs @ (path, st'') # ys))"
    using ok(2) news(1) others split(3) by (auto simp: split(1))
  moreover have "i < n + length news" if "i \<in> set (ids_of_files (xs @ (path, st'') # ys))" for i
  proof -
    have "i \<in> set (ids_of_files files) \<or> i \<in> set (map hk_id news)" using that split(3) by (auto simp: split(1))
    then show ?thesis using ok(3) [of i] news(2) left own ok(3) by fastforce
  qed
  moreover have "file_ok D q s" if "(q, s) \<in> set (xs @ (path, st'') # ys)" for q s
    using that ok(6) split(3,4) by (auto simp: split(1) file_ok_def)
  ultimately show ?thesis
    using ok(1,4) bound source unfolding split(2) tracker_ok.simps
    by (auto simp: split(1) distinct_turn_ids)
qed

lemma index_complete_remake:
  assumes "tracker_ok D (files, turns, n)" "index_complete (files, turns, n)" "map_of files path = Some st"
    "set hs \<subseteq> set (fs_hunks st)" "fs_hunks st' = without (map hk_id hs) (fs_hunks st)"
  shows "index_complete (recomputed D path nc source (AList.update path st' files, unindex_hunks hs turns, n))"
proof -
  obtain xs ys news st'' where split: "files = xs @ (path, st) # ys"
    "recomputed D path nc source (AList.update path st' files, unindex_hunks hs turns, n) =
       (xs @ (path, st'') # ys, index_hunks news (unindex_hunks (fs_hunks st') (unindex_hunks hs turns)), n + length news)"
    "fs_hunks st'' = news"
    using recomputed_split [OF assms(3)] by metis
  have "hk_id h \<in> set (turn_ids (index_hunks news (unindex_hunks (fs_hunks st') (unindex_hunks hs turns))) p)"
    if "(q, s) \<in> set (xs @ (path, st'') # ys)" "h \<in> set (fs_hunks s)" "hk_source h = AgentEdit p" for q s h p
  proof (cases "(q, s) \<in> set xs \<union> set ys")
    case True
    have "(q, s) \<in> set files" using True split(1) by auto
    then have "hk_id h \<in> set (turn_ids turns p)" using that(2,3) assms(2) unfolding index_complete.simps by blast
    moreover have "hk_id h \<notin> set (map hk_id (fs_hunks st))"
    proof -
      have "distinct (ids_of_files files)" using assms(1) by simp
      then have "set (map hk_id (fs_hunks st)) \<inter> set (ids_of_files (xs @ ys)) = {}" by (auto simp: split(1))
      moreover have "hk_id h \<in> set (ids_of_files (xs @ ys))"
        unfolding in_ids_of_files using True that(2) by auto
      ultimately show ?thesis by blast
    qed
    then have "hk_id h \<notin> set (map hk_id hs)" "hk_id h \<notin> set (map hk_id (fs_hunks st'))"
      using assms(4,5) by (auto simp: set_without)
    ultimately show ?thesis by (auto simp: turn_ids_index_hunks turn_ids_unindex_hunks)
  next
    case False
    with that(1) have "s = st''" by auto
    with that split(3) show ?thesis by (auto simp: turn_ids_index_hunks)
  qed
  then show ?thesis unfolding split(2) by auto
qed

lemma turn_ids_subset: "set (turn_ids turns p) \<subseteq> set (ids_of_turns turns)"
  by (cases "map_of turns p") (force simp: turn_ids_def ids_of_turns_def dest: map_of_SomeD)+

lemma tracker_ok_renumber:
  "tracker_ok D (files, turns, n) \<Longrightarrow> \<forall>i \<in> set (ids_of_files files @ ids_of_turns turns). i < m \<Longrightarrow>
    tracker_ok D (files, turns, m)"
  using turn_ids_subset by fastforce

interpretation safe: tracker_laws D "tracker_ok D" True for D
  by unfold_locales
    (blast intro: tracker_ok_put_clear tracker_ok_delete tracker_ok_unindex tracker_ok_remake tracker_ok_renumber)+

lemma index_complete_clear:
  assumes "index_complete (files, turns, n)" "fs_hunks st = []"
  shows "index_complete (AList.update path st files, turns, n)"
proof -
  have "(q, s) = (path, st) \<or> (q, s) \<in> set files" if "(q, s) \<in> set (AList.update path st files)" for q s
    using that set_update_subset by fast
  then show ?thesis using assms by fastforce
qed

lemma index_complete_delete:
  "index_complete (files, turns, n) \<Longrightarrow> index_complete (AList.delete path files, turns, n)"
  using subsetD [OF set_delete, of _ path files] by simp blast

lemma index_complete_unindex:
  assumes "index_complete (files, turns, n)" "set (map hk_id hs) \<inter> set (ids_of_files files) = {}"
  shows "index_complete (files, unindex_hunks hs turns, n)"
proof -
  have "hk_id h \<notin> set (map hk_id hs)" if "(q, s) \<in> set files" "h \<in> set (fs_hunks s)" for q s h
    using that assms(2) unfolding in_ids_of_files [abs_def] disjoint_iff by blast
  then show ?thesis using assms(1) by (auto simp: turn_ids_unindex_hunks)
qed

lemma index_complete_renumber: "index_complete (files, turns, n) \<Longrightarrow> index_complete (files, turns, m)"
  by simp

interpretation exact: tracker_laws D "\<lambda>c. tracker_ok D c \<and> index_complete c" False for D
  by unfold_locales
    (blast intro: tracker_ok_put_clear tracker_ok_delete tracker_ok_unindex tracker_ok_remake
      tracker_ok_renumber index_complete_renumber
      index_complete_clear index_complete_delete index_complete_unindex index_complete_remake)+

end
