(* ===== verification/HunkActorSpec.thy ===== *)
theory HunkActorSpec
  imports HunkInvariants
begin

text \<open>
  Every operation of the hunk tracker keeps every invariant that meets \<open>tracker_laws\<close>; what this
  gives for runs of the actor; and the effect of its actions on baseline and disk.
\<close>

section \<open>Small facts\<close>

lemma unindex_hunks_simps [simp]:
  "unindex_hunks [] turns = turns"
  "unindex_hunks (h # hs) turns = unindex_hunks hs (unindex (hk_id h) (hk_source h) turns)"
  by (simp_all add: unindex_hunks_def)

lemma without_Nil [simp]: "without [] hs = hs"
  by (simp add: without_def)

lemma without_all: "set (map hk_id hs) \<subseteq> set ids \<Longrightarrow> without ids hs = []"
  by (auto simp: without_def filter_empty_conv)

lemma map_of_update [simp]: "map_of (AList.update k v al) = (map_of al)(k \<mapsto> v)"
  by (rule update_conv')

lemma file_of_recompute [simp]: "q \<noteq> path \<Longrightarrow> file_of (recompute_hunks D path c source t) q = file_of t q"
  by (auto simp: recompute_hunks_def send_events_def put_file_def Let_def split: option.split)

lemma file_of_simps [simp]:
  "tk_files (send_event e t) = tk_files t"
  "tk_files (send_events es t) = tk_files t"
  "tk_files (put_file path st t) = AList.update path st (tk_files t)"
  "tk_turns (send_events es t) = tk_turns t" "tk_turns (send_event e t) = tk_turns t"
  "tk_turns (put_file path st t) = tk_turns t"
  "tk_next (send_events es t) = tk_next t" "tk_next (send_event e t) = tk_next t"
  "tk_next (put_file path st t) = tk_next t"
  by (simp_all add: send_event_def send_events_def put_file_def)

text \<open>One hunk is a batch of one.\<close>

lemma patches_one [simp]: "accept_patches [h] b = accept_patch h b" "reject_patches [h] c = reject_patch h c"
  by (simp_all add: accept_patches_def reject_patches_def)

lemma accept_one: "accept_hunk W path h t = accept_hunks_batch W path [h] t"
  by (auto simp: accept_hunk_def accept_hunks_batch_def Let_def split: option.split content_state.split)

lemma reject_one: "reject_hunk W path h t = reject_hunks_batch W path [h] t"
  unfolding reject_hunk_def reject_hunks_batch_def reject_plan_def
  by (auto simp: Let_def split: option.split content_state.split prod.split)

lemma snd_case_reply: "snd (case x of (r, t) \<Rightarrow> (f r, t)) = snd x"
  by (simp add: split_def)

lemma find_hunk_SomeD:
  "find_hunk i files = Some (path, h) \<Longrightarrow> \<exists>st. (path, st) \<in> set files \<and> h \<in> set (fs_hunks st) \<and> hk_id h = i"
  by (induction i files rule: find_hunk.induct) (auto split: option.splits dest: find_SomeD)

lemma hunk_action_batch:
  assumes "find_hunk i (tk_files t) = Some (path, h)"
  shows "snd (apply_hunk_action W i action t) = snd (apply_action_batch W [(path, [h])] action t)"
  using assms
  by (auto simp: apply_hunk_action_def accept_one reject_one Let_def split: hunk_action.split prod.split option.split)

section \<open>Hunks exist only between texts\<close>

lemma shapes_between:
  assumes "file_ok D path st" "fs_hunks st \<noteq> []"
  shows "(\<exists>b c. fs_baseline st = Full b \<and> fs_current st = Full c) \<or>
    length (fs_hunks st) = 1 \<and>
      ((\<exists>b. fs_baseline st = Full b \<and> fs_current st = Missing) \<or>
       (\<exists>c. fs_baseline st = Missing \<and> fs_current st = Full c))"
proof -
  have shapes: "map shape (fs_hunks st) = map shape (hunks_between D 0 path External (fs_baseline st) (fs_current st))"
    using assms by (simp add: file_ok_def diff_shapes_def)
  then have len: "length (fs_hunks st) = length (hunks_between D 0 path External (fs_baseline st) (fs_current st))"
    by (metis length_map)
  show ?thesis
    using len assms(2) by (cases "fs_baseline st"; cases "fs_current st") (auto split: if_splits)
qed

section \<open>The operations keep the invariant\<close>

definition quiet :: "world \<Rightarrow> bool" where
  "quiet W \<longleftrightarrow> (\<forall>p. wd_write W p = None) \<and> (\<forall>p. wd_remove W p = None)"

lemma core_count [simp]:
  "core (fold (count_hunk action) hs t) = (tk_files t, unindex_hunks hs (tk_turns t), tk_next t)"
proof (induction hs arbitrary: t)
  case (Cons h hs)
  show ?case unfolding fold_Cons comp_def Cons.IH by (simp add: count_hunk_def)
qed (simp add: core_def)

lemma fold_count_fields:
  "tk_files (fold (count_hunk action) hs t) = tk_files t"
  "tk_turns (fold (count_hunk action) hs t) = unindex_hunks hs (tk_turns t)"
  "tk_next (fold (count_hunk action) hs t) = tk_next t"
  using core_count [of action hs t] by (simp_all add: core_def)

lemma core_eqI: "tk_files t = tk_files t' \<Longrightarrow> tk_turns t = tk_turns t' \<Longrightarrow> tk_next t = tk_next t' \<Longrightarrow> core t = core t'"
  by (simp add: core_def)

lemma core_disk:
  "write_file W path s t = (r, t') \<Longrightarrow> core t' = core t \<and> (r \<noteq> None \<longrightarrow> wd_write W path \<noteq> None)"
  "remove_file W path t = (r, t') \<Longrightarrow> core t' = core t \<and> (r \<noteq> None \<longrightarrow> wd_remove W path \<noteq> None)"
  by (auto simp: write_file_def remove_file_def split: option.splits)

lemma core_discover [simp]: "core (open_or_discover W t) = core t"
  by (simp add: open_or_discover_def)

lemma core_baseline: "read_baseline W path t = (b, t') \<Longrightarrow> core t' = core t"
  "take_baseline W pre path t = (b, t') \<Longrightarrow> core t' = core t"
  "read_baselines_batch W paths t = (bs, t') \<Longrightarrow> core t' = core t"
  "read_repo_sync_state W t = (y, t') \<Longrightarrow> core t' = core t"
  by (auto simp: read_baseline_def take_baseline_def read_baselines_batch_def read_repo_sync_state_def
      split: option.splits if_splits)

lemma coreD: "core t = core t' \<Longrightarrow> tk_files t = tk_files t' \<and> tk_turns t = tk_turns t' \<and> tk_next t = tk_next t'"
  by (simp add: core_def)

context tracker_laws
begin

lemma recompute:
  assumes "I (core t)"
  shows "I (core (recompute_hunks D path c source t))"
proof (cases "file_of t path")
  case None
  then show ?thesis using assms by (simp add: recompute_hunks_def)
next
  case (Some st)
  show ?thesis
    using remake [OF assms [unfolded core_def] Some, of "[]" st c source] Some
    by (simp add: core_recompute update_triv) (simp add: core_def)
qed

lemma recompute_put:
  assumes "I (core t)" "file_of t path = Some st" "fs_hunks st' = fs_hunks st"
  shows "I (core (recompute_hunks D path c source (put_file path st' t)))"
  using remake [of "tk_files t" "tk_turns t" "tk_next t" path st "[]" st' c source] assms
  by (simp add: core_recompute) (simp add: core_def)

lemma put: "I (core t) \<Longrightarrow> fs_hunks st = [] \<Longrightarrow> I (core (put_file path st t))"
  using put_clear [of "tk_files t" "tk_turns t" "tk_next t"] by (simp add: core_def put_file_def)

lemma start: "I (core t) \<Longrightarrow> I (core (start_tracking path b c agent t))"
  by (simp only: start_tracking_def core_simps(1)) (rule put, simp_all add: tracked_def)

lemma dead:
  assumes "I (files, turns, n)" "map_of files path = Some st" "fs_hunks st' = []"
  shows "set (map hk_id (fs_hunks st)) \<inter> set (ids_of_files (AList.update path st' files)) = {}"
    "set (map hk_id (fs_hunks st)) \<inter> set (ids_of_files (AList.delete path files)) = {}"
proof -
  obtain xs ys where split: "files = xs @ (path, st) # ys" "path \<notin> fst ` set xs"
    "\<And>st'. AList.update path st' files = xs @ (path, st') # ys" using update_split [OF assms(2)] by blast
  have dist: "distinct (ids_of_files files)" "distinct (map fst files)" using ok [OF assms(1)] by simp_all
  then show "set (map hk_id (fs_hunks st)) \<inter> set (ids_of_files (AList.update path st' files)) = {}"
    using assms(3) by (auto simp: split(3)) (auto simp: split(1))
  have "filter (\<lambda>(k', _). path \<noteq> k') zs = zs" if "path \<notin> fst ` set zs" for zs :: "(string \<times> file_state) list"
    using that by (intro filter_True) force
  then have "AList.delete path files = xs @ ys"
    using dist(2) split(2) by (simp add: split(1) AList.delete_eq)
  then show "set (map hk_id (fs_hunks st)) \<inter> set (ids_of_files (AList.delete path files)) = {}"
    using dist(1) by (auto simp: split(1))
qed

lemma drop:
  assumes "I (core t)" "file_of t path = Some st" "fs_hunks st' = []"
  shows "I (core (drop_hunks path (fs_hunks st) (put_file path st' t)))"
    "I (core (drop_hunks path (fs_hunks st) (t\<lparr>tk_files := AList.delete path (tk_files t)\<rparr>)))"
  using unindex_dead [OF put_clear dead(1)] unindex_dead [OF delete dead(2)] assms
  by (simp_all add: drop_hunks_def core_def send_events_def put_file_def)

lemma drop_gone:
  "I (core t) \<Longrightarrow> file_of t path = Some st \<Longrightarrow>
    I (core (drop_hunks path (fs_hunks st) (t\<lparr>tk_files := AList.delete path (tk_files t)\<rparr>)))"
  using drop(2) [of t path st "st\<lparr>fs_hunks := []\<rparr>"] by simp

lemma act_clear:
  assumes "I (files, turns, n)" "map_of files path = Some st" "set hs \<subseteq> set (fs_hunks st)" "fs_hunks st' = []"
  shows "I (AList.update path st' files, unindex_hunks hs turns, n)"
  using unindex_dead [OF put_clear, OF assms(1,4), of hs path] dead(1) [OF assms(1,2,4)] assms(3) by fastforce

lemma act_remake:
  assumes "I (core t)" "file_of t path = Some st" "set hs \<subseteq> set (fs_hunks st)"
    "core t' = (tk_files t, unindex_hunks hs (tk_turns t), tk_next t)"
    "fs_hunks st' = without (map hk_id hs) (fs_hunks st)"
  shows "I (core (recompute_hunks D path c source (send_events es (put_file path st' t'))))"
proof -
  have "core (send_events es (put_file path st' t')) = (AList.update path st' (tk_files t), unindex_hunks hs (tk_turns t), tk_next t)"
    using assms(4) by (simp add: core_def send_events_def put_file_def)
  then show ?thesis
    using remake [OF assms(1) [unfolded core_def] assms(2,3,5)] by (simp add: core_recompute)
qed

lemma left_nil:
  assumes "I (core t)" "file_of t path = Some st" "set hs \<subseteq> set (fs_hunks st)" "hs \<noteq> []"
    "fs_baseline st = Missing \<or> fs_current st = Missing"
  shows "without (map hk_id hs) (fs_hunks st) = []"
proof -
  have "(path, st) \<in> set (tk_files t)" using assms(2) by (rule map_of_SomeD)
  moreover have "tracker_ok D (tk_files t, tk_turns t, tk_next t)" using ok [OF assms(1)] by (simp add: core_def)
  ultimately have "file_ok D path st" by simp
  moreover have "fs_hunks st \<noteq> []" using assms(3,4) by auto
  ultimately have "length (fs_hunks st) = 1" using shapes_between [of D path st] assms(5) by auto
  then obtain h where "fs_hunks st = [h]" by (auto simp: length_Suc_conv)
  with assms(3,4) show ?thesis by (cases hs) (auto intro: without_all)
qed

end

section \<open>The operations, one by one\<close>

declare apply_action_batch.simps(2) [simp del]

lemma batch_frame:
  "q \<noteq> path \<Longrightarrow> file_of (accept_hunks_batch W path hs t) q = file_of t q"
  "q \<noteq> path \<Longrightarrow> reject_hunks_batch W path hs t = (r, t') \<Longrightarrow> file_of t' q = file_of t q"
  by (auto simp: accept_hunks_batch_def reject_hunks_batch_def recompute_remaining_def Let_def
      dest!: core_disk [THEN conjunct1, THEN coreD]
      split: option.splits content_state.splits prod.splits if_splits)

lemma content_caseI: "(\<And>s. c = Full s \<Longrightarrow> fs_hunks (f (Full (g s))) = x) \<Longrightarrow> (\<And>b. fs_hunks (f b) = x) \<Longrightarrow>
  fs_hunks (f (case c of Full s \<Rightarrow> Full (g s) | b \<Rightarrow> b)) = x"
  by (cases c) auto

context tracker_laws
begin

lemma accept_batch:
  assumes "I (core t)" "file_of t path = Some st" "set hs \<subseteq> set (fs_hunks st)" "wd_diff W = D"
    "core t' = (tk_files t, unindex_hunks hs (tk_turns t), tk_next t)"
  shows "I (core (accept_hunks_batch W path hs t'))"
proof (cases "hs = []")
  case True
  with assms(1,5) show ?thesis by (simp add: accept_hunks_batch_def core_def)
next
  case False
  have st: "file_of t' path = Some st" using assms(2,5) by (simp add: core_def)
  show ?thesis
  proof (cases "fs_baseline st = Missing")
    case True
    with False st show ?thesis
      using act_clear [OF assms(1) [unfolded core_def] assms(2,3)] left_nil [OF assms(1-3) False] assms(5)
      by (simp add: accept_hunks_batch_def core_def)
  next
    case nm: False
    show ?thesis
      unfolding accept_hunks_batch_def recompute_remaining_def using False nm st
      by (simp add: Let_def assms(4)) (rule act_remake [OF assms(1-3,5)], simp)
  qed
qed

lemma reject_batch:
  assumes "I (core t)" "file_of t path = Some st" "set hs \<subseteq> set (fs_hunks st)" "wd_diff W = D" "faults \<or> quiet W"
    "core t' = (tk_files t, unindex_hunks hs (tk_turns t), tk_next t)"
  shows "I (core (snd (reject_hunks_batch W path hs t')))"
proof (cases "hs = []")
  case True
  with assms(1,6) show ?thesis by (simp add: reject_hunks_batch_def core_def)
next
  case False
  have st: "file_of t' path = Some st" using assms(2,6) by (simp add: core_def)
  have lost: "I (core t'')" if "r \<noteq> None" "core t'' = core t'" "r \<noteq> None \<longrightarrow> \<not> quiet W" for r :: "hunk_action_error option" and t''
    using that assms(5,6) unindex_any [OF _ assms(1) [unfolded core_def]] by auto
  have gone: "I (core (send_events es (put_file path st' t'')))"
    if "core t'' = core t'" "fs_hunks st' = without (map hk_id hs) (fs_hunks st)"
      "fs_baseline st = Missing \<or> fs_current st = Missing" for es st' t''
    using act_clear [OF assms(1) [unfolded core_def] assms(2,3), of st'] left_nil [OF assms(1-3) False that(3)] that(1,2) assms(6)
    by (simp add: core_def)
  have changed: "I (core (recompute_remaining W path c (send_events es (put_file path st' t''))))"
    if "core t'' = core t'" "fs_hunks st' = without (map hk_id hs) (fs_hunks st)" for c es st' t''
    unfolding recompute_remaining_def assms(4) using act_remake [OF assms(1-3) _ that(2), of t''] that(1) assms(6) by simp
  have combos: "fs_hunks st = [] \<or> (\<exists>b c. fs_baseline st = Full b \<and> fs_current st = Full c) \<or>
      (\<exists>b. fs_baseline st = Full b \<and> fs_current st = Missing) \<or> (\<exists>c. fs_baseline st = Missing \<and> fs_current st = Full c)"
  proof -
    have "tracker_ok D (tk_files t, tk_turns t, tk_next t)" using ok [OF assms(1)] by (simp add: core_def)
    moreover have "(path, st) \<in> set (tk_files t)" using assms(2) by (rule map_of_SomeD)
    ultimately have "file_ok D path st" by simp
    then show ?thesis using shapes_between by blast
  qed
  show ?thesis
  proof (cases "\<exists>c. fs_baseline st = Missing \<and> fs_current st = Full c")
    case True
    obtain r t'' where w: "remove_file W path t' = (r, t'')" by (cases "remove_file W path t'")
    then have "core t'' = core t'" "r \<noteq> None \<longrightarrow> \<not> quiet W" using core_disk(2) [OF w] by (auto simp: quiet_def)
    then show ?thesis using True False st w lost [of r t''] gone [of t'']
      by (auto simp: reject_hunks_batch_def Let_def split: option.split)
  next
    case nc: False
    show ?thesis
    proof (cases "\<exists>b. fs_baseline st = Full b \<and> fs_current st = Missing")
      case True
      then obtain b where b: "fs_baseline st = Full b" "fs_current st = Missing" by blast
      obtain r t'' where w: "write_file W path b t' = (r, t'')" by (cases "write_file W path b t'")
      then have "core t'' = core t'" "r \<noteq> None \<longrightarrow> \<not> quiet W" using core_disk(1) [OF w] by (auto simp: quiet_def)
      then show ?thesis using b False st w lost [of r t''] gone [of t'']
        by (auto simp: reject_hunks_batch_def Let_def split: option.split)
    next
      case nd: False
      have "fs_hunks st \<noteq> []" using assms(3) False by auto
      with nc nd combos obtain b c where bc: "fs_baseline st = Full b" "fs_current st = Full c" by blast
      obtain r t'' where w: "write_file W path (reject_patches hs c) t' = (r, t'')"
        by (cases "write_file W path (reject_patches hs c) t'")
      then have "core t'' = core t'" "r \<noteq> None \<longrightarrow> \<not> quiet W" using core_disk(1) [OF w] by (auto simp: quiet_def)
      then show ?thesis using bc False st w lost [of r t''] changed [of t'']
        by (auto simp: reject_hunks_batch_def Let_def split: option.split)
    qed
  qed
qed

lemma action_batch:
  assumes "I (core t)" "wd_diff W = D" "faults \<or> quiet W" "distinct (map fst files)"
    "\<forall>(path, hs) \<in> set files. \<exists>st. file_of t path = Some st \<and> set hs \<subseteq> set (fs_hunks st)"
  shows "I (core (snd (apply_action_batch W files action t)))"
  using assms(1,4,5)
proof (induction files arbitrary: t)
  case (Cons f files)
  obtain path hs where f: "f = (path, hs)" by (cases f)
  obtain st where st: "file_of t path = Some st" "set hs \<subseteq> set (fs_hunks st)" using Cons.prems(3) f by auto
  let ?t = "fold (count_hunk action) hs t"
  obtain err t'' where step: "(case action of Accept \<Rightarrow> (None, accept_hunks_batch W path hs ?t)
      | RejectAction \<Rightarrow> reject_hunks_batch W path hs ?t) = (err, t'')" by fastforce
  have "I (core t'')"
    using accept_batch [OF Cons.prems(1) st assms(2) core_count [of action hs t]]
      reject_batch [OF Cons.prems(1) st assms(2,3) core_count [of action hs t]] step
    by (cases action) auto
  moreover have frame: "file_of t'' q = file_of t q" if "q \<noteq> path" for q
    using step batch_frame(1) [OF that, of W hs ?t] batch_frame(2) [OF that, of W hs ?t] fold_count_fields(1) [of action hs t]
    by (cases action) auto
  have "\<exists>st. file_of t'' p = Some st \<and> set hs' \<subseteq> set (fs_hunks st)" if m: "(p, hs') \<in> set files" for p hs'
  proof -
    have "p \<in> fst ` set files" using m by force
    then have "p \<noteq> path" using Cons.prems(2) f by auto
    moreover have "\<exists>st. file_of t p = Some st \<and> set hs' \<subseteq> set (fs_hunks st)" using Cons.prems(3) m by auto
    ultimately show ?thesis using frame by simp
  qed
  then have "\<forall>(p, hs') \<in> set files. \<exists>st. file_of t'' p = Some st \<and> set hs' \<subseteq> set (fs_hunks st)" by blast
  ultimately have "I (core (snd (apply_action_batch W files action t'')))"
    using Cons.IH Cons.prems(2) by simp
  moreover obtain r t3 where "apply_action_batch W files action t'' = (r, t3)" by fastforce
  ultimately show ?case
    using \<open>I (core t'')\<close> unfolding f apply_action_batch.simps(2) Let_def step by (cases err) simp_all
qed simp

lemma keys:
  assumes "I (core t)"
  shows "distinct (map fst (tk_files t))" "\<And>path st. (path, st) \<in> set (tk_files t) \<Longrightarrow> file_of t path = Some st"
  using ok [OF assms] by (auto simp: core_def)

lemma hunk_action:
  assumes "I (core t)" "wd_diff W = D" "faults \<or> quiet W"
  shows "I (core (snd (apply_hunk_action W i action t)))"
proof (cases "find_hunk i (tk_files t)")
  case None
  with assms(1) show ?thesis by (simp add: apply_hunk_action_def)
next
  case (Some ph)
  then obtain path h where ph: "find_hunk i (tk_files t) = Some (path, h)" by (cases ph) auto
  with find_hunk_SomeD keys(2) [OF assms(1)] obtain st where "file_of t path = Some st" "h \<in> set (fs_hunks st)" by blast
  then show ?thesis
    unfolding hunk_action_batch [OF ph] by (intro action_batch [OF assms]) auto
qed

lemma file_action:
  assumes "I (core t)" "wd_diff W = D" "faults \<or> quiet W"
  shows "I (core (snd (apply_file_action W path action t)))"
  unfolding apply_file_action_def using assms(1) by (auto split: option.split intro!: action_batch [OF assms])

lemma all_action:
  assumes "I (core t)" "wd_diff W = D" "faults \<or> quiet W"
  shows "I (core (snd (apply_all_action W action t)))"
proof -
  let ?fs = "map (\<lambda>(path, st). (path, fs_hunks st)) (filter (\<lambda>(path, st). fs_hunks st \<noteq> []) (tk_files t))"
  have "distinct (map fst (filter (\<lambda>(path, st). fs_hunks st \<noteq> []) (tk_files t)))"
    using keys(1) [OF assms(1)] by (rule distinct_map_filter)
  then have "distinct (map fst ?fs)" by (simp add: comp_def split_def)
  moreover have "\<forall>(path, hs) \<in> set ?fs. \<exists>st. file_of t path = Some st \<and> set hs \<subseteq> set (fs_hunks st)"
    using keys(2) [OF assms(1)] by auto
  ultimately show ?thesis
    unfolding apply_all_action_def Let_def using assms(1) action_batch [OF assms, of ?fs] by auto
qed

lemma turn_action:
  assumes "I (core t)" "wd_diff W = D" "faults \<or> quiet W"
  shows "I (core (snd (apply_turn_action W p action t)))"
proof -
  let ?fs = "filter (\<lambda>(path, hs). hs \<noteq> []) (map (\<lambda>(path, st). (path, turn_hunks p st)) (tk_files t))"
  have "distinct (map fst (map (\<lambda>(path, st). (path, turn_hunks p st)) (tk_files t)))"
    using keys(1) [OF assms(1)] by (simp add: comp_def split_def)
  then have "distinct (map fst ?fs)" by (rule distinct_map_filter)
  moreover have "\<forall>(path, hs) \<in> set ?fs. \<exists>st. file_of t path = Some st \<and> set hs \<subseteq> set (fs_hunks st)"
    using keys(2) [OF assms(1)] by (auto simp: turn_hunks_def)
  ultimately show ?thesis
    unfolding apply_turn_action_def Let_def using assms(1) action_batch [OF assms, of ?fs] by auto
qed

end

context tracker_laws
begin

lemma agent_write:
  assumes "I (core t)" "wd_diff W = D"
  shows "I (core (record_agent_write W path c p prev t))"
proof (cases "is_diffable (classify_string c)")
  case False
  then show ?thesis
    using assms(1) unfolding record_agent_write_def
    by (auto simp: Let_def split: option.split prod.split intro!: put start dest!: core_baseline(1))
next
  case True
  obtain head t' where read: "read_baseline W path t = (head, t')" by fastforce
  then have t': "I (core t')" using assms(1) core_baseline(1) by metis
  show ?thesis
  proof (cases "file_of t path")
    case None
    with True read t' show ?thesis
      unfolding record_agent_write_def assms(2) by (auto simp: Let_def intro!: recompute start)
  next
    case (Some st)
    with True show ?thesis
      using recompute_put [OF assms(1) Some, of "st\<lparr>fs_agent := True\<rparr>"] assms(2)
      by (simp add: record_agent_write_def Let_def)
  qed
qed

lemma taken:
  assumes "I (core t)" "take_baseline W pre path t = (b, t')"
  shows "I (core t')" "file_of t' q = file_of t q"
  using assms core_baseline(2) [OF assms(2)] coreD by (metis, metis)

lemma process_change:
  assumes "I (core t)" "wd_diff W = D"
  shows "I (core (process_file_change W path pre t))"
proof -
  obtain b t' where take: "take_baseline W pre path t = (b, t')" by fastforce
  note t' = taken [OF assms(1) take]
  have fin: "I (core (recompute_hunks (wd_diff W) path c source t))" if "I (core t)" for t c source
    using recompute [OF that] assms(2) by simp
  show ?thesis
  proof (cases "file_of t path")
    case None
    then show ?thesis
      using assms(1) take t'(1)
      by (auto simp: process_file_change_def Let_def intro!: fin start)
  next
    case (Some st)
    then show ?thesis
      using assms(1) take t'(1)
      by (auto simp: process_file_change_def Let_def intro!: fin put)
  qed
qed

lemma file_change: "I (core t) \<Longrightarrow> wd_diff W = D \<Longrightarrow> I (core (handle_file_change W path t))"
  by (simp add: handle_file_change_def process_change)

lemma changes:
  assumes "I (core t)" "wd_diff W = D"
  shows "I (core (process_changes W paths bs t))"
  using assms by (induction paths arbitrary: bs t) (auto simp: process_change)

lemma changes_batch:
  assumes "I (core t)" "wd_diff W = D"
  shows "I (core (handle_file_changes_batch W paths t))"
proof -
  obtain bs t' where read: "read_baselines_batch W (filter (needs_baseline t) paths) t = (bs, t')" by fastforce
  then have "core t' = core t" by (rule core_baseline)
  with read changes [of t' W paths bs] assms show ?thesis by (simp add: handle_file_changes_batch_def)
qed

lemma file_deleted:
  assumes "I (core t)" "wd_diff W = D"
  shows "I (core (handle_file_deleted W path t))"
proof (cases "file_of t path")
  case None
  obtain b t' where read: "read_baseline W path t = (b, t')" by fastforce
  then have "core t' = core t" by (rule core_baseline)
  then have "I (core t')" using assms(1) by simp
  then show ?thesis
    using None read assms(1) unfolding handle_file_deleted_def assms(2) by (auto intro!: recompute start)
next
  case (Some st)
  then show ?thesis
    using assms(1) file_change [OF assms] unfolding handle_file_deleted_def assms(2) by (auto intro!: recompute)
qed

lemma reset:
  assumes "I (core t)"
  shows "I (core (reset_baseline path t))"
  using assms by (auto simp: reset_baseline_def split: option.split intro!: drop(1))

lemma refresh_cache:
  assumes "I (core t)" "wd_diff W = D"
  shows "I (core (refresh_git_dirty_cache W scope t))"
proof -
  have fold: "I (core (fold (\<lambda>rel t. handle_file_change W (path_join (tk_dir t) rel) t) rels t))" if "I (core t)" for rels t
    using that by (induction rels arbitrary: t) (auto intro: file_change assms(2))
  show ?thesis
    using assms(1) unfolding refresh_git_dirty_cache_def Let_def by (auto intro!: fold)
qed

lemma refresh_one:
  assumes "I (core t)" "wd_diff W = D"
  shows "I (core (refresh_file W path b c t))"
proof (cases "file_of t path")
  case None
  with assms(1) show ?thesis by (simp add: refresh_file_def)
next
  case (Some st)
  show ?thesis
    using Some assms(1) drop(1) [OF assms(1) Some] drop_gone [OF assms(1) Some] recompute_put [OF assms(1) Some]
    unfolding refresh_file_def assms(2) by (simp add: Let_def)
qed

lemma refresh_fold:
  assumes "I (core t)" "wd_diff W = D"
  shows "I (core (fold (\<lambda>p. refresh_file W p (f p) (g p)) paths t))"
  using assms(1) by (induction paths arbitrary: t) (simp_all add: refresh_one [OF _ assms(2)])

lemma refresh_all:
  assumes "I (core t)" "wd_diff W = D"
  shows "I (core (refresh_all_baselines_except W skip t))"
proof -
  have files: "I (core (refresh_files W skip t))" if "I (core t)" for t
  proof -
    obtain bs t' where read: "read_baselines_batch W (filter (\<lambda>p. p \<notin> set skip) (map fst (tk_files t))) t = (bs, t')" by fastforce
    then have "core t' = core t" by (rule core_baseline)
    with read refresh_fold [of t' W] that assms(2) show ?thesis by (simp add: refresh_files_def Let_def)
  qed
  obtain y t' where sync: "read_repo_sync_state W t = (y, t')" by fastforce
  then have "core t' = core t" by (rule core_baseline)
  then have t': "I (core t')" using assms(1) by simp
  define t1 where "t1 = (case y of Some s \<Rightarrow> t'\<lparr>tk_sync := s\<rparr> | None \<Rightarrow> t')"
  have "I (core t1)" using t' by (simp add: t1_def split: option.split)
  then have "I (core (refresh_files W skip (case refresh_scope t1 of
      Some [] \<Rightarrow> t1\<lparr>tk_dirty := [], tk_staged := []\<rparr> | scope \<Rightarrow> refresh_git_dirty_cache W scope t1)))"
    by (auto split: option.split list.split intro!: files refresh_cache assms(2))
  then show ?thesis
    using assms(1) t' sync unfolding refresh_all_baselines_except_def Let_def t1_def by auto
qed

lemma drop_one: "I (core t) \<Longrightarrow> I (core (drop_file path t))"
  using drop_gone by (simp add: drop_file_def split: option.split)

lemma mode:
  assumes "I (core t)" "wd_diff W = D"
  shows "I (core (set_mode W m t))"
proof -
  have "I (core (fold drop_file paths t))" if "I (core t)" for paths t
    using that by (induction paths arbitrary: t) (simp_all add: drop_one)
  then show ?thesis using assms by (auto simp: set_mode_def Let_def intro!: refresh_cache)
qed

lemma fresh_above: "i \<in> set ids \<Longrightarrow> i < fold (\<lambda>i n. max n (Suc i)) ids n"
proof (induction ids arbitrary: n)
  case (Cons j ids)
  have "m \<le> fold (\<lambda>i n. max n (Suc i)) ids m" for m
    by (induction ids arbitrary: m) (auto intro: order_trans [OF max.cobounded1])
  then have "max n (Suc j) \<le> fold (\<lambda>i n. max n (Suc i)) (j # ids) n" by simp
  with Cons show ?case by fastforce
qed simp

lemma restored:
  assumes "I (sn_files s, sn_turns s, n)"
  shows "I (core (restore_snapshot s t))"
proof -
  have "I (sn_files s, sn_turns s,
      fold (\<lambda>i n. max n (Suc i)) (ids_of_files (sn_files s) @ ids_of_turns (sn_turns s)) (tk_next t))"
    by (intro renumber [OF assms] ballI fresh_above)
  then show ?thesis by (simp add: restore_snapshot_def core_def)
qed

lemma commanded:
  assumes "I (core t)" "wd_diff W = D" "faults \<or> quiet W" "\<And>s. cmd = RestoreState s \<Longrightarrow> I (core (restore_snapshot s t))"
  shows "I (core (snd (handle_command W cmd t)))"
  using assms(1,4) agent_write [OF assms(1,2)] file_change [OF assms(1,2)] file_deleted [OF assms(1,2)]
    refresh_cache [OF assms(1,2)] reset [OF assms(1)] mode [OF assms(1,2)] refresh_all [OF assms(1,2)]
    hunk_action [OF assms(1-3)] file_action [OF assms(1-3)] all_action [OF assms(1-3)] turn_action [OF assms(1-3)]
  by (cases cmd) (simp_all add: refresh_all_baselines_def snd_case_reply)

end

section \<open>Runs\<close>

context tracker_laws
begin

lemma pre_refreshed:
  "I (core t) \<Longrightarrow> wd_diff W = D \<Longrightarrow> I (core (snd (pre_refresh W acts (seen, t))))"
proof (induction acts arbitrary: seen t)
  case (Cons a acts)
  then show ?case by (cases a; cases "snd a") (auto simp: file_change file_deleted)
qed simp

lemma deleted_first:
  "I (core t) \<Longrightarrow> wd_diff W = D \<Longrightarrow> I (core (snd (deletions_first W acts (changed, t))))"
proof (induction acts arbitrary: changed t)
  case (Cons a acts)
  then show ?case by (cases a; cases "snd a") (auto simp: file_deleted)
qed simp

lemma commands:
  assumes "I (core t)" "wd_diff W = D" "faults \<or> quiet W" "\<And>s t. RestoreState s \<in> set cmds \<Longrightarrow> I (core (restore_snapshot s t))"
  shows "I (core (snd (handle_commands W cmds t)))"
  using assms(1,4)
proof (induction cmds arbitrary: t)
  case (Cons cmd cmds)
  have "I (core (snd (handle_command W cmd t)))" using commanded [OF Cons.prems(1) assms(2,3)] Cons.prems(2) by simp
  moreover obtain r t1 where "handle_command W cmd t = (r, t1)" by fastforce
  moreover obtain rs t2 where "handle_commands W cmds t1 = (rs, t2)" by fastforce
  ultimately show ?case using Cons.IH [of t1] Cons.prems(2) by simp
qed simp

lemma coalesced:
  assumes "I (core t)" "wd_diff W = D" "faults \<or> quiet W" "\<And>s t. RestoreState s \<in> set (cb_others b) \<Longrightarrow> I (core (restore_snapshot s t))"
  shows "I (core (snd (handle_coalesced_batch W b t)))"
proof -
  define t1 where "t1 = (if cb_refresh_dirty b \<and> \<not> cb_refresh_all b then refresh_git_dirty_cache W None t else t)"
  have t1: "I (core t1)" using refresh_cache [OF assms(1,2)] assms(1) by (simp add: t1_def)
  obtain seen t2 where pre: "pre_refresh W (cb_files b) ([], t1) = (seen, t2)" by fastforce
  obtain changed t3 where dels: "deletions_first W (cb_files b) ([], t1) = (changed, t3)" by fastforce
  have "I (core t2)" "I (core t3)"
    using pre_refreshed [OF t1 assms(2), of "cb_files b" "[]"] deleted_first [OF t1 assms(2), of "cb_files b" "[]"] pre dels by simp_all
  then have "I (core (if cb_refresh_all b then refresh_all_baselines_except W seen t2 else handle_file_changes_batch W changed t3))"
    using refresh_all changes_batch assms(2) by simp
  from commands [OF this assms(2-4)] show ?thesis
    unfolding handle_coalesced_batch_def Let_def t1_def [symmetric] pre dels by (simp add: if_distrib)
qed

end

lemma drained_others: "set (cb_others (fold add_command cmds b)) \<subseteq> set (cb_others b) \<union> set cmds"
proof (induction cmds arbitrary: b)
  case (Cons cmd cmds)
  have "set (cb_others (add_command cmd b)) \<subseteq> set (cb_others b) \<union> {cmd}" by (cases cmd) auto
  with Cons.IH [of "add_command cmd b"] show ?case by auto
qed simp

text \<open>The states the actor reaches, from a start in any mode, by turns of its loop over any commands and any
  outcomes of the world, while other programs change the disk.  A snapshot it is asked to restore was
  taken of such a state.  Without \<open>faults\<close> no write and no removal fails.\<close>

inductive reached :: "diff_engine \<Rightarrow> bool \<Rightarrow> tracker \<Rightarrow> bool" for D faults where
  init: "wd_diff W = D \<Longrightarrow> reached D faults (start_actor W (new_tracker dir mode disk))"
| turn: "reached D faults t \<Longrightarrow> wd_diff W = D \<Longrightarrow> faults \<or> quiet W \<Longrightarrow>
    \<forall>s. RestoreState s \<in> set cmds \<longrightarrow> (\<exists>t0. reached D faults t0 \<and> s = take_snapshot t0) \<Longrightarrow>
    reached D faults (snd (snd (actor_turn W cmds t)))"
| disk: "reached D faults t \<Longrightarrow> reached D faults (t\<lparr>tk_disk := disk\<rparr>)"

context tracker_laws
begin

lemma reached_invariant:
  assumes "reached D faults t" "I ([], [], 0)"
  shows "I (core t)"
  using assms(1)
proof induction
  case (init W dir mode disk)
  have "I (core (new_tracker dir mode disk))" using assms(2) by (simp add: new_tracker_def core_def)
  with init show ?case by (simp add: start_actor_def refresh_cache)
next
  case (turn t W cmds)
  have restore: "I (core (restore_snapshot s t))" if m: "RestoreState s \<in> set cmds" for s t
  proof -
    obtain t0 where "I (core t0)" "s = take_snapshot t0" using m turn.IH(2) by blast
    then show ?thesis using restored [of s "tk_next t0"] by (simp add: take_snapshot_def core_def)
  qed
  show ?case
  proof (cases cmds)
    case Nil
    with turn show ?thesis by simp
  next
    case (Cons cmd rest)
    have "set (cb_others (drain_and_coalesce (cmd # rest))) \<subseteq> set cmds"
      using drained_others [of "cmd # rest" empty_batch] Cons unfolding drain_and_coalesce_def by (simp add: empty_batch_def)
    then have "I (core (snd (handle_coalesced_batch W (drain_and_coalesce (cmd # rest)) t)))"
      using turn restore by (intro coalesced) auto
    moreover have "I (core (snd (handle_command W cmd t)))"
      using turn restore Cons by (intro commanded) auto
    ultimately show ?thesis using Cons by (simp add: split_def)
  qed
qed simp

end

end
