(* ===== verification/HunkDiffSpec.thy ===== *)
theory HunkDiffSpec
  imports HunkDiff "HOL-Library.Multiset"
begin

text \<open>
  Undoing and adopting hunks: patched in descending order, the hunks of a diff turn the baseline into
  the current text, and the current text back into the baseline - for texts with newline line ends
  that keep some line that is not blank.
\<close>

section \<open>Patching lines\<close>

definition patch_ls :: "nat \<Rightarrow> nat \<Rightarrow> string list \<Rightarrow> string list \<Rightarrow> string list" where
  "patch_ls s n ins ls = take (s - 1) ls @ ins @ drop (s - 1 + n) ls"

lemma join_with_eq_Nil: "join_with [c] ls = [] \<longleftrightarrow> ls = [] \<or> ls = [[]]"
  by (cases ls rule: remdups_adj.cases) auto

lemma unlines_ends: "ls \<noteq> [] \<Longrightarrow> ends_with (unlines ls) [CHR 10]"
  by (cases ls rule: rev_cases) (auto simp: suffix_def)

lemma patch_lines_unlines:
  assumes "list_all line_ok ls" "list_all line_ok ins" "ls \<noteq> []" "x \<in> set (patch_ls s n ins ls)" "x \<noteq> []"
  shows "patch_lines (unlines ls) s n (unlines ins) = unlines (patch_ls s n ins ls)"
proof -
  let ?r = "patch_ls s n ins ls"
  have r: "take (min (s - 1) (length ls)) ls @ (if unlines ins \<noteq> [] then str_lines (unlines ins) else []) @
      drop (min (s - 1 + n) (length ls)) ls = ?r"
    using assms(2) by (auto simp: patch_ls_def str_lines_unlines min_def)
  have "?r \<noteq> []" "?r \<noteq> [[]]" using assms(4,5) by (cases ?r; auto)+
  then have out: "join_with [CHR 10] ?r \<noteq> []" "unlines ?r = join_with [CHR 10] ?r @ [CHR 10]"
    by (simp_all add: join_with_eq_Nil unlines_join)
  have "patch_lines (unlines ls) s n (unlines ins) =
      (if ends_with (unlines ls) [CHR 10] \<and> join_with [CHR 10] ?r \<noteq> [] then join_with [CHR 10] ?r @ [CHR 10]
       else join_with [CHR 10] ?r)"
    by (simp only: patch_lines_def Let_def str_lines_unlines [OF assms(1)] r)
  then show ?thesis using unlines_ends [OF assms(3)] out by simp
qed

section \<open>Diffs of lines\<close>

definition old_side :: "(change_tag \<times> 'a) list \<Rightarrow> 'a list" where
  "old_side cs = map snd (filter (\<lambda>c. fst c \<noteq> Insert) cs)"

definition new_side :: "(change_tag \<times> 'a) list \<Rightarrow> 'a list" where
  "new_side cs = map snd (filter (\<lambda>c. fst c \<noteq> Delete) cs)"

definition kept :: "(change_tag \<times> 'a) list \<Rightarrow> 'a set" where
  "kept cs = {l. (Equal, l) \<in> set cs}"

lemma side_simps [simp]:
  "old_side [] = []" "new_side [] = []" "kept [] = {}"
  "old_side ((Equal, l) # cs) = l # old_side cs" "new_side ((Equal, l) # cs) = l # new_side cs"
  "old_side ((Delete, l) # cs) = l # old_side cs" "new_side ((Delete, l) # cs) = new_side cs"
  "old_side ((Insert, l) # cs) = old_side cs" "new_side ((Insert, l) # cs) = l # new_side cs"
  "kept ((Equal, l) # cs) = insert l (kept cs)" "kept ((Delete, l) # cs) = kept cs" "kept ((Insert, l) # cs) = kept cs"
  by (auto simp: old_side_def new_side_def kept_def)

lemma kept_sides: "kept cs \<subseteq> set (old_side cs)" "kept cs \<subseteq> set (new_side cs)"
  by (force simp: kept_def old_side_def new_side_def)+

text \<open>The changes of a diff are lines with their newlines.\<close>

definition line_diff :: "(change_tag \<times> string) list \<Rightarrow> (change_tag \<times> string) list" where
  "line_diff cs = map (\<lambda>(t, l). (t, line l)) cs"

record line_hunk =
  lh_old_start :: nat
  lh_new_start :: nat
  lh_old :: "string list"
  lh_new :: "string list"

definition builder_of :: "line_hunk \<Rightarrow> hunk_builder" where
  "builder_of h =
     \<lparr>hb_old_start = lh_old_start h, hb_new_start = lh_new_start h,
      hb_old_lines = map line (lh_old h), hb_new_lines = map line (lh_new h)\<rparr>"

fun line_hunks :: "nat \<Rightarrow> nat \<Rightarrow> line_hunk option \<Rightarrow> (change_tag \<times> string) list \<Rightarrow> line_hunk list" where
  "line_hunks i j cur [] = (case cur of Some h \<Rightarrow> [h] | None \<Rightarrow> [])"
| "line_hunks i j cur ((t, l) # cs) =
     (let h = (case cur of Some h \<Rightarrow> h | None \<Rightarrow> \<lparr>lh_old_start = i, lh_new_start = j, lh_old = [], lh_new = []\<rparr>)
      in case t of
           Equal \<Rightarrow> (case cur of Some h \<Rightarrow> [h] | None \<Rightarrow> []) @ line_hunks (i + 1) (j + 1) None cs
         | Delete \<Rightarrow> line_hunks (i + 1) j (Some (h\<lparr>lh_old := lh_old h @ [l]\<rparr>)) cs
         | Insert \<Rightarrow> line_hunks i (j + 1) (Some (h\<lparr>lh_new := lh_new h @ [l]\<rparr>)) cs)"

lemma scan_line_diff:
  "scan_changes i j (map_option builder_of cur) (line_diff cs) = map builder_of (line_hunks i j cur cs)"
proof (induction i j cur cs rule: line_hunks.induct)
  case (2 i j cur t l cs)
  have add: "add_old_line (line l) (builder_of h) = builder_of (h\<lparr>lh_old := lh_old h @ [l]\<rparr>)"
    "add_new_line (line l) (builder_of h) = builder_of (h\<lparr>lh_new := lh_new h @ [l]\<rparr>)" for h
    by (simp_all add: builder_of_def add_old_line_def add_new_line_def)
  have new: "builder_new i j = builder_of \<lparr>lh_old_start = i, lh_new_start = j, lh_old = [], lh_new = []\<rparr>"
    by (simp add: builder_new_def builder_of_def)
  show ?case
  proof (cases t)
    case Equal
    then show ?thesis using "2.IH"(1) [OF refl Equal] by (auto simp: line_diff_def split: option.split)
  next
    case Delete
    then show ?thesis
      using "2.IH"(2) [OF refl Delete] by (cases cur) (simp_all add: line_diff_def or_new_def new add)
  next
    case Insert
    then show ?thesis
      using "2.IH"(3) [OF refl Insert] by (cases cur) (simp_all add: line_diff_def or_new_def new add)
  qed
qed (simp add: line_diff_def split: option.split)

section \<open>Patching all hunks\<close>

definition adopt :: "line_hunk \<Rightarrow> string list \<Rightarrow> string list" where
  "adopt h = patch_ls (lh_old_start h) (length (lh_old h)) (lh_new h)"

definition undo :: "line_hunk \<Rightarrow> string list \<Rightarrow> string list" where
  "undo h = patch_ls (lh_new_start h) (length (lh_new h)) (lh_old h)"

text \<open>Every step from the last hunk on keeps a given line.\<close>

fun keeps :: "('h \<Rightarrow> string list \<Rightarrow> string list) \<Rightarrow> string \<Rightarrow> 'h list \<Rightarrow> string list \<Rightarrow> bool" where
  "keeps f x [] ls = True"
| "keeps f x (h # hs) ls = (keeps f x hs ls \<and> x \<in> set (foldr f (h # hs) ls))"

lemma adopt_here:
  "lh_old_start h = Suc (length p) \<Longrightarrow> adopt h (p @ lh_old h @ rest) = p @ lh_new h @ rest"
  by (simp add: adopt_def patch_ls_def)

lemma adopt_all:
  assumes "case cur of None \<Rightarrow> i = Suc (length p) \<and> mid = [] \<and> new = []
           | Some h \<Rightarrow> lh_old_start h = Suc (length p) \<and> mid = lh_old h \<and> new = lh_new h \<and> i = lh_old_start h + length mid"
  shows "foldr adopt (line_hunks i j cur cs) (p @ mid @ old_side cs) = p @ new @ new_side cs \<and>
    (x \<in> set p \<union> kept cs \<longrightarrow> keeps adopt x (line_hunks i j cur cs) (p @ mid @ old_side cs))"
  using assms
proof (induction i j cur cs arbitrary: p mid new rule: line_hunks.induct)
  case (1 i j cur)
  show ?case
  proof (cases cur)
    case (Some h)
    with 1 have "adopt h (p @ lh_old h @ []) = p @ lh_new h @ []" by (intro adopt_here) simp
    with 1 Some show ?thesis by simp
  qed (use 1 in simp)
next
  case (2 i j cur t l cs)
  let ?h = "case cur of Some h \<Rightarrow> h | None \<Rightarrow> \<lparr>lh_old_start = i, lh_new_start = j, lh_old = [], lh_new = []\<rparr>"
  show ?case
  proof (cases t)
    case Equal
    note IH = "2.IH"(1) [OF refl Equal, of "p @ mid @ [l]" "[]" "[]"]
    show ?thesis
    proof (cases cur)
      case None
      then show ?thesis using IH "2.prems" Equal by simp
    next
      case (Some h)
      have rec: "foldr adopt (line_hunks (i + 1) (j + 1) None cs) (p @ mid @ l # old_side cs) = p @ mid @ l # new_side cs"
        "x \<in> set (p @ mid @ [l]) \<union> kept cs \<longrightarrow> keeps adopt x (line_hunks (i + 1) (j + 1) None cs) (p @ mid @ l # old_side cs)"
        using IH "2.prems" Some by auto
      have h: "lh_old_start h = Suc (length p)" "mid = lh_old h" "new = lh_new h" using "2.prems" Some by auto
      have step: "adopt h (p @ mid @ l # new_side cs) = p @ new @ l # new_side cs"
        using adopt_here [OF h(1)] h(2,3) by simp
      have eq: "line_hunks i j cur ((t, l) # cs) = h # line_hunks (i + 1) (j + 1) None cs"
        using Some Equal by simp
      have "x \<in> set (p @ new @ l # new_side cs)" if "x \<in> set p \<union> kept ((t, l) # cs)"
        using that Equal kept_sides(2) [of cs] by auto
      moreover have "x \<in> set (p @ mid @ [l]) \<union> kept cs" if "x \<in> set p \<union> kept ((t, l) # cs)"
        using that Equal by auto
      moreover have old: "old_side ((t, l) # cs) = l # old_side cs" "new_side ((t, l) # cs) = l # new_side cs"
        using Equal by simp_all
      ultimately show ?thesis
        using rec step unfolding eq old by (simp only: foldr.simps keeps.simps comp_def append.simps) blast
    qed
  next
    case Delete
    have "case Some (?h\<lparr>lh_old := lh_old ?h @ [l]\<rparr>) of None \<Rightarrow> i + 1 = Suc (length p) \<and> mid @ [l] = [] \<and> new = []
        | Some h \<Rightarrow> lh_old_start h = Suc (length p) \<and> mid @ [l] = lh_old h \<and> new = lh_new h \<and> i + 1 = lh_old_start h + length (mid @ [l])"
      using "2.prems" by (cases cur) auto
    from "2.IH"(2) [OF refl Delete this] Delete show ?thesis by (simp add: Let_def)
  next
    case Insert
    have "case Some (?h\<lparr>lh_new := lh_new ?h @ [l]\<rparr>) of None \<Rightarrow> i = Suc (length p) \<and> mid = [] \<and> new @ [l] = []
        | Some h \<Rightarrow> lh_old_start h = Suc (length p) \<and> mid = lh_old h \<and> new @ [l] = lh_new h \<and> i = lh_old_start h + length mid"
      using "2.prems" by (cases cur) auto
    from "2.IH"(3) [OF refl Insert this] Insert show ?thesis by (simp add: Let_def)
  qed
qed

section \<open>The other direction\<close>

fun swap_tag :: "change_tag \<Rightarrow> change_tag" where
  "swap_tag Equal = Equal" | "swap_tag Delete = Insert" | "swap_tag Insert = Delete"

definition swap_hunk :: "line_hunk \<Rightarrow> line_hunk" where
  "swap_hunk h =
     \<lparr>lh_old_start = lh_new_start h, lh_new_start = lh_old_start h, lh_old = lh_new h, lh_new = lh_old h\<rparr>"

definition swap_diff :: "(change_tag \<times> 'a) list \<Rightarrow> (change_tag \<times> 'a) list" where
  "swap_diff cs = map (\<lambda>(t, l). (swap_tag t, l)) cs"

lemma swap_sides [simp]:
  "old_side (swap_diff cs) = new_side cs" "new_side (swap_diff cs) = old_side cs" "kept (swap_diff cs) = kept cs"
proof -
  show "kept (swap_diff cs) = kept cs"
  proof (induction cs)
    case (Cons c cs)
    then show ?case by (cases c; cases "fst c") (auto simp: swap_diff_def)
  qed (simp add: swap_diff_def)
  show "old_side (swap_diff cs) = new_side cs"
  proof (induction cs)
    case (Cons c cs)
    then show ?case by (cases c; cases "fst c") (auto simp: swap_diff_def)
  qed (simp add: swap_diff_def)
  show "new_side (swap_diff cs) = old_side cs"
  proof (induction cs)
    case (Cons c cs)
    then show ?case by (cases c; cases "fst c") (auto simp: swap_diff_def)
  qed (simp add: swap_diff_def)
qed

lemma line_hunks_swap:
  "line_hunks j i (map_option swap_hunk cur) (swap_diff cs) = map swap_hunk (line_hunks i j cur cs)"
proof (induction i j cur cs rule: line_hunks.induct)
  case (1 i j cur)
  then show ?case by (simp add: swap_diff_def split: option.split)
next
  case (2 i j cur t l cs)
  show ?case
  proof (cases t)
    case Equal
    then show ?thesis using "2.IH"(1) [OF refl Equal] by (simp add: swap_diff_def split: option.split)
  next
    case Delete
    then show ?thesis
      using "2.IH"(2) [OF refl Delete] by (cases cur) (simp_all add: swap_diff_def swap_hunk_def)
  next
    case Insert
    then show ?thesis
      using "2.IH"(3) [OF refl Insert] by (cases cur) (simp_all add: swap_diff_def swap_hunk_def)
  qed
qed

lemma undo_swap: "undo h = adopt (swap_hunk h)"
  by (simp add: undo_def adopt_def swap_hunk_def)

lemma keeps_map: "keeps f x (map g hs) ls = keeps (\<lambda>h. f (g h)) x hs ls"
  by (induction hs) (auto simp: foldr_map comp_def)

lemma undo_all:
  "foldr undo (line_hunks 1 1 None cs) (new_side cs) = old_side cs \<and>
   (x \<in> kept cs \<longrightarrow> keeps undo x (line_hunks 1 1 None cs) (new_side cs))"
  using adopt_all [where cur = None and i = 1 and j = 1 and p = "[]" and mid = "[]" and new = "[]"
      and cs = "swap_diff cs" and x = x] line_hunks_swap [of 1 1 None cs]
  by (simp add: keeps_map foldr_map comp_def undo_swap [abs_def])

section \<open>Texts\<close>

lemma line_hunks_sorted:
  assumes "case cur of None \<Rightarrow> True | Some h \<Rightarrow> lh_old_start h \<le> i"
  shows "sorted_wrt (<) (map lh_old_start (line_hunks i j cur cs)) \<and>
    (\<forall>h \<in> set (line_hunks i j cur cs). (case cur of None \<Rightarrow> i | Some c \<Rightarrow> lh_old_start c) \<le> lh_old_start h)"
  using assms
proof (induction i j cur cs rule: line_hunks.induct)
  case (1 i j cur)
  then show ?case by (cases cur) auto
next
  case (2 i j cur t l cs)
  let ?h = "case cur of Some h \<Rightarrow> h | None \<Rightarrow> \<lparr>lh_old_start = i, lh_new_start = j, lh_old = [], lh_new = []\<rparr>"
  show ?case
  proof (cases t)
    case Equal
    then show ?thesis using "2.IH"(1) [OF refl Equal] "2.prems" by (cases cur) force+
  next
    case Delete
    have "case Some (?h\<lparr>lh_old := lh_old ?h @ [l]\<rparr>) of None \<Rightarrow> True | Some h \<Rightarrow> lh_old_start h \<le> i + 1"
      using "2.prems" by (cases cur) auto
    from "2.IH"(2) [OF refl Delete this] Delete show ?thesis by (cases cur) (auto simp: Let_def)
  next
    case Insert
    have "case Some (?h\<lparr>lh_new := lh_new ?h @ [l]\<rparr>) of None \<Rightarrow> True | Some h \<Rightarrow> lh_old_start h \<le> i"
      using "2.prems" by (cases cur) auto
    from "2.IH"(3) [OF refl Insert this] Insert show ?thesis by (cases cur) (auto simp: Let_def)
  qed
qed

lemma line_hunks_ok:
  assumes "list_all (\<lambda>c. line_ok (snd c)) cs"
    "case cur of None \<Rightarrow> True | Some h \<Rightarrow> list_all line_ok (lh_old h) \<and> list_all line_ok (lh_new h)"
  shows "\<forall>h \<in> set (line_hunks i j cur cs). list_all line_ok (lh_old h) \<and> list_all line_ok (lh_new h)"
  using assms
proof (induction i j cur cs rule: line_hunks.induct)
  case (1 i j cur)
  then show ?case by (cases cur) auto
next
  case (2 i j cur t l cs)
  let ?h = "case cur of Some h \<Rightarrow> h | None \<Rightarrow> \<lparr>lh_old_start = i, lh_new_start = j, lh_old = [], lh_new = []\<rparr>"
  have ok: "line_ok l" "list_all (\<lambda>c. line_ok (snd c)) cs" "list_all line_ok (lh_old ?h)" "list_all line_ok (lh_new ?h)"
    using "2.prems" by (auto split: option.splits)
  show ?case
  proof (cases t)
    case Equal
    then show ?thesis using "2.IH"(1) [OF refl Equal] "2.prems" ok by (cases cur) auto
  next
    case Delete
    have "case Some (?h\<lparr>lh_old := lh_old ?h @ [l]\<rparr>) of None \<Rightarrow> True
        | Some h \<Rightarrow> list_all line_ok (lh_old h) \<and> list_all line_ok (lh_new h)" using ok by simp
    from "2.IH"(2) [OF refl Delete ok(2) this] Delete show ?thesis by (simp add: Let_def)
  next
    case Insert
    have "case Some (?h\<lparr>lh_new := lh_new ?h @ [l]\<rparr>) of None \<Rightarrow> True
        | Some h \<Rightarrow> list_all line_ok (lh_old h) \<and> list_all line_ok (lh_new h)" using ok by simp
    from "2.IH"(3) [OF refl Insert ok(2) this] Insert show ?thesis by (simp add: Let_def)
  qed
qed

definition built :: "string \<Rightarrow> hunk_source \<Rightarrow> hunk_id \<Rightarrow> line_hunk \<Rightarrow> hunk" where
  "built path source i h = builder_build path source i (builder_of h)"

lemma concat_lines [simp]: "concat (map line ls) = unlines ls"
  by (simp add: unlines_def line_def [abs_def])

lemma built_fields:
  "accept_patch (built path source i h) t = patch_lines t (lh_old_start h) (length (lh_old h)) (unlines (lh_new h))"
  "reject_patch (built path source i h) t = patch_lines t (lh_new_start h) (length (lh_new h)) (unlines (lh_old h))"
  "old_start (line_info (built path source i h)) = lh_old_start h"
  "new_start (line_info (built path source i h)) = lh_new_start h"
  by (simp_all add: built_def builder_build_def builder_of_def accept_patch_def reject_patch_def)

lemma foldr_texts:
  assumes "\<And>h t ls. h \<in> set hs \<Longrightarrow> F h (unlines ls) = patch_lines (unlines ls) (S h) (N h) (unlines (I h))"
    "\<And>h. h \<in> set hs \<Longrightarrow> list_all line_ok (I h)" "list_all line_ok ls" "x \<in> set ls" "x \<noteq> []"
    "keeps (\<lambda>h. patch_ls (S h) (N h) (I h)) x hs ls"
  shows "foldr F hs (unlines ls) = unlines (foldr (\<lambda>h. patch_ls (S h) (N h) (I h)) hs ls) \<and>
    list_all line_ok (foldr (\<lambda>h. patch_ls (S h) (N h) (I h)) hs ls) \<and>
    x \<in> set (foldr (\<lambda>h. patch_ls (S h) (N h) (I h)) hs ls)"
  using assms(1,2,6)
proof (induction hs)
  case (Cons h hs)
  let ?L = "foldr (\<lambda>h. patch_ls (S h) (N h) (I h)) hs ls"
  have IH: "foldr F hs (unlines ls) = unlines ?L" "list_all line_ok ?L" "x \<in> set ?L"
    using Cons by auto
  have ok: "list_all line_ok (I h)" using Cons.prems(2) by simp
  have "list_all line_ok (patch_ls (S h) (N h) (I h) ?L)"
    using IH(2) ok by (auto simp: patch_ls_def list_all_iff dest: in_set_takeD in_set_dropD)
  moreover have "x \<in> set (patch_ls (S h) (N h) (I h) ?L)" using Cons.prems(3) by simp
  moreover have "F h (unlines ?L) = unlines (patch_ls (S h) (N h) (I h) ?L)"
    using Cons.prems(1) [of h ?L] patch_lines_unlines [OF IH(2) ok _ calculation(2) assms(5)] IH(3) by fastforce
  ultimately show ?case using IH(1) by simp
qed (use assms in simp)

lemma sort_descending:
  assumes "sorted_wrt (<) (map f hs)"
  shows "sort_key (\<lambda>h. - int (f h)) hs = rev hs"
proof (rule properties_for_sort_key)
  have "sorted_wrt (\<lambda>a b. f b < f a) (rev hs)" using assms by (simp add: sorted_wrt_rev sorted_wrt_map)
  then show "sorted (map (\<lambda>h. - int (f h)) (rev hs))"
    by (simp add: sorted_map) (erule sorted_wrt_mono_rel [rotated], simp)
  show "filter (\<lambda>x. - int (f k) = - int (f x)) (rev hs) = filter (\<lambda>x. - int (f k) = - int (f x)) hs"
    if "k \<in> set (rev hs)" for k
  proof -
    have "filter (\<lambda>x. f k = f x) hs = [k]"
      using assms that
    proof (induction hs)
      case (Cons h hs)
      show ?case
      proof (cases "k \<in> set hs")
        case True
        with Cons show ?thesis by fastforce
      next
        case False
        with Cons.prems have "k = h" by simp
        then have "filter (\<lambda>x. f k = f x) hs = []" using Cons.prems(1) by (auto simp: filter_empty_conv)
        with \<open>k = h\<close> show ?thesis by simp
      qed
    qed simp
    then show ?thesis by (simp add: rev_filter [symmetric])
  qed
qed simp

section \<open>Adopting and undoing all hunks of a diff\<close>

text \<open>What the diff engine is documented to do on two texts with newline line ends: it returns the lines
  of both, tagged.  \<open>plain_diff\<close> says so of one pair of texts, and that some line is kept which is not blank.\<close>

definition plain_diff :: "diff_engine \<Rightarrow> string \<Rightarrow> string \<Rightarrow> (change_tag \<times> string) list \<Rightarrow> bool" where
  "plain_diff D baseline current cs \<longleftrightarrow>
     D baseline current = Some (line_diff cs) \<and> list_all (\<lambda>c. line_ok (snd c)) cs \<and>
     baseline = unlines (old_side cs) \<and> current = unlines (new_side cs) \<and> kept cs - {[]} \<noteq> {} \<and>
     length baseline \<le> MAX_DIFF_FILE_SIZE \<and> length current \<le> MAX_DIFF_FILE_SIZE"

lemma plain_hunks:
  assumes "plain_diff D baseline current cs" "baseline \<noteq> current"
  shows "compute_hunks D next path baseline current source =
    map (\<lambda>(i, h). built path source i h)
      (zip [next ..< next + length (line_hunks 1 1 None cs)] (line_hunks 1 1 None cs))"
proof -
  have scan: "scan_changes 1 1 None (line_diff cs) = map builder_of (line_hunks 1 1 None cs)"
    using scan_line_diff [of 1 1 None cs] by simp
  have "\<not> (MAX_DIFF_FILE_SIZE < length baseline \<or> MAX_DIFF_FILE_SIZE < length current)"
    "D baseline current = Some (line_diff cs)"
    using assms(1) by (auto simp: plain_diff_def)
  with assms(2) show ?thesis
    unfolding compute_hunks_def
    by (simp only: if_False option.case Let_def scan zip_map2) (simp add: built_def split_def comp_def)
qed

lemma fold_descending:
  assumes "sorted_wrt (<) (map f hs)"
  shows "fold g (sort_key (\<lambda>h. - int (f h)) hs) t = foldr g hs t"
  using sort_descending [OF assms] by (simp add: foldr_conv_fold)

text \<open>Adopting every hunk turns the baseline into the current text; undoing every hunk turns the current
  text into the baseline.\<close>

lemma adopt_hunks:
  assumes "plain_diff D baseline current cs" "baseline \<noteq> current"
  shows "accept_patches (compute_hunks D next path baseline current source) baseline = current"
    and "reject_patches (compute_hunks D next path baseline current source) current = baseline"
proof -
  let ?hs = "line_hunks 1 1 None cs"
  let ?zs = "zip [next ..< next + length ?hs] ?hs"
  let ?b = "\<lambda>z. built path source (fst z) (snd z)"
  have hunks: "compute_hunks D next path baseline current source = map ?b ?zs"
    using plain_hunks [OF assms] by (simp add: split_def)
  have snd: "map snd ?zs = ?hs" by simp
  obtain x where x: "x \<in> kept cs" "x \<noteq> []" using assms(1) by (auto simp: plain_diff_def)
  have ok: "list_all line_ok (old_side cs)" "list_all line_ok (new_side cs)"
    "\<forall>h \<in> set ?hs. list_all line_ok (lh_old h) \<and> list_all line_ok (lh_new h)"
    using assms(1) line_hunks_ok [of cs None 1 1]
    by (auto simp: plain_diff_def old_side_def new_side_def list_all_iff)
  have pieces: "list_all line_ok (lh_old (snd z))" "list_all line_ok (lh_new (snd z))" if "z \<in> set ?zs" for z
  proof -
    have "snd z \<in> set ?hs" using that by (metis prod.collapse set_zip_rightD)
    then show "list_all line_ok (lh_old (snd z))" "list_all line_ok (lh_new (snd z))" using ok(3) by simp_all
  qed
  have start: "sorted_wrt (<) (map lh_old_start ?hs)" using line_hunks_sorted [where cur = None and i = 1 and j = 1 and cs = cs] by simp
  have "sorted_wrt (<) (map lh_old_start (map swap_hunk ?hs))"
    using line_hunks_sorted [where cur = None and i = 1 and j = 1 and cs = "swap_diff cs"] line_hunks_swap [of 1 1 None cs] by simp
  then have start': "sorted_wrt (<) (map lh_new_start ?hs)" by (simp add: comp_def swap_hunk_def)
  have starts: "map (\<lambda>h. old_start (line_info h)) (map ?b zs) = map lh_old_start (map snd zs)"
    "map (\<lambda>h. new_start (line_info h)) (map ?b zs) = map lh_new_start (map snd zs)" for zs
    by (simp_all add: built_fields)
  have sorted: "sorted_wrt (<) (map (\<lambda>h. old_start (line_info h)) (map ?b ?zs))"
    "sorted_wrt (<) (map (\<lambda>h. new_start (line_info h)) (map ?b ?zs))"
    by (simp_all only: starts snd start start')
  have adopt: "foldr (\<lambda>z. adopt (snd z)) ?zs (old_side cs) = new_side cs"
    "keeps (\<lambda>z. adopt (snd z)) x ?zs (old_side cs)"
    using adopt_all [where cur = None and i = 1 and j = 1 and p = "[]" and mid = "[]" and new = "[]" and cs = cs and x = x]
      x(1) keeps_map [of adopt x snd ?zs] foldr_map [of adopt snd ?zs] snd by (simp_all add: comp_def)
  have undo: "foldr (\<lambda>z. undo (snd z)) ?zs (new_side cs) = old_side cs"
    "keeps (\<lambda>z. undo (snd z)) x ?zs (new_side cs)"
    using undo_all [of cs x] x(1) keeps_map [of undo x snd ?zs] foldr_map [of undo snd ?zs] snd
    by (simp_all add: comp_def)
  have "foldr (\<lambda>z. accept_patch (?b z)) ?zs (unlines (old_side cs)) = unlines (new_side cs)"
    using foldr_texts [of ?zs "\<lambda>z. accept_patch (?b z)" "\<lambda>z. lh_old_start (snd z)" "\<lambda>z. length (lh_old (snd z))"
        "\<lambda>z. lh_new (snd z)" "old_side cs" x] adopt pieces(2) ok(1) kept_sides(1) [of cs] x
    by (auto simp: built_fields adopt_def [abs_def])
  then show "accept_patches (compute_hunks D next path baseline current source) baseline = current"
    using assms(1) fold_descending [OF sorted(1), of accept_patch] hunks
    by (simp add: accept_patches_def plain_diff_def foldr_map comp_def)
  have "foldr (\<lambda>z. reject_patch (?b z)) ?zs (unlines (new_side cs)) = unlines (old_side cs)"
    using foldr_texts [of ?zs "\<lambda>z. reject_patch (?b z)" "\<lambda>z. lh_new_start (snd z)" "\<lambda>z. length (lh_new (snd z))"
        "\<lambda>z. lh_old (snd z)" "new_side cs" x] undo pieces(1) ok(2) kept_sides(2) [of cs] x
    by (auto simp: built_fields undo_def [abs_def])
  then show "reject_patches (compute_hunks D next path baseline current source) current = baseline"
    using assms(1) fold_descending [OF sorted(2), of reject_patch] hunks
    by (simp add: reject_patches_def plain_diff_def foldr_map comp_def)
qed

end
