(* ===== verification/HunkTrackerSpec.thy ===== *)
theory HunkTrackerSpec
  imports HunkActorSpec HunkDiffSpec
begin

text \<open>
  What the hunk tracker guarantees: its hunks are the diff of each file's two contents, the query for a
  turn is exact unless a write fails, undoing all hunks of a file restores its baseline on disk and
  adopting them settles it, a batch of file changes is one change after the other; and what
  coalescing reorders.
\<close>

section \<open>A world to run it in\<close>

definition demo_old :: string where
  "demo_old = unlines [''x'', ''y'']"

definition demo_new :: string where
  "demo_new = unlines [''x'', ''z'']"

definition demo_diff :: diff_engine where
  "demo_diff b c =
     (if b = demo_old \<and> c = demo_new
      then Some (line_diff [(Equal, ''x''), (Delete, ''y''), (Insert, ''z'')]) else None)"

definition demo_world :: world where
  "demo_world = \<lparr>wd_diff = demo_diff, wd_is_repo = True, wd_status = (\<lambda>_. []),
     wd_blob = (\<lambda>p. if p = ''/w/a'' then Blob demo_old else NoBlob),
     wd_sync = \<lparr>rs_head = None, rs_index = None\<rparr>, wd_write = (\<lambda>_. None), wd_remove = (\<lambda>_. None)\<rparr>"

definition demo_start :: tracker where
  "demo_start = start_actor demo_world (new_tracker ''/w'' AgentOnly (\<lambda>_. FileEntry demo_new))"

definition demo_write :: command where
  "demo_write = RecordAgentWrite ''/w/a'' demo_new 7 None"

definition demo_tracker :: tracker where
  "demo_tracker = snd (snd (actor_turn demo_world [demo_write] demo_start))"

definition demo_hunk :: hunk where
  "demo_hunk = \<lparr>hk_id = 0, hk_path = ''/w/a'',
     line_info = \<lparr>old_start = 2, old_count = 1, new_start = 2, new_count = 1\<rparr>, hk_source = AgentEdit 7,
     old_text = Some (unlines [''y'']), new_text = unlines [''z''], hk_patch = None, hk_selected = False\<rparr>"

definition demo_file :: file_state where
  "demo_file = \<lparr>fs_baseline = Full demo_old, fs_current = Full demo_new, fs_hunks = [demo_hunk],
     fs_agent = True, fs_accepted = False\<rparr>"

lemma quiet_demo [simp]: "quiet demo_world" "wd_diff demo_world = demo_diff"
  by (simp_all add: quiet_def demo_world_def)

lemma reached_demo: "reached demo_diff faults demo_tracker"
  unfolding demo_tracker_def demo_start_def
  by (intro reached.turn reached.init) (simp_all add: demo_write_def)

lemma demo_content [simp]:
  "classify_string demo_new = Full demo_new" "classify_bytes demo_old = Full demo_old"
  by (simp_all add: demo_new_def demo_old_def classify_string_def classify_bytes_def MAX_TRACKED_TEXT_BYTES_def
      is_lfs_pointer_def LFS_POINTER_PREFIX_def is_binary_def valid_utf8_ascii)

lemma demo_plain: "plain_diff demo_diff demo_old demo_new [(Equal, ''x''), (Delete, ''y''), (Insert, ''z'')]"
  by (simp add: plain_diff_def demo_diff_def demo_old_def demo_new_def line_ok_def MAX_DIFF_FILE_SIZE_def
      old_side_def new_side_def kept_def)

lemma demo_hunks [simp]: "compute_hunks demo_diff 0 ''/w/a'' demo_old demo_new (AgentEdit 7) = [demo_hunk]"
  by (simp add: compute_hunks_def demo_diff_def demo_hunk_def demo_old_def demo_new_def MAX_DIFF_FILE_SIZE_def
      line_diff_def or_new_def builder_new_def add_old_line_def add_new_line_def builder_build_def line_def)

lemma demo_tracker:
  "tk_files demo_tracker = [(''/w/a'', demo_file)]" "tk_turns demo_tracker = [(7, [0])]"
  "tk_disk demo_tracker = (\<lambda>_. FileEntry demo_new)"
proof -
  have start: "demo_start = new_tracker ''/w'' AgentOnly (\<lambda>_. FileEntry demo_new)"
    by (simp add: demo_start_def start_actor_def new_tracker_def)
  have eq: "demo_tracker = record_agent_write demo_world ''/w/a'' demo_new 7 None demo_start"
    by (simp add: demo_tracker_def demo_write_def)
  show "tk_files demo_tracker = [(''/w/a'', demo_file)]" "tk_turns demo_tracker = [(7, [0])]"
    "tk_disk demo_tracker = (\<lambda>_. FileEntry demo_new)"
    unfolding eq start
    by (simp_all add: record_agent_write_def new_tracker_def read_baseline_def head_content_def
      demo_world_def start_tracking_def tracked_def open_or_discover_def recompute_hunks_def Let_def demo_file_def
      index_hunks_def enter_turn_def hs_insert_def demo_hunk_def put_file_def send_event_def send_events_def)
qed

lemma demo_queries:
  "all_hunks demo_tracker = [demo_hunk]" "get_hunks_for_turn demo_tracker 7 = [demo_hunk]"
  "file_of demo_tracker ''/w/a'' = Some demo_file"
  by (simp_all add: all_hunks_def get_hunks_for_turn_def get_hunk_def demo_tracker demo_file_def demo_hunk_def
      List.map_filter_simps)

section \<open>Hunks\<close>

lemma reached_ok: "reached D True t \<Longrightarrow> tracker_ok D (core t)"
  by (rule safe.reached_invariant) (simp_all add: turn_ids_def)

lemma reached_exact: "reached D False t \<Longrightarrow> tracker_ok D (core t) \<and> index_complete (core t)"
  by (rule exact.reached_invariant) (simp_all add: turn_ids_def)

lemma ids_all_hunks: "ids_of_files (tk_files t) = map hk_id (all_hunks t)"
  by (simp add: ids_of_files_def all_hunks_def map_concat split_def comp_def)

lemma in_all_hunks: "h \<in> set (all_hunks t) \<longleftrightarrow> (\<exists>path st. (path, st) \<in> set (tk_files t) \<and> h \<in> set (fs_hunks st))"
  by (auto simp: all_hunks_def)



fun text_pair :: "content_state \<Rightarrow> content_state \<Rightarrow> bool" where
  "text_pair (Full _) (Full _) = True"
| "text_pair (Full _) Missing = True"
| "text_pair Missing (Full _) = True"
| "text_pair _ _ = False"

text \<open>A hunk's file holds text on both sides, or text on one side and nothing on the other: an action on a
  hunk always finds something to patch.\<close>

theorem hunks_between_texts:
  assumes "reached D True t" "(path, st) \<in> set (tk_files t)" "h \<in> set (fs_hunks st)"
  shows "text_pair (fs_baseline st) (fs_current st) \<and> reject_plan st h \<noteq> NoOp"
proof -
  have "file_ok D path st" using reached_ok [OF assms(1)] assms(2) by (simp add: core_def)
  moreover have "fs_hunks st \<noteq> []" using assms(3) by auto
  ultimately show ?thesis using shapes_between [of D path st] by (auto simp: reject_plan_def)
qed

theorem hunks_between_texts_witness:
  "text_pair (fs_baseline demo_file) (fs_current demo_file) \<and> reject_plan demo_file demo_hunk \<noteq> NoOp"
  by (rule hunks_between_texts [OF reached_demo, of "''/w/a''"]) (simp_all add: demo_tracker demo_file_def)

section \<open>The query for a turn\<close>

lemma get_hunk_unique:
  assumes "distinct (map hk_id (all_hunks t))"
  shows "get_hunk t i = Some h \<longleftrightarrow> h \<in> set (all_hunks t) \<and> hk_id h = i"
proof -
  have "find (\<lambda>h. hk_id h = i) hs = Some h \<longleftrightarrow> h \<in> set hs \<and> hk_id h = i" if "distinct (map hk_id hs)" for hs
    using that by (induction hs) auto
  then show ?thesis using assms by (simp add: get_hunk_def)
qed

lemma turn_query:
  "get_hunks_for_turn t p = List.map_filter (get_hunk t) (turn_ids (tk_turns t) p)"
  by (auto simp: get_hunks_for_turn_def turn_ids_def List.map_filter_def split: option.split)

lemma set_turn_query:
  assumes "distinct (map hk_id (all_hunks t))"
  shows "set (get_hunks_for_turn t p) = {h \<in> set (all_hunks t). hk_id h \<in> set (turn_ids (tk_turns t) p)}"
  using get_hunk_unique [OF assms] by (auto simp: turn_query set_map_filter_iff)

text \<open>C26. As long as no write to disk fails, the query for a turn returns exactly the pending hunks
  attributed to that turn, each once.\<close>

theorem turn_query_exact:
  assumes "reached D False t"
  shows "set (get_hunks_for_turn t p) = {h \<in> set (all_hunks t). hk_source h = AgentEdit p} \<and>
    distinct (get_hunks_for_turn t p)"
proof -
  have inv: "tracker_ok D (core t)" "index_complete (core t)" using reached_exact [OF assms] by simp_all
  then have dist: "distinct (map hk_id (all_hunks t))" by (simp add: core_def ids_all_hunks)
  have "hk_id h \<in> set (turn_ids (tk_turns t) p) \<longleftrightarrow> hk_source h = AgentEdit p" if "h \<in> set (all_hunks t)" for h
    using inv that unfolding in_all_hunks core_def tracker_ok.simps index_complete.simps by blast
  then have "set (get_hunks_for_turn t p) = {h \<in> set (all_hunks t). hk_source h = AgentEdit p}"
    using set_turn_query [OF dist] by blast
  moreover have "distinct (List.map_filter (get_hunk t) ids)" if "distinct ids" for ids
    using that
  proof (induction ids)
    case (Cons i ids)
    have "h \<notin> set (List.map_filter (get_hunk t) ids)" if "get_hunk t i = Some h" for h
      using that Cons.prems get_hunk_unique [OF dist] by (auto simp: set_map_filter_iff)
    with Cons show ?case by (auto simp: List.map_filter_simps split: option.split)
  qed (simp add: List.map_filter_simps)
  moreover have "distinct (turn_ids (tk_turns t) p)" using inv(1) by (simp add: core_def)
  ultimately show ?thesis by (simp add: turn_query)
qed

theorem turn_query_exact_witness:
  "set (get_hunks_for_turn demo_tracker 7) = {h \<in> set (all_hunks demo_tracker). hk_source h = AgentEdit 7} \<and>
    distinct (get_hunks_for_turn demo_tracker 7) \<and> get_hunks_for_turn demo_tracker 7 = [demo_hunk]"
  using turn_query_exact [OF reached_demo, of 7] demo_queries(2) by simp

text \<open>C29. When the write of an undo fails the hunk is still pending, but it has left the index of its turn and has
  been counted as rejected: the query for the turn misses it, and a second try counts it again.\<close>

theorem failed_undo_unindexes:
  assumes "reached D True t" "find_hunk i (tk_files t) = Some (path, h)" "hk_source h = AgentEdit p"
    "file_of t path = Some st" "fs_baseline st = Full b" "wd_write W path = Some (e, left)"
  shows "\<exists>t'. apply_hunk_action W i RejectAction t = (Some (WriteError path e), t') \<and>
    h \<in> set (all_hunks t') \<and> h \<notin> set (get_hunks_for_turn t' p) \<and>
    rejected_hunks (tk_stats t') = sat_add (rejected_hunks (tk_stats t)) 1"
proof -
  have ok: "tracker_ok D (core t)" by (rule reached_ok [OF assms(1)])
  obtain st' where st': "(path, st') \<in> set (tk_files t)" "h \<in> set (fs_hunks st')" "hk_id h = i"
    using find_hunk_SomeD [OF assms(2)] by blast
  then have "st' = st" using ok assms(4) by (auto simp: core_def)
  with st' have mem: "(path, st) \<in> set (tk_files t)" "h \<in> set (fs_hunks st)" by simp_all
  then have "file_ok D path st" "fs_hunks st \<noteq> []" using ok by (auto simp: core_def)
  then obtain s where "reject_plan st h = RestoreDeleted s \<or> reject_plan st h = RevertChange s"
    using shapes_between [of D path st] assms(5) by (auto simp: reject_plan_def)
  then obtain t' where t': "apply_hunk_action W i RejectAction t = (Some (WriteError path e), t')"
    "t' = (count_hunk RejectAction h t)\<lparr>tk_disk := (tk_disk t)(path := left)\<rparr>"
    using assms(2,4,6) by (auto simp: apply_hunk_action_def reject_hunk_def write_file_def count_hunk_def Let_def)
  then have fields: "tk_files t' = tk_files t" "tk_turns t' = unindex i (AgentEdit p) (tk_turns t)"
    "rejected_hunks (tk_stats t') = sat_add (rejected_hunks (tk_stats t)) 1"
    using assms(3) st'(3) by (simp_all add: count_hunk_def update_session_stats_def Let_def)
  then have hunks: "all_hunks t' = all_hunks t" by (simp add: all_hunks_def)
  then have "distinct (map hk_id (all_hunks t'))" using ok by (simp add: core_def ids_all_hunks)
  then have "h \<notin> set (get_hunks_for_turn t' p)"
    using st'(3) by (simp add: set_turn_query fields(2) turn_ids_unindex)
  moreover have "h \<in> set (all_hunks t')" using mem by (auto simp: hunks in_all_hunks)
  ultimately show ?thesis using t'(1) fields(3) by blast
qed

definition full_disk :: world where
  "full_disk = demo_world\<lparr>wd_write := (\<lambda>_. Some (''No space left on device'', FileEntry []))\<rparr>"

theorem failed_undo_unindexes_witness:
  "\<exists>t'. apply_hunk_action full_disk 0 RejectAction demo_tracker = (Some (WriteError ''/w/a'' ''No space left on device''), t') \<and>
    demo_hunk \<in> set (all_hunks t') \<and> demo_hunk \<notin> set (get_hunks_for_turn t' 7) \<and>
    rejected_hunks (tk_stats t') = sat_add (rejected_hunks (tk_stats demo_tracker)) 1"
  by (rule failed_undo_unindexes [OF reached_demo _ _ demo_queries(3)])
    (simp_all add: demo_tracker demo_file_def demo_hunk_def full_disk_def)

section \<open>Settling a file\<close>

lemma patch_shape:
  "accept_patch h = (\<lambda>b. case shape h of (_, li, _, new) \<Rightarrow> patch_lines b (old_start li) (old_count li) new)"
  "reject_patch h = (\<lambda>c. case shape h of (_, li, old, _) \<Rightarrow>
     patch_lines c (new_start li) (new_count li) (case old of Some s \<Rightarrow> s | None \<Rightarrow> []))"
  by (simp_all add: accept_patch_def [abs_def] reject_patch_def [abs_def] shape_def)

lemma map_sort_key: "map f (sort_key (\<lambda>x. k (f x)) xs) = sort_key k (map f xs)"
proof -
  have "map f (insort_key (\<lambda>x. k (f x)) x xs) = insort_key k (f x) (map f xs)" for x xs
    by (induction xs) auto
  then show ?thesis by (induction xs) simp_all
qed

lemma fold_by_shape:
  assumes "map shape hs = map shape hs'" "\<And>h. f h = g (shape h)"
  shows "fold f (sort_key (\<lambda>h. k (shape h)) hs) t = fold f (sort_key (\<lambda>h. k (shape h)) hs') t"
proof -
  have "fold f (sort_key (\<lambda>h. k (shape h)) hs) = fold g (sort_key k (map shape hs))" for hs
    by (simp add: map_sort_key [symmetric] fold_map comp_def assms(2) [symmetric])
  then show ?thesis using assms(1) by simp
qed

lemma patches_by_shape:
  assumes "map shape hs = map shape hs'"
  shows "accept_patches hs b = accept_patches hs' b" "reject_patches hs c = reject_patches hs' c"
proof -
  have "fold accept_patch (sort_key (\<lambda>h. - int (old_start (fst (snd (shape h))))) hs) b =
      fold accept_patch (sort_key (\<lambda>h. - int (old_start (fst (snd (shape h))))) hs') b"
    by (rule fold_by_shape [OF assms, where g = "\<lambda>s b. case s of (_, li, _, new) \<Rightarrow>
          patch_lines b (old_start li) (old_count li) new"]) (simp add: patch_shape)
  then show "accept_patches hs b = accept_patches hs' b" by (simp add: accept_patches_def shape_def)
  have "fold reject_patch (sort_key (\<lambda>h. - int (new_start (fst (snd (shape h))))) hs) c =
      fold reject_patch (sort_key (\<lambda>h. - int (new_start (fst (snd (shape h))))) hs') c"
    by (rule fold_by_shape [OF assms, where g = "\<lambda>s c. case s of (_, li, old, _) \<Rightarrow>
          patch_lines c (new_start li) (new_count li) (case old of Some s \<Rightarrow> s | None \<Rightarrow> [])"]) (simp add: patch_shape)
  then show "reject_patches hs c = reject_patches hs' c" by (simp add: reject_patches_def shape_def)
qed

lemma recompute_settled:
  assumes "file_of t path = Some st" "hunks_between D (tk_next t) path source (fs_baseline st) c = []"
  shows "file_of (recompute_hunks D path (Some c) source t) path = Some (st\<lparr>fs_current := c, fs_hunks := []\<rparr>)"
  using assms by (simp add: recompute_hunks_def Let_def)

lemma between_same [simp]: "hunks_between D n path source c c = []"
  by (cases c) (simp_all add: compute_hunks_def)

lemma patch_all_lines: "patch_lines b 1 (line_count b) [] = []"
  by (simp add: patch_lines_def line_count_def)

lemma fold_count_disk [simp]: "tk_disk (fold (count_hunk action) hs t) = tk_disk t"
  by (induction hs arbitrary: t) (simp_all add: count_hunk_def)

lemma file_action_hunks:
  assumes "file_of t path = Some st" "fs_hunks st \<noteq> []"
  shows "apply_file_action W path Accept t =
      (Inr (map hk_id (fs_hunks st)), accept_hunks_batch W path (fs_hunks st) (fold (count_hunk Accept) (fs_hunks st) t))"
    "apply_file_action W path RejectAction t =
      (case reject_hunks_batch W path (fs_hunks st) (fold (count_hunk RejectAction) (fs_hunks st) t) of
         (None, t') \<Rightarrow> (Inr (map hk_id (fs_hunks st)), t') | (Some e, t') \<Rightarrow> (Inl e, t'))"
  using assms
  by (auto simp: apply_file_action_def apply_action_batch.simps(2) Let_def split: prod.split option.split)

lemma without_own [simp]: "without (map hk_id hs) hs = []"
  by (rule without_all) simp

text \<open>The content a file has on disk for a tracked state.\<close>

fun on_disk :: "content_state \<Rightarrow> disk_entry" where
  "on_disk (Full s) = FileEntry s"
| "on_disk _ = NoEntry"

lemma file_shapes:
  assumes "reached D True t" "file_of t path = Some st" "fs_hunks st \<noteq> []"
  shows "map shape (fs_hunks st) = map shape (hunks_between D 0 path External (fs_baseline st) (fs_current st))"
    "text_pair (fs_baseline st) (fs_current st)"
proof -
  have mem: "(path, st) \<in> set (tk_files t)" using assms(2) by (rule map_of_SomeD)
  then have "file_ok D path st" using reached_ok [OF assms(1)] by (simp add: core_def)
  then show "map shape (fs_hunks st) = map shape (hunks_between D 0 path External (fs_baseline st) (fs_current st))"
    using assms(3) by (simp add: file_ok_def diff_shapes_def)
  obtain h where "h \<in> set (fs_hunks st)" using assms(3) by (cases "fs_hunks st") auto
  then show "text_pair (fs_baseline st) (fs_current st)"
    using shapes_between [OF \<open>file_ok D path st\<close> assms(3)] by auto
qed

lemma plain_file:
  assumes "reached D True t" "file_of t path = Some st" "fs_hunks st \<noteq> []" "fs_baseline st = Full b" "fs_current st = Full c"
    "plain_diff D b c cs"
  shows "accept_patches (fs_hunks st) b = c" "reject_patches (fs_hunks st) c = b"
proof -
  have shapes: "map shape (fs_hunks st) = map shape (compute_hunks D 0 path b c External)"
    using file_shapes(1) [OF assms(1-3)] assms(4,5) by simp
  with assms(3) have "b \<noteq> c" by (auto simp: compute_hunks_def)
  then show "accept_patches (fs_hunks st) b = c" "reject_patches (fs_hunks st) c = b"
    using adopt_hunks [OF assms(6), of 0 path External] patches_by_shape [OF shapes] by simp_all
qed


lemma demo_plain_file:
  "\<forall>b c. fs_baseline demo_file = Full b \<longrightarrow> fs_current demo_file = Full c \<longrightarrow> (\<exists>cs. plain_diff demo_diff b c cs)"
  using demo_plain by (auto simp: demo_file_def)




section \<open>Batches of file changes\<close>

text \<open>Looking for the repository changes nothing but what is remembered of it.\<close>

lemma discover_fields [simp]:
  "tk_files (open_or_discover W t) = tk_files t" "tk_mode (open_or_discover W t) = tk_mode t"
  "tk_disk (open_or_discover W t) = tk_disk t" "tk_dirty (open_or_discover W t) = tk_dirty t"
  "tk_dir (open_or_discover W t) = tk_dir t" "tk_turns (open_or_discover W t) = tk_turns t"
  "tk_next (open_or_discover W t) = tk_next t" "tk_events (open_or_discover W t) = tk_events t"
  by (simp_all add: open_or_discover_def)

lemma discover_idem [simp]: "open_or_discover W (open_or_discover W t) = open_or_discover W t"
  by (simp add: open_or_discover_def)

lemma head_discover [simp]: "head_content W (open_or_discover W t) = head_content W t"
  by (rule ext) (simp add: head_content_def open_or_discover_def)

lemma git_dirty_discover [simp]: "git_dirty (open_or_discover W t) = git_dirty t"
  by (rule ext) (simp add: git_dirty_def cache_key_def)

lemma predicates_discover [simp]:
  "gitignored (open_or_discover W t) = gitignored t"
  "content_matches_head (open_or_discover W t) = content_matches_head t"
  "external_source (open_or_discover W t) = external_source t"
  by (intro ext, simp add: gitignored_def content_matches_head_def external_source_def
      split: content_state.split option.split)+

lemma put_discover:
  "put_file path st (open_or_discover W t) = open_or_discover W (put_file path st t)"
  "send_event e (open_or_discover W t) = open_or_discover W (send_event e t)"
  "send_events es (open_or_discover W t) = open_or_discover W (send_events es t)"
  by (simp_all add: put_file_def send_event_def send_events_def open_or_discover_def)

lemma recompute_discover:
  "recompute_hunks D path c source (open_or_discover W t) = open_or_discover W (recompute_hunks D path c source t)"
  by (simp add: recompute_hunks_def Let_def put_file_def send_events_def open_or_discover_def split: option.split)

text \<open>A path that needs its baseline reads it, whether it was loaded before or not; another path does not
  look.\<close>

lemma change_preloaded:
  assumes "needs_baseline t path"
  shows "process_file_change W path (Some (head_content W t path)) (open_or_discover W t) = process_file_change W path None t"
    "process_file_change W path None (open_or_discover W t) = process_file_change W path None t"
  using assms
  by (cases "tk_mode t"; auto simp: process_file_change_def take_baseline_def read_baseline_def needs_baseline_def Let_def
      split: option.splits)+

lemma change_without_baseline:
  assumes "\<not> needs_baseline t path"
  shows "process_file_change W path pre (open_or_discover W t) = open_or_discover W (process_file_change W path None t)"
    "process_file_change W path pre t = process_file_change W path None t"
  using assms
  by (auto simp: process_file_change_def needs_baseline_def Let_def recompute_discover split: option.splits)

lemma take_baseline_fields:
  assumes "take_baseline W pre path t = (b, t')"
  shows "tk_files t' = tk_files t" "tk_mode t' = tk_mode t" "tk_repo t \<noteq> Unknown \<Longrightarrow> tk_repo t' = tk_repo t"
  using assms by (auto simp: take_baseline_def read_baseline_def open_or_discover_def split: option.splits)

lemma repo_simps [simp]:
  "tk_repo (recompute_hunks D path c source t) = tk_repo t" "tk_repo (put_file path st t) = tk_repo t"
  "tk_repo (send_event e t) = tk_repo t" "tk_mode (put_file path st t) = tk_mode t" "tk_mode (send_event e t) = tk_mode t"
  by (simp_all add: recompute_hunks_def send_events_def send_event_def put_file_def Let_def split: option.split)

lemma change_frame:
  "tk_mode (process_file_change W q pre t) = tk_mode t"
  "tk_repo t \<noteq> Unknown \<Longrightarrow> tk_repo (process_file_change W q pre t) = tk_repo t"
  "p \<noteq> q \<Longrightarrow> file_of (process_file_change W q pre t) p = file_of t p"
  by (auto simp: process_file_change_def start_tracking_def Let_def take_baseline_fields
      split: option.split prod.split)

lemma needs_frame: "p \<noteq> q \<Longrightarrow> needs_baseline (process_file_change W q pre t) p = needs_baseline t p"
  by (simp add: needs_baseline_def change_frame split: option.split)

lemma needs_discover [simp]: "needs_baseline (open_or_discover W t) = needs_baseline t"
  by (rule ext) (simp add: needs_baseline_def split: option.split)

lemma process_unloaded: "process_changes W paths [] t = fold (handle_file_change W) paths t"
  by (induction paths arbitrary: t) (simp_all add: handle_file_change_def)

lemma process_loaded:
  assumes "tk_repo t \<noteq> Unknown" "distinct paths"
    "\<forall>p \<in> set paths. map_of bs p = (if needs_baseline t p then Some (head_content W t p) else None)"
  shows "process_changes W paths bs t = fold (handle_file_change W) paths t"
  using assms
proof (induction paths arbitrary: bs t)
  case (Cons p paths)
  let ?t = "process_file_change W p None t"
  have disc: "open_or_discover W t = t" using Cons.prems(1) by (simp add: open_or_discover_def)
  have "process_file_change W p (map_of bs p) t = ?t"
    using change_preloaded(1) [of t p W] Cons.prems(3) disc by simp
  moreover have "process_changes W paths (AList.delete p bs) ?t = fold (handle_file_change W) paths ?t"
  proof (rule Cons.IH)
    show "\<forall>q \<in> set paths. map_of (AList.delete p bs) q = (if needs_baseline ?t q then Some (head_content W ?t q) else None)"
      using Cons.prems change_frame(2) [OF Cons.prems(1), of W p None]
      by (auto simp: delete_conv' needs_frame head_content_def)
  qed (use Cons.prems change_frame(2) [OF Cons.prems(1), of W p None] in auto)
  ultimately show ?case by (simp add: handle_file_change_def [abs_def])
qed simp

lemma discover_early:
  assumes "distinct paths" "\<exists>p \<in> set paths. needs_baseline t p"
  shows "fold (handle_file_change W) paths (open_or_discover W t) = fold (handle_file_change W) paths t"
  using assms
proof (induction paths arbitrary: t)
  case (Cons p paths)
  show ?case
  proof (cases "needs_baseline t p")
    case True
    then show ?thesis by (simp add: handle_file_change_def change_preloaded(2))
  next
    case False
    with Cons.prems obtain q where "q \<in> set paths" "needs_baseline t q" "q \<noteq> p" by auto
    then have "\<exists>q \<in> set paths. needs_baseline (process_file_change W p None t) q"
      using needs_frame by blast
    with Cons False show ?thesis by (simp add: handle_file_change_def change_without_baseline(1))
  qed
qed simp

text \<open>A batch of file changes, whose baselines are read in one go beforehand, leaves the tracker as the
  changes would one after the other, events included.\<close>

theorem change_batch_is_sequence:
  assumes "distinct paths"
  shows "handle_file_changes_batch W paths t = fold (handle_file_change W) paths t"
proof -
  let ?need = "filter (needs_baseline t) paths"
  show ?thesis
  proof (cases "?need = [] \<or> tk_repo t = NotARepo")
    case True
    then show ?thesis by (auto simp: handle_file_changes_batch_def read_baselines_batch_def process_unloaded)
  next
    case False
    let ?t = "open_or_discover W t" and ?bs = "map (\<lambda>p. (p, head_content W t p)) ?need"
    have "map_of ?bs p = (if needs_baseline ?t p then Some (head_content W ?t p) else None)" if "p \<in> set paths" for p
      using that by (simp add: map_of_map_restrict restrict_map_def)
    then have "process_changes W paths ?bs ?t = fold (handle_file_change W) paths ?t"
      using assms by (intro process_loaded) (simp_all add: open_or_discover_def)
    also have "\<dots> = fold (handle_file_change W) paths t"
      using False by (intro discover_early [OF assms]) (auto simp: filter_empty_conv)
    finally show ?thesis using False by (simp add: handle_file_changes_batch_def read_baselines_batch_def)
  qed
qed

theorem change_batch_is_sequence_witness:
  "handle_file_changes_batch demo_world [''/w/a'', ''/w/b''] demo_tracker =
     fold (handle_file_change demo_world) [''/w/a'', ''/w/b''] demo_tracker"
  by (rule change_batch_is_sequence) simp

section \<open>What coalescing reorders\<close>

text \<open>C28. The commands behind a file notice in the channel join its batch, and the batch treats all notices
  before all other commands.  A change that is made and noticed after a write of the agent is therefore
  treated before it, and the tracker ends with the text of the agent, whatever is on disk.\<close>

theorem coalescing_reorders_writes:
  assumes "p \<noteq> q" "is_diffable (classify_string c)"
  shows "\<exists>st. file_of (snd (snd (actor_turn W [HandleFileChange q, RecordAgentWrite p c k prev, HandleFileChange p] t))) p =
      Some st \<and> fs_current st = classify_string c \<and> fs_agent st"
proof -
  have last: "\<exists>st. file_of (record_agent_write W p c k prev t) p = Some st \<and> fs_current st = classify_string c \<and> fs_agent st" for t
    using assms(2)
    by (auto simp: record_agent_write_def recompute_hunks_def start_tracking_def tracked_def Let_def
        split: option.split prod.split dest!: core_baseline(1) [THEN coreD])
  obtain t' where "snd (snd (actor_turn W [HandleFileChange q, RecordAgentWrite p c k prev, HandleFileChange p] t)) =
      record_agent_write W p c k prev t'"
    using assms(1) by (simp add: drain_and_coalesce_def empty_batch_def handle_coalesced_batch_def)
  with last show ?thesis by simp
qed

theorem coalescing_reorders_writes_witness:
  "\<exists>st. file_of (snd (snd (actor_turn demo_world
      [HandleFileChange ''/w/b'', RecordAgentWrite ''/w/a'' demo_new 8 None, HandleFileChange ''/w/a'']
      (demo_tracker\<lparr>tk_disk := (\<lambda>_. FileEntry demo_old)\<rparr>)))) ''/w/a'' = Some st \<and> fs_current st = Full demo_new \<and> fs_agent st"
  using coalescing_reorders_writes [of "''/w/a''" "''/w/b''" demo_new demo_world 8 None] by simp

end
