(* ===== verification/HunkLoc.thy ===== *)
theory HunkLoc
  imports HunkState
begin

text \<open>
  Attribution of lines: \<open>xai-hunk-tracker/src/loc/mod.rs\<close>.  The sink turns the tracker's events into
  records and aggregates; sums of lines are integers, time stamps are left out, and a record that
  cannot be written is dropped, which changes nothing here.
\<close>

datatype author_type = AgentAuthor | HumanAuthor

datatype source_type = SrcAgentEdit | SrcExternalEditOnAgentFile | SrcExternal

datatype event_type = Added | Updated | Removed

record hunk_record =
  hr_id :: hunk_id
  hr_path :: string
  hr_start :: nat
  hr_end :: nat
  hr_added :: int
  hr_removed :: int
  hr_author :: "author_type option"
  hr_author_id :: "string option"
  hr_agent_id :: string
  hr_session :: string
  hr_prompt :: "nat option"
  hr_source :: "source_type option"
  hr_event :: event_type
  hr_reason :: "removal_reason option"

record loc_context =
  lc_session :: string
  lc_agent :: string
  lc_user :: "string option"
  lc_aggregates :: bool

datatype loc_aggregate =
    LinesChanged author_type int int string
  | LinesReverted int int

fun attribution ::
    "loc_context \<Rightarrow> hunk_source \<Rightarrow> author_type \<times> string option \<times> nat option \<times> source_type" where
  "attribution ctx (AgentEdit p) = (AgentAuthor, Some (lc_agent ctx), Some p, SrcAgentEdit)"
| "attribution ctx ExternalEditOnAgentFile = (HumanAuthor, lc_user ctx, None, SrcExternalEditOnAgentFile)"
| "attribution ctx External = (HumanAuthor, lc_user ctx, None, SrcExternal)"

definition from_hunk :: "loc_context \<Rightarrow> hunk \<Rightarrow> event_type \<Rightarrow> hunk_source \<Rightarrow> hunk_record" where
  "from_hunk ctx h ev source =
     (let (author, author_id, prompt, src) = attribution ctx source;
          li = line_info h;
          (start, count) = (if new_count li = 0 then (old_start li, old_count li) else (new_start li, new_count li));
          stop = (if count = 0 then start else start + count - 1)
      in \<lparr>hr_id = hk_id h, hr_path = hk_path h, hr_start = start, hr_end = stop,
          hr_added = int (new_count li), hr_removed = int (old_count li),
          hr_author = Some author, hr_author_id = author_id, hr_agent_id = lc_agent ctx,
          hr_session = lc_session ctx, hr_prompt = prompt, hr_source = Some src, hr_event = ev, hr_reason = None\<rparr>)"

text \<open>The lines each live hunk has been given so far.\<close>

type_synonym loc_acc = "hunk_id \<Rightarrow> (int \<times> int) option"

definition acc_total :: "loc_acc \<Rightarrow> hunk_id \<Rightarrow> int \<times> int" where
  "acc_total acc i = (case acc i of None \<Rightarrow> (0, 0) | Some n \<Rightarrow> n)"

definition acc_add :: "hunk_record \<Rightarrow> loc_acc \<Rightarrow> loc_acc" where
  "acc_add r acc =
     acc(hr_id r \<mapsto> (fst (acc_total acc (hr_id r)) + hr_added r, snd (acc_total acc (hr_id r)) + hr_removed r))"

definition changed_aggregate :: "loc_context \<Rightarrow> author_type \<Rightarrow> hunk_record \<Rightarrow> loc_aggregate list" where
  "changed_aggregate ctx fallback r =
     (if lc_aggregates ctx
      then [LinesChanged (case hr_author r of Some a \<Rightarrow> a | None \<Rightarrow> fallback) (hr_added r) (hr_removed r) (hr_path r)]
      else [])"

definition reverting_record :: "loc_context \<Rightarrow> string \<Rightarrow> hunk_id \<Rightarrow> removal_reason \<Rightarrow> int \<times> int \<Rightarrow> hunk_record" where
  "reverting_record ctx path i reason sofar =
     \<lparr>hr_id = i, hr_path = path, hr_start = 0, hr_end = 0, hr_added = - fst sofar, hr_removed = - snd sofar,
      hr_author = None, hr_author_id = None, hr_agent_id = lc_agent ctx, hr_session = lc_session ctx,
      hr_prompt = None, hr_source = None, hr_event = Removed, hr_reason = Some reason\<rparr>"

fun handle_event ::
    "loc_context \<Rightarrow> hunk_event \<Rightarrow> loc_acc \<Rightarrow> hunk_record list \<times> loc_aggregate list \<times> loc_acc" where
  "handle_event ctx (HunkAdded path h) acc =
     (let r = from_hunk ctx h Added (hk_source h) in ([r], changed_aggregate ctx AgentAuthor r, acc_add r acc))"
| "handle_event ctx (HunkContentChanged path h trigger prev_added prev_removed) acc =
     (let r = (from_hunk ctx h Updated trigger)
            \<lparr>hr_added := int (new_count (line_info h)) - int prev_added,
             hr_removed := int (old_count (line_info h)) - int prev_removed\<rparr>
      in ([r], changed_aggregate ctx HumanAuthor r, acc_add r acc))"
| "handle_event ctx (HunkRemoved path i reason) acc =
     (if reason = Accepted then ([], [], acc(i := None))
      else case acc i of
             None \<Rightarrow> ([], [], acc)
           | Some sofar \<Rightarrow>
               (if sofar \<noteq> (0, 0)
                then ([reverting_record ctx path i reason sofar],
                      if lc_aggregates ctx then [LinesReverted (max (fst sofar) 0) (max (snd sofar) 0)] else [],
                      acc(i := None))
                else ([], [], acc(i := None))))"
| "handle_event ctx (HunkMoved _ _ _) acc = ([], [], acc)"
| "handle_event ctx (FileAdded _ _) acc = ([], [], acc)"
| "handle_event ctx (FileRemoved _) acc = ([], [], acc)"
| "handle_event ctx (BaselineUpdated _) acc = ([], [], acc)"

fun run_loc_sink :: "loc_context \<Rightarrow> hunk_event list \<Rightarrow> loc_acc \<Rightarrow> hunk_record list \<times> loc_aggregate list \<times> loc_acc" where
  "run_loc_sink ctx [] acc = ([], [], acc)"
| "run_loc_sink ctx (e # es) acc =
     (case handle_event ctx e acc of (rs, as, acc') \<Rightarrow>
        (case run_loc_sink ctx es acc' of (rs', as', acc'') \<Rightarrow> (rs @ rs', as @ as', acc'')))"

section \<open>Sums\<close>

text \<open>The lines a hunk's records carry, and the lines it had whenever it was adopted.\<close>

definition record_lines :: "hunk_id \<Rightarrow> hunk_record list \<Rightarrow> (int \<times> int) list" where
  "record_lines i rs = map (\<lambda>r. (hr_added r, hr_removed r)) (filter (\<lambda>r. hr_id r = i) rs)"

definition adopted_now :: "hunk_id \<Rightarrow> hunk_event \<Rightarrow> loc_acc \<Rightarrow> (int \<times> int) list" where
  "adopted_now i e acc = (case e of HunkRemoved _ j Accepted \<Rightarrow> if j = i then [acc_total acc i] else [] | _ \<Rightarrow> [])"

fun adopted_lines :: "loc_context \<Rightarrow> hunk_id \<Rightarrow> hunk_event list \<Rightarrow> loc_acc \<Rightarrow> (int \<times> int) list" where
  "adopted_lines ctx i [] acc = []"
| "adopted_lines ctx i (e # es) acc =
     adopted_now i e acc @ adopted_lines ctx i es (snd (snd (handle_event ctx e acc)))"

lemma record_lines_simps [simp]:
  "record_lines i [] = []" "record_lines i (rs @ rs') = record_lines i rs @ record_lines i rs'"
  "record_lines i [r] = (if hr_id r = i then [(hr_added r, hr_removed r)] else [])"
  by (simp_all add: record_lines_def)

lemma acc_total_upd: "acc_total (acc(j := v)) i = (if i = j then (case v of None \<Rightarrow> (0, 0) | Some n \<Rightarrow> n) else acc_total acc i)"
  by (simp add: acc_total_def)

lemma handle_event_lines:
  assumes "f = fst \<or> f = snd"
  shows "f (acc_total (snd (snd (handle_event ctx e acc))) i) + sum_list (map f (adopted_now i e acc)) =
    f (acc_total acc i) + sum_list (map f (record_lines i (fst (handle_event ctx e acc))))"
proof (cases e)
  case (HunkRemoved path j reason)
  then show ?thesis
    using assms by (cases reason; cases "acc j")
      (auto simp: acc_total_upd reverting_record_def acc_total_def adopted_now_def)
qed (use assms in \<open>auto simp: Let_def acc_add_def acc_total_upd from_hunk_def split_def adopted_now_def\<close>)

lemma run_loc_lines:
  assumes "f = fst \<or> f = snd" "run_loc_sink ctx es acc = (rs, as, acc')"
  shows "f (acc_total acc' i) + sum_list (map f (adopted_lines ctx i es acc)) =
    f (acc_total acc i) + sum_list (map f (record_lines i rs))"
  using assms(2)
proof (induction es arbitrary: acc rs as)
  case (Cons e es)
  obtain rs1 as1 acc1 where e: "handle_event ctx e acc = (rs1, as1, acc1)" by (metis prod.exhaust)
  obtain rs2 as2 acc2 where es: "run_loc_sink ctx es acc1 = (rs2, as2, acc2)" by (metis prod.exhaust)
  with Cons.prems e have "rs = rs1 @ rs2" "acc' = acc2" by auto
  with Cons.IH [of acc1 rs2 as2] handle_event_lines [OF assms(1), of ctx e acc i] e es show ?case by simp
qed simp


definition loc_demo_hunk :: hunk where
  "loc_demo_hunk = \<lparr>hk_id = 3, hk_path = ''/w/a'',
     line_info = \<lparr>old_start = 2, old_count = 1, new_start = 2, new_count = 4\<rparr>, hk_source = AgentEdit 7,
     old_text = None, new_text = [], hk_patch = None, hk_selected = False\<rparr>"

definition loc_demo_events :: "hunk_event list" where
  "loc_demo_events = [HunkAdded ''/w/a'' loc_demo_hunk, HunkContentChanged ''/w/a'' loc_demo_hunk External 6 0,
     HunkRemoved ''/w/a'' 3 Rejected, HunkAdded ''/w/a'' loc_demo_hunk, HunkRemoved ''/w/a'' 3 Accepted]"


end
