(* ===== verification/WorkspaceFs.thy ===== *)
theory WorkspaceFs
  imports RustPath Utf8
begin

text \<open>
  The file system interface of the workspace, \<open>file_system/fs.rs\<close> of \<open>xai-grok-workspace\<close>: the trait, the
  wrapper that resolves relative paths against the root, the in-memory implementation and the path
  rewriting of the remote one.
\<close>

section \<open>The interface\<close>

datatype fs_error = FsIo string | FsOther string

record 'w workspace_fs =
  wf_root :: string
  wf_exists :: "'w \<Rightarrow> string \<Rightarrow> fs_error + bool"
  wf_read :: "'w \<Rightarrow> string \<Rightarrow> fs_error + string"
  wf_try_read :: "'w \<Rightarrow> string \<Rightarrow> fs_error + string option"
  wf_write :: "string \<Rightarrow> string \<Rightarrow> 'w \<Rightarrow> fs_error option \<times> 'w"
  wf_delete :: "string \<Rightarrow> 'w \<Rightarrow> fs_error option \<times> 'w"

text \<open>The default of \<open>try_read_file\<close>.\<close>

definition default_try_read ::
    "('w \<Rightarrow> string \<Rightarrow> fs_error + bool) \<Rightarrow> ('w \<Rightarrow> string \<Rightarrow> fs_error + string) \<Rightarrow> 'w \<Rightarrow> string \<Rightarrow> fs_error + string option" where
  "default_try_read existing reading w path =
     (case existing w path of
        Inl e \<Rightarrow> Inl e
      | Inr b \<Rightarrow> (if b then map_sum id Some (reading w path) else Inr None))"

text \<open>The message of \<open>std::string::FromUtf8Error\<close>.\<close>

function valid_up_to :: "string \<Rightarrow> nat" where
  "valid_up_to [] = 0"
| "valid_up_to (c # cs) =
     (if snd (utf8_step (c # cs))
      then fst (utf8_step (c # cs)) + valid_up_to (drop (fst (utf8_step (c # cs))) (c # cs)) else 0)"
  by pat_completeness auto
termination
  by (relation "measure length") (simp_all add: utf8_step_pos drop_Cons')

definition from_utf8_error :: "string \<Rightarrow> string" where
  "from_utf8_error bytes =
     (let i = valid_up_to bytes; rest = drop i bytes; n = fst (utf8_step rest)
      in if utf8_lead (of_char (hd rest)) \<noteq> None \<and> n = length rest
         then ''incomplete utf-8 byte sequence from index '' @ decimal i
         else ''invalid utf-8 sequence of '' @ decimal n @ '' bytes from index '' @ decimal i)"

definition bytes_to_string :: "string \<Rightarrow> fs_error + string" where
  "bytes_to_string bytes =
     (if valid_utf8 bytes then Inr bytes else Inl (FsOther (from_utf8_error bytes)))"

section \<open>The wrapper\<close>

text \<open>\<open>ToAbsPath\<close> of a path: an absolute one stands for itself.\<close>

definition to_abs_path :: "string \<Rightarrow> string \<Rightarrow> string" where
  "to_abs_path root path = (if path_is_absolute path then path else path_join root path)"

definition try_read_to_string :: "'w workspace_fs \<Rightarrow> 'w \<Rightarrow> string \<Rightarrow> fs_error + string option" where
  "try_read_to_string fs w path =
     (case wf_try_read fs w path of
        Inl e \<Rightarrow> Inl e
      | Inr None \<Rightarrow> Inr None
      | Inr (Some bytes) \<Rightarrow> map_sum id Some (bytes_to_string bytes))"

section \<open>The contract\<close>

text \<open>A read that succeeds shows the file, a file that is there exists, and a write or deletion that
  succeeds changes its own file only.  Directories may exist without being files.\<close>

locale workspace_store =
  fixes fs :: "'w workspace_fs"
    and contents :: "'w \<Rightarrow> string list \<Rightarrow> string option"
  assumes try_read_law: "wf_try_read fs w p = Inr r \<Longrightarrow> contents w (path_components p) = r"
    and exists_law: "wf_exists fs w p = Inr False \<Longrightarrow> contents w (path_components p) = None"
    and ws_write_law: "wf_write fs p d w = (None, w') \<Longrightarrow> contents w' = (contents w)(path_components p \<mapsto> d)"
    and ws_delete_law: "wf_delete fs p w = (None, w') \<Longrightarrow> contents w' = (contents w)(path_components p := None)"
    and ws_write_frame: "wf_write fs p d w = (Some e, w') \<Longrightarrow> k \<noteq> path_components p \<Longrightarrow> contents w' k = contents w k"
    and ws_delete_frame: "wf_delete fs p w = (Some e, w') \<Longrightarrow> k \<noteq> path_components p \<Longrightarrow> contents w' k = contents w k"
begin

lemma try_read_string_law:
  "try_read_to_string fs w p = Inr r \<Longrightarrow> contents w (path_components p) = r"
  by (auto simp: try_read_to_string_def bytes_to_string_def split: sum.splits option.splits if_split_asm
      dest!: try_read_law)

end

section \<open>The in-memory implementation\<close>

type_synonym mock_files = "string list \<Rightarrow> string option"

definition mock_ws_exists :: "mock_files \<Rightarrow> string \<Rightarrow> fs_error + bool" where
  "mock_ws_exists files path = Inr (files (path_components path) \<noteq> None)"

definition mock_ws_read :: "mock_files \<Rightarrow> string \<Rightarrow> fs_error + string" where
  "mock_ws_read files path =
     (case files (path_components path) of Some d \<Rightarrow> Inr d | None \<Rightarrow> Inl (FsIo ''File not found''))"

definition mock_ws_try_read :: "mock_files \<Rightarrow> string \<Rightarrow> fs_error + string option" where
  "mock_ws_try_read files path = Inr (files (path_components path))"

definition mock_ws_write :: "string \<Rightarrow> string \<Rightarrow> mock_files \<Rightarrow> fs_error option \<times> mock_files" where
  "mock_ws_write path data files = (None, files(path_components path \<mapsto> data))"

definition mock_ws_delete :: "string \<Rightarrow> mock_files \<Rightarrow> fs_error option \<times> mock_files" where
  "mock_ws_delete path files = (None, files(path_components path := None))"

definition mock_workspace_fs :: "string \<Rightarrow> mock_files workspace_fs" where
  "mock_workspace_fs root =
     \<lparr>wf_root = root, wf_exists = mock_ws_exists, wf_read = mock_ws_read, wf_try_read = mock_ws_try_read,
      wf_write = mock_ws_write, wf_delete = mock_ws_delete\<rparr>"

interpretation mock_ws: workspace_store "mock_workspace_fs root" "\<lambda>files. files" for root
  by unfold_locales
    (auto simp: mock_workspace_fs_def mock_ws_exists_def mock_ws_read_def mock_ws_try_read_def
      mock_ws_write_def mock_ws_delete_def)

text \<open>Its own \<open>try_read_file\<close> is one lookup where the default makes two, with the same result.\<close>

lemma mock_try_read_is_default: "mock_ws_try_read = default_try_read mock_ws_exists mock_ws_read"
  by (intro ext) (auto simp: mock_ws_try_read_def default_try_read_def mock_ws_exists_def mock_ws_read_def)

section \<open>The remote implementation\<close>

text \<open>\<open>AcpSessionFs\<close> sends every path under the displayed directory to the overlay below its root.\<close>

definition resolve_path :: "string \<Rightarrow> string option \<Rightarrow> string \<Rightarrow> string" where
  "resolve_path root display_cwd path =
     (case display_cwd of
        None \<Rightarrow> path
      | Some display \<Rightarrow>
          (case path_strip_prefix path display of
             Some rest \<Rightarrow> path_join root rest
           | None \<Rightarrow> path))"

lemma resolve_under_display:
  assumes "path_is_absolute root" "path_is_absolute display" "path_is_absolute path"
    "path_strip_prefix path display = Some rest"
  shows "path_components (resolve_path root (Some display) path) = path_components root @ kept_segments rest"
  using assms strip_prefix_join [OF assms(2,4,3)] by (simp add: resolve_path_def join_absolute)

end
