(* ===== verification/RewindPoints.thy ===== *)
theory RewindPoints
  imports WorkspaceFs "HOL-Library.AList"
begin

text \<open>
  The rewind points of a session, \<open>session/file_state.rs\<close>: per prompt, the contents of the files it
  touched before and after.  A hash map is an association list, whose order stands for the
  unspecified one of its iteration.  Times are seconds; the current one is an argument.
\<close>

section \<open>Paths\<close>

text \<open>\<open>RelPathBuf\<close> of \<open>xai-grok-paths\<close>, and the paths of the snapshots.\<close>

definition rel_path_new :: "string \<Rightarrow> string option" where
  "rel_path_new path = (if path_is_absolute path \<or> \<not> valid_utf8 path then None else Some path)"

definition rel_from_absolute :: "string \<Rightarrow> string \<Rightarrow> string option" where
  "rel_from_absolute root abs_path = Option.bind (path_strip_prefix abs_path root) rel_path_new"

datatype flexible_path = Relative string | Absolute string

fun as_str :: "flexible_path \<Rightarrow> string" where
  "as_str (Relative p) = p"
| "as_str (Absolute p) = p"

fun to_absolute :: "flexible_path \<Rightarrow> string \<Rightarrow> string" where
  "to_absolute (Relative p) root = path_join root p"
| "to_absolute (Absolute p) root = p"

fun try_to_relative :: "string \<Rightarrow> flexible_path \<Rightarrow> flexible_path" where
  "try_to_relative root (Relative p) = Relative p"
| "try_to_relative root (Absolute p) =
     (case rel_from_absolute root p of Some rel \<Rightarrow> Relative rel | None \<Rightarrow> Absolute p)"

definition flexible_of_string :: "string \<Rightarrow> flexible_path" where
  "flexible_of_string s = (case rel_path_new s of Some rel \<Rightarrow> Relative rel | None \<Rightarrow> Absolute s)"

section \<open>Snapshots and points\<close>

record snapshot =
  fsn_path :: flexible_path
  fsn_content :: "string option"
  fsn_at :: nat

type_synonym snapshots = "(flexible_path \<times> snapshot) list"

record rewind_point =
  rp_index :: nat
  rp_created :: nat
  rp_files :: snapshots
  rp_after :: snapshots

definition snapshot_new :: "nat \<Rightarrow> string \<Rightarrow> string option \<Rightarrow> snapshot" where
  "snapshot_new now path content = \<lparr>fsn_path = Relative path, fsn_content = content, fsn_at = now\<rparr>"

definition snapshot_flexible :: "nat \<Rightarrow> flexible_path \<Rightarrow> string option \<Rightarrow> snapshot" where
  "snapshot_flexible now path content = \<lparr>fsn_path = path, fsn_content = content, fsn_at = now\<rparr>"

definition point_new :: "nat \<Rightarrow> nat \<Rightarrow> rewind_point" where
  "point_new now i = \<lparr>rp_index = i, rp_created = now, rp_files = [], rp_after = []\<rparr>"

text \<open>\<open>entry(k).or_insert(v)\<close>.\<close>

definition or_insert :: "'k \<Rightarrow> 'v \<Rightarrow> ('k \<times> 'v) list \<Rightarrow> ('k \<times> 'v) list" where
  "or_insert k v m = (case map_of m k of None \<Rightarrow> AList.update k v m | Some _ \<Rightarrow> m)"

definition add_snapshot :: "snapshot \<Rightarrow> rewind_point \<Rightarrow> rewind_point" where
  "add_snapshot s p = p\<lparr>rp_files := or_insert (fsn_path s) s (rp_files p)\<rparr>"

definition set_after_snapshot :: "snapshot \<Rightarrow> rewind_point \<Rightarrow> rewind_point" where
  "set_after_snapshot s p = p\<lparr>rp_after := AList.update (fsn_path s) s (rp_after p)\<rparr>"

definition normalize_snapshots :: "string \<Rightarrow> snapshots \<Rightarrow> snapshots" where
  "normalize_snapshots root m =
     fold (\<lambda>(path, s) m'. let path' = try_to_relative root path in AList.update path' (s\<lparr>fsn_path := path'\<rparr>) m') m []"

definition point_normalize :: "string \<Rightarrow> rewind_point \<Rightarrow> rewind_point" where
  "point_normalize root p =
     p\<lparr>rp_files := normalize_snapshots root (rp_files p), rp_after := normalize_snapshots root (rp_after p)\<rparr>"

section \<open>The file of earlier points\<close>

datatype open_result = OpenMissing | OpenError string | OpenBytes string

text \<open>\<open>BufRead::read_line\<close>: the text up to and including the next newline, which must be UTF-8.\<close>

fun raw_lines :: "string \<Rightarrow> string list" where
  "raw_lines [] = []"
| "raw_lines (c # cs) =
     (if c = CHR 10 then [c] # raw_lines cs
      else (case raw_lines cs of
              [] \<Rightarrow> [[c]]
            | l # ls \<Rightarrow> (c # l) # ls))"

text \<open>A line that is not UTF-8 fails the whole read; one that does not parse is skipped.  The JSON
  parser is an argument.\<close>

fun parse_jsonl :: "(string \<Rightarrow> 'a option) \<Rightarrow> string list \<Rightarrow> string + 'a list" where
  "parse_jsonl parse [] = Inr []"
| "parse_jsonl parse (l # ls) =
     (if \<not> valid_utf8 l then Inl ''stream did not contain valid UTF-8''
      else map_sum id
             (\<lambda>rest. if trim l = [] then rest
                     else case parse (trim l) of Some v \<Rightarrow> v # rest | None \<Rightarrow> rest)
             (parse_jsonl parse ls))"

definition read_rewind_jsonl_lines :: "(string \<Rightarrow> 'a option) \<Rightarrow> open_result \<Rightarrow> string + 'a list" where
  "read_rewind_jsonl_lines parse file =
     (case file of
        OpenMissing \<Rightarrow> Inr []
      | OpenError e \<Rightarrow> Inl e
      | OpenBytes bytes \<Rightarrow> parse_jsonl parse (raw_lines bytes))"

record point_meta =
  pm_index :: nat
  pm_created :: nat
  pm_snapshots :: nat

section \<open>Folding points into their predecessor\<close>

text \<open>\<open>dedup_by_key\<close> on a sorted list keeps the first of each run.\<close>

fun dedup_by :: "('a \<Rightarrow> 'k) \<Rightarrow> 'a list \<Rightarrow> 'a list" where
  "dedup_by key (x # y # ys) =
     (if key x = key y then dedup_by key (x # ys) else x # dedup_by key (y # ys))"
| "dedup_by key xs = xs"

definition merge_point :: "rewind_point \<Rightarrow> rewind_point \<Rightarrow> rewind_point" where
  "merge_point merged previous =
     previous\<lparr>rp_files := fold (\<lambda>(path, s). or_insert path s) (rp_files merged) (rp_files previous),
       rp_after := fold (\<lambda>(path, s). AList.update path s) (rp_after merged) (rp_after previous)\<rparr>"

definition merge_rewind_points_from :: "rewind_point list \<Rightarrow> nat \<Rightarrow> rewind_point list" where
  "merge_rewind_points_from points target =
     (if target = 0 then []
      else let sorted = dedup_by rp_index (sort_key rp_index points);
               kept = takeWhile (\<lambda>p. rp_index p < target) sorted;
               merged = dropWhile (\<lambda>p. rp_index p < target) sorted
           in map (\<lambda>p. if rp_index p = target - 1 then fold merge_point merged p else p) kept)"

section \<open>The tracker\<close>

record file_tracker =
  ft_points :: "(nat \<times> rewind_point) list"
  ft_current :: "nat option"
  ft_source :: "string option"

definition file_tracker_new :: file_tracker where
  "file_tracker_new = \<lparr>ft_points = [], ft_current = None, ft_source = None\<rparr>"

definition with_lazy_source :: "string \<Rightarrow> file_tracker" where
  "with_lazy_source path = \<lparr>ft_points = [], ft_current = None, ft_source = Some path\<rparr>"

text \<open>What the tracker reads from outside: the file of earlier points, as points or as metadata.\<close>

record history =
  hi_open :: "string \<Rightarrow> open_result"
  hi_point :: "string \<Rightarrow> rewind_point option"
  hi_meta :: "string \<Rightarrow> point_meta option"

definition ensure_historical_loaded :: "history \<Rightarrow> file_tracker \<Rightarrow> file_tracker" where
  "ensure_historical_loaded H t =
     (case ft_source t of
        None \<Rightarrow> t
      | Some path \<Rightarrow>
          (case read_rewind_jsonl_lines (hi_point H) (hi_open H path) of
             Inl _ \<Rightarrow> t
           | Inr loaded \<Rightarrow>
               t\<lparr>ft_points := fold (\<lambda>p. or_insert (rp_index p) p) loaded (ft_points t), ft_source := None\<rparr>))"

definition begin_prompt :: "nat \<Rightarrow> nat \<Rightarrow> file_tracker \<Rightarrow> file_tracker" where
  "begin_prompt now i t = t\<lparr>ft_current := Some i, ft_points := or_insert i (point_new now i) (ft_points t)\<rparr>"

text \<open>An unreadable file counts as absent.\<close>

definition after_content :: "'w workspace_fs \<Rightarrow> 'w \<Rightarrow> flexible_path \<Rightarrow> string option" where
  "after_content fs w path =
     (case try_read_to_string fs w (to_abs_path (wf_root fs) (as_str path)) of Inl _ \<Rightarrow> None | Inr c \<Rightarrow> c)"

definition end_prompt :: "'w workspace_fs \<Rightarrow> 'w \<Rightarrow> nat \<Rightarrow> nat \<Rightarrow> file_tracker \<Rightarrow> file_tracker" where
  "end_prompt fs w now i t =
     (let t = t\<lparr>ft_current := None\<rparr>
      in case map_of (ft_points t) i of
           None \<Rightarrow> t
         | Some point \<Rightarrow>
             t\<lparr>ft_points := AList.update i
                 (fold (\<lambda>path. set_after_snapshot (snapshot_flexible now path (after_content fs w path)))
                    (map fst (rp_files point)) point) (ft_points t)\<rparr>)"

definition update_point :: "nat \<Rightarrow> (rewind_point \<Rightarrow> rewind_point) \<Rightarrow> file_tracker \<Rightarrow> file_tracker" where
  "update_point i f t =
     (case map_of (ft_points t) i of
        None \<Rightarrow> t
      | Some p \<Rightarrow> t\<lparr>ft_points := AList.update i (f p) (ft_points t)\<rparr>)"

text \<open>Before a file is read or written.  Outside the working directory, and outside a prompt, nothing
  is captured; a file that cannot be read fails the capture.\<close>

definition capture_file_state ::
    "'w workspace_fs \<Rightarrow> 'w \<Rightarrow> nat \<Rightarrow> string \<Rightarrow> string \<Rightarrow> file_tracker \<Rightarrow> fs_error option \<times> file_tracker" where
  "capture_file_state fs w now path cwd t =
     (case rel_from_absolute cwd path of
        None \<Rightarrow> (None, t)
      | Some rel \<Rightarrow>
          (case ft_current t of
             None \<Rightarrow> (None, t)
           | Some i \<Rightarrow>
               (case wf_try_read fs w path of
                  Inl e \<Rightarrow> (Some e, t)
                | Inr bytes \<Rightarrow>
                    (case (case bytes of None \<Rightarrow> Inr None | Some b \<Rightarrow> map_sum id Some (bytes_to_string b)) of
                       Inl e \<Rightarrow> (Some e, t)
                     | Inr content \<Rightarrow> (None, update_point i (add_snapshot (snapshot_new now rel content)) t)))))"

definition add_before_snapshot_for_prompt ::
    "nat \<Rightarrow> nat \<Rightarrow> string \<Rightarrow> string \<Rightarrow> string option \<Rightarrow> file_tracker \<Rightarrow> file_tracker" where
  "add_before_snapshot_for_prompt now i path cwd content t =
     (case rel_from_absolute cwd path of
        None \<Rightarrow> t
      | Some rel \<Rightarrow>
          update_point i (add_snapshot (snapshot_new now rel content))
            (t\<lparr>ft_points := or_insert i (point_new now i) (ft_points t)\<rparr>))"

definition sorted_points :: "file_tracker \<Rightarrow> rewind_point list" where
  "sorted_points t = sort_key rp_index (map snd (ft_points t))"

definition get_rewind_points :: "history \<Rightarrow> file_tracker \<Rightarrow> rewind_point list \<times> file_tracker" where
  "get_rewind_points H t = (let t' = ensure_historical_loaded H t in (sorted_points t', t'))"

definition get_rewind_point_metas :: "history \<Rightarrow> file_tracker \<Rightarrow> point_meta list" where
  "get_rewind_point_metas H t =
     (let live = fold (\<lambda>(_, p). AList.update (rp_index p)
                    \<lparr>pm_index = rp_index p, pm_created = rp_created p, pm_snapshots = length (rp_files p)\<rparr>)
                  (ft_points t) [];
          metas = (case ft_source t of
                     None \<Rightarrow> live
                   | Some path \<Rightarrow>
                       (case read_rewind_jsonl_lines (hi_meta H) (hi_open H path) of
                          Inl _ \<Rightarrow> live
                        | Inr scanned \<Rightarrow> fold (\<lambda>m. or_insert (pm_index m) m) scanned live))
      in sort_key pm_index (map snd metas))"

definition get_rewind_point :: "nat \<Rightarrow> file_tracker \<Rightarrow> rewind_point option" where
  "get_rewind_point i t = map_of (ft_points t) i"

definition truncate_from :: "history \<Rightarrow> nat \<Rightarrow> file_tracker \<Rightarrow> file_tracker" where
  "truncate_from H i t =
     (let t = ensure_historical_loaded H t
      in t\<lparr>ft_points := filter (\<lambda>(j, _). j < i) (ft_points t)\<rparr>)"

definition merge_and_remove_from :: "history \<Rightarrow> nat \<Rightarrow> file_tracker \<Rightarrow> file_tracker" where
  "merge_and_remove_from H i t =
     (let t = ensure_historical_loaded H t
      in t\<lparr>ft_points := fold (\<lambda>p. AList.update (rp_index p) p)
             (merge_rewind_points_from (map snd (ft_points t)) i) []\<rparr>)"

definition max_prompt_index :: "history \<Rightarrow> file_tracker \<Rightarrow> nat option" where
  "max_prompt_index H t =
     (let keys = map fst (ft_points (ensure_historical_loaded H t))
      in if keys = [] then None else Some (Max (set keys)))"

definition normalize_all_to_relative :: "history \<Rightarrow> string \<Rightarrow> file_tracker \<Rightarrow> file_tracker" where
  "normalize_all_to_relative H root t =
     (let t = ensure_historical_loaded H t
      in t\<lparr>ft_points := map (\<lambda>(i, p). (i, point_normalize root p)) (ft_points t)\<rparr>)"

definition get_rewind_points_normalized :: "history \<Rightarrow> string \<Rightarrow> file_tracker \<Rightarrow> rewind_point list" where
  "get_rewind_points_normalized H root t =
     sort_key rp_index (map (point_normalize root \<circ> snd) (ft_points (ensure_historical_loaded H t)))"

end
