(* ===== verification/FileRewind.thy ===== *)
theory FileRewind
  imports RewindPoints ApplyPatchTool
begin

text \<open>
  Undoing prompts on disk: \<open>rewind_files\<close> of the workspace, the file half of \<open>handle_rewind\<close> in the shell
  (\<open>acp_session_impl/rewind.rs\<close>), and the bridge that turns the tools' notifications into snapshots
  (\<open>tools/notification_bridge.rs\<close>).
\<close>

section \<open>What to revert\<close>

text \<open>For each file the earliest content before a prompt that is to be undone.\<close>

definition files_to_revert :: "rewind_point list \<Rightarrow> nat \<Rightarrow> (flexible_path \<times> string option) list" where
  "files_to_revert points target =
     fold (\<lambda>point. fold (\<lambda>(path, before). or_insert path (fsn_content before)) (rp_files point))
       (filter (\<lambda>p. target \<le> rp_index p) points) []"

datatype conflict_type = DeletedExternally | CreatedExternally | ModifiedExternally

fun find_map :: "('a \<Rightarrow> 'b option) \<Rightarrow> 'a list \<Rightarrow> 'b option" where
  "find_map f [] = None"
| "find_map f (x # xs) = (case f x of Some y \<Rightarrow> Some y | None \<Rightarrow> find_map f xs)"

text \<open>What the agent last left of a file: by the latest point that knows it.\<close>

definition last_after :: "rewind_point list \<Rightarrow> flexible_path \<Rightarrow> string option" where
  "last_after points path =
     Option.bind (find_map (\<lambda>p. map_of (rp_after p) path) (rev points)) fsn_content"

definition conflict_of :: "string option \<Rightarrow> string option \<Rightarrow> conflict_type option" where
  "conflict_of current after =
     (if current = after then None
      else Some (if current = None \<and> after \<noteq> None then DeletedExternally
                 else if current \<noteq> None \<and> after = None then CreatedExternally
                 else ModifiedExternally))"

definition current_content :: "'w workspace_fs \<Rightarrow> 'w \<Rightarrow> flexible_path \<Rightarrow> string option" where
  "current_content fs w path =
     (case try_read_to_string fs w (to_absolute path (wf_root fs)) of Inl _ \<Rightarrow> None | Inr c \<Rightarrow> c)"

text \<open>Writing a content back.  A file whose existence cannot be told is taken to be absent.\<close>

definition revert_file :: "'w workspace_fs \<Rightarrow> flexible_path \<Rightarrow> string option \<Rightarrow> 'w \<Rightarrow> fs_error option \<times> 'w" where
  "revert_file fs path content w =
     (let p = to_absolute path (wf_root fs)
      in case content of
           Some data \<Rightarrow> wf_write fs p data w
         | None \<Rightarrow> (if wf_exists fs w p = Inr True then wf_delete fs p w else (None, w)))"

section \<open>The workspace's rewind\<close>

record rewind_response =
  rr_success :: bool
  rr_target :: nat
  rr_reverted :: "string list"
  rr_clean :: "string list"
  rr_conflicts :: "(string \<times> conflict_type) list"
  rr_error :: "string option"

text \<open>The loop: reverted, clean and conflicting files, whether a file failed, and the disk.\<close>

fun rewind_loop ::
    "'w workspace_fs \<Rightarrow> rewind_point list \<Rightarrow> (flexible_path \<times> string option) list \<Rightarrow> 'w \<Rightarrow>
     string list \<times> string list \<times> (string \<times> conflict_type) list \<times> bool \<times> 'w" where
  "rewind_loop fs points [] w = ([], [], [], False, w)"
| "rewind_loop fs points ((path, content) # rest) w =
     (let found = conflict_of (current_content fs w path) (last_after points path);
          (failed, w') = revert_file fs path content w;
          (reverted, clean, conflicts, errors, w'') = rewind_loop fs points rest w'
      in ((if failed = None then [as_str path] else []) @ reverted,
          (if found = None then [as_str path] else []) @ clean,
          (case found of Some c \<Rightarrow> [(as_str path, c)] | None \<Rightarrow> []) @ conflicts,
          failed \<noteq> None \<or> errors, w''))"

text \<open>The order in which the map of files is iterated is the argument \<open>order\<close>.\<close>

definition rewind_files ::
    "((flexible_path \<times> string option) list \<Rightarrow> (flexible_path \<times> string option) list) \<Rightarrow> history \<Rightarrow>
     'w workspace_fs \<Rightarrow> nat \<Rightarrow> file_tracker \<Rightarrow> 'w \<Rightarrow> rewind_response \<times> file_tracker \<times> 'w" where
  "rewind_files order H fs target t w =
     (let (points, t') = get_rewind_points H t;
          (reverted, clean, conflicts, errors, w') =
            rewind_loop fs points (order (files_to_revert points target)) w
      in (\<lparr>rr_success = \<not> errors, rr_target = target, rr_reverted = reverted, rr_clean = clean,
           rr_conflicts = conflicts,
           rr_error = (if errors then Some ''Some files could not be reverted'' else None)\<rparr>,
          if errors then t' else truncate_from H target t', w'))"

section \<open>The shell's rewind, files only\<close>

text \<open>The preview, a dry run.\<close>

definition preview_files ::
    "'w workspace_fs \<Rightarrow> rewind_point list \<Rightarrow> (flexible_path \<times> string option) list \<Rightarrow> 'w \<Rightarrow>
     string list \<times> (string \<times> conflict_type) list" where
  "preview_files fs points files w =
     (let verdict = (\<lambda>path. conflict_of (current_content fs w path) (last_after points path))
      in (map as_str (filter (\<lambda>path. verdict path = None) (map fst files)),
          List.map_filter (\<lambda>path. map_option (Pair (as_str path)) (verdict path)) (map fst files)))"

text \<open>The commit: a failed write is skipped, a failed deletion counts as reverted.\<close>

fun commit_files ::
    "'w workspace_fs \<Rightarrow> (flexible_path \<times> string option) list \<Rightarrow> 'w \<Rightarrow> string list \<times> 'w" where
  "commit_files fs [] w = ([], w)"
| "commit_files fs ((path, content) # rest) w =
     (let (failed, w') = revert_file fs path content w;
          (reverted, w'') = commit_files fs rest w'
      in ((if failed \<noteq> None \<and> content \<noteq> None then [] else [as_str path]) @ reverted, w''))"

section \<open>The bridge\<close>

text \<open>A tool's notification of a write becomes a snapshot of the file before the current prompt, if the
  content before it is known or the file is new.\<close>

definition file_written_to_tracker :: "nat \<Rightarrow> nat \<Rightarrow> string \<Rightarrow> file_written \<Rightarrow> file_tracker \<Rightarrow> file_tracker" where
  "file_written_to_tracker now prompt cwd n t =
     (if fw_previous n \<noteq> None \<or> fw_is_new n
      then add_before_snapshot_for_prompt now prompt (fw_path n) cwd (fw_previous n) t else t)"

end
