(* ===== verification/FileRewindSpec.thy ===== *)
theory FileRewindSpec
  imports FileRewind ApplyPatchSpec
begin

text \<open>
  What rewinding files guarantees: a rewind puts back the earliest content known from the prompts it
  undoes and nothing else; after any prompts of patches that say what they replaced, it restores the
  files of the prompt it goes back to; folding points into their predecessor keeps every earlier
  rewind.  Where it falls short is stated too.
\<close>

section \<open>Which content is put back\<close>

lemma map_of_or_insert: "map_of (or_insert k v m) x = (if x = k \<and> map_of m k = None then Some v else map_of m x)"
  by (auto simp: or_insert_def update_conv' split: option.split)

lemma map_of_fold_or_insert:
  "map_of (fold (\<lambda>(k, v). or_insert k (f v)) xs m) k =
     (case map_of m k of Some v \<Rightarrow> Some v | None \<Rightarrow> map_option f (map_of xs k))"
  by (induction xs arbitrary: m) (auto simp: map_of_or_insert split: option.split)

definition before_of :: "flexible_path \<Rightarrow> rewind_point \<Rightarrow> string option option" where
  "before_of path p = map_option fsn_content (map_of (rp_files p) path)"

lemma files_to_revert_find:
  "map_of (files_to_revert ps k) path = find_map (before_of path) (filter (\<lambda>p. k \<le> rp_index p) ps)"
proof -
  have "map_of (fold (\<lambda>point. fold (\<lambda>(path, before). or_insert path (fsn_content before)) (rp_files point)) qs m) path =
      (case map_of m path of Some v \<Rightarrow> Some v | None \<Rightarrow> find_map (before_of path) qs)" for qs m
  proof (induction qs arbitrary: m)
    case (Cons q qs)
    show ?case
      unfolding fold_Cons comp_apply Cons.IH map_of_fold_or_insert
      by (cases "map_of m path"; cases "map_of (rp_files q) path") (simp_all add: before_of_def)
  qed (simp split: option.split)
  then show ?thesis by (simp add: files_to_revert_def)
qed

lemma distinct_files_to_revert: "distinct (map fst (files_to_revert ps k))"
proof -
  have one: "distinct (map fst (or_insert a b m))" if "distinct (map fst m)"
    for a :: 'a and b :: 'b and m using that by (auto simp: or_insert_def distinct_update split: option.split)
  have "distinct (map fst (fold (\<lambda>(path, before). or_insert path (fsn_content before)) xs m))"
    if "distinct (map fst m)" for xs :: snapshots and m using that by (induction xs arbitrary: m) (auto simp: one)
  then have "distinct (map fst (fold (\<lambda>point. fold (\<lambda>(path, before). or_insert path (fsn_content before)) (rp_files point)) qs m))"
    if "distinct (map fst m)" for qs :: "rewind_point list" and m using that by (induction qs arbitrary: m) auto
  then show ?thesis by (simp add: files_to_revert_def)
qed

text \<open>The points of a tracker: one per prompt.\<close>

definition points_ok :: "file_tracker \<Rightarrow> bool" where
  "points_ok t \<longleftrightarrow> distinct (map fst (ft_points t)) \<and> (\<forall>j p. map_of (ft_points t) j = Some p \<longrightarrow> rp_index p = j)"

lemma find_map_sorted:
  assumes "sorted_wrt (\<lambda>p q. rp_index p < rp_index q) ps"
  shows "find_map f ps = Some y \<longleftrightarrow>
    (\<exists>p \<in> set ps. f p = Some y \<and> (\<forall>q \<in> set ps. rp_index q < rp_index p \<longrightarrow> f q = None))"
  using assms
proof (induction ps)
  case (Cons p ps)
  show ?case
  proof (cases "f p")
    case None
    with Cons show ?thesis by auto
  next
    case (Some z)
    have less: "rp_index p < rp_index q" if "q \<in> set ps" for q using Cons.prems that by simp
    show ?thesis
    proof
      assume "find_map f (p # ps) = Some y"
      with Some have "z = y" by simp
      moreover have "\<not> rp_index q < rp_index p" if "q \<in> set (p # ps)" for q
        using that less [of q] by (cases "q = p") auto
      ultimately show "\<exists>p' \<in> set (p # ps). f p' = Some y \<and> (\<forall>q \<in> set (p # ps). rp_index q < rp_index p' \<longrightarrow> f q = None)"
        using Some by (intro bexI [of _ p]) auto
    next
      assume "\<exists>p' \<in> set (p # ps). f p' = Some y \<and> (\<forall>q \<in> set (p # ps). rp_index q < rp_index p' \<longrightarrow> f q = None)"
      then obtain p' where p': "p' \<in> set (p # ps)" "f p' = Some y"
        "\<forall>q \<in> set (p # ps). rp_index q < rp_index p' \<longrightarrow> f q = None" by blast
      have "p' = p"
      proof (rule ccontr)
        assume "p' \<noteq> p"
        with p'(1) less have "rp_index p < rp_index p'" by simp
        with p'(3) Some show False by simp
      qed
      with p'(2) show "find_map f (p # ps) = Some y" by simp
    qed
  qed
qed simp

lemma sorted_points_facts:
  assumes "points_ok t"
  shows "sorted_wrt (\<lambda>p q. rp_index p < rp_index q) (sorted_points t)"
    "p \<in> set (sorted_points t) \<longleftrightarrow> map_of (ft_points t) (rp_index p) = Some p"
proof -
  have index: "map_of (ft_points t) j = Some p \<Longrightarrow> rp_index p = j" for j p
    using assms by (auto simp: points_ok_def)
  have dist: "distinct (map fst (ft_points t))" using assms by (simp add: points_ok_def)
  have mem: "(j, p) \<in> set (ft_points t) \<longleftrightarrow> map_of (ft_points t) j = Some p" for j p
    using dist by (simp add: map_of_eq_Some_iff)
  show "p \<in> set (sorted_points t) \<longleftrightarrow> map_of (ft_points t) (rp_index p) = Some p"
  proof -
    have "p \<in> set (sorted_points t) \<longleftrightarrow> (\<exists>j. (j, p) \<in> set (ft_points t))"
      unfolding sorted_points_def set_sort set_map image_iff by (metis prod.collapse snd_conv)
    also have "\<dots> \<longleftrightarrow> (\<exists>j. map_of (ft_points t) j = Some p)" by (simp only: mem)
    also have "\<dots> \<longleftrightarrow> map_of (ft_points t) (rp_index p) = Some p" using index by blast
    finally show ?thesis .
  qed
  have "map rp_index (map snd (ft_points t)) = map fst (ft_points t)"
    unfolding map_map comp_def by (rule map_cong) (use index mem in auto)
  then have "distinct (map rp_index (map snd (ft_points t)))" using dist by (simp only:)
  then have "distinct (map rp_index (sorted_points t))"
    unfolding sorted_points_def by (metis distinct_sort mset_eq_imp_distinct_iff mset_map mset_sort)
  moreover have "sorted (map rp_index (sorted_points t))" by (simp add: sorted_points_def)
  ultimately have "sorted_wrt (<) (map rp_index (sorted_points t))" by (simp add: strict_sorted_iff)
  then show "sorted_wrt (\<lambda>p q. rp_index p < rp_index q) (sorted_points t)" by (simp add: sorted_wrt_map)
qed

lemma sorted_wrt_filter_points:
  "sorted_wrt P xs \<Longrightarrow> sorted_wrt P (filter Q xs)"
  by (induction xs) auto

text \<open>The content put back is that of the earliest prompt from \<open>k\<close> on which knows the file.\<close>

lemma files_to_revert_iff:
  assumes "points_ok t"
  shows "map_of (files_to_revert (sorted_points t) k) path = Some c \<longleftrightarrow>
    (\<exists>j p. k \<le> j \<and> map_of (ft_points t) j = Some p \<and> before_of path p = Some c \<and>
      (\<forall>i q. k \<le> i \<and> i < j \<and> map_of (ft_points t) i = Some q \<longrightarrow> before_of path q = None))"
proof -
  have index: "map_of (ft_points t) j = Some p \<Longrightarrow> rp_index p = j" for j p
    using assms by (auto simp: points_ok_def)
  note facts = sorted_points_facts [OF assms]
  have mem: "p \<in> set (filter (\<lambda>p. k \<le> rp_index p) (sorted_points t)) \<longleftrightarrow>
      k \<le> rp_index p \<and> map_of (ft_points t) (rp_index p) = Some p" for p
    by (auto simp: facts(2))
  have find: "map_of (files_to_revert (sorted_points t) k) path = Some c \<longleftrightarrow>
      (\<exists>p. k \<le> rp_index p \<and> map_of (ft_points t) (rp_index p) = Some p \<and> before_of path p = Some c \<and>
        (\<forall>q. k \<le> rp_index q \<and> map_of (ft_points t) (rp_index q) = Some q \<and> rp_index q < rp_index p \<longrightarrow>
          before_of path q = None))"
    unfolding files_to_revert_find find_map_sorted [OF sorted_wrt_filter_points [OF facts(1)]] Bex_def Ball_def mem
    by (simp only: conj_assoc imp_conjL)
  show ?thesis
  proof
    assume "map_of (files_to_revert (sorted_points t) k) path = Some c"
    then obtain p where "k \<le> rp_index p" "map_of (ft_points t) (rp_index p) = Some p" "before_of path p = Some c"
      "\<And>q. k \<le> rp_index q \<and> map_of (ft_points t) (rp_index q) = Some q \<and> rp_index q < rp_index p \<Longrightarrow> before_of path q = None"
      unfolding find by blast
    with index show "\<exists>j p. k \<le> j \<and> map_of (ft_points t) j = Some p \<and> before_of path p = Some c \<and>
      (\<forall>i q. k \<le> i \<and> i < j \<and> map_of (ft_points t) i = Some q \<longrightarrow> before_of path q = None)"
      by (intro exI [of _ "rp_index p"] exI [of _ p]) metis
  next
    assume "\<exists>j p. k \<le> j \<and> map_of (ft_points t) j = Some p \<and> before_of path p = Some c \<and>
      (\<forall>i q. k \<le> i \<and> i < j \<and> map_of (ft_points t) i = Some q \<longrightarrow> before_of path q = None)"
    then obtain j p where "k \<le> j" "map_of (ft_points t) j = Some p" "before_of path p = Some c"
      "\<And>i q. k \<le> i \<Longrightarrow> i < j \<Longrightarrow> map_of (ft_points t) i = Some q \<Longrightarrow> before_of path q = None" by blast
    moreover from this index have "rp_index p = j" by blast
    ultimately show "map_of (files_to_revert (sorted_points t) k) path = Some c"
      unfolding find by (intro exI [of _ p]) auto
  qed
qed

text \<open>What the point of a prompt knows of a file.\<close>

definition known :: "file_tracker \<Rightarrow> nat \<Rightarrow> flexible_path \<Rightarrow> string option option" where
  "known t j path = Option.bind (map_of (ft_points t) j) (before_of path)"

definition reverts :: "nat \<Rightarrow> file_tracker \<Rightarrow> flexible_path \<Rightarrow> string option option" where
  "reverts k t path = map_of (files_to_revert (sorted_points t) k) path"

lemma known_Some: "known t j path = Some c \<longleftrightarrow> (\<exists>p. map_of (ft_points t) j = Some p \<and> before_of path p = Some c)"
  by (simp add: known_def bind_eq_Some_conv)

lemma reverts_iff:
  assumes "points_ok t"
  shows "reverts k t path = Some c \<longleftrightarrow>
    (\<exists>j. k \<le> j \<and> known t j path = Some c \<and> (\<forall>i. k \<le> i \<and> i < j \<longrightarrow> known t i path = None))"
proof -
  have none: "known t i path = None \<longleftrightarrow> (\<forall>q. map_of (ft_points t) i = Some q \<longrightarrow> before_of path q = None)" for i
    by (cases "map_of (ft_points t) i") (simp_all add: known_def)
  show ?thesis unfolding reverts_def files_to_revert_iff [OF assms] known_Some none by blast
qed

lemma reverts_None:
  assumes "points_ok t"
  shows "reverts k t path = None \<longleftrightarrow> (\<forall>j \<ge> k. known t j path = None)"
proof
  assume none: "reverts k t path = None"
  show "\<forall>j \<ge> k. known t j path = None"
  proof (rule ccontr)
    assume "\<not> (\<forall>j \<ge> k. known t j path = None)"
    then have ex: "\<exists>j. k \<le> j \<and> known t j path \<noteq> None" by blast
    define j where "j = (LEAST j. k \<le> j \<and> known t j path \<noteq> None)"
    have j: "k \<le> j" "known t j path \<noteq> None" using LeastI_ex [OF ex] by (auto simp: j_def)
    have "known t i path = None" if "k \<le> i" "i < j" for i
      using not_less_Least [of i "\<lambda>j. k \<le> j \<and> known t j path \<noteq> None"] that by (auto simp: j_def)
    with j have "\<exists>c. reverts k t path = Some c" unfolding reverts_iff [OF assms] by blast
    with none show False by simp
  qed
next
  assume "\<forall>j \<ge> k. known t j path = None"
  then have "reverts k t path \<noteq> Some c" for c unfolding reverts_iff [OF assms] by auto
  then show "reverts k t path = None" by blast
qed

lemma reverts_cong:
  assumes "points_ok t" "points_ok t'" "\<And>j. known t' j path = known t j path"
  shows "reverts k t' path = reverts k t path"
proof -
  have "reverts k t' path = Some c \<longleftrightarrow> reverts k t path = Some c" for c
    by (simp only: reverts_iff [OF assms(1)] reverts_iff [OF assms(2)] assms(3))
  then show ?thesis by (metis not_Some_eq)
qed

section \<open>What the operations do to it\<close>

definition last_prompt :: "nat \<Rightarrow> file_tracker \<Rightarrow> bool" where
  "last_prompt i t \<longleftrightarrow> (\<forall>j > i. map_of (ft_points t) j = None)"

lemma known_after_last: "last_prompt i t \<Longrightarrow> i < j \<Longrightarrow> known t j path = None"
  by (simp add: known_def last_prompt_def)

lemma points_ok_update:
  assumes "points_ok t" "rp_index p = i"
  shows "points_ok (t\<lparr>ft_points := AList.update i p (ft_points t)\<rparr>)"
  using assms by (auto simp: points_ok_def distinct_update update_conv')

text \<open>All three change one point.\<close>

lemma begin_prompt_facts:
  assumes "points_ok t" "last_prompt i t" "i \<le> i'"
  shows "points_ok (begin_prompt now i' t)" "last_prompt i' (begin_prompt now i' t)"
    "known (begin_prompt now i' t) j path = known t j path"
    "ft_source (begin_prompt now i' t) = ft_source t"
proof -
  have "map_of (or_insert i' (point_new now i') (ft_points t)) j =
      (if j = i' \<and> map_of (ft_points t) i' = None then Some (point_new now i') else map_of (ft_points t) j)" for j
    by (rule map_of_or_insert)
  moreover have "distinct (map fst (or_insert i' (point_new now i') (ft_points t)))"
    using assms(1) by (auto simp: or_insert_def points_ok_def distinct_update split: option.split)
  ultimately show "points_ok (begin_prompt now i' t)" "last_prompt i' (begin_prompt now i' t)"
    "known (begin_prompt now i' t) j path = known t j path"
    using assms by (auto simp: begin_prompt_def points_ok_def last_prompt_def known_def point_new_def before_of_def)
qed (simp add: begin_prompt_def)

lemma after_fold:
  "rp_files (fold (\<lambda>path. set_after_snapshot (s path)) paths p) = rp_files p"
  "rp_index (fold (\<lambda>path. set_after_snapshot (s path)) paths p) = rp_index p"
  by (induction paths arbitrary: p) (auto simp: set_after_snapshot_def)

lemma end_prompt_facts:
  assumes "points_ok t"
  shows "points_ok (end_prompt fs w now i t)" "last_prompt l t \<Longrightarrow> last_prompt l (end_prompt fs w now i t)"
    "known (end_prompt fs w now i t) j path = known t j path"
    "ft_source (end_prompt fs w now i t) = ft_source t"
proof -
  have ok: "points_ok (t\<lparr>ft_current := None\<rparr>)" using assms by (simp add: points_ok_def)
  have index: "map_of (ft_points t) i = Some p \<Longrightarrow> rp_index p = i" for p
    using assms by (auto simp: points_ok_def)
  show "points_ok (end_prompt fs w now i t)"
    using ok points_ok_update [OF ok, where i = i] index
    by (auto simp: end_prompt_def Let_def after_fold split: option.split)
  show "last_prompt l t \<Longrightarrow> last_prompt l (end_prompt fs w now i t)"
    by (auto simp: end_prompt_def Let_def last_prompt_def update_conv' split: option.split)
  show "known (end_prompt fs w now i t) j path = known t j path"
    by (auto simp: end_prompt_def Let_def known_def update_conv' before_of_def after_fold split: option.split)
  show "ft_source (end_prompt fs w now i t) = ft_source t"
    by (simp add: end_prompt_def Let_def split: option.split)
qed

text \<open>A snapshot counts if the file is not known yet.\<close>

lemma add_before_facts:
  assumes "points_ok t" "last_prompt i t" "k \<le> i" "rel_from_absolute cwd path = Some r"
    "t' = add_before_snapshot_for_prompt now i path cwd content t"
  shows "points_ok t'" "last_prompt i t'" "ft_source t' = ft_source t"
    "reverts k t' p = (if p = Relative r \<and> reverts k t p = None then Some content else reverts k t p)"
proof -
  define P where "P = (case map_of (ft_points t) i of Some p \<Rightarrow> p | None \<Rightarrow> point_new now i)"
  have P: "rp_index P = i" using assms(1) by (auto simp: P_def points_ok_def point_new_def split: option.split)
  define P' where "P' = add_snapshot (snapshot_new now r content) P"
  have dist: "distinct (map fst (ft_points t))" using assms(1) by (simp add: points_ok_def)
  have t': "map_of (ft_points t') = (map_of (ft_points t))(i \<mapsto> P')" "distinct (map fst (ft_points t'))"
    "ft_source t' = ft_source t"
    unfolding assms(5) add_before_snapshot_for_prompt_def assms(4) update_point_def or_insert_def P'_def P_def
    using dist by (cases "map_of (ft_points t) i"; simp add: update_conv' distinct_update)+
  have P': "rp_index P' = i" using P by (simp add: P'_def add_snapshot_def)
  show "ft_source t' = ft_source t" by (rule t'(3))
  show ok: "points_ok t'" using assms(1) t'(1,2) P' by (auto simp: points_ok_def)
  show "last_prompt i t'" using assms(2) t'(1) by (auto simp: last_prompt_def)
  have before: "before_of p P' =
      (if p = Relative r \<and> before_of p P = None then Some content else before_of p P)" for p
    by (auto simp: P'_def before_of_def add_snapshot_def snapshot_new_def map_of_or_insert)
  have knowP: "known t i p = before_of p P" for p
    by (auto simp: known_def P_def before_of_def point_new_def split: option.split)
  have know: "known t' j p = (if j = i \<and> p = Relative r \<and> known t i p = None then Some content else known t j p)" for j p
  proof (cases "j = i")
    case True
    have "known t' i p = before_of p P'" by (simp add: known_def t'(1))
    then show ?thesis unfolding True before [of p] knowP [of p] by (simp only: simp_thms)
  qed (simp add: known_def t'(1))
  have new: "known t' i p = Some content" if "p = Relative r" "known t i p = None" for p
    using know [of i p] that by metis
  have old: "known t' j p = known t j p" if "p = Relative r \<longrightarrow> j = i \<longrightarrow> known t i p \<noteq> None" for j p
    using know [of j p] that by metis
  show "reverts k t' p = (if p = Relative r \<and> reverts k t p = None then Some content else reverts k t p)"
  proof (cases "p = Relative r \<and> reverts k t p = None")
    case True
    then have "\<forall>j \<ge> k. known t j p = None" by (intro iffD1 [OF reverts_None [OF assms(1)]]) (rule conjunct2)
    then have none: "known t j p = None" if "k \<le> j" for j using that by blast
    have "known t' i p = Some content" by (rule new [OF conjunct1 [OF True] none [OF assms(3)]])
    moreover have "known t' j p = None" if "k \<le> j" "j < i" for j
      using old [of p j] none [OF that(1)] that(2) by (metis less_irrefl)
    ultimately have "reverts k t' p = Some content" unfolding reverts_iff [OF ok] using assms(3) by blast
    then show ?thesis by (subst if_P [OF True])
  next
    case False
    show ?thesis
    proof (cases "p = Relative r")
      case True
      with False obtain c j where c: "reverts k t p = Some c" "k \<le> j" "known t j p = Some c"
        "\<And>i. k \<le> i \<Longrightarrow> i < j \<Longrightarrow> known t i p = None"
        using reverts_iff [OF assms(1)] by (metis option.exhaust)
      have "j \<le> i" using known_after_last [OF assms(2)] c(3) by (metis leI option.distinct(1))
      have "known t' j p = Some c" using old [of p j] c(3) by (metis option.distinct(1))
      moreover have "known t' l p = None" if "k \<le> l" "l < j" for l
        using old [of p l] c(4) [OF that] that(2) \<open>j \<le> i\<close> by (metis leD)
      ultimately have "reverts k t' p = Some c" unfolding reverts_iff [OF ok] using c(2) by blast
      with c(1) show ?thesis by simp
    next
      case False
      then have "reverts k t' p = reverts k t p" by (intro reverts_cong assms(1) ok old) simp
      with False show ?thesis by simp
    qed
  qed
qed

section \<open>Rewinding on disk\<close>

definition file_key :: "string \<Rightarrow> flexible_path \<Rightarrow> string list" where
  "file_key root path = path_components (to_absolute path root)"

text \<open>The files with some of them set back.\<close>

definition restored :: "string \<Rightarrow> (flexible_path \<Rightarrow> string option option) \<Rightarrow> file_map \<Rightarrow> file_map \<Rightarrow> bool" where
  "restored root M m m' \<longleftrightarrow>
     (\<forall>path c. M path = Some c \<longrightarrow> m' (file_key root path) = c) \<and>
     (\<forall>q. (\<forall>path. M path \<noteq> None \<longrightarrow> file_key root path \<noteq> q) \<longrightarrow> m' q = m q)"

definition existence_known :: "'w workspace_fs \<Rightarrow> bool" where
  "existence_known fs \<longleftrightarrow> (\<forall>w p e. wf_exists fs w p \<noteq> Inl e)"

lemma fold_restores:
  assumes "inj_on (file_key root) (fst ` set files)" "distinct (map fst files)"
  shows "restored root (map_of files) m (fold (\<lambda>(path, c) m. m(file_key root path := c)) files m)"
  using assms
proof (induction files arbitrary: m)
  case (Cons f files)
  obtain path c where f: "f = (path, c)" by (cases f)
  let ?m = "m(file_key root path := c)"
  have IH: "restored root (map_of files) ?m (fold (\<lambda>(path, c) m. m(file_key root path := c)) files ?m)"
    by (rule Cons.IH) (use Cons.prems in \<open>auto intro: inj_on_subset\<close>)
  have other: "file_key root p \<noteq> file_key root path" if "map_of files p \<noteq> None" for p
  proof -
    from that have "p \<in> fst ` set files" by (simp add: map_of_eq_None_iff)
    moreover from this Cons.prems f have "p \<noteq> path" by auto
    ultimately show ?thesis using Cons.prems(1) f by (auto simp: inj_on_def)
  qed
  have fresh: "map_of files path = None" using Cons.prems(2) f by (simp add: map_of_eq_None_iff)
  show ?case
    unfolding restored_def
  proof (intro conjI allI impI)
    fix p d assume p: "map_of (f # files) p = Some d"
    show "fold (\<lambda>(path, c) m. m(file_key root path := c)) (f # files) m (file_key root p) = d"
    proof (cases "p = path")
      case True
      have "fold (\<lambda>(path, c) m. m(file_key root path := c)) files ?m (file_key root path) = ?m (file_key root path)"
        using IH other unfolding restored_def by blast
      with True p f show ?thesis by simp
    next
      case False
      with p f have "map_of files p = Some d" by simp
      with IH f show ?thesis by (simp add: restored_def)
    qed
  next
    fix q assume q: "\<forall>p. map_of (f # files) p \<noteq> None \<longrightarrow> file_key root p \<noteq> q"
    then have "file_key root path \<noteq> q" using f by auto
    moreover have "\<forall>p. map_of files p \<noteq> None \<longrightarrow> file_key root p \<noteq> q"
      using q f by (auto split: if_split_asm)
    ultimately show "fold (\<lambda>(path, c) m. m(file_key root path := c)) (f # files) m q = m q"
      using IH f by (simp add: restored_def)
  qed
qed (simp add: restored_def)

context workspace_store
begin

lemma revert_effect:
  assumes "revert_file fs path c w = (None, w')" "existence_known fs"
  shows "contents w' = (contents w)(file_key (wf_root fs) path := c)"
proof (cases c)
  case (Some d)
  with assms(1) ws_write_law show ?thesis by (auto simp: revert_file_def Let_def file_key_def)
next
  case None
  let ?p = "to_absolute path (wf_root fs)"
  show ?thesis
  proof (cases "wf_exists fs w ?p")
    case (Inl e)
    with assms(2) show ?thesis by (simp add: existence_known_def)
  next
    case (Inr b)
    show ?thesis
    proof (cases b)
      case True
      with None Inr assms(1) ws_delete_law show ?thesis by (auto simp: revert_file_def Let_def file_key_def)
    next
      case False
      with None Inr assms(1) exists_law [of w ?p] show ?thesis
        by (auto simp: revert_file_def Let_def file_key_def)
    qed
  qed
qed

lemma loop_effect:
  assumes "rewind_loop fs points files w = (reverted, clean, conflicts, False, w')" "existence_known fs"
  shows "contents w' = fold (\<lambda>(path, c) m. m(file_key (wf_root fs) path := c)) files (contents w) \<and>
    reverted = map (as_str \<circ> fst) files"
  using assms(1)
proof (induction files arbitrary: w reverted clean conflicts)
  case (Cons f files)
  obtain path c where f: "f = (path, c)" by (cases f)
  obtain w1 r' cl' co' where "revert_file fs path c w = (None, w1)"
    "rewind_loop fs points files w1 = (r', cl', co', False, w')" "reverted = as_str path # r'"
    using Cons.prems f by (auto simp: Let_def split: prod.splits if_split_asm)
  with Cons.IH revert_effect [OF _ assms(2)] f show ?case by auto
qed simp

lemma rewind_files_effect:
  assumes "rewind_files order H fs k t w = (resp, t', w')" "rr_success resp" "existence_known fs"
    "points_ok t" "ft_source t = None" "\<And>xs. mset (order xs) = mset xs"
    "inj_on (file_key (wf_root fs)) {path. reverts k t path \<noteq> None}"
  shows "restored (wf_root fs) (reverts k t) (contents w) (contents w')"
    "ft_points t' = filter (\<lambda>(j, _). j < k) (ft_points t)"
    "set (rr_reverted resp) = as_str ` {path. reverts k t path \<noteq> None}"
proof -
  let ?files = "files_to_revert (sorted_points t) k"
  have load: "ensure_historical_loaded H t = t" using assms(5) by (simp add: ensure_historical_loaded_def)
  obtain r cl co where loop: "rewind_loop fs (sorted_points t) (order ?files) w = (r, cl, co, False, w')"
    "rr_reverted resp = r" "t' = truncate_from H k t"
    using assms(1,2) load by (auto simp: rewind_files_def get_rewind_points_def Let_def split: prod.splits if_split_asm)
  have perm: "mset (order ?files) = mset ?files" by (rule assms(6))
  then have sets: "set (order ?files) = set ?files" by (rule mset_eq_setD)
  have dist: "distinct (map fst (order ?files))"
    using perm distinct_files_to_revert by (metis mset_map mset_eq_imp_distinct_iff)
  have eq: "map_of (order ?files) = map_of ?files"
    using map_of_inject_set [OF dist distinct_files_to_revert] sets by simp
  have dom: "fst ` set ?files = {path. reverts k t path \<noteq> None}"
    unfolding reverts_def by (auto simp: map_of_eq_None_iff)
  have "restored (wf_root fs) (map_of (order ?files)) (contents w)
      (fold (\<lambda>(path, c) m. m(file_key (wf_root fs) path := c)) (order ?files) (contents w))"
    by (rule fold_restores [OF _ dist]) (use assms(7) sets dom in simp)
  then show "restored (wf_root fs) (reverts k t) (contents w) (contents w')"
    using loop_effect [OF loop(1) assms(3)] by (simp add: eq reverts_def [abs_def])
  show "ft_points t' = filter (\<lambda>(j, _). j < k) (ft_points t)"
    using loop(3) load by (simp add: truncate_from_def Let_def)
  show "set (rr_reverted resp) = as_str ` {path. reverts k t path \<noteq> None}"
    using conjunct2 [OF loop_effect [OF loop(1) assms(3)]]
    by (simp only: loop(2) set_map sets image_comp [symmetric] dom)
qed

end

section \<open>Prompts of patches\<close>

text \<open>What a prompt does here: it starts, applies patches with the tool, each of whose notifications reaches
  the tracker, and ends.  The state is the tracker, the index of the current prompt and the disk.\<close>

datatype session_step = StartPrompt nat | Patch string | EndPrompt

fun take_step ::
    "'w async_fs \<Rightarrow> 'w workspace_fs \<Rightarrow> string \<Rightarrow> nat \<Rightarrow> session_step \<Rightarrow>
     file_tracker \<times> nat \<times> 'w \<Rightarrow> file_tracker \<times> nat \<times> 'w" where
  "take_step fs wfs cwd now (StartPrompt i') (t, i, w) = (begin_prompt now i' t, i', w)"
| "take_step fs wfs cwd now (Patch p) (t, i, w) =
     (case run fs cwd p w of
        None \<Rightarrow> (t, i, w)
      | Some (r, log, w') \<Rightarrow> (fold (file_written_to_tracker now i cwd) log t, i, w'))"
| "take_step fs wfs cwd now EndPrompt (t, i, w) = (end_prompt wfs w now i t, i, w)"

text \<open>A section that can be undone from its notification: it adds or moves to a file that is not there,
  and reads only UTF-8, below the working directory.\<close>

definition captured :: "string \<Rightarrow> string \<Rightarrow> bool" where
  "captured cwd path \<longleftrightarrow> rel_from_absolute cwd (path_join cwd path) \<noteq> None"

definition readable :: "file_map \<Rightarrow> string list \<Rightarrow> bool" where
  "readable m k \<longleftrightarrow> (case m k of Some d \<Rightarrow> valid_utf8 d | None \<Rightarrow> True)"

fun reversible :: "string \<Rightarrow> file_map \<Rightarrow> hunk \<Rightarrow> bool" where
  "reversible cwd m (AddFile path _) \<longleftrightarrow> captured cwd path \<and> m (key cwd path) = None"
| "reversible cwd m (DeleteFile path) \<longleftrightarrow> captured cwd path \<and> readable m (key cwd path)"
| "reversible cwd m (UpdateFile path None _) \<longleftrightarrow> captured cwd path \<and> readable m (key cwd path)"
| "reversible cwd m (UpdateFile path (Some dest) _) \<longleftrightarrow>
     captured cwd path \<and> readable m (key cwd path) \<and> captured cwd dest \<and> m (key cwd dest) = None"

text \<open>Prompts in order, patches that can be undone and whose writes do not fail.\<close>

fun step_ok :: "'w async_fs \<Rightarrow> ('w \<Rightarrow> file_map) \<Rightarrow> string \<Rightarrow> session_step \<Rightarrow> file_tracker \<times> nat \<times> 'w \<Rightarrow> bool" where
  "step_ok fs contents cwd (StartPrompt i') (t, i, w) \<longleftrightarrow> i < i'"
| "step_ok fs contents cwd (Patch p) (t, i, w) \<longleftrightarrow>
     (case run fs cwd p w of Some (Inr _, _, _) \<Rightarrow> True | _ \<Rightarrow> False) \<and>
     (case parse_patch p of Inr parsed \<Rightarrow> list_all (reversible cwd (contents w)) (pp_hunks parsed) | Inl _ \<Rightarrow> True)"
| "step_ok fs contents cwd EndPrompt (t, i, w) \<longleftrightarrow> True"

fun session_ok ::
    "'w async_fs \<Rightarrow> 'w workspace_fs \<Rightarrow> ('w \<Rightarrow> file_map) \<Rightarrow> string \<Rightarrow> nat \<Rightarrow> session_step list \<Rightarrow>
     file_tracker \<times> nat \<times> 'w \<Rightarrow> bool" where
  "session_ok fs wfs contents cwd now [] s \<longleftrightarrow> True"
| "session_ok fs wfs contents cwd now (x # xs) s \<longleftrightarrow>
     step_ok fs contents cwd x s \<and> session_ok fs wfs contents cwd now xs (take_step fs wfs cwd now x s)"

definition play ::
    "'w async_fs \<Rightarrow> 'w workspace_fs \<Rightarrow> string \<Rightarrow> nat \<Rightarrow> session_step list \<Rightarrow>
     file_tracker \<times> nat \<times> 'w \<Rightarrow> file_tracker \<times> nat \<times> 'w" where
  "play fs wfs cwd now xs s = fold (take_step fs wfs cwd now) xs s"

text \<open>What the notifications of an undoable patch say: every file it touched, and what was there.\<close>

definition honest_log :: "string \<Rightarrow> file_map \<Rightarrow> file_map \<Rightarrow> file_written list \<Rightarrow> bool" where
  "honest_log cwd m m' log \<longleftrightarrow>
     (\<forall>n \<in> set log. rel_from_absolute cwd (fw_path n) \<noteq> None \<and> (fw_previous n \<noteq> None \<or> fw_is_new n) \<and>
        fw_previous n = m (path_components (fw_path n))) \<and>
     (\<forall>q. q \<notin> (\<lambda>n. path_components (fw_path n)) ` set log \<longrightarrow> m' q = m q)"

lemma change_effect_frame:
  "q \<notin> (\<lambda>n. path_components (fw_path n)) ` set (notifications c) \<Longrightarrow> change_effect c m q = m q"
  by (cases c) auto

lemma fold_change_frame:
  "q \<notin> (\<lambda>n. path_components (fw_path n)) ` set (concat (map notifications cs)) \<Longrightarrow> fold change_effect cs m q = m q"
  by (induction cs arbitrary: m) (auto simp: change_effect_frame image_Un)

lemma compute_all_from:
  "compute_all_changes fs w cwd hs = Some (Inr cs) \<Longrightarrow> c \<in> set cs \<Longrightarrow> \<exists>h \<in> set hs. compute_change fs w cwd h = Some (Inr c)"
  by (induction hs arbitrary: cs) (auto simp: map_sum_Inr_iff split: option.splits sum.splits)

lemma honest_change:
  assumes "file_store fs contents" "compute_change fs w cwd h = Some (Inr c)" "reversible cwd (contents w) h"
    "n \<in> set (notifications c)"
  shows "rel_from_absolute cwd (fw_path n) \<noteq> None \<and> (fw_previous n \<noteq> None \<or> fw_is_new n) \<and>
    fw_previous n = contents w (path_components (fw_path n))"
proof -
  have read: "contents w (path_components p) = Some original"
    if "read_file_as_string fs w p = Inr original" "readable (contents w) (path_components p)" for p original
    using that(2) that(1) [unfolded file_store.read_string [OF assms(1)]]
    by (auto simp: readable_def utf8_lossy_valid)
  show ?thesis
  proof (cases h)
    case (AddFile path d)
    with assms(2-4) show ?thesis by (auto simp: compute_change_def captured_def key_def)
  next
    case (DeleteFile path)
    with assms(2) obtain original where r: "read_file_as_string fs w (path_join cwd path) = Inr original"
      "c = ChangeDelete (path_join cwd path) original"
      by (auto simp: compute_change_def Let_def split: sum.splits)
    with DeleteFile assms(3,4) read [OF r(1)] show ?thesis by (auto simp: captured_def key_def)
  next
    case (UpdateFile path dest chunks)
    with assms(2) obtain original new where r: "read_file_as_string fs w (path_join cwd path) = Inr original"
      "c = (case dest of Some d \<Rightarrow> ChangeMove (path_join cwd path) (path_join cwd d) original new
            | None \<Rightarrow> ChangeUpdate (path_join cwd path) original new)"
      by (auto simp: compute_change_def Let_def split: sum.splits option.split_asm)
    have "readable (contents w) (path_components (path_join cwd path))" "captured cwd path"
      using UpdateFile assms(3) by (cases dest; simp add: key_def)+
    with read [OF r(1)] show ?thesis
      using UpdateFile r(2) assms(3,4) by (cases dest) (auto simp: captured_def key_def)
  qed
qed

lemma honest_run:
  assumes "file_store fs contents" "run fs cwd p w = Some (Inr out, log, w')"
    "case parse_patch p of Inr parsed \<Rightarrow> list_all (reversible cwd (contents w)) (pp_hunks parsed) | Inl _ \<Rightarrow> True"
  shows "honest_log cwd (contents w) (contents w') log"
proof (cases "\<exists>parsed. parse_patch p = Inr parsed \<and> pp_hunks parsed \<noteq> []")
  case False
  with assms(2) have "log = []" "w' = w" by (auto simp: run_def split: sum.splits)
  then show ?thesis by (simp add: honest_log_def)
next
  case True
  then obtain parsed where parsed: "parse_patch p = Inr parsed" "pp_hunks parsed \<noteq> []" by blast
  show ?thesis
  proof (rule run_changesD [OF assms(2) parsed(1) refl parsed(2)])
    assume "log = []" "w' = w"
    then show ?thesis by (simp add: honest_log_def)
  next
    fix cs assume cs: "compute_all_changes fs w cwd (pp_hunks parsed) = Some (Inr cs)"
      "write_changes fs cs w = (None, log, w')"
    note effect = file_store.write_changes_effect [OF assms(1) cs(2)]
    have "rel_from_absolute cwd (fw_path n) \<noteq> None \<and> (fw_previous n \<noteq> None \<or> fw_is_new n) \<and>
        fw_previous n = contents w (path_components (fw_path n))" if "n \<in> set log" for n
    proof -
      from that effect obtain c where c: "c \<in> set cs" "n \<in> set (notifications c)" by auto
      from compute_all_from [OF cs(1) c(1)] obtain h where h: "h \<in> set (pp_hunks parsed)"
        "compute_change fs w cwd h = Some (Inr c)" by blast
      from h(1) assms(3) parsed(1) have "reversible cwd (contents w) h" by (simp add: list_all_iff)
      from honest_change [OF assms(1) h(2) this c(2)] show ?thesis .
    qed
    moreover have "contents w' q = contents w q" if "q \<notin> (\<lambda>n. path_components (fw_path n)) ` set log" for q
      using effect fold_change_frame [of q cs] that by simp
    ultimately show ?thesis unfolding honest_log_def by blast
  qed simp
qed

section \<open>Undoing prompts\<close>

text \<open>While prompts run, setting back what the tracker would revert gives the files the first of them found.\<close>

definition session_inv :: "string \<Rightarrow> nat \<Rightarrow> file_map \<Rightarrow> ('w \<Rightarrow> file_map) \<Rightarrow> file_tracker \<times> nat \<times> 'w \<Rightarrow> bool" where
  "session_inv cwd k before contents s \<longleftrightarrow>
     (case s of (t, i, w) \<Rightarrow>
        points_ok t \<and> last_prompt i t \<and> k \<le> i \<and> ft_source t = None \<and>
        restored cwd (reverts k t) (contents w) before \<and>
        (\<forall>path. reverts k t path \<noteq> None \<longrightarrow>
           (\<exists>r. path = Relative r \<and> \<not> path_is_absolute r \<and> r = path_of_components (kept_segments r))))"

lemma rel_from_absoluteD:
  assumes "rel_from_absolute cwd p = Some r" "path_is_absolute cwd"
  shows "file_key cwd (Relative r) = path_components p" "\<not> path_is_absolute r" "r = path_of_components (kept_segments r)"
proof -
  have strip: "path_strip_prefix p cwd = Some r" "\<not> path_is_absolute r"
    using assms(1) by (auto simp: rel_from_absolute_def rel_path_new_def bind_eq_Some_conv split: if_split_asm)
  have abs: "path_is_absolute p"
  proof (rule ccontr)
    assume "\<not> path_is_absolute p"
    moreover have "''/'' \<notin> set (split_on (CHR ''/'') p)" using split_on_no_sep [of "''/''" "CHR ''/''" p] by auto
    moreover from this have "''/'' \<notin> set (tl (split_on (CHR ''/'') p))"
      using list.set_sel(2) [of "split_on (CHR ''/'') p"] split_on_not_Nil by blast
    ultimately have "''/'' \<notin> set (path_components p)"
      by (auto simp: path_components_def Let_def split: if_split_asm)
    moreover have "''/'' \<in> set (path_components p)"
      using strip(1) assms(2)
      by (auto simp: path_strip_prefix_def components_absolute Let_def split: if_split_asm)
        (metis in_set_takeD list.set_intros(1))
    ultimately show False by blast
  qed
  show "file_key cwd (Relative r) = path_components p"
    using strip_prefix_join(1) [OF assms(2) strip(1) abs] by (simp add: file_key_def)
  show "\<not> path_is_absolute r" by (rule strip(2))
  show "r = path_of_components (kept_segments r)" by (rule strip_prefix_join(4) [OF assms(2) strip(1) abs])
qed

lemma relative_keys_inj:
  assumes "path_is_absolute cwd"
    "\<forall>path \<in> P. \<exists>r. path = Relative r \<and> \<not> path_is_absolute r \<and> r = path_of_components (kept_segments r)"
  shows "inj_on (file_key cwd) P"
proof (rule inj_onI)
  fix p q assume "p \<in> P" "q \<in> P" and eq: "file_key cwd p = file_key cwd q"
  with assms(2) obtain r s where rs: "p = Relative r" "q = Relative s" "\<not> path_is_absolute r" "\<not> path_is_absolute s"
    "r = path_of_components (kept_segments r)" "s = path_of_components (kept_segments s)" by metis
  with eq have "kept_segments r = kept_segments s"
    by (simp add: file_key_def join_absolute [OF assms(1)])
  with rs show "p = q" by metis
qed

text \<open>One notification, and a whole log: what was there before counts unless the file is known.\<close>

lemma bridge_log:
  assumes "points_ok t" "last_prompt i t" "k \<le> i" "path_is_absolute cwd"
    "\<forall>n \<in> set log. rel_from_absolute cwd (fw_path n) \<noteq> None \<and> (fw_previous n \<noteq> None \<or> fw_is_new n) \<and>
       fw_previous n = m (path_components (fw_path n))"
    "t' = fold (file_written_to_tracker now i cwd) log t"
  shows "points_ok t' \<and> last_prompt i t' \<and> ft_source t' = ft_source t \<and>
    (\<forall>p. reverts k t' p =
       (if reverts k t p = None \<and> (\<exists>n \<in> set log. \<exists>r. rel_from_absolute cwd (fw_path n) = Some r \<and> p = Relative r)
        then Some (m (file_key cwd p)) else reverts k t p))"
  using assms(1,2,5,6)
proof (induction log arbitrary: t)
  case (Cons n log)
  obtain r where r: "rel_from_absolute cwd (fw_path n) = Some r" using Cons.prems(3) by auto
  have prev: "fw_previous n = m (file_key cwd (Relative r))"
    using Cons.prems(3) rel_from_absoluteD(1) [OF r assms(4)] by simp
  define t1 where "t1 = add_before_snapshot_for_prompt now i (fw_path n) cwd (fw_previous n) t"
  have step: "file_written_to_tracker now i cwd n t = t1"
    using Cons.prems(3) by (auto simp: file_written_to_tracker_def t1_def)
  note facts = add_before_facts [OF Cons.prems(1,2) assms(3) r t1_def]
  have IH: "points_ok t' \<and> last_prompt i t' \<and> ft_source t' = ft_source t1 \<and>
    (\<forall>p. reverts k t' p =
       (if reverts k t1 p = None \<and> (\<exists>n \<in> set log. \<exists>r. rel_from_absolute cwd (fw_path n) = Some r \<and> p = Relative r)
        then Some (m (file_key cwd p)) else reverts k t1 p))"
  proof (rule Cons.IH [OF facts(1,2)])
    show "\<forall>n \<in> set log. rel_from_absolute cwd (fw_path n) \<noteq> None \<and> (fw_previous n \<noteq> None \<or> fw_is_new n) \<and>
       fw_previous n = m (path_components (fw_path n))" using Cons.prems(3) by (meson list.set_intros(2))
    show "t' = fold (file_written_to_tracker now i cwd) log t1" using Cons.prems(4) step by simp
  qed
  have "reverts k t' p =
       (if reverts k t p = None \<and> (\<exists>n \<in> set (n # log). \<exists>r. rel_from_absolute cwd (fw_path n) = Some r \<and> p = Relative r)
        then Some (m (file_key cwd p)) else reverts k t p)" for p
  proof (cases "p = Relative r \<and> reverts k t p = None")
    case True
    then have "reverts k t1 p = Some (m (file_key cwd p))" using facts(4) [of p] prev by metis
    with IH have "reverts k t' p = Some (m (file_key cwd p))" by (metis option.distinct(1))
    with True r show ?thesis by (metis list.set_intros(1))
  next
    case False
    then have "reverts k t1 p = reverts k t p" using facts(4) [of p] by metis
    moreover have "reverts k t p = None \<Longrightarrow> p \<noteq> Relative r" using False by blast
    ultimately show ?thesis using IH r by (metis option.inject set_ConsD list.set_intros(2))
  qed
  with IH facts(3) show ?case by metis
qed simp

lemma session_step_inv:
  assumes "file_store fs contents" "workspace_store wfs contents" "path_is_absolute cwd"
    "step_ok fs contents cwd x s" "session_inv cwd k before contents s"
  shows "session_inv cwd k before contents (take_step fs wfs cwd now x s)"
proof -
  obtain t i w where s: "s = (t, i, w)" by (cases s)
  have inv: "points_ok t" "last_prompt i t" "k \<le> i" "ft_source t = None"
    "restored cwd (reverts k t) (contents w) before"
    "\<And>path. reverts k t path \<noteq> None \<Longrightarrow>
      \<exists>r. path = Relative r \<and> \<not> path_is_absolute r \<and> r = path_of_components (kept_segments r)"
    using assms(5) by (auto simp: session_inv_def s)
  show ?thesis
  proof (cases x)
    case (StartPrompt i')
    then have le: "i \<le> i'" using assms(4) s by simp
    note facts = begin_prompt_facts [OF inv(1,2) le, of now]
    have "reverts k (begin_prompt now i' t) path = reverts k t path" for path
      by (rule reverts_cong [OF inv(1) facts(1) facts(3)])
    with facts inv le show ?thesis by (simp add: session_inv_def s StartPrompt restored_def)
  next
    case EndPrompt
    note facts = end_prompt_facts [OF inv(1), where fs = wfs and w = w and now = now and i = i]
    have "reverts k (end_prompt wfs w now i t) path = reverts k t path" for path
      by (rule reverts_cong [OF inv(1) facts(1) facts(3)])
    with facts inv show ?thesis by (simp add: session_inv_def s EndPrompt restored_def)
  next
    case (Patch p)
    then obtain out log w' where run: "run fs cwd p w = Some (Inr out, log, w')"
      using assms(4) s by (auto split: option.splits prod.splits sum.splits)
    have honest: "honest_log cwd (contents w) (contents w') log"
      by (rule honest_run [OF assms(1) run]) (use assms(4) s Patch in simp)
    define t' where "t' = fold (file_written_to_tracker now i cwd) log t"
    have logged: "\<forall>n \<in> set log. rel_from_absolute cwd (fw_path n) \<noteq> None \<and> (fw_previous n \<noteq> None \<or> fw_is_new n) \<and>
       fw_previous n = contents w (path_components (fw_path n))"
      using honest unfolding honest_log_def by (rule conjunct1)
    note facts = bridge_log [OF inv(1-3) assms(3) logged t'_def]
    have named: "\<exists>r. path = Relative r \<and> \<not> path_is_absolute r \<and> r = path_of_components (kept_segments r)"
      if "reverts k t' path \<noteq> None" for path
      using that facts inv(6) rel_from_absoluteD(2,3) [OF _ assms(3)] by metis
    have "restored cwd (reverts k t') (contents w') before"
      unfolding restored_def
    proof (intro conjI allI impI)
      fix path c assume c: "reverts k t' path = Some c"
      show "before (file_key cwd path) = c"
      proof (cases "reverts k t path")
        case (Some d)
        with c facts have "c = d" by (metis option.distinct(1) option.inject)
        with Some inv(5) show ?thesis by (simp add: restored_def)
      next
        case None
        with c facts have c: "c = contents w (file_key cwd path)" by (metis option.distinct(1) option.inject)
        have "file_key cwd path \<noteq> file_key cwd p" if "reverts k t p \<noteq> None" for p
        proof
          assume eq: "file_key cwd path = file_key cwd p"
          have "reverts k t' p \<noteq> None" using that facts by (metis)
          with named have "inj_on (file_key cwd) {path. reverts k t' path \<noteq> None}"
            by (intro relative_keys_inj [OF assms(3)]) blast
          with eq \<open>reverts k t' p \<noteq> None\<close> \<open>reverts k t' path = Some c\<close> have "path = p" by (auto dest: inj_onD)
          with None that show False by simp
        qed
        with inv(5) c show ?thesis unfolding restored_def by metis
      qed
    next
      fix q assume q: "\<forall>path. reverts k t' path \<noteq> None \<longrightarrow> file_key cwd path \<noteq> q"
      have "q \<notin> (\<lambda>n. path_components (fw_path n)) ` set log"
      proof
        assume "q \<in> (\<lambda>n. path_components (fw_path n)) ` set log"
        then obtain n where n: "n \<in> set log" "q = path_components (fw_path n)" by blast
        with logged obtain r where r: "rel_from_absolute cwd (fw_path n) = Some r" by blast
        have "reverts k t' (Relative r) \<noteq> None" using facts n(1) r by (metis option.distinct(1))
        with q rel_from_absoluteD(1) [OF r assms(3)] n(2) show False by metis
      qed
      then have "contents w' q = contents w q" using honest by (simp add: honest_log_def)
      moreover have "\<forall>path. reverts k t path \<noteq> None \<longrightarrow> file_key cwd path \<noteq> q"
        using q facts by metis
      ultimately show "before q = contents w' q" using inv(5) by (simp add: restored_def)
    qed
    with facts inv named show ?thesis
      by (simp add: session_inv_def s Patch run t'_def [symmetric])
  qed
qed

lemma session_inv_play:
  assumes "file_store fs contents" "workspace_store wfs contents" "path_is_absolute cwd"
    "session_ok fs wfs contents cwd now xs s" "session_inv cwd k before contents s"
  shows "session_inv cwd k before contents (play fs wfs cwd now xs s)"
  using assms(4,5)
proof (induction xs arbitrary: s)
  case (Cons x xs)
  have "session_inv cwd k before contents (take_step fs wfs cwd now x s)"
    by (rule session_step_inv [OF assms(1-3)]) (use Cons.prems in auto)
  with Cons show ?case by (simp add: play_def)
qed (simp add: play_def)

lemma restored_unique:
  assumes "restored root M m m1" "restored root M m m2"
  shows "m1 = m2"
proof (rule ext)
  fix q
  show "m1 q = m2 q"
  proof (cases "\<exists>path c. M path = Some c \<and> file_key root path = q")
    case True
    with assms show ?thesis by (auto simp: restored_def)
  next
    case False
    then have "\<forall>path. M path \<noteq> None \<longrightarrow> file_key root path \<noteq> q" by blast
    with assms show ?thesis unfolding restored_def by metis
  qed
qed

lemma session_inv_start:
  assumes "points_ok t" "ft_source t = None" "\<And>j. k \<le> j \<Longrightarrow> map_of (ft_points t) j = None"
  shows "session_inv cwd k (contents w) contents (begin_prompt now k t, k, w)"
proof -
  have last: "last_prompt k t" using assms(3) by (simp add: last_prompt_def)
  note facts = begin_prompt_facts [OF assms(1) last order_refl, of now]
  have "known t j path = None" if "k \<le> j" for j path using assms(3) [OF that] by (simp add: known_def)
  then have "reverts k (begin_prompt now k t) path = None" for path
    unfolding reverts_None [OF facts(1)] facts(3) by blast
  with facts assms(2) show ?thesis by (simp add: session_inv_def restored_def)
qed

lemma session_inv_rewind:
  assumes "workspace_store wfs contents" "existence_known wfs" "path_is_absolute (wf_root wfs)"
    "session_inv (wf_root wfs) k before contents (t1, i1, w1)"
    "rewind_files order H wfs k t1 w1 = (resp, t2, w2)" "rr_success resp" "\<And>xs. mset (order xs) = mset xs"
  shows "contents w2 = before" "ft_points t2 = filter (\<lambda>(j, _). j < k) (ft_points t1)"
proof -
  have inv: "points_ok t1" "ft_source t1 = None" "restored (wf_root wfs) (reverts k t1) (contents w1) before"
    "inj_on (file_key (wf_root wfs)) {path. reverts k t1 path \<noteq> None}"
    using assms(4) by (auto simp: session_inv_def intro!: relative_keys_inj [OF assms(3)])
  note effect = workspace_store.rewind_files_effect [OF assms(1,5,6,2) inv(1,2) assms(7) inv(4)]
  show "contents w2 = before" by (rule restored_unique [OF effect(1) inv(3)])
  show "ft_points t2 = filter (\<lambda>(j, _). j < k) (ft_points t1)" by (rule effect(2))
qed


text \<open>C14. But a file that an \<open>Add File\<close> section overwrites was announced as new: rewinding deletes it.\<close>

theorem rewind_deletes_overwritten_file:
  assumes "file_store fs contents" "workspace_store wfs contents" "existence_known wfs"
    "path_is_absolute cwd" "wf_root wfs = cwd"
    "points_ok t" "ft_source t = None" "\<And>j. k \<le> j \<Longrightarrow> map_of (ft_points t) j = None"
    "parse_patch patch = Inr parsed" "pp_hunks parsed = [AddFile path new]" "captured cwd path"
    "contents w (key cwd path) = Some original"
    "run fs cwd patch w = Some (Inr out, log, w1)"
    "play fs wfs cwd now [StartPrompt k, Patch patch] (t, i, w) = (t1, i1, w1)"
    "rewind_files order H wfs k t1 w1 = (resp, t2, w2)" "rr_success resp" "\<And>xs. mset (order xs) = mset xs"
  shows "contents w1 (key cwd path) = Some new \<and> contents w2 (key cwd path) = None"
proof -
  obtain r where r: "rel_from_absolute cwd (path_join cwd path) = Some r" using assms(11) by (auto simp: captured_def)
  define change where "change = ChangeAdd (path_join cwd path) new"
  obtain cs where "compute_all_changes fs w cwd (pp_hunks parsed) = Some (Inr cs)"
    "write_changes fs cs w = (None, log, w1)"
    by (rule run_changesD [OF assms(13,9) refl]) (use assms(10) in \<open>auto simp: compute_change_def\<close>)
  with assms(10) have cs: "write_changes fs [change] w = (None, log, w1)"
    by (auto simp: compute_change_def change_def)
  note effect = file_store.write_changes_effect [OF assms(1) cs]
  have log: "log = [\<lparr>fw_path = path_join cwd path, fw_content = new, fw_previous = None, fw_is_new = True\<rparr>]"
    using effect by (simp add: change_def)
  define t0 where "t0 = begin_prompt now k t"
  have start: "session_inv cwd k (contents w) contents (t0, k, w)"
    unfolding t0_def by (rule session_inv_start [OF assms(6-8)])
  then have t0: "points_ok t0" "last_prompt k t0" "ft_source t0 = None" by (auto simp: session_inv_def)
  have none: "reverts k t0 p = None" for p
  proof -
    have last: "last_prompt k t" using assms(8) by (simp add: last_prompt_def)
    show ?thesis
      unfolding reverts_None [OF t0(1)] unfolding t0_def begin_prompt_facts(3) [OF assms(6) last order_refl]
      using assms(8) by (simp add: known_def)
  qed
  have t1: "t1 = add_before_snapshot_for_prompt now k (path_join cwd path) cwd None t0"
    using assms(13,14) log by (auto simp: play_def t0_def file_written_to_tracker_def)
  note facts = add_before_facts [OF t0(1,2) order_refl r t1]
  have rev: "reverts k t1 p = (if p = Relative r then Some None else None)" for p
    using facts(4) [of p] none by simp
  then have "inj_on (file_key (wf_root wfs)) {path. reverts k t1 path \<noteq> None}" by (auto intro: inj_onI split: if_split_asm)
  from workspace_store.rewind_files_effect(1) [OF assms(2,15,16,3) facts(1) _ assms(17) this] facts(3) t0(3)
  have "restored cwd (reverts k t1) (contents w1) (contents w2)" using assms(5) by simp
  then have "contents w2 (file_key cwd (Relative r)) = None" using rev by (simp add: restored_def)
  then show ?thesis
    using effect rel_from_absoluteD(1) [OF r assms(4)] by (simp add: key_def change_def)
qed

section \<open>Folding points into their predecessor\<close>

lemma dedup_by_distinct: "distinct (map f xs) \<Longrightarrow> dedup_by f xs = xs"
  by (induction f xs rule: dedup_by.induct) auto

lemma sort_key_sorted: "sorted (map f xs) \<Longrightarrow> sort_key f xs = xs"
  by (rule sort_key_id_if_sorted)

lemma before_merged:
  "before_of path (fold merge_point ms p) =
     (case before_of path p of Some c \<Rightarrow> Some c | None \<Rightarrow> find_map (before_of path) ms)"
proof (induction ms arbitrary: p)
  case (Cons m ms)
  have "before_of path (merge_point m p) =
      (case before_of path p of Some c \<Rightarrow> Some c | None \<Rightarrow> before_of path m)"
    using map_of_fold_or_insert [of id "rp_files m" "rp_files p" path]
    by (auto simp: before_of_def merge_point_def id_def option.map_ident split: option.split)
  with Cons.IH [of "merge_point m p"] show ?case by (simp split: option.split)
qed (simp split: option.split)

lemma index_merged [simp]: "rp_index (fold merge_point ms p) = rp_index p"
  by (induction ms arbitrary: p) (simp_all add: merge_point_def)

lemma find_map_append: "find_map f (xs @ ys) = (case find_map f xs of Some y \<Rightarrow> Some y | None \<Rightarrow> find_map f ys)"
  by (induction xs) (auto split: option.split)

text \<open>The points up to a prompt, the last of which is its predecessor.\<close>

lemma split_at_predecessor:
  assumes "sorted_wrt (\<lambda>p q. rp_index p < rp_index q) ps" "p \<in> set ps" "Suc (rp_index p) = target"
  obtains xs ys where "ps = xs @ p # ys" "takeWhile (\<lambda>p. rp_index p < target) ps = xs @ [p]"
    "dropWhile (\<lambda>p. rp_index p < target) ps = ys" "\<forall>x \<in> set xs. rp_index x < rp_index p"
proof -
  obtain xs ys where ps: "ps = xs @ p # ys" using assms(2) by (meson split_list)
  have less: "\<forall>x \<in> set xs. rp_index x < rp_index p" "\<forall>y \<in> set ys. rp_index p < rp_index y"
    using assms(1) ps by (auto simp: sorted_wrt_append)
  then have xs: "\<forall>x \<in> set (xs @ [p]). rp_index x < target" using assms(3) by auto
  have ys: "takeWhile (\<lambda>p. rp_index p < target) ys = []" "dropWhile (\<lambda>p. rp_index p < target) ys = ys"
    using less(2) assms(3) by (cases ys; auto)+
  have "takeWhile (\<lambda>p. rp_index p < target) ((xs @ [p]) @ ys) = xs @ [p]"
    "dropWhile (\<lambda>p. rp_index p < target) ((xs @ [p]) @ ys) = ys"
    using xs ys by (simp_all add: takeWhile_append dropWhile_append)
  with ps less(1) that show thesis by simp
qed

text \<open>C13. A rewind of the conversation alone folds the points of the discarded prompts into the one before
  them: every rewind to an earlier prompt puts back the same contents of the same files as before,
  and nothing is left at the discarded indices.\<close>

theorem merge_keeps_earlier_rewinds:
  assumes "points_ok t" "ft_source t = None" "0 < target" "map_of (ft_points t) (target - 1) \<noteq> None" "k < target"
  shows "map_of (files_to_revert (fst (get_rewind_points H (merge_and_remove_from H target t))) k) =
      map_of (files_to_revert (fst (get_rewind_points H t)) k) \<and>
    (\<forall>j \<ge> target. get_rewind_point j (merge_and_remove_from H target t) = None)"
proof -
  let ?ps = "sorted_points t"
  note sorted = sorted_points_facts [OF assms(1)]
  obtain p where p: "map_of (ft_points t) (target - 1) = Some p" using assms(4) by blast
  then have index: "rp_index p = target - 1" using assms(1) by (simp add: points_ok_def)
  then have "p \<in> set ?ps" "Suc (rp_index p) = target" using sorted(2) p assms(3) by auto
  then obtain xs ys where split: "?ps = xs @ p # ys" "takeWhile (\<lambda>p. rp_index p < target) ?ps = xs @ [p]"
    "dropWhile (\<lambda>p. rp_index p < target) ?ps = ys" "\<forall>x \<in> set xs. rp_index x < rp_index p"
    by (rule split_at_predecessor [OF sorted(1)])
  let ?qs = "xs @ [fold merge_point ys p]"
  have strict: "sorted_wrt (<) (map rp_index ?ps)" using sorted(1) by (simp add: sorted_wrt_map)
  then have "dedup_by rp_index ?ps = ?ps" by (intro dedup_by_distinct) (simp add: strict_sorted_iff)
  then have "merge_rewind_points_from (map snd (ft_points t)) target =
      map (\<lambda>p. if rp_index p = target - 1 then fold merge_point ys p else p) (xs @ [p])"
    unfolding merge_rewind_points_from_def sorted_points_def [symmetric]
    using assms(3) split(2,3) by (simp add: Let_def)
  also have "\<dots> = ?qs" using split(4) index by (auto intro!: map_idI)
  finally have merged: "merge_rewind_points_from (map snd (ft_points t)) target = ?qs" .
  have strict': "sorted_wrt (<) (map rp_index ?qs)" using strict split(1) by (simp add: sorted_wrt_append)
  have put: "fold (\<lambda>p. AList.update (rp_index p) p) qs acc = acc @ map (\<lambda>p. (rp_index p, p)) qs"
    if "distinct (map fst acc @ map rp_index qs)" for qs :: "rewind_point list" and acc
    using that
  proof (induction qs arbitrary: acc)
    case (Cons q qs)
    then have "map_of acc (rp_index q) = None" by (auto simp: map_of_eq_None_iff)
    moreover have "AList.update a b acc = acc @ [(a, b)]" if "map_of acc a = None" for a b
      using that by (induction acc) (auto split: if_split_asm)
    ultimately show ?case using Cons by simp
  qed simp
  have points: "ft_points (merge_and_remove_from H target t) = map (\<lambda>p. (rp_index p, p)) ?qs"
    using put [of "[]" ?qs] strict' assms(2) merged
    by (simp add: merge_and_remove_from_def Let_def ensure_historical_loaded_def strict_sorted_iff)
  have load: "ensure_historical_loaded H t = t"
    "ensure_historical_loaded H (merge_and_remove_from H target t) = merge_and_remove_from H target t"
    using assms(2) by (simp_all add: ensure_historical_loaded_def merge_and_remove_from_def Let_def)
  have after: "sorted_points (merge_and_remove_from H target t) = ?qs"
    unfolding sorted_points_def points map_map comp_def
    using strict' by (simp add: sort_key_sorted strict_sorted_iff)
  have "k \<le> rp_index p" using index assms(5) by simp
  moreover have "\<forall>y \<in> set ys. k \<le> rp_index y" using calculation sorted(1) split(1) by (auto simp: sorted_wrt_append)
  ultimately have "map_of (files_to_revert ?qs k) path = map_of (files_to_revert ?ps k) path" for path
    unfolding files_to_revert_find split(1)
    by (simp add: find_map_append before_merged filter_True split: option.split)
  then have "map_of (files_to_revert (sorted_points (merge_and_remove_from H target t)) k) = map_of (files_to_revert ?ps k)"
    unfolding after by (rule ext)
  moreover have "get_rewind_point j (merge_and_remove_from H target t) = None" if "target \<le> j" for j
    using that split(4) index assms(3) by (auto simp: get_rewind_point_def points map_of_eq_None_iff)
  ultimately show ?thesis by (simp add: get_rewind_points_def Let_def load)
qed

section \<open>Instances\<close>

definition no_history :: history where
  "no_history = \<lparr>hi_open = (\<lambda>_. OpenMissing), hi_point = (\<lambda>_. None), hi_meta = (\<lambda>_. None)\<rparr>"

definition demo_steps :: "session_step list" where
  "demo_steps =
     [Patch (demo_patch [update_a ''a.txt'' None ''one'' ''ONE'', AddFile ''b.txt'' (text_of [''new''])]),
      EndPrompt, StartPrompt 2, Patch (demo_patch [update_a ''a.txt'' (Some ''c.txt'') ''two'' ''TWO'']), EndPrompt]"

definition demo_rewind :: "session_step list \<Rightarrow> rewind_response \<times> file_tracker \<times> file_map" where
  "demo_rewind steps =
     (case play mock_fs (mock_workspace_fs ''/w'') ''/w'' 0 (StartPrompt 1 # steps) (file_tracker_new, 0, demo_files) of
        (t, i, w) \<Rightarrow> rewind_files (\<lambda>xs. xs) no_history (mock_workspace_fs ''/w'') 1 t w)"

lemma demo_ws: "workspace_store (mock_workspace_fs ''/w'') (\<lambda>files. files)" ..

lemma demo_exists: "existence_known (mock_workspace_fs root)"
  by (simp add: existence_known_def mock_workspace_fs_def mock_ws_exists_def)

lemma new_tracker: "points_ok file_tracker_new" "ft_source file_tracker_new = None" "map_of (ft_points file_tracker_new) j = None"
  by (simp_all add: points_ok_def file_tracker_new_def)

lemma demo_root: "wf_root (mock_workspace_fs root) = root" "path_is_absolute ''/w''"
  by (simp_all add: mock_workspace_fs_def path_is_absolute_def)


definition overwrite_patch :: string where
  "overwrite_patch = demo_patch [AddFile ''a.txt'' (text_of [''new''])]"

lemma overwrite_parse:
  "parse_patch overwrite_patch =
     Inr \<lparr>pp_hunks = [AddFile ''a.txt'' (text_of [''new''])], pp_patch = overwrite_patch\<rparr>"
  by code_simp

theorem rewind_deletes_overwritten_file_witness:
  "demo_files (path_components ''/w/a.txt'') = Some (text_of [''one'', ''two'']) \<and>
   snd (snd (demo_rewind [Patch overwrite_patch])) (path_components ''/w/a.txt'') = None"
proof -
  obtain t1 i1 w1 where p: "play mock_fs (mock_workspace_fs ''/w'') ''/w'' 0 [StartPrompt 1, Patch overwrite_patch]
      (file_tracker_new, 0, demo_files) = (t1, i1, w1)" by (metis prod.exhaust)
  obtain resp t2 w2 where r: "rewind_files (\<lambda>xs. xs) no_history (mock_workspace_fs ''/w'') 1 t1 w1 = (resp, t2, w2)"
    by (metis prod.exhaust)
  have demo: "demo_rewind [Patch overwrite_patch] = (resp, t2, w2)" unfolding demo_rewind_def p by (simp only: prod.case r)
  have "rr_success (fst (demo_rewind [Patch overwrite_patch]))" by code_simp
  then have ok: "rr_success resp" by (simp add: demo)
  have "succeeds overwrite_patch" by code_simp
  then obtain rs s log w' where run: "run mock_fs ''/w'' overwrite_patch demo_files = Some (Inr (PatchSuccess rs s), log, w')"
    by (rule succeedsE)
  have w': "w' = w1" using p run by (simp add: play_def)
  have files: "demo_files (key ''/w'' ''a.txt'') = Some (text_of [''one'', ''two''])"
    "key ''/w'' ''a.txt'' = path_components ''/w/a.txt''" by code_simp+
  have "captured ''/w'' ''a.txt''" by code_simp
  from rewind_deletes_overwritten_file [OF demo_store demo_ws demo_exists demo_root(2,1) new_tracker
      overwrite_parse _ this files(1) run [unfolded w'] p r ok]
  have "w2 (key ''/w'' ''a.txt'') = None" by simp
  with files demo show ?thesis by simp
qed

theorem merge_keeps_earlier_rewinds_witness:
  "\<exists>t. map_of (ft_points t) 1 \<noteq> None \<and> length (ft_points t) = 2 \<and>
     map_of (files_to_revert (fst (get_rewind_points no_history (merge_and_remove_from no_history 2 t))) 1) =
     map_of (files_to_revert (fst (get_rewind_points no_history t)) 1)"
proof -
  define t where "t = begin_prompt 0 2 (begin_prompt 0 1 file_tracker_new)"
  have last: "last_prompt j file_tracker_new" for j by (simp add: last_prompt_def new_tracker)
  note one = begin_prompt_facts [OF new_tracker(1) last order_refl, where now = 0]
  have "points_ok t" unfolding t_def by (rule begin_prompt_facts(1) [OF one(1,2) [of 1]]) simp
  moreover have "ft_source t = None" "map_of (ft_points t) (2 - 1) \<noteq> None" "length (ft_points t) = 2"
    unfolding t_def by code_simp+
  ultimately show ?thesis
    using merge_keeps_earlier_rewinds [of t 2 1 no_history] by (intro exI [of _ t]) simp
qed

end
