(* ===== verification/Tokens.thy ===== *)
theory Tokens
  imports Utf8 Float64
begin

text \<open>
  Token estimation and billing: the crate \<open>xai-token-estimation\<close> (\<open>lib.rs\<close>) and the ledgers of
  \<open>xai-chat-state/src/usage.rs\<close>.

  Estimates count bytes and characters of texts in memory, so they stay far below \<open>2 ^ 64\<close> and are
  naturals; where the code saturates, or a number comes from outside, the bound is written out.
  The two tokenizers of \<open>tiktoken-rs\<close> are parameters.
\<close>

definition U64_MAX :: nat where
  "U64_MAX = 2 ^ 64 - 1"

definition sat_add :: "nat \<Rightarrow> nat \<Rightarrow> nat" where
  "sat_add a b = min U64_MAX (a + b)"

definition sat_mul :: "nat \<Rightarrow> nat \<Rightarrow> nat" where
  "sat_mul a b = min U64_MAX (a * b)"

lemma sat_add_commute: "sat_add a b = sat_add b a"
  by (simp add: sat_add_def add.commute)

lemma sat_add_assoc: "sat_add (sat_add a b) c = sat_add a (sat_add b c)"
  by (auto simp: sat_add_def min_def)

section \<open>Characters\<close>

text \<open>\<open>str::chars\<close>, each character as its bytes, and its code point.\<close>

function str_chars :: "string \<Rightarrow> string list" where
  "str_chars [] = []"
| "str_chars (c # cs) =
     (c # takeWhile utf8_cont cs) # str_chars (dropWhile utf8_cont cs)"
  by pat_completeness auto
termination
  by (relation "measure length") (auto simp: le_imp_less_Suc length_dropWhile_le)

definition low6 :: "char \<Rightarrow> nat" where
  "low6 c = of_char c - 0x80"

fun code_point :: "string \<Rightarrow> nat" where
  "code_point [a] = of_char a"
| "code_point [a, b] = (of_char a - 0xC0) * 64 + low6 b"
| "code_point [a, b, c] = (of_char a - 0xE0) * 4096 + low6 b * 64 + low6 c"
| "code_point [a, b, c, d] = (of_char a - 0xF0) * 262144 + low6 b * 4096 + low6 c * 64 + low6 d"
| "code_point _ = 0"

lemma concat_str_chars [simp]: "concat (str_chars s) = s"
  by (induction s rule: str_chars.induct) simp_all

lemma str_chars_nonempty: "ch \<in> set (str_chars s) \<Longrightarrow> ch \<noteq> []"
  by (induction s rule: str_chars.induct) auto

lemma length_str_chars: "length s = sum_list (map length (str_chars s))"
  by (metis concat_str_chars length_concat)

text \<open>\<open>chars().count()\<close>, \<open>chars().take(n)\<close> and \<open>chars().skip(n)\<close>.\<close>

definition count_chars :: "string \<Rightarrow> nat" where
  "count_chars s = length (str_chars s)"

definition take_chars :: "nat \<Rightarrow> string \<Rightarrow> string" where
  "take_chars n s = concat (take n (str_chars s))"

definition skip_chars :: "nat \<Rightarrow> string \<Rightarrow> string" where
  "skip_chars n s = concat (drop n (str_chars s))"

lemma take_skip_chars: "take_chars n s @ skip_chars n s = s"
  by (metis append_take_drop_id concat_append concat_str_chars skip_chars_def take_chars_def)

section \<open>Token estimation (\<open>lib.rs\<close>)\<close>

definition BYTES_PER_TOKEN :: nat where
  "BYTES_PER_TOKEN = 4"

definition IMAGE_TOKEN_ESTIMATE :: nat where
  "IMAGE_TOKEN_ESTIMATE = 765"

definition estimate_tokens_bytes4 :: "string \<Rightarrow> nat" where
  "estimate_tokens_bytes4 s = length s div BYTES_PER_TOKEN"

definition is_cjk :: "string \<Rightarrow> bool" where
  "is_cjk ch =
     (let n = code_point ch in
      (0x3000 \<le> n \<and> n \<le> 0x303F) \<or> (0x3040 \<le> n \<and> n \<le> 0x30FF) \<or> (0x3130 \<le> n \<and> n \<le> 0x318F)
      \<or> (0x3400 \<le> n \<and> n \<le> 0x4DBF) \<or> (0x4E00 \<le> n \<and> n \<le> 0x9FFF) \<or> (0xAC00 \<le> n \<and> n \<le> 0xD7AF)
      \<or> (0xF900 \<le> n \<and> n \<le> 0xFAFF) \<or> (0xFF00 \<le> n \<and> n \<le> 0xFFEF))"

fun count_step :: "string \<Rightarrow> nat \<times> nat \<Rightarrow> nat \<times> nat" where
  "count_step ch (cjk_chars, other_bytes) =
     (if is_cjk ch then (cjk_chars + 1, other_bytes) else (cjk_chars, other_bytes + length ch))"

definition estimate_tokens :: "string \<Rightarrow> nat" where
  "estimate_tokens s =
     (case fold count_step (str_chars s) (0, 0) of
        (cjk_chars, other_bytes) \<Rightarrow> other_bytes div BYTES_PER_TOKEN + cjk_chars)"

datatype model_family = OpenAi | DeepSeek | Anthropic | OtherModel

definition OPENAI_MARKERS :: "string list" where
  "OPENAI_MARKERS =
     [''gpt-'', ''gpt4'', ''gpt5'', ''chatgpt'', ''codex'', ''davinci'', ''text-embedding'', ''omni'']"

definition model_family :: "string \<Rightarrow> model_family" where
  "model_family model =
     (let m = ascii_lower model in
      if contains_str m ''deepseek'' then DeepSeek
      else if contains_str m ''claude'' then Anthropic
      else if list_ex (contains_str m) OPENAI_MARKERS \<or> starts_with m ''o1'' \<or> starts_with m ''o3''
        \<or> starts_with m ''o4-'' then OpenAi
      else OtherModel)"

definition O200K_MARKERS :: "string list" where
  "O200K_MARKERS = [''gpt-4o'', ''gpt-4.1'', ''gpt-5'', ''chatgpt'', ''omni'', ''codex'']"

definition uses_o200k :: "string \<Rightarrow> bool" where
  "uses_o200k model =
     (let m = ascii_lower model in
      list_ex (contains_str m) O200K_MARKERS \<or> starts_with m ''o1'' \<or> starts_with m ''o3''
      \<or> starts_with m ''o4-'')"

text \<open>A tokenizer is \<open>None\<close> when its construction failed, else the number of tokens of a text.\<close>

type_synonym bpe = "(string \<Rightarrow> nat) option"

definition estimate_tokens_for_model :: "bpe \<Rightarrow> bpe \<Rightarrow> string \<Rightarrow> string \<Rightarrow> nat" where
  "estimate_tokens_for_model o200k_bpe cl100k_bpe model s =
     (let count = (\<lambda>bpe. case bpe of None \<Rightarrow> estimate_tokens s | Some encode \<Rightarrow> encode s) in
      case model_family model of
        OpenAi \<Rightarrow> count (if uses_o200k model then o200k_bpe else cl100k_bpe)
      | DeepSeek \<Rightarrow> count cl100k_bpe
      | Anthropic \<Rightarrow> estimate_tokens s
      | OtherModel \<Rightarrow> estimate_tokens s)"

definition estimate_chars :: "nat \<Rightarrow> nat" where
  "estimate_chars tokens = sat_mul tokens BYTES_PER_TOKEN"

definition estimate_image_tokens :: "nat \<Rightarrow> nat" where
  "estimate_image_tokens image_count = sat_mul image_count IMAGE_TOKEN_ESTIMATE"

definition usage_percentage :: "nat \<Rightarrow> nat \<Rightarrow> rat" where
  "usage_percentage used whole =
     (if whole = 0 then 0
      else min 100 (f64_mul (f64_div (f64_of_nat used) (f64_of_nat whole)) 100))"

definition usage_percentage_u8 :: "nat \<Rightarrow> nat \<Rightarrow> nat" where
  "usage_percentage_u8 used whole = round_cast 255 (usage_percentage used whole)"

definition usage_percentage_truncated_u8 :: "nat \<Rightarrow> nat \<Rightarrow> nat" where
  "usage_percentage_truncated_u8 used whole =
     (if whole = 0 then 0 else min (sat_mul used 100 div whole) 100)"

definition free_tokens :: "nat \<Rightarrow> nat \<Rightarrow> nat" where
  "free_tokens whole used = whole - used"

definition exceeds_threshold :: "nat \<Rightarrow> nat \<Rightarrow> nat \<Rightarrow> bool" where
  "exceeds_threshold used context_window threshold_percent =
     (if context_window = 0 then False
      else sat_mul context_window threshold_percent \<le> sat_mul used 100)"

definition exceeds_threshold_with_headroom :: "nat \<Rightarrow> nat \<Rightarrow> nat \<Rightarrow> nat \<Rightarrow> bool" where
  "exceeds_threshold_with_headroom used context_window threshold_percent headroom =
     (if context_window = 0 then False
      else sat_mul context_window threshold_percent - sat_mul headroom 100 \<le> sat_mul used 100)"

subsection \<open>What the heuristic guarantees\<close>

lemma fold_count_step:
  "fold count_step cs (k, n) =
     (k + length (filter is_cjk cs), n + sum_list (map length (filter (\<lambda>ch. \<not> is_cjk ch) cs)))"
  by (induction cs arbitrary: k n) auto

lemma estimate_tokens_alt:
  "estimate_tokens s =
     sum_list (map length (filter (\<lambda>ch. \<not> is_cjk ch) (str_chars s))) div 4
     + length (filter is_cjk (str_chars s))"
  by (simp add: estimate_tokens_def fold_count_step BYTES_PER_TOKEN_def)

lemma is_cjk_length: "is_cjk ch \<Longrightarrow> length ch \<le> 4"
  by (cases ch rule: code_point.cases) (auto simp: is_cjk_def)

lemma sum_list_filter_split:
  "sum_list (map f xs) =
     sum_list (map f (filter P xs)) + sum_list (map f (filter (\<lambda>x. \<not> P x) xs) :: nat list)"
  by (induction xs) auto

text \<open>The character-aware estimate never falls below the byte rule, and is it on ASCII texts.\<close>

lemma estimate_at_least_bytes4: "estimate_tokens_bytes4 s \<le> estimate_tokens s"
proof -
  let ?cjk = "filter is_cjk (str_chars s)"
  let ?other = "sum_list (map length (filter (\<lambda>ch. \<not> is_cjk ch) (str_chars s)))"
  have "sum_list (map length ?cjk) \<le> sum_list (map (\<lambda>_. 4) ?cjk)"
    by (rule sum_list_mono) (simp add: is_cjk_length)
  then have "length s \<le> 4 * length ?cjk + ?other"
    using sum_list_filter_split [of length "str_chars s" is_cjk]
    by (simp add: length_str_chars [of s] sum_list_triv)
  then have "length s div 4 \<le> (4 * length ?cjk + ?other) div 4" by (rule div_le_mono)
  then show ?thesis by (simp add: estimate_tokens_bytes4_def BYTES_PER_TOKEN_def estimate_tokens_alt)
qed

lemma str_chars_ascii:
  "list_all (\<lambda>c. (of_char c :: nat) < 0x80) s \<Longrightarrow> str_chars s = map (\<lambda>c. [c]) s"
proof (induction s)
  case (Cons c s)
  have "takeWhile utf8_cont s = []" "dropWhile utf8_cont s = s"
    using Cons.prems by (cases s; auto simp: utf8_cont_def)+
  with Cons show ?case by simp
qed simp

lemma estimate_tokens_ascii:
  "list_all (\<lambda>c. (of_char c :: nat) < 0x80) s \<Longrightarrow> estimate_tokens s = estimate_tokens_bytes4 s"
proof -
  assume s: "list_all (\<lambda>c. (of_char c :: nat) < 0x80) s"
  have "\<not> is_cjk [c]" if "(of_char c :: nat) < 0x80" for c
    using that by (auto simp: is_cjk_def)
  then have "filter is_cjk (map (\<lambda>c. [c]) s) = []"
      "filter (\<lambda>ch. \<not> is_cjk ch) (map (\<lambda>c. [c]) s) = map (\<lambda>c. [c]) s"
    using s by (auto simp: filter_empty_conv filter_id_conv list_all_iff)
  then show ?thesis
    using s by (simp add: estimate_tokens_alt str_chars_ascii estimate_tokens_bytes4_def
        BYTES_PER_TOKEN_def comp_def sum_list_triv)
qed

lemma truncated_percentage_bound: "usage_percentage_truncated_u8 used t \<le> 100"
  by (simp add: usage_percentage_truncated_u8_def)

end
