(* ===== verification/UsageLedger.thy ===== *)
theory UsageLedger
  imports Tokens
begin

text \<open>
  The billing ledgers of \<open>xai-chat-state/src/usage.rs\<close>: \<open>UsageTotals\<close>, \<open>UsageLedger\<close> and their folds, with
  saturating arithmetic written out.  An \<open>IndexMap\<close> is an association list in insertion order.
  The ledger invariant is that the totals are the fold of the entries per model.
\<close>

record token_usage =
  prompt_tokens :: nat
  completion_tokens :: nat
  usage_total_tokens :: nat
  reasoning_tokens :: nat
  cached_prompt_tokens :: nat

record usage_totals =
  ut_input_tokens :: nat
  ut_output_tokens :: nat
  ut_cached_read_tokens :: nat
  ut_reasoning_tokens :: nat
  ut_model_calls :: nat
  ut_api_duration_ms :: nat
  ut_cost_usd_ticks :: "int option"
  ut_cost_missing_calls :: nat

definition default_totals :: usage_totals where
  "default_totals =
     \<lparr> ut_input_tokens = 0, ut_output_tokens = 0, ut_cached_read_tokens = 0, ut_reasoning_tokens = 0,
       ut_model_calls = 0, ut_api_duration_ms = 0, ut_cost_usd_ticks = None, ut_cost_missing_calls = 0 \<rparr>"

definition reported_cost_ticks :: "int option \<Rightarrow> int option" where
  "reported_cost_ticks raw = opt_filter (\<lambda>t. 0 < t) raw"

definition from_call :: "token_usage \<Rightarrow> nat option \<Rightarrow> int option \<Rightarrow> usage_totals" where
  "from_call usage api_duration_ms cost_usd_ticks =
     (let cost = reported_cost_ticks cost_usd_ticks in
      \<lparr> ut_input_tokens = prompt_tokens usage,
        ut_output_tokens = completion_tokens usage,
        ut_cached_read_tokens = cached_prompt_tokens usage,
        ut_reasoning_tokens = reasoning_tokens usage,
        ut_model_calls = 1,
        ut_api_duration_ms = (case api_duration_ms of None \<Rightarrow> 0 | Some d \<Rightarrow> d),
        ut_cost_usd_ticks = cost,
        ut_cost_missing_calls = (if cost = None then 1 else 0) \<rparr>)"

definition totals_total_tokens :: "usage_totals \<Rightarrow> nat" where
  "totals_total_tokens u = sat_add (ut_input_tokens u) (ut_output_tokens u)"

definition cost_is_partial :: "usage_totals \<Rightarrow> bool" where
  "cost_is_partial u \<longleftrightarrow> ut_cost_usd_ticks u \<noteq> None \<and> 0 < ut_cost_missing_calls u"

definition sat_add_i64 :: "int \<Rightarrow> int \<Rightarrow> int" where
  "sat_add_i64 a b = max (- (2 ^ 63)) (min (2 ^ 63 - 1) (a + b))"

fun merge_cost_ticks :: "int option \<Rightarrow> int option \<Rightarrow> int option" where
  "merge_cost_ticks None None = None"
| "merge_cost_ticks a b =
     Some (sat_add_i64 (case a of None \<Rightarrow> 0 | Some x \<Rightarrow> x) (case b of None \<Rightarrow> 0 | Some x \<Rightarrow> x))"

definition fold_totals :: "usage_totals \<Rightarrow> usage_totals \<Rightarrow> usage_totals" where
  "fold_totals self other =
     \<lparr> ut_input_tokens = sat_add (ut_input_tokens self) (ut_input_tokens other),
       ut_output_tokens = sat_add (ut_output_tokens self) (ut_output_tokens other),
       ut_cached_read_tokens = sat_add (ut_cached_read_tokens self) (ut_cached_read_tokens other),
       ut_reasoning_tokens = sat_add (ut_reasoning_tokens self) (ut_reasoning_tokens other),
       ut_model_calls = sat_add (ut_model_calls self) (ut_model_calls other),
       ut_api_duration_ms = sat_add (ut_api_duration_ms self) (ut_api_duration_ms other),
       ut_cost_usd_ticks = merge_cost_ticks (ut_cost_usd_ticks self) (ut_cost_usd_ticks other),
       ut_cost_missing_calls = sat_add (ut_cost_missing_calls self) (ut_cost_missing_calls other) \<rparr>"

record usage_ledger =
  ledger_totals :: usage_totals
  by_model :: "(string \<times> usage_totals) list"
  main_loop_model_calls :: nat
  incomplete :: bool

definition default_ledger :: usage_ledger where
  "default_ledger =
     \<lparr> ledger_totals = default_totals, by_model = [], main_loop_model_calls = 0, incomplete = False \<rparr>"

text \<open>\<open>entry(k).or_default()\<close> followed by \<open>fold_totals\<close>.\<close>

fun fold_model :: "string \<Rightarrow> usage_totals \<Rightarrow> (string \<times> usage_totals) list \<Rightarrow> (string \<times> usage_totals) list" where
  "fold_model k t [] = [(k, fold_totals default_totals t)]"
| "fold_model k t ((k', u) # es) =
     (if k' = k then (k', fold_totals u t) # es else (k', u) # fold_model k t es)"

definition fold_entry :: "string \<Rightarrow> usage_totals \<Rightarrow> usage_ledger \<Rightarrow> usage_ledger" where
  "fold_entry model_id t l =
     l \<lparr> ledger_totals := fold_totals (ledger_totals l) t,
         by_model := fold_model model_id t (by_model l) \<rparr>"

definition record_main_loop_call ::
  "string \<Rightarrow> token_usage \<Rightarrow> nat option \<Rightarrow> int option \<Rightarrow> usage_ledger \<Rightarrow> usage_ledger" where
  "record_main_loop_call model_id usage api_duration_ms cost_usd_ticks l =
     fold_entry model_id (from_call usage api_duration_ms cost_usd_ticks)
       (l \<lparr> main_loop_model_calls := sat_add (main_loop_model_calls l) 1 \<rparr>)"

definition record_subagent :: "(string \<times> usage_totals) list \<Rightarrow> bool \<Rightarrow> usage_ledger \<Rightarrow> usage_ledger" where
  "record_subagent usages is_incomplete l =
     (let l' = fold (\<lambda>(model_id, t). fold_entry model_id t) usages l in
      if is_incomplete then l' \<lparr> incomplete := True \<rparr> else l')"

definition mark_incomplete :: "usage_ledger \<Rightarrow> usage_ledger" where
  "mark_incomplete l = l \<lparr> incomplete := True \<rparr>"

section \<open>The totals are the fold of the entries\<close>

definition cost_ok :: "usage_totals \<Rightarrow> bool" where
  "cost_ok t \<longleftrightarrow> (case ut_cost_usd_ticks t of None \<Rightarrow> True | Some c \<Rightarrow> 0 \<le> c \<and> c < 2 ^ 63)"

lemma merge_cost_ok:
  "cost_ok a \<Longrightarrow> cost_ok b \<Longrightarrow> cost_ok (fold_totals a b)"
  by (auto simp: cost_ok_def fold_totals_def sat_add_i64_def split: option.splits)

lemma cost_ok_from_call: "(case c of None \<Rightarrow> True | Some x \<Rightarrow> x < 2 ^ 63) \<Longrightarrow> cost_ok (from_call u d c)"
  by (cases c) (auto simp: cost_ok_def from_call_def Let_def reported_cost_ticks_def)

lemma merge_cost_assoc:
  assumes "cost_ok a" "cost_ok b" "cost_ok c"
  shows "merge_cost_ticks (merge_cost_ticks (ut_cost_usd_ticks a) (ut_cost_usd_ticks b)) (ut_cost_usd_ticks c)
       = merge_cost_ticks (ut_cost_usd_ticks a) (merge_cost_ticks (ut_cost_usd_ticks b) (ut_cost_usd_ticks c))"
  using assms
  by (cases "ut_cost_usd_ticks a"; cases "ut_cost_usd_ticks b"; cases "ut_cost_usd_ticks c")
    (auto simp: cost_ok_def sat_add_i64_def)

lemma merge_cost_commute: "merge_cost_ticks a b = merge_cost_ticks b a"
  by (cases a; cases b) (auto simp: sat_add_i64_def add.commute)

lemma fold_totals_commute: "fold_totals a b = fold_totals b a"
  by (simp add: fold_totals_def sat_add_commute merge_cost_commute)

lemma fold_totals_assoc:
  "cost_ok a \<Longrightarrow> cost_ok b \<Longrightarrow> cost_ok c \<Longrightarrow>
   fold_totals (fold_totals a b) c = fold_totals a (fold_totals b c)"
  by (simp add: fold_totals_def sat_add_assoc merge_cost_assoc)

lemma cost_ok_default [simp]: "cost_ok default_totals"
  by (simp add: cost_ok_def default_totals_def)

fun sum_entries :: "(string \<times> usage_totals) list \<Rightarrow> usage_totals" where
  "sum_entries [] = default_totals"
| "sum_entries ((_, u) # es) = fold_totals u (sum_entries es)"

definition ledger_ok :: "usage_ledger \<Rightarrow> bool" where
  "ledger_ok l \<longleftrightarrow> ledger_totals l = sum_entries (by_model l) \<and> distinct (map fst (by_model l))
     \<and> (\<forall>e \<in> set (by_model l). cost_ok (snd e))"

lemma cost_ok_sum: "(\<forall>e \<in> set es. cost_ok (snd e)) \<Longrightarrow> cost_ok (sum_entries es)"
  by (induction es rule: sum_entries.induct) (auto intro: merge_cost_ok)

lemma sum_fold_model:
  "(\<forall>e \<in> set es. cost_ok (snd e)) \<Longrightarrow> cost_ok t \<Longrightarrow>
   sum_entries (fold_model k t es) = fold_totals (sum_entries es) t"
proof (induction k t es rule: fold_model.induct)
  case (1 k t)
  have "fold_totals (fold_totals default_totals t) default_totals = fold_totals default_totals t"
    by (auto simp: fold_totals_def default_totals_def sat_add_def sat_add_i64_def
        split: option.splits intro!: merge_cost_commute)
      (cases "ut_cost_usd_ticks t"; simp add: sat_add_i64_def)+
  then show ?case by simp
next
  case (2 k t k' u es)
  have es: "cost_ok (sum_entries es)" using "2.prems" by (intro cost_ok_sum) simp
  show ?case
  proof (cases "k' = k")
    case True
    have "fold_totals (fold_totals u t) (sum_entries es) = fold_totals (fold_totals u (sum_entries es)) t"
      using "2.prems" es by (simp add: fold_totals_assoc fold_totals_commute [of t])
    with True show ?thesis by simp
  next
    case False
    then show ?thesis using 2 es by (simp add: fold_totals_assoc)
  qed
qed

lemma keys_fold_model: "fst ` set (fold_model k t es) = insert k (fst ` set es)"
  by (induction k t es rule: fold_model.induct) auto

lemma distinct_fold_model: "distinct (map fst es) \<Longrightarrow> distinct (map fst (fold_model k t es))"
proof (induction k t es rule: fold_model.induct)
  case (2 k t k' u es)
  then show ?case using keys_fold_model [of k t es] by (auto simp flip: image_set)
qed simp

lemma cost_ok_fold_model:
  "(\<forall>e \<in> set es. cost_ok (snd e)) \<Longrightarrow> cost_ok t \<Longrightarrow> \<forall>e \<in> set (fold_model k t es). cost_ok (snd e)"
  by (induction k t es rule: fold_model.induct) (auto intro: merge_cost_ok)

lemma ledger_ok_default [inv_intros]: "ledger_ok default_ledger"
  by (simp add: ledger_ok_def default_ledger_def)

lemma ledger_ok_fold_entry [inv_intros]: "ledger_ok l \<Longrightarrow> cost_ok t \<Longrightarrow> ledger_ok (fold_entry k t l)"
  using cost_ok_fold_model [of "by_model l" t k]
  by (simp add: ledger_ok_def fold_entry_def sum_fold_model distinct_fold_model)

lemma ledger_ok_main_loop [inv_intros]:
  "ledger_ok l \<Longrightarrow> (case c of None \<Rightarrow> True | Some x \<Rightarrow> x < 2 ^ 63) \<Longrightarrow>
   ledger_ok (record_main_loop_call m u d c l)"
  unfolding record_main_loop_call_def
  by (intro ledger_ok_fold_entry cost_ok_from_call) (simp_all add: ledger_ok_def)

lemma ledger_ok_subagent [inv_intros]:
  assumes "ledger_ok l" "\<forall>e \<in> set us. cost_ok (snd e)"
  shows "ledger_ok (record_subagent us i l)"
proof -
  have "ledger_ok (fold (\<lambda>(m, t). fold_entry m t) us l)"
    using assms
  proof (induction us arbitrary: l)
    case (Cons e us)
    obtain m t where e: "e = (m, t)" by (cases e)
    show ?case using Cons.IH [of "fold_entry m t l"] Cons.prems by (simp add: e ledger_ok_fold_entry)
  qed simp
  then show ?thesis by (simp add: record_subagent_def Let_def ledger_ok_def)
qed

lemma ledger_ok_mark [inv_intros]: "ledger_ok l \<Longrightarrow> ledger_ok (mark_incomplete l)"
  by (simp add: mark_incomplete_def ledger_ok_def)

end
