(* ===== verification/Conversation.thy ===== *)
theory Conversation
  imports UsageLedger
begin

text \<open>
  The conversation of \<open>xai-grok-sampling-types/src/conversation.rs\<close>: its items, their constructors and
  texts, the cut of a rewind (\<open>conversation_truncate_for_prompt\<close>) and the rewriting of paths for a
  forked session.  The items of the Responses API (\<open>rs::\<close>, a library) carry the fields the source
  reads.  A text is the bytes of its UTF-8; slicing inside a character panics, which is \<open>None\<close>.
\<close>

section \<open>Items\<close>

datatype synthetic_reason =
    CompactionMeta | SystemReminder | ProjectInstructions | AutoContinue | AutoRecovery
  | Interjection | TaskCompleted | SubagentCompleted | NotificationDrain | GoalSummary
  | GoalClassifierNudge | SchedulerFired | UnknownReason

fun starts_prompt_turn :: "synthetic_reason \<Rightarrow> bool" where
  "starts_prompt_turn TaskCompleted = True"
| "starts_prompt_turn SubagentCompleted = True"
| "starts_prompt_turn NotificationDrain = True"
| "starts_prompt_turn GoalClassifierNudge = True"
| "starts_prompt_turn SchedulerFired = True"
| "starts_prompt_turn CompactionMeta = False"
| "starts_prompt_turn SystemReminder = False"
| "starts_prompt_turn ProjectInstructions = False"
| "starts_prompt_turn AutoContinue = False"
| "starts_prompt_turn AutoRecovery = False"
| "starts_prompt_turn Interjection = False"
| "starts_prompt_turn GoalSummary = False"
| "starts_prompt_turn UnknownReason = False"

datatype prior_turn_interrupt = MidTurnAbort | PermissionRejected | PermissionCancelled | UnknownInterrupt

datatype reasoning_effort = NoEffort | Minimal | Low | Medium | High | Xhigh

datatype content_part = TextPart string | ImagePart string

record user_item =
  user_content :: "content_part list"
  user_reason :: "synthetic_reason option"
  user_interrupt :: "prior_turn_interrupt option"
  user_prompt_index :: "nat option"

record tool_call =
  call_id :: string
  call_name :: string
  call_arguments :: string

record assistant_item =
  assistant_content :: string
  tool_calls :: "tool_call list"
  model_id :: "string option"
  model_fingerprint :: "string option"
  effort :: "reasoning_effort option"

record tool_result_item =
  result_call_id :: string
  result_content :: string
  result_images :: "content_part list"

datatype web_search_action =
    SearchAction string
  | OpenPageAction "string option"
  | FindAction string string
  | FindInPageAction string string

datatype backend_tool_kind =
    WebSearch string web_search_action
  | XSearch string string string
  | CodeInterpreter string "string option"

record reasoning_item =
  reasoning_id :: string
  reasoning_summary :: "string list"
  reasoning_content :: "string list option"
  encrypted_content :: "string option"

datatype conversation_item =
    System string
  | User user_item
  | Assistant assistant_item
  | ToolResult tool_result_item
  | BackendToolCall backend_tool_kind
  | Reasoning reasoning_item

fun backend_id :: "backend_tool_kind \<Rightarrow> string" where
  "backend_id (WebSearch i _) = i"
| "backend_id (XSearch i _ _) = i"
| "backend_id (CodeInterpreter i _) = i"

fun action_desc :: "web_search_action \<Rightarrow> string" where
  "action_desc (SearchAction q) = ''search: '' @ q"
| "action_desc (OpenPageAction url) = ''open: '' @ (case url of None \<Rightarrow> ''?'' | Some u \<Rightarrow> u)"
| "action_desc (FindAction pat url) = ''find \"'' @ pat @ ''\" in '' @ url"
| "action_desc (FindInPageAction pat url) = ''find \"'' @ pat @ ''\" in '' @ url"

text \<open>The preview of code cuts at byte 100, which may fall inside a character.\<close>

fun code_preview :: "string option \<Rightarrow> string option" where
  "code_preview None = Some []"
| "code_preview (Some c) =
     (if 100 < length c
      then (if is_char_boundary c 100 then Some (take 100 c @ ''...'') else None)
      else Some c)"

fun text_summary :: "backend_tool_kind \<Rightarrow> string option" where
  "text_summary (WebSearch _ act) = Some (''[backend web_search] '' @ action_desc act)"
| "text_summary (XSearch _ nm inp) = Some (''[backend x_search] '' @ nm @ ''('' @ inp @ '')'')"
| "text_summary (CodeInterpreter _ code) =
     map_option (\<lambda>p. ''[backend code_interpreter] '' @ p) (code_preview code)"

section \<open>Constructors\<close>

definition user_text :: "synthetic_reason option \<Rightarrow> string \<Rightarrow> conversation_item" where
  "user_text reason t =
     User \<lparr> user_content = [TextPart t], user_reason = reason, user_interrupt = None,
            user_prompt_index = None \<rparr>"

definition user :: "string \<Rightarrow> conversation_item" where
  "user t = user_text None t"

definition user_with_parts :: "content_part list \<Rightarrow> conversation_item" where
  "user_with_parts parts =
     User \<lparr> user_content = parts, user_reason = None, user_interrupt = None, user_prompt_index = None \<rparr>"

definition user_meta :: "string \<Rightarrow> conversation_item" where
  "user_meta t = user_text (Some CompactionMeta) t"

definition system_reminder :: "string \<Rightarrow> conversation_item" where
  "system_reminder t = user_text (Some SystemReminder) t"

definition project_instructions :: "string \<Rightarrow> conversation_item" where
  "project_instructions t = user_text (Some ProjectInstructions) t"

definition auto_continue :: "string \<Rightarrow> conversation_item" where
  "auto_continue t = user_text (Some AutoContinue) t"

definition auto_recovery :: "string \<Rightarrow> conversation_item" where
  "auto_recovery t = user_text (Some AutoRecovery) t"

definition interjection :: "string \<Rightarrow> conversation_item" where
  "interjection t = user_text (Some Interjection) t"

definition task_completed :: "string \<Rightarrow> conversation_item" where
  "task_completed t = user_text (Some TaskCompleted) t"

definition subagent_completed :: "string \<Rightarrow> conversation_item" where
  "subagent_completed t = user_text (Some SubagentCompleted) t"

definition notification_drain :: "string \<Rightarrow> conversation_item" where
  "notification_drain t = user_text (Some NotificationDrain) t"

definition goal_summary :: "string \<Rightarrow> conversation_item" where
  "goal_summary t = user_text (Some GoalSummary) t"

definition goal_classifier_nudge :: "string \<Rightarrow> conversation_item" where
  "goal_classifier_nudge t = user_text (Some GoalClassifierNudge) t"

definition scheduler_fired :: "string \<Rightarrow> conversation_item" where
  "scheduler_fired t = user_text (Some SchedulerFired) t"

definition assistant_with :: "string \<Rightarrow> tool_call list \<Rightarrow> string option \<Rightarrow> conversation_item" where
  "assistant_with t calls model =
     Assistant \<lparr> assistant_content = t, tool_calls = calls, model_id = model,
                 model_fingerprint = None, effort = None \<rparr>"

definition assistant :: "string \<Rightarrow> conversation_item" where
  "assistant t = assistant_with t [] None"

definition assistant_with_model :: "string \<Rightarrow> string \<Rightarrow> conversation_item" where
  "assistant_with_model t model = assistant_with t [] (Some model)"

definition assistant_tool_calls :: "tool_call list \<Rightarrow> conversation_item" where
  "assistant_tool_calls calls = assistant_with [] calls None"

definition tool_result_with_images :: "string \<Rightarrow> string \<Rightarrow> content_part list \<Rightarrow> conversation_item" where
  "tool_result_with_images i t images =
     ToolResult \<lparr> result_call_id = i, result_content = t, result_images = images \<rparr>"

definition tool_result :: "string \<Rightarrow> string \<Rightarrow> conversation_item" where
  "tool_result i t = tool_result_with_images i t []"

datatype role = RoleSystem | RoleUser | RoleAssistant | RoleTool

fun item_role :: "conversation_item \<Rightarrow> role" where
  "item_role (System _) = RoleSystem"
| "item_role (User _) = RoleUser"
| "item_role (Assistant _) = RoleAssistant"
| "item_role (ToolResult _) = RoleTool"
| "item_role (BackendToolCall _) = RoleAssistant"
| "item_role (Reasoning _) = RoleAssistant"

fun add_image :: "string \<Rightarrow> conversation_item \<Rightarrow> conversation_item" where
  "add_image url (User u) = User (u \<lparr> user_content := user_content u @ [ImagePart url] \<rparr>)"
| "add_image url item = item"

section \<open>Texts\<close>

definition reasoning_item_text :: "reasoning_item \<Rightarrow> string" where
  "reasoning_item_text r =
     join_with [CHR 0x0A]
       (reasoning_summary r @ (case reasoning_content r of None \<Rightarrow> [] | Some cs \<Rightarrow> cs))"

fun part_text :: "content_part \<Rightarrow> string option" where
  "part_text (TextPart t) = Some t"
| "part_text (ImagePart _) = None"

fun text_content :: "conversation_item \<Rightarrow> string option" where
  "text_content (System s) = Some s"
| "text_content (User u) =
     Some (join_with [CHR 0x0A] (List.map_filter part_text (user_content u)))"
| "text_content (Assistant a) = Some (assistant_content a)"
| "text_content (ToolResult t) = Some (result_content t)"
| "text_content (BackendToolCall b) = text_summary b"
| "text_content (Reasoning r) = Some (reasoning_item_text r)"

definition synthesized_reasoning_item :: "string \<Rightarrow> reasoning_item" where
  "synthesized_reasoning_item t =
     \<lparr> reasoning_id = [], reasoning_summary = [t], reasoning_content = None, encrypted_content = None \<rparr>"

fun is_user :: "conversation_item \<Rightarrow> bool" where
  "is_user (User _) = True" | "is_user _ = False"

fun is_tool_result :: "conversation_item \<Rightarrow> bool" where
  "is_tool_result (ToolResult _) = True" | "is_tool_result _ = False"

fun is_system :: "conversation_item \<Rightarrow> bool" where
  "is_system (System _) = True" | "is_system _ = False"

section \<open>The cut of a rewind\<close>

text \<open>
  Each loop walks the conversation with its position; the index of an item that starts no turn is
  \<open>None\<close>.
\<close>

fun markers_only_from :: "nat \<Rightarrow> conversation_item list \<Rightarrow> nat \<Rightarrow> nat" where
  "markers_only_from i [] target = i"
| "markers_only_from i (User u # items) target =
     (case user_prompt_index u of
        Some idx \<Rightarrow> if target \<le> idx then i else markers_only_from (Suc i) items target
      | None \<Rightarrow> markers_only_from (Suc i) items target)"
| "markers_only_from i (_ # items) target = markers_only_from (Suc i) items target"

definition conversation_truncate_markers_only :: "conversation_item list \<Rightarrow> nat \<Rightarrow> nat" where
  "conversation_truncate_markers_only conversation target = markers_only_from 0 conversation target"

text \<open>The index an unmarked user item gets, and whether it was the preamble.\<close>

fun unmarked_index :: "synthetic_reason option \<Rightarrow> nat \<Rightarrow> bool \<Rightarrow> nat option \<times> bool" where
  "unmarked_index None next_unmarked seen_preamble =
     (if seen_preamble then (Some next_unmarked, True) else (None, True))"
| "unmarked_index (Some reason) next_unmarked seen_preamble =
     ((if starts_prompt_turn reason then Some next_unmarked else None), seen_preamble)"

fun legacy_from :: "nat \<Rightarrow> nat \<Rightarrow> bool \<Rightarrow> conversation_item list \<Rightarrow> nat \<Rightarrow> nat" where
  "legacy_from i nxt seen [] target = i"
| "legacy_from i nxt seen (User u # items) target =
     (case unmarked_index (user_reason u) nxt seen of
        (Some idx, seen') \<Rightarrow>
          if target \<le> idx then i else legacy_from (Suc i) (idx + 1) seen' items target
      | (None, seen') \<Rightarrow> legacy_from (Suc i) nxt seen' items target)"
| "legacy_from i nxt seen (_ # items) target = legacy_from (Suc i) nxt seen items target"

definition conversation_truncate_legacy :: "conversation_item list \<Rightarrow> nat \<Rightarrow> nat" where
  "conversation_truncate_legacy conversation target = legacy_from 0 0 False conversation target"

fun count_legacy_from :: "nat \<Rightarrow> bool \<Rightarrow> conversation_item list \<Rightarrow> nat" where
  "count_legacy_from turns seen [] = turns"
| "count_legacy_from turns seen (User u # items) =
     (if user_prompt_index u \<noteq> None then turns
      else case user_reason u of
        None \<Rightarrow> if seen then count_legacy_from (turns + 1) seen items
                else count_legacy_from turns True items
      | Some reason \<Rightarrow>
          count_legacy_from (if starts_prompt_turn reason then turns + 1 else turns) seen items)"
| "count_legacy_from turns seen (_ # items) = count_legacy_from turns seen items"

definition count_legacy_turns_until_marker :: "conversation_item list \<Rightarrow> nat" where
  "count_legacy_turns_until_marker conversation = count_legacy_from 0 False conversation"

fun progressive_from ::
  "nat \<Rightarrow> nat \<Rightarrow> bool \<Rightarrow> bool \<Rightarrow> conversation_item list \<Rightarrow> nat \<Rightarrow> nat" where
  "progressive_from i nxt seen marked [] target = i"
| "progressive_from i nxt seen marked (User u # items) target =
     (case user_prompt_index u of
        Some idx \<Rightarrow>
          if target \<le> idx then i else progressive_from (Suc i) nxt seen True items target
      | None \<Rightarrow>
          if marked then progressive_from (Suc i) nxt seen marked items target
          else (case unmarked_index (user_reason u) nxt seen of
                  (Some idx, seen') \<Rightarrow>
                    if target \<le> idx then i
                    else progressive_from (Suc i) (idx + 1) seen' marked items target
                | (None, seen') \<Rightarrow> progressive_from (Suc i) nxt seen' marked items target))"
| "progressive_from i nxt seen marked (_ # items) target =
     progressive_from (Suc i) nxt seen marked items target"

definition conversation_truncate_progressive :: "conversation_item list \<Rightarrow> nat \<Rightarrow> nat" where
  "conversation_truncate_progressive conversation target =
     progressive_from 0 0 False False conversation target"

fun item_marker :: "conversation_item \<Rightarrow> nat option" where
  "item_marker (User u) = user_prompt_index u"
| "item_marker _ = None"

definition conversation_truncate_for_prompt :: "conversation_item list \<Rightarrow> nat \<Rightarrow> nat" where
  "conversation_truncate_for_prompt conversation target =
     (case first_opt (List.map_filter item_marker conversation) of
        None \<Rightarrow> conversation_truncate_legacy conversation target
      | Some first_marker_idx \<Rightarrow>
          if count_legacy_turns_until_marker conversation \<noteq> first_marker_idx
          then conversation_truncate_markers_only conversation target
          else conversation_truncate_progressive conversation target)"

section \<open>Paths of a forked session\<close>

text \<open>\<open>str::replace\<close>; an empty pattern matches before every character and at the end.\<close>

definition str_replace :: "string \<Rightarrow> string \<Rightarrow> string \<Rightarrow> string" where
  "str_replace pat r s =
     (if pat = [] then r @ concat (map (\<lambda>ch. ch @ r) (str_chars s)) else replace_all pat r s)"

definition replace_if_contains :: "string \<Rightarrow> string \<Rightarrow> string \<Rightarrow> string" where
  "replace_if_contains source target s = (if contains_str s source then str_replace source target s else s)"

fun transform_part :: "string \<Rightarrow> string \<Rightarrow> content_part \<Rightarrow> content_part" where
  "transform_part source target (TextPart t) = TextPart (replace_if_contains source target t)"
| "transform_part source target (ImagePart u) = ImagePart u"

fun transform_item_cwd :: "string \<Rightarrow> string \<Rightarrow> conversation_item \<Rightarrow> conversation_item" where
  "transform_item_cwd source target (System s) = System (replace_if_contains source target s)"
| "transform_item_cwd source target (User u) =
     User (u \<lparr> user_content := map (transform_part source target) (user_content u) \<rparr>)"
| "transform_item_cwd source target (Assistant a) =
     Assistant (a \<lparr> assistant_content := replace_if_contains source target (assistant_content a),
        tool_calls := map (\<lambda>tc. tc \<lparr> call_arguments := replace_if_contains source target (call_arguments tc) \<rparr>)
          (tool_calls a) \<rparr>)"
| "transform_item_cwd source target (ToolResult t) =
     ToolResult (t \<lparr> result_content := replace_if_contains source target (result_content t) \<rparr>)"
| "transform_item_cwd source target (BackendToolCall b) = BackendToolCall b"
| "transform_item_cwd source target (Reasoning r) =
     Reasoning (r \<lparr> reasoning_summary := map (replace_if_contains source target) (reasoning_summary r),
        reasoning_content := map_option (map (replace_if_contains source target)) (reasoning_content r) \<rparr>)"

definition transform_conversation_cwd ::
  "conversation_item list \<Rightarrow> string \<Rightarrow> string \<Rightarrow> conversation_item list" where
  "transform_conversation_cwd items source target = map (transform_item_cwd source target) items"

end
