(* ===== verification/ConversationSpec.thy ===== *)
theory ConversationSpec
  imports Conversation
begin

text \<open>
  The cut of a rewind on the conversation: on a session whose turns carry their prompt index it keeps
  exactly the turns before the target, whichever counting mode the code picks.
\<close>

section \<open>Bounds\<close>

lemma markers_only_le: "markers_only_from i items t \<le> i + length items"
  by (induction i items t rule: markers_only_from.induct) (auto split: option.splits)

lemma legacy_le: "legacy_from i n s items t \<le> i + length items"
  by (induction i n s items t rule: legacy_from.induct) (auto split: option.splits prod.splits)

lemma progressive_le: "progressive_from i n s b items t \<le> i + length items"
  by (induction i n s b items t rule: progressive_from.induct) (auto split: option.splits prod.splits)

lemma truncate_le_length: "conversation_truncate_for_prompt conversation t \<le> length conversation"
  using markers_only_le [of 0 conversation t] legacy_le [of 0 0 False conversation t]
    progressive_le [of 0 0 False False conversation t]
  by (simp add: conversation_truncate_for_prompt_def conversation_truncate_legacy_def
      conversation_truncate_markers_only_def conversation_truncate_progressive_def split: option.split)

section \<open>Sessions whose turns are marked\<close>

definition unmarked :: "conversation_item list \<Rightarrow> bool" where
  "unmarked items \<longleftrightarrow> list_all (\<lambda>item. item_marker item = None) items"

text \<open>A turn is the user item that opened it, with its index, and what followed.\<close>

fun turns_from :: "nat \<Rightarrow> conversation_item list list \<Rightarrow> bool" where
  "turns_from m [] = True"
| "turns_from m (turn # turns) \<longleftrightarrow>
     (case turn of [] \<Rightarrow> False | item # body \<Rightarrow> item_marker item = Some m \<and> unmarked body)
     \<and> turns_from (Suc m) turns"

lemma unmarked_simps [simp]:
  "unmarked []" "unmarked (item # items) \<longleftrightarrow> item_marker item = None \<and> unmarked items"
  by (simp_all add: unmarked_def)

lemma marker_user: "item_marker item = Some m \<Longrightarrow> \<exists>u. item = User u \<and> user_prompt_index u = Some m"
  by (cases item) auto

lemma markers_only_skip: "unmarked items \<Longrightarrow> markers_only_from i (items @ rest) t = markers_only_from (i + length items) rest t"
proof (induction items arbitrary: i)
  case (Cons item items)
  then show ?case by (cases item) auto
qed simp

lemma progressive_skip:
  "unmarked items \<Longrightarrow>
   progressive_from i n s True (items @ rest) t = progressive_from (i + length items) n s True rest t"
proof (induction items arbitrary: i)
  case (Cons item items)
  then show ?case by (cases item) auto
qed simp

lemma markers_only_turns:
  "turns_from m turns \<Longrightarrow> m \<le> t \<Longrightarrow>
   markers_only_from i (concat turns) t = i + length (concat (take (t - m) turns))"
proof (induction turns arbitrary: i m)
  case (Cons turn turns)
  then obtain u body where turn: "turn = User u # body" "user_prompt_index u = Some m" "unmarked body"
    by (auto split: list.splits dest!: marker_user)
  show ?case
  proof (cases "t = m")
    case False
    then have "t - m = Suc (t - Suc m)" using Cons.prems(2) by simp
    then show ?thesis
      using False Cons.prems Cons.IH [of "Suc m" "Suc i + length body"] turn
      by (simp add: markers_only_skip)
  qed (simp add: turn)
qed simp

lemma progressive_turns:
  "turns_from m turns \<Longrightarrow> m \<le> t \<Longrightarrow>
   progressive_from i n s b (concat turns) t = i + length (concat (take (t - m) turns))"
proof (induction turns arbitrary: i m b)
  case (Cons turn turns)
  then obtain u body where turn: "turn = User u # body" "user_prompt_index u = Some m" "unmarked body"
    by (auto split: list.splits dest!: marker_user)
  show ?case
  proof (cases "t = m")
    case False
    then have "t - m = Suc (t - Suc m)" using Cons.prems(2) by simp
    then show ?thesis
      using False Cons.prems Cons.IH [of "Suc m" "Suc i + length body" True] turn
      by (simp add: progressive_skip)
  qed (simp add: turn)
qed simp

lemma legacy_count_mono: "n \<le> count_legacy_from n s items"
  by (induction n s items rule: count_legacy_from.induct) (auto split: option.splits)

text \<open>Before the first marker the index of every turn is below the count of the turns there.\<close>

lemma progressive_prefix:
  "unmarked pre \<Longrightarrow> item_marker item = Some m \<Longrightarrow> count_legacy_from n s (pre @ item # rest) \<le> t \<Longrightarrow>
   \<exists>n' s'. progressive_from i n s False (pre @ item # rest) t
         = progressive_from (i + length pre) n' s' False (item # rest) t"
proof (induction pre arbitrary: i n s)
  case (Cons p pre)
  show ?case
  proof (cases "is_user p")
    case False
    then have "progressive_from i n s False ((p # pre) @ item # rest) t = progressive_from (Suc i) n s False (pre @ item # rest) t"
      and "count_legacy_from n s ((p # pre) @ item # rest) = count_legacy_from n s (pre @ item # rest)"
      by (cases p; simp)+
    with Cons.prems Cons.IH [of n s "Suc i"] show ?thesis by simp
  next
    case True
    then obtain u where p: "p = User u" and u: "user_prompt_index u = None"
      using Cons.prems(1) by (cases p) auto
    have less: "\<not> t \<le> n" if "count_legacy_from (Suc n) s' (pre @ item # rest) \<le> t" for s'
      using that legacy_count_mono [of "Suc n" s' "pre @ item # rest"] by simp
    from p u Cons.prems(3) show ?thesis
      using Cons.IH [of "Suc n" s "Suc i"] Cons.IH [of n True "Suc i"] Cons.IH [of n s "Suc i"] Cons.prems(1,2) less
      by (cases "user_reason u"; cases s; auto split: if_splits)
  qed
qed auto

lemma first_marker:
  "unmarked pre \<Longrightarrow> item_marker item = Some m \<Longrightarrow>
   first_opt (List.map_filter item_marker (pre @ item # rest)) = Some m"
  by (induction pre) (auto simp: List.map_filter_simps)

text \<open>C19. 
  C0: In a session whose turns are marked with consecutive indices, after any unmarked prefix (the
  preamble, or what a compaction rebuilt), truncating for a prompt keeps the prefix and exactly the turns
  before that prompt, whatever unmarked items the turns contain.
\<close>

theorem truncate_keeps_earlier_turns:
  assumes "unmarked pre" "turns \<noteq> []" "turns_from m turns" "m \<le> t"
  shows "take (conversation_truncate_for_prompt (pre @ concat turns) t) (pre @ concat turns)
       = pre @ concat (take (t - m) turns)"
proof -
  obtain item body turns' where turns: "turns = (item # body) # turns'" and item: "item_marker item = Some m"
    using assms(2,3) by (cases turns) (auto split: list.splits)
  define rest where "rest = body @ concat turns'"
  have conv: "concat turns = item # rest" by (simp add: turns rest_def)
  have "conversation_truncate_for_prompt (pre @ concat turns) t
      = length pre + length (concat (take (t - m) turns))"
  proof (cases "count_legacy_turns_until_marker (pre @ concat turns) = m")
    case True
    then obtain n s where "conversation_truncate_progressive (pre @ concat turns) t =
        progressive_from (0 + length pre) n s False (concat turns) t"
      using progressive_prefix [OF assms(1) item, of 0 False rest t 0] assms(4)
      by (auto simp: conversation_truncate_progressive_def count_legacy_turns_until_marker_def conv)
    then show ?thesis
      using True first_marker [OF assms(1) item, of rest] progressive_turns [OF assms(3,4)]
      by (simp add: conversation_truncate_for_prompt_def conv [symmetric])
  next
    case False
    have "conversation_truncate_markers_only (pre @ concat turns) t
        = length pre + length (concat (take (t - m) turns))"
      using markers_only_skip [OF assms(1), of 0 "concat turns" t] markers_only_turns [OF assms(3,4)]
      by (simp add: conversation_truncate_markers_only_def)
    then show ?thesis
      using False first_marker [OF assms(1) item, of rest]
      by (simp add: conversation_truncate_for_prompt_def conv [symmetric])
  qed
  moreover have "concat turns = concat (take (t - m) turns) @ concat (drop (t - m) turns)"
    by (metis append_take_drop_id concat_append)
  ultimately show ?thesis by (metis append.assoc append_eq_conv_conj length_append)
qed

definition marked_prompt :: "nat \<Rightarrow> string \<Rightarrow> conversation_item" where
  "marked_prompt k t =
     User \<lparr> user_content = [TextPart t], user_reason = None, user_interrupt = None, user_prompt_index = Some k \<rparr>"

definition demo_turns :: "conversation_item list list" where
  "demo_turns =
     [[marked_prompt 0 ''first'', user ''!ls'', assistant ''done''],
      [marked_prompt 1 ''second'', system_reminder ''note'', assistant ''ok'']]"

theorem truncate_keeps_earlier_turns_witness:
  "take (conversation_truncate_for_prompt ([System ''s'', user ''info''] @ concat demo_turns) 1)
      ([System ''s'', user ''info''] @ concat demo_turns)
   = [System ''s'', user ''info'', marked_prompt 0 ''first'', user ''!ls'', assistant ''done'']"
proof -
  have turns: "turns_from 0 demo_turns"
    by (simp add: demo_turns_def marked_prompt_def user_def user_text_def system_reminder_def
        assistant_def assistant_with_def)
  have pre: "unmarked [System ''s'', user ''info'']" by (simp add: user_def user_text_def)
  show ?thesis
    using truncate_keeps_earlier_turns [OF pre _ turns, of 1] by (simp add: demo_turns_def)
qed

text \<open>The legacy counting skips the preamble and every reminder, so it cuts at the prompt itself.\<close>

lemma legacy_cut_example:
  "conversation_truncate_for_prompt
     [System ''s'', user ''info'', user ''first'', system_reminder ''r'', assistant ''a'', user ''second''] 1 = 5"
  by code_simp

section \<open>Paths of a fork\<close>

lemma replace_if_contains_absent: "\<not> contains_str s source \<Longrightarrow> replace_if_contains source target s = s"
  by (simp add: replace_if_contains_def)

lemma transform_keeps_structure:
  "map item_role (transform_conversation_cwd items source target) = map item_role items"
proof -
  have "item_role (transform_item_cwd source target item) = item_role item" for item
    by (cases item) simp_all
  then show ?thesis by (simp add: transform_conversation_cwd_def)
qed

end
