(* ===== verification/ToolPairing.thy ===== *)
theory ToolPairing
  imports Conversation
begin

text \<open>
  Pairing of tool calls and tool results: \<open>repair_dangling_tool_calls\<close>, \<open>has_dangling_tool_calls\<close> and
  \<open>dedup_duplicate_tool_results\<close> of \<open>conversation.rs\<close>; \<open>validate_compacted_history\<close>,
  \<open>sanitize_compacted_history\<close>, \<open>strip_displaced_tool_results\<close> and \<open>repair_history\<close> of
  \<open>xai-chat-state/src/compaction_utils.rs\<close>.  A scan carries its position and the items from there on;
  a repair is a splice at a recorded position, as in the code.
\<close>

fun item_calls :: "conversation_item \<Rightarrow> tool_call list" where
  "item_calls (Assistant a) = tool_calls a"
| "item_calls _ = []"

fun item_result_id :: "conversation_item \<Rightarrow> string option" where
  "item_result_id (ToolResult tr) = Some (result_call_id tr)"
| "item_result_id _ = None"

abbreviation result_run :: "conversation_item list \<Rightarrow> conversation_item list" where
  "result_run items \<equiv> takeWhile is_tool_result items"

abbreviation after_run :: "conversation_item list \<Rightarrow> conversation_item list" where
  "after_run items \<equiv> dropWhile is_tool_result items"

abbreviation run_ids :: "conversation_item list \<Rightarrow> string set" where
  "run_ids run \<equiv> set (List.map_filter item_result_id run)"

section \<open>Unanswered calls\<close>

datatype dangling_reason = UserCancelled | HarnessHalted string

fun synthetic_dangling_result_text :: "string \<Rightarrow> dangling_reason \<Rightarrow> string" where
  "synthetic_dangling_result_text nm UserCancelled =
     ''Tool execution was cancelled by the user (tool `'' @ nm @ ''` was not executed).''"
| "synthetic_dangling_result_text nm (HarnessHalted cls) =
     ''Tool execution was halted by the harness ('' @ cls @ ''); the tool `'' @ nm @
     ''` was not executed.''"

definition synthetic_results ::
  "dangling_reason \<Rightarrow> tool_call list \<Rightarrow> string set \<Rightarrow> conversation_item list" where
  "synthetic_results reason calls answered =
     map (\<lambda>tc. tool_result (call_id tc) (synthetic_dangling_result_text (call_name tc) reason))
       (filter (\<lambda>tc. call_id tc \<notin> answered) calls)"

function dangling_repairs ::
  "dangling_reason \<Rightarrow> nat \<Rightarrow> conversation_item list \<Rightarrow> (nat \<times> conversation_item list) list" where
  "dangling_repairs reason i [] = []"
| "dangling_repairs reason i (item # rest) =
     (if item_calls item \<noteq> [] then
        (let j = i + 1 + length (result_run rest);
             synthetic = synthetic_results reason (item_calls item) (run_ids (result_run rest)) in
         (if synthetic \<noteq> [] then [(j, synthetic)] else [])
         @ dangling_repairs reason j (after_run rest))
      else dangling_repairs reason (i + 1) rest)"
  by pat_completeness auto
termination
  by (relation "measure (\<lambda>(r, i, items). length items)")
    (auto simp: le_imp_less_Suc length_dropWhile_le)

definition splice_at :: "conversation_item list \<Rightarrow> nat \<times> conversation_item list \<Rightarrow> conversation_item list" where
  "splice_at conv r = take (fst r) conv @ snd r @ drop (fst r) conv"

definition repair_dangling_tool_calls ::
  "dangling_reason \<Rightarrow> conversation_item list \<Rightarrow> conversation_item list \<times> nat" where
  "repair_dangling_tool_calls reason conversation =
     (let repairs = dangling_repairs reason 0 conversation in
      (foldl splice_at conversation (rev repairs), sum_list (map (\<lambda>r. length (snd r)) repairs)))"

function has_dangling_tool_calls :: "conversation_item list \<Rightarrow> bool" where
  "has_dangling_tool_calls [] = False"
| "has_dangling_tool_calls (item # rest) =
     (if item_calls item \<noteq> [] then
        list_ex (\<lambda>tc. call_id tc \<notin> run_ids (result_run rest)) (item_calls item)
        \<or> has_dangling_tool_calls (after_run rest)
      else has_dangling_tool_calls rest)"
  by pat_completeness auto
termination
  by (relation "measure length") (auto simp: le_imp_less_Suc length_dropWhile_le)

section \<open>Duplicate results\<close>

text \<open>The earlier positions of ids that occur again, in the order the second occurrence is met.\<close>

fun marked_duplicates :: "nat \<Rightarrow> (string \<rightharpoonup> nat) \<Rightarrow> conversation_item list \<Rightarrow> nat list" where
  "marked_duplicates idx seen [] = []"
| "marked_duplicates idx seen (item # items) =
     (case item_result_id item of
        None \<Rightarrow> marked_duplicates (Suc idx) seen items
      | Some i \<Rightarrow>
          (case seen i of None \<Rightarrow> [] | Some prev \<Rightarrow> [prev])
          @ marked_duplicates (Suc idx) (seen(i \<mapsto> idx)) items)"

definition remove_at :: "'a list \<Rightarrow> nat \<Rightarrow> 'a list" where
  "remove_at xs i = take i xs @ drop (Suc i) xs"

definition remove_marked :: "conversation_item list \<Rightarrow> nat list \<Rightarrow> conversation_item list" where
  "remove_marked conv to_remove = foldl remove_at conv (rev (sort to_remove))"

lemma marked_below:
  "(\<And>i p. seen i = Some p \<Longrightarrow> p < idx) \<Longrightarrow> p \<in> set (marked_duplicates idx seen items) \<Longrightarrow>
   p < idx + length items"
proof (induction items arbitrary: idx seen)
  case (Cons item items)
  show ?case
  proof (cases "item_result_id item")
    case None
    have "\<And>k q. seen k = Some q \<Longrightarrow> q < Suc idx" using Cons.prems(1) by (simp add: less_SucI)
    then have "p < Suc idx + length items" using Cons.prems(2) None by (intro Cons.IH) simp_all
    then show ?thesis by simp
  next
    case (Some i)
    then have p: "seen i = Some p \<or> p \<in> set (marked_duplicates (Suc idx) (seen(i \<mapsto> idx)) items)"
      using Cons.prems(2) by (cases "seen i") auto
    have up: "\<And>k q. (seen(i \<mapsto> idx)) k = Some q \<Longrightarrow> q < Suc idx"
      using Cons.prems(1) by (auto simp: less_SucI split: if_splits)
    from p show ?thesis
    proof
      assume "seen i = Some p"
      then show ?thesis using Cons.prems(1) [of i p] by simp
    next
      assume "p \<in> set (marked_duplicates (Suc idx) (seen(i \<mapsto> idx)) items)"
      with Cons.IH [where idx = "Suc idx" and seen = "seen(i \<mapsto> idx)"] up
      have "p < Suc idx + length items" by blast
      then show ?thesis by simp
    qed
  qed
qed simp

lemma remove_at_shorter: "length (remove_at xs i) \<le> length xs"
  by (simp add: remove_at_def)

lemma foldl_remove_shorter: "length (foldl remove_at xs is) \<le> length xs"
  by (induction "is" arbitrary: xs) (auto intro: order_trans [OF _ remove_at_shorter])

lemma remove_marked_shorter:
  assumes "to_remove \<noteq> []" "\<And>p. p \<in> set to_remove \<Longrightarrow> p < length conv"
  shows "length (remove_marked conv to_remove) < length conv"
proof -
  obtain m ms where ms: "rev (sort to_remove) = m # ms"
    using assms(1) by (cases "rev (sort to_remove)") (auto dest: arg_cong [where f = set])
  then have "m \<in> set to_remove" by (metis list.set_intros(1) set_rev set_sort)
  then have "length (remove_at conv m) < length conv" using assms(2) [of m] by (simp add: remove_at_def)
  then show ?thesis
    using foldl_remove_shorter [of "remove_at conv m" ms] by (simp add: remove_marked_def ms)
qed

function dedup_loop :: "conversation_item list \<Rightarrow> nat \<Rightarrow> nat \<Rightarrow> conversation_item list \<times> nat" where
  "dedup_loop conv i removed =
     (if i < length conv then
        (if item_calls (conv ! i) \<noteq> [] then
           (let start = Suc i;
                run = result_run (drop start conv);
                to_remove = marked_duplicates start Map.empty run in
            if to_remove \<noteq> []
            then dedup_loop (remove_marked conv to_remove) i (removed + length to_remove)
            else dedup_loop conv (start + length run) removed)
         else dedup_loop conv (Suc i) removed)
      else (conv, removed))"
  by pat_completeness auto
termination
proof (relation "measure (\<lambda>(conv, i, removed). 2 * length conv - i)", goal_cases)
  case (2 conv i removed start run to_remove)
  have "length run \<le> length (drop start conv)"
    using 2(4) by (simp only: length_takeWhile_le)
  moreover have "p < start + length run" if "p \<in> set to_remove" for p
    using marked_below [of Map.empty start p run] that 2(5) by simp
  ultimately have "p < length conv" if "p \<in> set to_remove" for p
    using that 2(1,3) by (cases "start \<le> length conv") fastforce+
  with 2 have "length (remove_marked conv to_remove) < length conv"
    by (intro remove_marked_shorter) auto
  with 2 show ?case by simp
qed auto

declare dedup_loop.simps [simp del]

definition dedup_duplicate_tool_results :: "conversation_item list \<Rightarrow> conversation_item list \<times> nat" where
  "dedup_duplicate_tool_results conversation = dedup_loop conversation 0 0"

section \<open>Displaced and orphaned results\<close>

fun strip_from :: "string set \<Rightarrow> conversation_item list \<Rightarrow> conversation_item list \<times> string list" where
  "strip_from ids [] = ([], [])"
| "strip_from ids (Assistant a # items) =
     (let (kept, stripped) = strip_from (set (map call_id (tool_calls a))) items in
      (Assistant a # kept, stripped))"
| "strip_from ids (ToolResult tr # items) =
     (let (kept, stripped) = strip_from ids items in
      if result_call_id tr \<in> ids then (ToolResult tr # kept, stripped)
      else (kept, result_call_id tr # stripped))"
| "strip_from ids (item # items) =
     (let (kept, stripped) = strip_from {} items in (item # kept, stripped))"

definition strip_displaced_tool_results :: "conversation_item list \<Rightarrow> conversation_item list \<times> string list" where
  "strip_displaced_tool_results items = strip_from {} items"

fun validate_from :: "string set \<Rightarrow> conversation_item list \<Rightarrow> string list" where
  "validate_from seen [] = []"
| "validate_from seen (Assistant a # items) =
     validate_from (seen \<union> set (map call_id (tool_calls a))) items"
| "validate_from seen (ToolResult tr # items) =
     (if result_call_id tr \<in> seen then validate_from seen items
      else result_call_id tr # validate_from seen items)"
| "validate_from seen (_ # items) = validate_from seen items"

definition validate_compacted_history :: "conversation_item list \<Rightarrow> string list" where
  "validate_compacted_history items = validate_from {} items"

fun sanitize_from :: "string set \<Rightarrow> conversation_item list \<Rightarrow> conversation_item list \<times> string list" where
  "sanitize_from seen [] = ([], [])"
| "sanitize_from seen (Assistant a # items) =
     (let (kept, stripped) = sanitize_from (seen \<union> set (map call_id (tool_calls a))) items in
      (Assistant a # kept, stripped))"
| "sanitize_from seen (ToolResult tr # items) =
     (let (kept, stripped) = sanitize_from seen items in
      if result_call_id tr \<in> seen then (ToolResult tr # kept, stripped)
      else (kept, result_call_id tr # stripped))"
| "sanitize_from seen (item # items) =
     (let (kept, stripped) = sanitize_from seen items in (item # kept, stripped))"

record sanitize_result =
  sanitized_items :: "conversation_item list"
  stripped_tool_call_ids :: "string list"

definition sanitize_compacted_history :: "conversation_item list \<Rightarrow> sanitize_result" where
  "sanitize_compacted_history items =
     (let (kept, stripped) = sanitize_from {} items in
      \<lparr> sanitized_items = kept, stripped_tool_call_ids = stripped \<rparr>)"

section \<open>Repair of a history\<close>

record history_repair_report =
  duplicates_removed :: nat
  stripped_tool_result_ids :: "string list"
  synthetic_results_inserted :: nat

definition report_changed :: "history_repair_report \<Rightarrow> bool" where
  "report_changed r \<longleftrightarrow>
     0 < duplicates_removed r \<or> stripped_tool_result_ids r \<noteq> [] \<or> 0 < synthetic_results_inserted r"

definition repair_history :: "conversation_item list \<Rightarrow> conversation_item list \<times> history_repair_report" where
  "repair_history items =
     (let (items, dups) = dedup_duplicate_tool_results items;
          (items, stripped) = strip_displaced_tool_results items;
          (items, inserted) = repair_dangling_tool_calls (HarnessHalted ''history_repair'') items in
      (items, \<lparr> duplicates_removed = dups, stripped_tool_result_ids = stripped,
                synthetic_results_inserted = inserted \<rparr>))"

end
