(* ===== verification/Compaction.thy ===== *)
theory Compaction
  imports ToolPairing "HOL-Library.Monad_Syntax"
begin

text \<open>
  Compaction support: the token estimates of \<open>xai-chat-state/src/actor/state.rs\<close> and
  \<open>compaction_utils.rs\<close> up to the compacted history.  The summary itself is the language model's, an
  argument.  An estimate is \<open>None\<close> where \<open>text_summary\<close> panics.
\<close>

abbreviation NL :: string where
  "NL \<equiv> [CHR 0x0A]"

section \<open>Estimates\<close>

fun part_bytes :: "content_part \<Rightarrow> nat" where
  "part_bytes (TextPart t) = length t"
| "part_bytes (ImagePart _) = 0"

fun is_image :: "content_part \<Rightarrow> bool" where
  "is_image (ImagePart _) = True" | "is_image (TextPart _) = False"

fun estimate_item_tokens :: "conversation_item \<Rightarrow> nat option" where
  "estimate_item_tokens (System s) = Some (estimate_tokens s)"
| "estimate_item_tokens (User u) =
     Some (sum_list (map part_bytes (user_content u)) div BYTES_PER_TOKEN
           + estimate_image_tokens (length (filter is_image (user_content u))))"
| "estimate_item_tokens (Assistant a) =
     Some ((length (assistant_content a)
            + sum_list (map (\<lambda>tc. length (call_arguments tc)) (tool_calls a))) div BYTES_PER_TOKEN)"
| "estimate_item_tokens (ToolResult tr) = Some (estimate_tokens (result_content tr))"
| "estimate_item_tokens (BackendToolCall b) = map_option estimate_tokens (text_summary b)"
| "estimate_item_tokens (Reasoning r) =
     Some ((length (reasoning_item_text r)
            + (case encrypted_content r of None \<Rightarrow> 0 | Some e \<Rightarrow> length e)) div BYTES_PER_TOKEN)"

fun estimate_conversation_tokens :: "conversation_item list \<Rightarrow> nat option" where
  "estimate_conversation_tokens [] = Some 0"
| "estimate_conversation_tokens (item # items) =
     do { n \<leftarrow> estimate_item_tokens item; m \<leftarrow> estimate_conversation_tokens items; Some (n + m) }"

fun estimate_system_message_tokens :: "conversation_item \<Rightarrow> nat" where
  "estimate_system_message_tokens (System s) = estimate_tokens s"
| "estimate_system_message_tokens _ = 0"

definition estimate_messages_tokens :: "conversation_item list \<Rightarrow> nat option" where
  "estimate_messages_tokens items = estimate_conversation_tokens (filter (\<lambda>i. \<not> is_system i) items)"

text \<open>A tool definition, its parameters printed as JSON.\<close>

definition estimate_tool_definition_tokens :: "string \<Rightarrow> string option \<Rightarrow> string \<Rightarrow> nat" where
  "estimate_tool_definition_tokens nm description parameters =
     (length nm + (case description of None \<Rightarrow> 0 | Some d \<Rightarrow> length d) + length parameters) div BYTES_PER_TOKEN"

definition estimate_tool_definitions_tokens :: "(string \<times> string option \<times> string) list \<Rightarrow> nat" where
  "estimate_tool_definitions_tokens tds =
     sum_list (map (\<lambda>(n, d, p). estimate_tool_definition_tokens n d p) tds)"

definition count_item_tokens :: "conversation_item \<Rightarrow> nat option" where
  "count_item_tokens item = map_option (min (2 ^ 32 - 1)) (estimate_item_tokens item)"

section \<open>Preparing a conversation for the summary\<close>

fun strip_tool_message :: "conversation_item \<Rightarrow> conversation_item option" where
  "strip_tool_message (ToolResult _) = None"
| "strip_tool_message (Assistant a) =
     Some (Assistant
       (if tool_calls a \<noteq> [] then
          (let tool_info = NL @ ''[Called tools: '' @ join_with '', '' (map call_name (tool_calls a)) @ '']'' in
           a \<lparr> assistant_content := (if assistant_content a = [] then tool_info
                                     else assistant_content a @ tool_info),
               tool_calls := [] \<rparr>)
        else a))"
| "strip_tool_message other = Some other"

definition strip_tool_messages_for_conversation_item :: "conversation_item list \<Rightarrow> conversation_item list" where
  "strip_tool_messages_for_conversation_item conversation = List.map_filter strip_tool_message conversation"

fun is_reasoning :: "conversation_item \<Rightarrow> bool" where
  "is_reasoning (Reasoning _) = True" | "is_reasoning _ = False"

definition strip_reasoning_blocks :: "conversation_item list \<Rightarrow> conversation_item list" where
  "strip_reasoning_blocks conversation = filter (\<lambda>i. \<not> is_reasoning i) conversation"

fun strip_item_images :: "conversation_item \<Rightarrow> conversation_item" where
  "strip_item_images (User u) =
     User (u \<lparr> user_content := map (\<lambda>p. if is_image p then TextPart ''[image]'' else p) (user_content u) \<rparr>)"
| "strip_item_images other = other"

definition strip_images :: "conversation_item list \<Rightarrow> conversation_item list" where
  "strip_images conversation = map strip_item_images conversation"

definition prepare_conversation_for_summarization :: "conversation_item list \<Rightarrow> conversation_item list" where
  "prepare_conversation_for_summarization conversation =
     strip_images (strip_reasoning_blocks (strip_tool_messages_for_conversation_item conversation))"

definition prepare_conversation_for_segment :: "conversation_item list \<Rightarrow> conversation_item list" where
  "prepare_conversation_for_segment conversation = strip_images (strip_reasoning_blocks conversation)"

definition truncate_trailing_incomplete_tool_call :: "conversation_item list \<Rightarrow> conversation_item list" where
  "truncate_trailing_incomplete_tool_call conversation =
     rev (dropWhile (\<lambda>i. item_calls i \<noteq> []) (rev conversation))"

definition prepare_conversation_for_verbatim_summarization ::
  "conversation_item list \<Rightarrow> bool \<Rightarrow> conversation_item list" where
  "prepare_conversation_for_verbatim_summarization conversation strip_reasoning =
     truncate_trailing_incomplete_tool_call
       (if strip_reasoning then strip_reasoning_blocks conversation else conversation)"

section \<open>Fitting a conversation into a budget\<close>

text \<open>The largest character boundary not above a position.\<close>

primrec floor_boundary :: "string \<Rightarrow> nat \<Rightarrow> nat" where
  "floor_boundary s 0 = 0"
| "floor_boundary s (Suc n) = (if is_char_boundary s (Suc n) then Suc n else floor_boundary s n)"

definition MARKER_RESERVE :: nat where
  "MARKER_RESERVE = 64"

definition truncation_marker :: "nat \<Rightarrow> string" where
  "truncation_marker dropped =
     NL @ ''[... truncated '' @ decimal dropped @ '' bytes to fit the compaction window ...]''"

definition truncate_text_to_bytes :: "string \<Rightarrow> nat \<Rightarrow> string option" where
  "truncate_text_to_bytes s max_bytes =
     (if length s \<le> max_bytes then None
      else let keep = max_bytes - MARKER_RESERVE;
               cut = floor_boundary s (min keep (length s)) in
           Some (take cut s @ truncation_marker (length s - cut)))"

definition truncated_or_same :: "string \<Rightarrow> nat \<Rightarrow> string" where
  "truncated_or_same s max_bytes =
     (case truncate_text_to_bytes s max_bytes of None \<Rightarrow> s | Some t \<Rightarrow> t)"

fun truncate_part :: "nat \<Rightarrow> content_part \<Rightarrow> content_part" where
  "truncate_part max_bytes (TextPart t) = TextPart (truncated_or_same t max_bytes)"
| "truncate_part max_bytes (ImagePart u) = ImagePart u"

fun truncate_item_to_tokens :: "conversation_item \<Rightarrow> nat \<Rightarrow> conversation_item" where
  "truncate_item_to_tokens (ToolResult t) max_tokens =
     ToolResult (t \<lparr> result_content := truncated_or_same (result_content t) (sat_mul max_tokens 4) \<rparr>)"
| "truncate_item_to_tokens (Assistant a) max_tokens =
     Assistant (a \<lparr> assistant_content := truncated_or_same (assistant_content a) (sat_mul max_tokens 4) \<rparr>)"
| "truncate_item_to_tokens (User u) max_tokens =
     User (u \<lparr> user_content := map (truncate_part (sat_mul max_tokens 4)) (user_content u) \<rparr>)"
| "truncate_item_to_tokens other max_tokens = other"

definition recover_truncated_tail_unit ::
  "conversation_item list \<Rightarrow> nat \<Rightarrow> conversation_item list option" where
  "recover_truncated_tail_unit body budget =
     (let results = rev (takeWhile is_tool_result (rev body));
          body' = rev (dropWhile is_tool_result (rev body)) in
      if results = [] then
        Some (if body' = [] then [] else [truncate_item_to_tokens (last body') budget])
      else
        let owner = (if body' \<noteq> [] \<and> item_calls (last body') \<noteq> [] then [last body'] else []) in
        do { owner_cost \<leftarrow> estimate_conversation_tokens owner;
             let per = max ((budget - owner_cost) div length results) 1;
             Some (owner @ map (\<lambda>r. truncate_item_to_tokens r per) results) })"

text \<open>The walk from the end: the items still to be looked at, last first, and the start so far.\<close>

fun fit_start :: "conversation_item list \<Rightarrow> nat \<Rightarrow> nat \<Rightarrow> nat option" where
  "fit_start [] remaining start = Some start"
| "fit_start (item # front) remaining start =
     do { cost \<leftarrow> estimate_item_tokens item;
          if remaining < cost then Some start else fit_start front (remaining - cost) (start - 1) }"

definition split_system_head :: "conversation_item list \<Rightarrow> conversation_item list \<times> conversation_item list" where
  "split_system_head conversation =
     (case conversation of
        System s # rest \<Rightarrow> ([System s], rest)
      | _ \<Rightarrow> ([], conversation))"

definition fit_conversation_to_budget :: "conversation_item list \<Rightarrow> nat \<Rightarrow> conversation_item list option" where
  "fit_conversation_to_budget conversation max_tokens =
     do { whole \<leftarrow> estimate_conversation_tokens conversation;
          if whole \<le> max_tokens then Some conversation
          else (case split_system_head conversation of (head, body) \<Rightarrow>
            do { head_cost \<leftarrow> estimate_conversation_tokens head;
                 let budget = max_tokens - head_cost;
                 start \<leftarrow> fit_start (rev body) budget (length body);
                 let start = start + length (takeWhile is_tool_result (drop start body));
                 if start < length body then Some (head @ drop start body)
                 else do { unit \<leftarrow> recover_truncated_tail_unit body budget; Some (head @ unit) } }) }"

end
