(* ===== verification/CompactionSummary.thy ===== *)
theory CompactionSummary
  imports Compaction
begin

text \<open>
  User queries, the cleaned summary and the compacted history of
  \<open>xai-chat-state/src/compaction_utils.rs\<close>, and the modes of \<open>compaction_mode.rs\<close>.  The first occurrence
  of a tag is found with \<open>split_once\<close>, the last one with \<open>rsplit_once\<close>.
\<close>

lemma replace_all_length:
  "length r \<le> length p \<Longrightarrow> length (replace_all p r s) \<le> length s"
proof (induction p r s rule: replace_all.induct)
  case (2 p r c cs)
  show ?case
  proof (cases "p \<noteq> [] \<and> starts_with (c # cs) p")
    case True
    then have "length p \<le> Suc (length cs)" using prefix_length_le [of p "c # cs"] by simp
    then show ?thesis using True 2 by simp
  qed (use 2 in auto)
qed simp

lemma replace_all_shorter:
  "length r < length p \<Longrightarrow> contains_str s p \<Longrightarrow> length (replace_all p r s) < length s"
proof (induction p r s rule: replace_all.induct)
  case (2 p r c cs)
  show ?case
  proof (cases "starts_with (c # cs) p")
    case True
    then have "length p \<le> Suc (length cs)" using prefix_length_le [of p "c # cs"] by simp
    moreover have "length (replace_all p r (drop (length p - 1) cs)) \<le> length (drop (length p - 1) cs)"
      using 2(3) by (intro replace_all_length) simp
    moreover have "p \<noteq> []" using 2(3) by auto
    ultimately show ?thesis using True 2(3) by simp
  next
    case False
    then have "contains_str cs p" using 2(4) by (simp add: sublist_Cons_right)
    with 2 False show ?thesis by simp
  qed
qed auto

lemma split_once_lengths: "split_once p s = Some (a, b) \<Longrightarrow> length s = length a + length p + length b"
  using split_once_SomeD [of p s a b] by simp

definition rsplit_once :: "string \<Rightarrow> string \<Rightarrow> (string \<times> string) option" where
  "rsplit_once p s = map_option (\<lambda>(a, b). (rev b, rev a)) (split_once (rev p) (rev s))"

lemma rsplit_once_SomeD: "rsplit_once p s = Some (a, b) \<Longrightarrow> s = a @ p @ b"
proof -
  assume "rsplit_once p s = Some (a, b)"
  then have "split_once (rev p) (rev s) = Some (rev b, rev a)" by (auto simp: rsplit_once_def)
  then have "rev s = rev b @ rev p @ rev a" by (rule split_once_SomeD)
  then show ?thesis by (metis append.assoc rev_append rev_rev_ident)
qed

section \<open>User queries\<close>

definition SYSTEM_TAGS :: "string list" where
  "SYSTEM_TAGS =
     [''user_info'', ''project_layout'', ''git_status'', ''fork-context'', ''system-reminder'',
      ''agent-memory'', ''system_reminder'', ''background_context'', ''command-name'',
      ''command-message'', ''command-args'']"

text \<open>Remove every closed block of one tag; stop at an unclosed one.\<close>

function strip_tag :: "string \<Rightarrow> string \<Rightarrow> string" where
  "strip_tag tag s =
     (let op_tag = ''<'' @ tag @ ''>''; cl_tag = ''</'' @ tag @ ''>'' in
      case split_once op_tag s of
        None \<Rightarrow> s
      | Some (a, b) \<Rightarrow>
          (case split_once cl_tag (op_tag @ b) of
             None \<Rightarrow> s
           | Some (c, d) \<Rightarrow> strip_tag tag (a @ d)))"
  by pat_completeness auto
termination
proof (relation "measure (\<lambda>(tag, s). length s)", goal_cases)
  case (2 tag s op_tag cl_tag x a b y c d)
  have "length s = length a + length op_tag + length b"
    using 2(3,4) by (simp only: split_once_lengths)
  moreover have "length (op_tag @ b) = length c + length cl_tag + length d"
    using 2(5,6) by (simp only: split_once_lengths)
  ultimately show ?case by (simp add: 2(1,2))
qed simp

declare strip_tag.simps [simp del]

definition strip_system_tags :: "string \<Rightarrow> string" where
  "strip_system_tags t = trim (fold strip_tag SYSTEM_TAGS t)"

definition extract_user_query :: "string \<Rightarrow> string" where
  "extract_user_query t =
     (case split_once ''<user_query>'' t of
        None \<Rightarrow> strip_system_tags t
      | Some (_, content) \<Rightarrow>
          (case split_once ''</user_query>'' content of
             None \<Rightarrow> strip_system_tags t
           | Some (query, _) \<Rightarrow> strip_system_tags (trim query)))"

definition user_item_text :: "user_item \<Rightarrow> string" where
  "user_item_text u = join_with NL (List.map_filter part_text (user_content u))"

definition extract_last_user_query :: "conversation_item list \<Rightarrow> string option" where
  "extract_last_user_query conversation =
     (case find is_user (rev conversation) of
        Some (User u) \<Rightarrow> opt_filter (\<lambda>q. q \<noteq> []) (Some (extract_user_query (user_item_text u)))
      | _ \<Rightarrow> None)"

definition AUTO_CONTINUE_PROMPT :: string where
  "AUTO_CONTINUE_PROMPT =
     ''Continue the conversation from where it left off without asking the user any further questions. Resume directly - do not acknowledge the summary, do not recap what was happening, do not preface with \"I'll continue\" or similar.''
     @ NL @ ''Pick up the last task as if the break never happened.''"

definition is_bootstrap_reminder_text :: "string \<Rightarrow> bool" where
  "is_bootstrap_reminder_text t = False"

definition is_synthetic_extracted_query :: "string \<Rightarrow> bool" where
  "is_synthetic_extracted_query t \<longleftrightarrow>
     t = [] \<or> t = ''__auto_continue__'' \<or> t = AUTO_CONTINUE_PROMPT \<or> is_bootstrap_reminder_text t"

fun is_real_user_turn :: "conversation_item \<Rightarrow> bool" where
  "is_real_user_turn (User u) =
     (if user_reason u \<noteq> None then False
      else if list_ex is_image (user_content u) then True
      else \<not> is_synthetic_extracted_query (extract_user_query (user_item_text u)))"
| "is_real_user_turn _ = False"

fun item_query :: "conversation_item \<Rightarrow> string" where
  "item_query (User u) = extract_user_query (user_item_text u)"
| "item_query _ = []"

definition extract_real_user_queries :: "conversation_item list \<Rightarrow> string list" where
  "extract_real_user_queries conversation = map item_query (filter is_real_user_turn conversation)"

definition extract_last_real_user_query :: "conversation_item list \<Rightarrow> string option" where
  "extract_last_real_user_query conversation =
     map_option item_query (find is_real_user_turn (rev conversation))"

text \<open>What compaction keeps of the last turn: messages, and results without their content.\<close>

fun omit_result :: "conversation_item \<Rightarrow> conversation_item option" where
  "omit_result (Assistant a) = Some (Assistant a)"
| "omit_result (ToolResult t) =
     Some (ToolResult \<lparr> result_call_id = result_call_id t, result_content = ''Tool call omitted...'',
                        result_images = [] \<rparr>)"
| "omit_result _ = None"

definition extract_messages_since_last_user :: "conversation_item list \<Rightarrow> conversation_item list" where
  "extract_messages_since_last_user conversation =
     rev (List.map_filter omit_result (takeWhile (\<lambda>i. \<not> is_user i) (rev conversation)))"

fun rposition :: "('a \<Rightarrow> bool) \<Rightarrow> 'a list \<Rightarrow> nat option" where
  "rposition P [] = None"
| "rposition P (x # xs) =
     (case rposition P xs of Some i \<Rightarrow> Some (Suc i) | None \<Rightarrow> if P x then Some 0 else None)"

definition extract_messages_since_last_real_user :: "conversation_item list \<Rightarrow> conversation_item list" where
  "extract_messages_since_last_real_user conversation =
     (let start = (case rposition is_real_user_turn conversation of Some idx \<Rightarrow> idx + 1 | None \<Rightarrow> 0) in
      List.map_filter omit_result (drop start conversation))"

section \<open>Live state captured at compaction time\<close>

record running_subagent_summary =
  subagent_id :: string
  subagent_type :: string
  subagent_description :: string
  elapsed_ms :: nat

record background_task_summary =
  task_id :: string
  task_command :: string
  task_status :: string
  task_tool_name :: "string option"

record compaction_server_summary =
  server_name :: string
  tool_count :: nat
  server_description :: "string option"

datatype todo_summary_status = Pending | InProgress | Completed | Cancelled

fun todo_is_actionable :: "todo_summary_status \<Rightarrow> bool" where
  "todo_is_actionable Pending = True"
| "todo_is_actionable InProgress = True"
| "todo_is_actionable _ = False"

fun todo_tag :: "todo_summary_status \<Rightarrow> string" where
  "todo_tag Pending = ''[pending]''"
| "todo_tag InProgress = ''[in_progress]''"
| "todo_tag Completed = ''[completed]''"
| "todo_tag Cancelled = ''[cancelled]''"

record todo_summary =
  todo_id :: string
  todo_content :: string
  todo_status :: todo_summary_status

record compaction_inputs =
  in_running_tasks :: "background_task_summary list"
  in_running_subagents :: "running_subagent_summary list"
  in_agent_edited_paths :: "string list"
  in_connected_mcp_servers :: "compaction_server_summary list"
  in_todos :: "todo_summary list"

record compaction_state_context =
  recent_messages :: "conversation_item list"
  last_user_query :: "string option"
  ctx_agent_edited_paths :: "string list"
  running_tasks :: "background_task_summary list"
  running_subagents :: "running_subagent_summary list"
  connected_mcp_servers :: "compaction_server_summary list"
  ctx_todos :: "todo_summary list"

definition build_context :: "conversation_item list \<Rightarrow> compaction_inputs \<Rightarrow> compaction_state_context" where
  "build_context conversation inputs =
     \<lparr> recent_messages = extract_messages_since_last_real_user conversation,
       last_user_query = extract_last_real_user_query conversation,
       ctx_agent_edited_paths = in_agent_edited_paths inputs,
       running_tasks = in_running_tasks inputs,
       running_subagents = in_running_subagents inputs,
       connected_mcp_servers = in_connected_mcp_servers inputs,
       ctx_todos = in_todos inputs \<rparr>"

definition for_compaction :: "compaction_state_context \<Rightarrow> compaction_state_context" where
  "for_compaction ctx = ctx \<lparr> recent_messages := [] \<rparr>"

section \<open>The cleaned summary\<close>

abbreviation ANALYSIS :: string where "ANALYSIS \<equiv> ''<analysis>''"
abbreviation END_ANALYSIS :: string where "END_ANALYSIS \<equiv> ''</analysis>''"
abbreviation SUMMARY :: string where "SUMMARY \<equiv> ''<summary>''"
abbreviation END_SUMMARY :: string where "END_SUMMARY \<equiv> ''</summary>''"

text \<open>Whether only white space stands before the position, or between the summary tag and it.\<close>

definition is_leading :: "string \<Rightarrow> nat \<Rightarrow> bool" where
  "is_leading result start =
     (case split_once SUMMARY result of
        None \<Rightarrow> trim (take start result) = []
      | Some (sa, _) \<Rightarrow>
          start < length sa
          \<or> trim (drop (length sa + length SUMMARY) (take start result)) = [])"

function strip_analysis :: "string \<Rightarrow> string" where
  "strip_analysis result =
     (case split_once ANALYSIS result of
        None \<Rightarrow> result
      | Some (front, after) \<Rightarrow>
          if \<not> is_leading result (length front) then result
          else (case split_once END_ANALYSIS (ANALYSIS @ after) of
                  Some (_, behind) \<Rightarrow> strip_analysis (front @ behind)
                | None \<Rightarrow>
                    (case split_once SUMMARY (ANALYSIS @ after) of
                       Some (_, kept) \<Rightarrow> front @ SUMMARY @ kept
                     | None \<Rightarrow> front)))"
  by pat_completeness auto
termination
proof (relation "measure length", goal_cases)
  case (2 result x front after y c behind)
  have "length result = length front + length ANALYSIS + length after"
    using 2(1,2) by (simp only: split_once_lengths)
  moreover have "length (ANALYSIS @ after) = length c + length END_ANALYSIS + length behind"
    using 2(4,5) by (simp only: split_once_lengths)
  ultimately show ?case by simp
qed simp

declare strip_analysis.simps [simp del]

definition heading_char :: "char \<Rightarrow> bool" where
  "heading_char c \<longleftrightarrow> c \<in> {CHR ''#'', CHR ''*'', CHR ''-'', CHR ''>'', CHR '' '', CHR 0x09}"

definition strip_leading_scratchpad :: "string \<Rightarrow> string" where
  "strip_leading_scratchpad inner =
     (let s = trim inner;
          lead = dropWhile heading_char s;
          numbered = (case lead of [] \<Rightarrow> False | c # _ \<Rightarrow> ascii_digit c);
          s = (if \<not> numbered then
                 (case rsplit_once END_ANALYSIS s of Some (_, after) \<Rightarrow> trim_start after | None \<Rightarrow> s)
               else s) in
      case strip_prefix s SUMMARY of Some rest \<Rightarrow> trim_start rest | None \<Rightarrow> s)"

text \<open>A zero-width space behind the bracket.\<close>

abbreviation ZWSP :: string where
  "ZWSP \<equiv> [CHR 0xE2, CHR 0x80, CHR 0x8B]"

definition neutralize_token :: "string \<Rightarrow> string \<Rightarrow> string" where
  "neutralize_token body t = replace_all (''<'' @ body) (''<'' @ ZWSP @ body) t"

definition control_bodies :: "string list" where
  "control_bodies =
     [''/summary>'', ''summary>'', ''/analysis>'', ''analysis>'', ''/summary_request>'', ''summary_request>'']"

definition neutralize_compaction_control_tokens :: "string \<Rightarrow> string" where
  "neutralize_compaction_control_tokens t = fold neutralize_token control_bodies t"

function collapse_newlines :: "string \<Rightarrow> string" where
  "collapse_newlines s =
     (if contains_str s (NL @ NL @ NL) then collapse_newlines (replace_all (NL @ NL @ NL) (NL @ NL) s) else s)"
  by pat_completeness auto
termination
  by (relation "measure length") (auto intro!: replace_all_shorter)

declare collapse_newlines.simps [simp del]

definition extract_summary_block :: "string \<Rightarrow> string" where
  "extract_summary_block result =
     (case split_once SUMMARY result of
        None \<Rightarrow> result
      | Some (front, _) \<Rightarrow>
          (case rsplit_once END_SUMMARY result of
             None \<Rightarrow> result
           | Some (through, after) \<Rightarrow>
               if length front < length through then
                 front @ ''Summary:'' @ NL
                 @ strip_leading_scratchpad (trim (drop (length front + length SUMMARY) through)) @ after
               else result))"

definition format_compact_summary :: "string \<Rightarrow> string" where
  "format_compact_summary summary =
     trim (collapse_newlines (neutralize_compaction_control_tokens
       (extract_summary_block (strip_analysis summary))))"

definition format_compact_summary_content :: "string \<Rightarrow> string" where
  "format_compact_summary_content raw_summary =
     ''This session is being continued from a previous conversation that ran out of context. The summary below covers the earlier portion of the conversation.''
     @ NL @ NL @ format_compact_summary raw_summary"

definition MIN_SUMMARY_SEED_CHARS :: nat where
  "MIN_SUMMARY_SEED_CHARS = 500"

definition is_degenerate_summary :: "string \<Rightarrow> bool" where
  "is_degenerate_summary raw_summary \<longleftrightarrow>
     count_chars (format_compact_summary raw_summary) < MIN_SUMMARY_SEED_CHARS"

abbreviation ELLIPSIS :: string where
  "ELLIPSIS \<equiv> [CHR 0xE2, CHR 0x80, CHR 0xA6]"

definition bound_captured_output :: "string \<Rightarrow> nat \<Rightarrow> string" where
  "bound_captured_output s max_chars =
     (let n = count_chars s in
      if n \<le> max_chars then s
      else let head = max_chars div 2; tail = max_chars - head; elided = n - head - tail in
        take_chars head s @ NL @ NL @ ELLIPSIS @ ''['' @ decimal elided @ '' chars elided]'' @ ELLIPSIS
        @ NL @ NL @ skip_chars (n - tail) s)"

section \<open>The compacted history\<close>

definition format_transcript_location :: "string \<Rightarrow> string" where
  "format_transcript_location path =
     NL @ NL @ ''<transcript_location>'' @ NL
     @ ''The full, unsummarized transcript of this conversation is saved at:'' @ NL @ path @ NL
     @ ''If you need details that were dropped from the summary above (exact code, error text, file contents, or earlier tool output), read this file to recover them.''
     @ NL @ ''</transcript_location>''"

definition wrap_user_query :: "string \<Rightarrow> string" where
  "wrap_user_query t = ''<user_query>'' @ NL @ t @ NL @ ''</user_query>''"

record compacted_history_input =
  system_message :: conversation_item
  user_message_prefix :: string
  agents_md_reminder :: "string option"
  state_context :: compaction_state_context
  compaction_summary :: string
  state_reminder :: "string option"
  summary_before_recent :: bool
  transcript_hint_text :: "string option"
  summary_count :: nat

definition summary_before_recent_carrier :: "compacted_history_input \<Rightarrow> string option" where
  "summary_before_recent_carrier input = None"

fun opt_item :: "('a \<Rightarrow> conversation_item) \<Rightarrow> 'a option \<Rightarrow> conversation_item list" where
  "opt_item f None = []" | "opt_item f (Some x) = [f x]"

definition build_compacted_history :: "compacted_history_input \<Rightarrow> conversation_item list" where
  "build_compacted_history input =
     (let carrier = summary_before_recent_carrier input;
          summary_first = (carrier \<noteq> None);
          summary_item =
            (case carrier of
               Some t \<Rightarrow> user_meta t
             | None \<Rightarrow> user_meta (format_compact_summary_content (compaction_summary input)
                 @ (case transcript_hint_text input of None \<Rightarrow> [] | Some hint \<Rightarrow> hint)));
          recent = recent_messages (state_context input) in
      [system_message input, user_meta (user_message_prefix input)]
      @ opt_item project_instructions (agents_md_reminder input)
      @ opt_item (\<lambda>q. user (wrap_user_query q)) (last_user_query (state_context input))
      @ (if summary_first then summary_item # recent else recent @ [summary_item])
      @ opt_item system_reminder (state_reminder input))"

section \<open>Modes (\<open>compaction_mode.rs\<close>)\<close>

datatype compaction_detail = DetailNone | DetailMinimal | DetailBalanced | DetailVerbose

definition parse_detail :: "string \<Rightarrow> compaction_detail option" where
  "parse_detail s =
     (let w = ascii_lower (trim s) in
      if w = ''none'' then Some DetailNone
      else if w = ''minimal'' then Some DetailMinimal
      else if w = ''balanced'' then Some DetailBalanced
      else if w = ''verbose'' then Some DetailVerbose
      else None)"

datatype compaction_mode = SummaryMode | TranscriptMode | SegmentsMode compaction_detail

definition parse_mode :: "string \<Rightarrow> compaction_mode option" where
  "parse_mode s =
     (let w = ascii_lower (trim s) in
      if w = ''summary'' then Some SummaryMode
      else if w = ''transcript'' then Some TranscriptMode
      else if w = ''segments'' then Some (SegmentsMode DetailVerbose)
      else None)"

fun with_segment_detail :: "compaction_mode \<Rightarrow> compaction_detail \<Rightarrow> compaction_mode" where
  "with_segment_detail (SegmentsMode _) detail = SegmentsMode detail"
| "with_segment_detail other detail = other"

fun segment_detail :: "compaction_mode \<Rightarrow> compaction_detail option" where
  "segment_detail (SegmentsMode d) = Some d"
| "segment_detail _ = None"

fun writes_segments :: "compaction_mode \<Rightarrow> bool" where
  "writes_segments (SegmentsMode _) = True" | "writes_segments _ = False"

definition INDEX_FILE :: string where
  "INDEX_FILE = ''INDEX.md''"

fun transcript_hint :: "compaction_mode \<Rightarrow> string option \<Rightarrow> string option" where
  "transcript_hint mode None = None"
| "transcript_hint SummaryMode (Some loc) = None"
| "transcript_hint TranscriptMode (Some loc) =
     Some (NL @ NL @ ''If you need specific details from before compaction (like exact code snippets, error messages, or content you generated), read the full transcript at: '' @ loc)"
| "transcript_hint (SegmentsMode _) (Some loc) =
     Some (NL @ NL @ ''Full verbatim rollouts of previous segments are available at '' @ loc
       @ ''/segment_*.md.  See '' @ loc @ ''/'' @ INDEX_FILE
       @ '' for a table of contents.  Use read_file or grep to recover specific details (exact code, file paths, tool outputs) if this summary is insufficient.  Do NOT modify these files.'')"

end
