(* ===== verification/ToolPairingSpec.thy ===== *)
theory ToolPairingSpec
  imports ToolPairing
begin

text \<open>
  What the repair of a history does: the three passes of \<open>repair_history\<close> together are the single
  pass \<open>repaired\<close>, which rebuilds the results after every message with calls.  A provider accepts a
  history when it is \<open>well_paired\<close>.
\<close>

section \<open>Removing duplicates by position\<close>

abbreviation all_ids :: "conversation_item list \<Rightarrow> string option set" where
  "all_ids items \<equiv> set (map item_result_id items)"

fun keep_last :: "conversation_item list \<Rightarrow> conversation_item list" where
  "keep_last [] = []"
| "keep_last (r # rs) = (if item_result_id r \<in> all_ids rs then keep_last rs else r # keep_last rs)"

fun dup_positions :: "nat \<Rightarrow> conversation_item list \<Rightarrow> nat set" where
  "dup_positions idx [] = {}"
| "dup_positions idx (r # rs) =
     (if item_result_id r \<in> all_ids rs then {idx} else {}) \<union> dup_positions (Suc idx) rs"

lemma dup_positions_ge: "p \<in> dup_positions idx rs \<Longrightarrow> idx \<le> p"
  by (induction idx rs rule: dup_positions.induct) (fastforce split: if_splits)+

lemma tool_result_id: "is_tool_result r \<Longrightarrow> \<exists>i. item_result_id r = Some i"
  by (cases r) auto

lemma marked_set:
  "list_all is_tool_result rs \<Longrightarrow>
   set (marked_duplicates idx seen rs) =
     {p. \<exists>i. seen i = Some p \<and> Some i \<in> all_ids rs} \<union> dup_positions idx rs"
proof (induction rs arbitrary: idx seen)
  case (Cons r rs)
  then obtain i where i: "item_result_id r = Some i" by (auto dest: tool_result_id)
  have step: "set (marked_duplicates (Suc idx) (seen(i \<mapsto> idx)) rs) =
      {p. \<exists>k. (seen(i \<mapsto> idx)) k = Some p \<and> Some k \<in> all_ids rs} \<union> dup_positions (Suc idx) rs"
    using Cons by simp
  have upd: "{p. \<exists>k. (seen(i \<mapsto> idx)) k = Some p \<and> Some k \<in> all_ids rs} =
      (if Some i \<in> all_ids rs then {idx} else {}) \<union>
      {p. \<exists>k. k \<noteq> i \<and> seen k = Some p \<and> Some k \<in> all_ids rs}"
    by (simp only: set_eq_iff fun_upd_apply mem_Collect_eq Un_iff split: if_split) fastforce
  have here: "{p. \<exists>k. seen k = Some p \<and> Some k \<in> all_ids (r # rs)} =
      {p. seen i = Some p} \<union> {p. \<exists>k. k \<noteq> i \<and> seen k = Some p \<and> Some k \<in> all_ids rs}"
  proof (rule set_eqI)
    fix p
    have ids: "Some k \<in> all_ids (r # rs) \<longleftrightarrow> k = i \<or> Some k \<in> all_ids rs" for k
      by (simp only: list.map list.set insert_iff i option.inject)
    show "(p \<in> {p. \<exists>k. seen k = Some p \<and> Some k \<in> all_ids (r # rs)}) =
        (p \<in> {p. seen i = Some p} \<union> {p. \<exists>k. k \<noteq> i \<and> seen k = Some p \<and> Some k \<in> all_ids rs})"
      unfolding mem_Collect_eq Un_iff ids by (cases "seen i = Some p") auto
  qed
  have "set (marked_duplicates idx seen (r # rs)) =
      {p. seen i = Some p} \<union> set (marked_duplicates (Suc idx) (seen(i \<mapsto> idx)) rs)"
    by (auto simp: i split: option.split)
  then show ?case unfolding step upd here using i by auto
qed simp

lemma distinct_marked:
  assumes "list_all is_tool_result rs" "\<And>i p. seen i = Some p \<Longrightarrow> p < idx"
    and "\<And>i k p. seen i = Some p \<Longrightarrow> seen k = Some p \<Longrightarrow> i = k"
  shows "distinct (marked_duplicates idx seen rs)"
  using assms
proof (induction rs arbitrary: idx seen)
  case (Cons r rs)
  then obtain i where i: "item_result_id r = Some i" by (auto dest: tool_result_id)
  have less: "\<And>k p. (seen(i \<mapsto> idx)) k = Some p \<Longrightarrow> p < Suc idx"
    using Cons.prems(2) by (auto simp: less_SucI split: if_splits)
  have inj: "\<And>k l p. (seen(i \<mapsto> idx)) k = Some p \<Longrightarrow> (seen(i \<mapsto> idx)) l = Some p \<Longrightarrow> k = l"
    using Cons.prems(2,3) by (auto split: if_splits)
  have d: "distinct (marked_duplicates (Suc idx) (seen(i \<mapsto> idx)) rs)"
    using Cons.prems(1)
    by (intro Cons.IH [where idx = "Suc idx" and seen = "seen(i \<mapsto> idx)"])
      (simp, erule less, erule (1) inj)
  have "p \<notin> set (marked_duplicates (Suc idx) (seen(i \<mapsto> idx)) rs)" if "seen i = Some p" for p
  proof
    assume p: "p \<in> set (marked_duplicates (Suc idx) (seen(i \<mapsto> idx)) rs)"
    have rs: "list_all is_tool_result rs" using Cons.prems(1) by simp
    from p consider k where "(seen(i \<mapsto> idx)) k = Some p" | "p \<in> dup_positions (Suc idx) rs"
      unfolding marked_set [OF rs] by blast
    then show False
    proof cases
      case 1
      show False
      proof (cases "k = i")
        case True
        then show False using 1 Cons.prems(2) [OF that] by simp
      next
        case False
        then have "seen k = Some p" using 1 by simp
        from Cons.prems(3) [OF that this] False show False by simp
      qed
    next
      case 2
      then show False using dup_positions_ge [OF 2] Cons.prems(2) [OF that] by simp
    qed
  qed
  with d show ?case by (simp add: i split: option.split)
qed simp

lemma remove_last_position:
  assumes "m < length xs" "\<And>p. p \<in> S \<Longrightarrow> p < m"
  shows "nths (remove_at xs m) (- S) = nths xs (- (insert m S))"
proof -
  have "xs = take m xs @ xs ! m # drop (Suc m) xs"
    using assms(1) by (simp add: id_take_nth_drop)
  then have "nths xs (- (insert m S)) =
      nths (take m xs @ xs ! m # drop (Suc m) xs) (- (insert m S))" by simp
  also have "\<dots> = nths (take m xs) (- (insert m S)) @ drop (Suc m) xs"
  proof -
    have "nths (drop (Suc m) xs) {j. Suc j + m \<notin> insert m S} = drop (Suc m) xs"
      using assms(2) by (subst nths_all) fastforce+
    then show ?thesis using assms(1) by (simp add: nths_append nths_Cons)
  qed
  also have "nths (take m xs) (- (insert m S)) = nths (take m xs) (- S)"
    using assms(1) by (auto simp: nths_def intro!: arg_cong [where f = "map fst"] filter_cong
        dest!: set_zip_rightD)
  also have "\<dots> @ drop (Suc m) xs = nths (remove_at xs m) (- S)"
  proof -
    have "nths (drop (Suc m) xs) {j. j + m \<notin> S} = drop (Suc m) xs"
      using assms(2) by (subst nths_all) fastforce+
    then show ?thesis using assms(1) by (simp add: remove_at_def nths_append)
  qed
  finally show ?thesis by simp
qed

lemma foldl_remove_at:
  "sorted is \<Longrightarrow> distinct is \<Longrightarrow> (\<And>p. p \<in> set is \<Longrightarrow> p < length xs) \<Longrightarrow>
   foldl remove_at xs (rev is) = nths xs (- set is)"
proof (induction "is" arbitrary: xs rule: rev_induct)
  case Nil
  then show ?case by (simp add: nths_all)
next
  case (snoc m ms)
  have below: "p < m" if "p \<in> set ms" for p
  proof -
    have "p \<le> m" using snoc.prems(1) that by (simp add: sorted_append)
    moreover have "p \<noteq> m" using snoc.prems(2) that by auto
    ultimately show ?thesis by simp
  qed
  have len: "length (remove_at xs m) = length xs - 1"
    using snoc.prems(3) [of m] by (simp add: remove_at_def)
  have "foldl remove_at (remove_at xs m) (rev ms) = nths (remove_at xs m) (- set ms)"
    using snoc.prems below len by (intro snoc.IH) (fastforce simp: sorted_append)+
  also have "\<dots> = nths xs (- (insert m (set ms)))"
    using snoc.prems(3) below by (intro remove_last_position) simp_all
  finally show ?case by simp
qed

lemma nths_dup_positions: "nths rs {j. j + idx \<notin> dup_positions idx rs} = keep_last rs"
proof (induction rs arbitrary: idx)
  case (Cons r rs)
  have "idx \<notin> dup_positions (Suc idx) rs" using dup_positions_ge [of idx "Suc idx" rs] by auto
  moreover have "{j. Suc j \<in> {j. j + idx \<notin> dup_positions idx (r # rs)}} =
      {j. j + Suc idx \<notin> dup_positions (Suc idx) rs}" by auto
  ultimately show ?case using Cons [of "Suc idx"] by (simp add: nths_Cons)
qed simp

lemma nths_outside: "(\<And>p. p \<in> S \<Longrightarrow> length xs \<le> p) \<Longrightarrow> nths xs (- S) = xs"
  by (rule nths_all) fastforce

lemma remove_marked_run:
  assumes "list_all is_tool_result run"
  shows "remove_marked (pre @ run @ post) (marked_duplicates (length pre) Map.empty run)
       = pre @ keep_last run @ post"
proof -
  let ?m = "marked_duplicates (length pre) Map.empty run"
  let ?xs = "pre @ run @ post"
  have set_m: "set ?m = dup_positions (length pre) run" using assms by (simp add: marked_set)
  have below: "p < length pre + length run" if "p \<in> set ?m" for p
    using that by (intro marked_below [of Map.empty]) auto
  have "distinct ?m" using assms by (intro distinct_marked) auto
  then have "remove_marked ?xs ?m = nths ?xs (- set ?m)"
    unfolding remove_marked_def using below
    by (subst foldl_remove_at) (fastforce simp: add.assoc [symmetric] intro: trans_less_add1)+
  also have "\<dots> = nths pre (- set ?m) @ nths run {j. j + length pre \<in> - set ?m} @
      nths post {j. j + length run + length pre \<in> - set ?m}"
    by (simp add: nths_append add.assoc)
  also have "nths pre (- set ?m) = pre"
    using dup_positions_ge by (intro nths_outside) (simp add: set_m)
  also have "nths run {j. j + length pre \<in> - set ?m} = keep_last run"
    using nths_dup_positions [of run "length pre"] by (simp add: set_m)
  also have "nths post {j. j + length run + length pre \<in> - set ?m} = post"
    by (rule nths_all) (use below in fastforce)
  finally show ?thesis .
qed

section \<open>Each pass by runs of results\<close>

lemma keep_last_ids: "all_ids (keep_last rs) = all_ids rs"
  by (induction rs) auto

lemma keep_last_subset: "set (keep_last rs) \<subseteq> set rs"
  by (induction rs) auto

lemma keep_last_distinct: "distinct (map item_result_id (keep_last rs))"
proof (induction rs)
  case (Cons r rs)
  then show ?case using keep_last_subset [of rs] by auto
qed simp

lemma keep_last_id: "distinct (map item_result_id rs) \<Longrightarrow> keep_last rs = rs"
  by (induction rs) auto

lemma keep_last_idem [simp]: "keep_last (keep_last rs) = keep_last rs"
  by (rule keep_last_id) (rule keep_last_distinct)

lemma keep_last_results: "list_all is_tool_result rs \<Longrightarrow> list_all is_tool_result (keep_last rs)"
  using keep_last_subset by (fastforce simp: list_all_iff)

lemma keep_last_filter:
  "keep_last (filter (\<lambda>r. Q (item_result_id r)) rs) = filter (\<lambda>r. Q (item_result_id r)) (keep_last rs)"
  by (induction rs) (auto simp: image_iff)

lemma keep_last_length: "length (keep_last rs) \<le> length rs"
  by (induction rs) auto

lemma dup_positions_Nil_iff: "dup_positions idx rs = {} \<longleftrightarrow> keep_last rs = rs"
proof (induction rs arbitrary: idx)
  case (Cons r rs)
  have "keep_last rs \<noteq> r # rs" using keep_last_length [of rs] by (metis impossible_Cons)
  with Cons show ?case by auto
qed simp

lemma marked_Nil:
  "list_all is_tool_result run \<Longrightarrow> marked_duplicates i Map.empty run = [] \<Longrightarrow> keep_last run = run"
  using marked_set [of run i Map.empty] by (simp add: dup_positions_Nil_iff [symmetric, of run i])

lemma finite_dup_positions [simp]: "finite (dup_positions idx rs)"
  by (induction idx rs rule: dup_positions.induct) auto

lemma card_dup_positions: "length (keep_last rs) + card (dup_positions idx rs) = length rs"
proof (induction rs arbitrary: idx)
  case (Cons r rs)
  have "idx \<notin> dup_positions (Suc idx) rs" using dup_positions_ge [of idx "Suc idx" rs] by auto
  then show ?case using Cons [of "Suc idx"] by simp
qed simp

lemma marked_length:
  assumes "list_all is_tool_result run"
  shows "length (keep_last run) + length (marked_duplicates i Map.empty run) = length run"
proof -
  have "distinct (marked_duplicates i Map.empty run)" using assms by (intro distinct_marked) auto
  then have "length (marked_duplicates i Map.empty run) = card (dup_positions i run)"
    using marked_set [OF assms, of i Map.empty] by (simp add: distinct_card [symmetric])
  then show ?thesis using card_dup_positions [of run i] by simp
qed

definition head_clean :: "conversation_item list \<Rightarrow> bool" where
  "head_clean items \<longleftrightarrow> (case items of [] \<Rightarrow> True | item # _ \<Rightarrow> \<not> is_tool_result item)"

lemma head_clean_simps [simp]:
  "head_clean []" "head_clean (item # items) \<longleftrightarrow> \<not> is_tool_result item"
  by (simp_all add: head_clean_def)

lemma head_clean_after_run [simp]: "head_clean (after_run items)"
  by (induction items) auto

lemma run_append:
  "list_all is_tool_result run \<Longrightarrow> head_clean post \<Longrightarrow>
   result_run (run @ post) = run \<and> after_run (run @ post) = post"
  by (induction run) (auto simp: head_clean_def split: list.splits)

lemma list_all_result_run [simp]: "list_all is_tool_result (result_run items)"
  by (auto simp: list_all_iff dest: set_takeWhileD)

lemma length_run_split: "length (result_run items) + length (after_run items) = length items"
  by (metis length_append takeWhile_dropWhile_id)

lemma no_calls_result: "is_tool_result item \<Longrightarrow> item_calls item = []"
  by (cases item) auto

lemma calls_not_result: "item_calls item \<noteq> [] \<Longrightarrow> \<not> is_tool_result item"
  by (cases item) auto

function deduped :: "conversation_item list \<Rightarrow> conversation_item list" where
  "deduped [] = []"
| "deduped (item # rest) =
     (if item_calls item \<noteq> [] then item # keep_last (result_run rest) @ deduped (after_run rest)
      else item # deduped rest)"
  by pat_completeness auto
termination
  by (relation "measure length") (auto simp: le_imp_less_Suc length_dropWhile_le)

lemma deduped_length: "length (deduped items) \<le> length items"
proof (induction items rule: deduped.induct)
  case (2 item rest)
  show ?case
  proof (cases "item_calls item = []")
    case False
    have "length (deduped (after_run rest)) \<le> length (after_run rest)" using 2 False by simp
    then show ?thesis
      using False keep_last_length [of "result_run rest"] length_run_split [of rest] by simp
  qed (use 2 in simp)
qed simp

lemma deduped_head: "head_clean items \<Longrightarrow> head_clean (deduped items)"
  by (cases items) auto

lemma deduped_run: "list_all is_tool_result run \<Longrightarrow> deduped (run @ post) = run @ deduped post"
  by (induction run) (auto simp: no_calls_result)

lemma deduped_absorb:
  assumes "item_calls item \<noteq> []"
  shows "deduped (item # keep_last (result_run rest) @ after_run rest) = deduped (item # rest)"
  using assms run_append [OF keep_last_results [OF list_all_result_run] head_clean_after_run, of rest rest]
  by simp

lemma dedup_loop_deduped:
  "i \<le> length conv \<Longrightarrow> dedup_loop conv i removed =
     (take i conv @ deduped (drop i conv),
      removed + (length (drop i conv) - length (deduped (drop i conv))))"
proof (induction conv i removed rule: dedup_loop.induct)
  case (1 conv i removed)
  show ?case
  proof (cases "i < length conv")
    case False
    with 1 have "i = length conv" by simp
    then show ?thesis by (subst dedup_loop.simps) simp
  next
    case i: True
    define item where "item = conv ! i"
    define rest where "rest = drop (Suc i) conv"
    define run where "run = result_run rest"
    have conv: "conv = take i conv @ item # rest"
      using i by (simp add: item_def rest_def id_take_nth_drop)
    have drop_i: "drop i conv = item # rest"
      using i by (simp add: item_def rest_def Cons_nth_drop_Suc)
    show ?thesis
    proof (cases "item_calls item = []")
      case True
      have "dedup_loop conv i removed = dedup_loop conv (Suc i) removed"
        using i True by (subst dedup_loop.simps) (simp add: item_def)
      also have "\<dots> = (take (Suc i) conv @ deduped rest, removed + (length rest - length (deduped rest)))"
        using 1(3) i True by (simp add: item_def rest_def)
      finally show ?thesis using True i by (simp add: drop_i take_Suc_conv_app_nth item_def)
    next
      case calls: False
      define marks where "marks = marked_duplicates (Suc i) Map.empty run"
      have run: "list_all is_tool_result run" by (simp add: run_def)
      have len_i: "length (take i conv @ [item]) = Suc i" using i by simp
      have rest: "rest = run @ after_run rest" by (simp add: run_def)
      have len_run: "length (keep_last run) + length marks = length run"
        unfolding marks_def by (rule marked_length [OF run])
      have removed: "remove_marked conv marks = take i conv @ item # keep_last run @ after_run rest"
        using remove_marked_run [OF run, of "take i conv @ [item]" "after_run rest"] conv rest
        by (simp only: len_i marks_def append.assoc append_Cons append_Nil)
      show ?thesis
      proof (cases "marks = []")
        case True
        then have kept: "keep_last run = run"
          using marked_Nil [OF run] by (simp add: marks_def)
        have j: "Suc i + length run \<le> length conv"
          using i conv rest by (metis (no_types, lifting) add_Suc_right le_add1 length_append length_Cons
              length_take min.absorb4 add.assoc add_Suc)
        have "dedup_loop conv i removed = dedup_loop conv (Suc i + length run) removed"
          using i calls True by (subst dedup_loop.simps) (simp add: item_def marks_def run_def rest_def)
        also have "\<dots> = (take (Suc i + length run) conv @ deduped (after_run rest),
            removed + (length (after_run rest) - length (deduped (after_run rest))))"
        proof -
          have "drop (Suc i + length run) conv = after_run rest"
            by (metis add.commute drop_drop rest_def run_def dropWhile_eq_drop)
          then show ?thesis using 1(2) i calls True j
            by (simp add: item_def marks_def run_def rest_def)
        qed
        also have "take (Suc i + length run) conv = take i conv @ item # run"
          by (subst conv, subst rest) (use i in simp)
        finally show ?thesis
          using calls kept length_run_split [of rest] by (simp add: drop_i run_def)
      next
        case False
        let ?conv' = "remove_marked conv marks"
        have take_i: "take i ?conv' = take i conv" and drop_i': "drop i ?conv' = item # keep_last run @ after_run rest"
          using i by (simp_all add: removed)
        have "dedup_loop conv i removed = dedup_loop ?conv' i (removed + length marks)"
          using i calls False
          by (subst dedup_loop.simps) (simp add: item_def marks_def run_def rest_def Let_def)
        also have "\<dots> = (take i ?conv' @ deduped (drop i ?conv'),
            removed + length marks + (length (drop i ?conv') - length (deduped (drop i ?conv'))))"
        proof -
          have "i \<le> length ?conv'" using i by (simp add: removed)
          then show ?thesis using 1(1) i calls False
            by (simp add: item_def marks_def run_def rest_def del: length_drop)
        qed
        also have "deduped (drop i ?conv') = deduped (item # rest)"
          unfolding drop_i' run_def by (rule deduped_absorb [OF calls])
        also have "length (drop i ?conv') = Suc (length rest) - length marks"
          using len_run arg_cong [OF rest, of length] by (simp add: drop_i')
        finally have eq: "dedup_loop conv i removed = (take i conv @ deduped (item # rest),
            removed + length marks + (Suc (length rest) - length marks - length (deduped (item # rest))))"
          by (simp only: take_i)
        have "length (deduped (item # rest)) \<le> Suc (length rest) - length marks"
          using deduped_length [of "after_run rest"] length_run_split [of rest] len_run calls
          by (simp add: run_def)
        moreover have "length marks \<le> Suc (length rest)"
          using len_run arg_cong [OF rest, of length] by simp
        ultimately show ?thesis unfolding eq drop_i by simp
      qed
    qed
  qed
qed

lemma dedup_is_deduped:
  "dedup_duplicate_tool_results items = (deduped items, length items - length (deduped items))"
  by (simp add: dedup_duplicate_tool_results_def dedup_loop_deduped)

text \<open>Stripping: in a run, the results of the calls declared by the message before it stay.\<close>

definition declared :: "tool_call list \<Rightarrow> conversation_item \<Rightarrow> bool" where
  "declared calls r \<longleftrightarrow> item_result_id r \<in> Some ` set (map call_id calls)"

definition kept_items :: "conversation_item list \<Rightarrow> conversation_item list" where
  "kept_items items = fst (strip_from {} items)"

lemma strip_from_clean: "head_clean items \<Longrightarrow> strip_from ids items = strip_from {} items"
  by (cases items; cases "hd items") (auto split: prod.splits)

lemma strip_from_run:
  "list_all is_tool_result run \<Longrightarrow> head_clean post \<Longrightarrow>
   fst (strip_from (call_id ` set calls) (run @ post)) = filter (declared calls) run @ kept_items post"
proof (induction run)
  case Nil
  then show ?case using strip_from_clean [of post "call_id ` set calls"] by (simp add: kept_items_def)
next
  case (Cons r run)
  then obtain tr where "r = ToolResult tr" by (cases r) auto
  with Cons show ?case by (auto simp: declared_def split: prod.splits)
qed

lemma strip_from_non_result:
  "\<not> is_tool_result item \<Longrightarrow>
   fst (strip_from ids (item # items)) = item # fst (strip_from (call_id ` set (item_calls item)) items)"
  by (cases item) (auto split: prod.splits)

lemma kept_items_run:
  "list_all is_tool_result run \<Longrightarrow> head_clean post \<Longrightarrow> kept_items (run @ post) = kept_items post"
  using strip_from_run [of run post "[]"] by (simp add: kept_items_def declared_def)

lemma kept_items_head [simp]: "head_clean (kept_items items)"
proof -
  have "kept_items items = kept_items (after_run items)"
    using kept_items_run [of "result_run items" "after_run items"] by simp
  moreover have "head_clean (kept_items post)" if "head_clean post" for post
    using that strip_from_non_result [of "hd post" "{}" "tl post"]
    by (cases post) (auto simp: kept_items_def)
  ultimately show ?thesis by simp
qed

lemma kept_items_with_calls:
  "\<not> is_tool_result item \<Longrightarrow> list_all is_tool_result run \<Longrightarrow> head_clean post \<Longrightarrow>
   kept_items (item # run @ post) = item # filter (declared (item_calls item)) run @ kept_items post"
  unfolding kept_items_def [of "item # run @ post"]
  by (simp add: strip_from_non_result strip_from_run)

lemma strip_is_kept: "fst (strip_displaced_tool_results items) = kept_items items"
  by (simp add: strip_displaced_tool_results_def kept_items_def)

text \<open>Filling in the missing results.\<close>

function filled :: "dangling_reason \<Rightarrow> conversation_item list \<Rightarrow> conversation_item list" where
  "filled reason [] = []"
| "filled reason (item # rest) =
     (if item_calls item \<noteq> [] then
        item # result_run rest @ synthetic_results reason (item_calls item) (run_ids (result_run rest))
        @ filled reason (after_run rest)
      else item # filled reason rest)"
  by pat_completeness auto
termination
  by (relation "measure (\<lambda>(r, items). length items)") (auto simp: le_imp_less_Suc length_dropWhile_le)

lemma splices_filled:
  "length pre = i \<Longrightarrow> foldl splice_at (pre @ items) (rev (dangling_repairs reason i items)) = pre @ filled reason items"
proof (induction reason i items arbitrary: pre rule: dangling_repairs.induct)
  case (2 reason i item rest)
  show ?case
  proof (cases "item_calls item = []")
    case True
    with 2(2) [of "pre @ [item]"] 2(3) show ?thesis by simp
  next
    case False
    define run where "run = result_run rest"
    define synthetic where "synthetic = synthetic_results reason (item_calls item) (run_ids run)"
    define j where "j = i + 1 + length run"
    have rest: "rest = run @ after_run rest" by (simp add: run_def)
    have "foldl splice_at ((pre @ item # run) @ after_run rest) (rev (dangling_repairs reason j (after_run rest)))
        = (pre @ item # run) @ filled reason (after_run rest)"
      using 2(1) [OF False _ _, of j synthetic "pre @ item # run"] 2(3)
      by (simp add: j_def run_def synthetic_def)
    moreover have "(pre @ item # run) @ after_run rest = pre @ item # rest" using rest by simp
    ultimately have inner: "foldl splice_at (pre @ item # rest) (rev (dangling_repairs reason j (after_run rest)))
        = (pre @ item # run) @ filled reason (after_run rest)" by simp
    have "foldl splice_at (pre @ item # rest) (rev (dangling_repairs reason i (item # rest)))
        = foldl splice_at ((pre @ item # run) @ filled reason (after_run rest))
            (if synthetic \<noteq> [] then [(j, synthetic)] else [])"
      using False by (simp add: Let_def inner flip: j_def [simplified] run_def synthetic_def)
    also have "\<dots> = (pre @ item # run) @ synthetic @ filled reason (after_run rest)"
      using 2(3) by (simp add: splice_at_def j_def)
    finally show ?thesis using False by (simp add: run_def synthetic_def)
  qed
qed simp

lemma repairs_count:
  "sum_list (map (\<lambda>r. length (snd r)) (dangling_repairs reason i items)) + length items
     = length (filled reason items)"
proof (induction reason i items rule: dangling_repairs.induct)
  case (2 reason i item rest)
  show ?case
  proof (cases "item_calls item = []")
    case False
    then show ?thesis using 2(1) [OF False refl refl] length_run_split [of rest] by (simp add: Let_def)
  qed (use 2 in simp)
qed simp

lemma repair_dangling_is_filled:
  "repair_dangling_tool_calls reason items = (filled reason items, length (filled reason items) - length items)"
  using splices_filled [of "[]" 0 items reason] repairs_count [of reason 0 items]
  by (simp add: repair_dangling_tool_calls_def Let_def)

lemma has_dangling_iff: "has_dangling_tool_calls items \<longleftrightarrow> filled reason items \<noteq> items"
proof (induction items rule: has_dangling_tool_calls.induct)
  case (2 item rest)
  have split: "result_run rest @ after_run rest = rest" by simp
  have longer: "length items \<le> length (filled reason items)" for items
    using repairs_count [of reason 0 items] by simp
  show ?case
  proof (cases "item_calls item = []")
    case False
    let ?syn = "synthetic_results reason (item_calls item) (run_ids (result_run rest))"
    have "?syn = [] \<longleftrightarrow> \<not> list_ex (\<lambda>tc. call_id tc \<notin> run_ids (result_run rest)) (item_calls item)"
      by (auto simp: synthetic_results_def filter_empty_conv list_ex_iff)
    moreover have "filled reason (item # rest) = item # rest \<longleftrightarrow>
        ?syn = [] \<and> filled reason (after_run rest) = after_run rest"
    proof
      assume "filled reason (item # rest) = item # rest"
      then have eq: "result_run rest @ ?syn @ filled reason (after_run rest) = result_run rest @ after_run rest"
        using False split by simp
      then have mid: "?syn @ filled reason (after_run rest) = after_run rest" by (simp only: same_append_eq)
      then have "length ?syn + length (filled reason (after_run rest)) = length (after_run rest)"
        by (metis length_append)
      with longer [of "after_run rest"] have "length ?syn = 0" by linarith
      then have "?syn = []" by (simp only: length_0_conv)
      with mid show "?syn = [] \<and> filled reason (after_run rest) = after_run rest" by simp
    qed (use False split in simp)
    ultimately show ?thesis using 2(1) False by simp
  qed (use 2 in simp)
qed simp

section \<open>The repair in one pass\<close>

text \<open>
  The results that follow a message: of the results in its run that answer one of its calls the
  last per call, then a synthetic result for every call left.
\<close>

definition answered_run :: "dangling_reason \<Rightarrow> tool_call list \<Rightarrow> conversation_item list \<Rightarrow> conversation_item list" where
  "answered_run reason calls run =
     (let kept = keep_last (filter (declared calls) run) in
      kept @ synthetic_results reason calls (run_ids kept))"

function repaired :: "dangling_reason \<Rightarrow> conversation_item list \<Rightarrow> conversation_item list" where
  "repaired reason [] = []"
| "repaired reason (item # rest) =
     (if is_tool_result item then repaired reason rest
      else item # answered_run reason (item_calls item) (result_run rest)
             @ repaired reason (after_run rest))"
  by pat_completeness auto
termination
  by (relation "measure (\<lambda>(r, items). length items)") (auto simp: le_imp_less_Suc length_dropWhile_le)

lemma declared_Nil [simp]: "\<not> declared [] r"
  by (simp add: declared_def)

lemma answered_run_Nil [simp]: "answered_run reason [] run = []"
  by (simp add: answered_run_def synthetic_results_def Let_def)

lemma keep_last_declared:
  "keep_last (filter (declared calls) run) = filter (declared calls) (keep_last run)"
  using keep_last_filter [of "\<lambda>i. i \<in> Some ` set (map call_id calls)" run]
  by (simp add: declared_def [abs_def])

lemma list_all_filter_results: "list_all is_tool_result run \<Longrightarrow> list_all is_tool_result (filter P run)"
  by (auto simp: list_all_iff)

lemma passes_repair: "filled reason (kept_items (deduped items)) = repaired reason items"
proof (induction reason items rule: repaired.induct)
  case (1 reason)
  then show ?case by (simp add: kept_items_def)
next
  case (2 reason item rest)
  define run where "run = result_run rest"
  have run: "list_all is_tool_result run" by (simp add: run_def)
  have rest: "rest = run @ after_run rest" by (simp add: run_def)
  have head: "head_clean (deduped (after_run rest))" by (rule deduped_head) simp
  show ?case
  proof (cases "is_tool_result item")
    case True
    then have "deduped (item # rest) = [item] @ deduped rest" by (simp add: no_calls_result)
    moreover have "kept_items ([item] @ deduped rest) = kept_items (deduped rest)"
      using kept_items_run [of "item # result_run (deduped rest)" "after_run (deduped rest)"]
        kept_items_run [of "result_run (deduped rest)" "after_run (deduped rest)"] True by simp
    ultimately show ?thesis using 2(1) True by simp
  next
    case item: False
    have dedup: "deduped (item # rest) = item # (if item_calls item \<noteq> [] then keep_last run else run)
        @ deduped (after_run rest)"
      using deduped_run [OF run, of "after_run rest"] rest by (auto simp: run_def)
    let ?run = "if item_calls item \<noteq> [] then keep_last run else run"
    let ?kept = "filter (declared (item_calls item)) ?run"
    have kept: "kept_items (deduped (item # rest)) = item # ?kept @ kept_items (deduped (after_run rest))"
      unfolding dedup using run keep_last_results [OF run] head
      by (intro kept_items_with_calls item) simp_all
    have kept_results: "list_all is_tool_result ?kept"
      using run keep_last_results [OF run] by (simp add: list_all_filter_results)
    show ?thesis
    proof (cases "item_calls item = []")
      case True
      then show ?thesis unfolding kept using 2(2) [OF item] item by simp
    next
      case False
      then show ?thesis
        unfolding kept
        using 2(2) [OF item] item run_append [OF kept_results kept_items_head, of "deduped (after_run rest)"]
        by (simp add: answered_run_def Let_def keep_last_declared run_def)
    qed
  qed
qed

abbreviation repair_reason :: dangling_reason where
  "repair_reason \<equiv> HarnessHalted ''history_repair''"

lemma repair_history_items: "fst (repair_history items) = repaired repair_reason items"
proof -
  have "fst (repair_history items) =
      fst (repair_dangling_tool_calls repair_reason
        (fst (strip_displaced_tool_results (fst (dedup_duplicate_tool_results items)))))"
    by (simp add: repair_history_def Let_def split: prod.split)
  then show ?thesis
    by (simp add: dedup_is_deduped repair_dangling_is_filled strip_is_kept passes_repair)
qed

section \<open>Histories a provider accepts\<close>

text \<open>
  Every result follows the message with its call, with only results between them, and every call
  has exactly one result.
\<close>

function well_paired :: "conversation_item list \<Rightarrow> bool" where
  "well_paired [] = True"
| "well_paired (item # rest) \<longleftrightarrow>
     \<not> is_tool_result item
     \<and> distinct (map item_result_id (result_run rest))
     \<and> all_ids (result_run rest) = Some ` set (map call_id (item_calls item))
     \<and> well_paired (after_run rest)"
  by pat_completeness auto
termination
  by (relation "measure length") (auto simp: le_imp_less_Suc length_dropWhile_le)

definition calls_distinct :: "conversation_item list \<Rightarrow> bool" where
  "calls_distinct items \<longleftrightarrow> list_all (\<lambda>item. distinct (map call_id (item_calls item))) items"

lemma run_ids_all_ids: "list_all is_tool_result run \<Longrightarrow> i \<in> run_ids run \<longleftrightarrow> Some i \<in> all_ids run"
  unfolding set_map_filter_iff set_map image_iff by metis

lemma synthetic_ids:
  "map item_result_id (synthetic_results reason calls answered) =
     map (Some \<circ> call_id) (filter (\<lambda>tc. call_id tc \<notin> answered) calls)"
  by (simp add: synthetic_results_def tool_result_def tool_result_with_images_def)

lemma synthetic_are_results: "list_all is_tool_result (synthetic_results reason calls answered)"
  by (simp add: synthetic_results_def tool_result_def tool_result_with_images_def list_all_iff)

lemma answered_run_results: "list_all is_tool_result run \<Longrightarrow> list_all is_tool_result (answered_run reason calls run)"
  by (simp add: answered_run_def Let_def synthetic_are_results keep_last_results list_all_filter_results)

lemma answered_run_ids:
  assumes "list_all is_tool_result run" "distinct (map call_id calls)"
  shows "distinct (map item_result_id (answered_run reason calls run))"
    and "all_ids (answered_run reason calls run) = Some ` set (map call_id calls)"
proof -
  define kept where "kept = keep_last (filter (declared calls) run)"
  have kept: "list_all is_tool_result kept" using assms(1) by (simp add: kept_def keep_last_results list_all_filter_results)
  have sub: "all_ids kept \<subseteq> Some ` set (map call_id calls)"
    unfolding kept_def keep_last_ids by (auto simp: declared_def)
  have syn: "all_ids (synthetic_results reason calls (run_ids kept)) =
      {Some i |i. i \<in> set (map call_id calls) \<and> Some i \<notin> all_ids kept}"
    unfolding synthetic_ids using run_ids_all_ids [OF kept] by (auto simp del: list.set_map)
  have "distinct (map item_result_id kept)" unfolding kept_def by (rule keep_last_distinct)
  moreover have "distinct (map item_result_id (synthetic_results reason calls (run_ids kept)))"
    unfolding synthetic_ids using assms(2) by (simp add: distinct_map distinct_filter inj_on_def)
  moreover have "all_ids kept \<inter> all_ids (synthetic_results reason calls (run_ids kept)) = {}"
    unfolding syn by blast
  ultimately show "distinct (map item_result_id (answered_run reason calls run))"
    unfolding answered_run_def Let_def kept_def [symmetric] map_append distinct_append by blast
  show "all_ids (answered_run reason calls run) = Some ` set (map call_id calls)"
    unfolding answered_run_def Let_def kept_def [symmetric] map_append set_append syn
    using sub by (auto simp del: list.set_map)
qed

lemma repaired_head [simp]: "head_clean (repaired reason items)"
  by (induction reason items rule: repaired.induct) auto

lemma repaired_well_paired: "calls_distinct items \<Longrightarrow> well_paired (repaired reason items)"
proof (induction reason items rule: repaired.induct)
  case (2 reason item rest)
  have rest: "calls_distinct rest" "calls_distinct (after_run rest)" "distinct (map call_id (item_calls item))"
    using 2(3) by (auto simp: calls_distinct_def list_all_iff dest: set_dropWhileD)
  show ?case
  proof (cases "is_tool_result item")
    case False
    have run: "list_all is_tool_result (answered_run reason (item_calls item) (result_run rest))"
      by (simp add: answered_run_results)
    show ?thesis
      using 2(2) [OF False rest(2)] False answered_run_ids [OF list_all_result_run rest(3), of reason rest]
        run_append [OF run repaired_head, of reason "after_run rest"] by simp
  qed (use 2 rest in simp)
qed simp

text \<open>On such a history each pass changes nothing.\<close>

lemma well_paired_passes:
  "well_paired items \<Longrightarrow> deduped items = items \<and> kept_items items = items \<and> filled reason items = items"
proof (induction items rule: well_paired.induct)
  case (2 item rest)
  define run where "run = result_run rest"
  have item: "\<not> is_tool_result item" and ids: "all_ids run = Some ` set (map call_id (item_calls item))"
    and d: "distinct (map item_result_id run)" and wp: "well_paired (after_run rest)"
    using 2(2) by (auto simp: run_def)
  have rest: "rest = run @ after_run rest" and run: "list_all is_tool_result run" by (simp_all add: run_def)
  have "declared (item_calls item) r" if "r \<in> set run" for r
    using that ids by (auto simp: declared_def)
  then have kept: "filter (declared (item_calls item)) run = run" by (simp add: filter_id_conv)
  have "call_id tc \<in> run_ids run" if "tc \<in> set (item_calls item)" for tc
  proof -
    have "Some (call_id tc) \<in> all_ids run" unfolding ids using that by auto
    then show ?thesis using run_ids_all_ids [OF run] by simp
  qed
  then have syn: "synthetic_results reason (item_calls item) (run_ids run) = []"
    by (simp add: synthetic_results_def filter_empty_conv)
  have none: "run = []" if "item_calls item = []" using ids that by simp
  then have after: "after_run rest = rest" if "item_calls item = []" using rest that by simp
  note ih = 2(1) [OF wp]
  have "deduped (item # rest) = item # rest"
    using ih keep_last_id [OF d] none deduped_run [OF run, of "after_run rest"] rest by (auto simp: run_def)
  moreover have "kept_items (item # rest) = item # rest"
    using kept_items_with_calls [OF item run, of "after_run rest"] ih kept rest by simp
  moreover have "filled reason (item # rest) = item # rest"
    using ih syn after rest by (auto simp: run_def)
  ultimately show ?case by simp
qed (simp add: kept_items_def)

lemma well_paired_repaired: "well_paired items \<Longrightarrow> repaired reason items = items"
  using well_paired_passes [of items reason] passes_repair [of reason items] by simp

lemma repaired_keeps_messages:
  "filter (\<lambda>i. \<not> is_tool_result i) (repaired reason items) = filter (\<lambda>i. \<not> is_tool_result i) items"
proof (induction reason items rule: repaired.induct)
  case (2 reason item rest)
  have none: "filter (\<lambda>i. \<not> is_tool_result i) run = []" if "list_all is_tool_result run" for run
    using that by (simp add: list_all_iff filter_empty_conv)
  have "filter (\<lambda>i. \<not> is_tool_result i) rest = filter (\<lambda>i. \<not> is_tool_result i) (after_run rest)"
    using none [of "result_run rest"] filter_append [of _ "result_run rest" "after_run rest"] by simp
  with 2 show ?case by (simp add: none answered_run_results)
qed simp

lemma strip_lengths:
  "length (fst (strip_from ids items)) + length (snd (strip_from ids items)) = length items"
  by (induction ids items rule: strip_from.induct) (auto split: prod.splits)

lemma strip_nothing: "snd (strip_from ids items) = [] \<Longrightarrow> fst (strip_from ids items) = items"
  by (induction ids items rule: strip_from.induct) (auto split: prod.splits if_splits)

lemma repair_unchanged:
  "\<not> report_changed (snd (repair_history items)) \<longleftrightarrow>
   length (deduped items) = length items \<and> length (kept_items (deduped items)) = length (deduped items)
   \<and> length (filled repair_reason (kept_items (deduped items))) = length (kept_items (deduped items))"
proof -
  have "snd (strip_from {} (deduped items)) = [] \<longleftrightarrow>
      length (kept_items (deduped items)) = length (deduped items)"
    using strip_lengths [of "{}" "deduped items"] by (auto simp: kept_items_def)
  moreover have "length (kept_items (deduped items)) \<le> length (filled repair_reason (kept_items (deduped items)))"
    using repairs_count [of repair_reason 0 "kept_items (deduped items)"] by simp
  moreover have "snd (repair_history items) =
      \<lparr> duplicates_removed = length items - length (deduped items),
        stripped_tool_result_ids = snd (strip_from {} (deduped items)),
        synthetic_results_inserted =
          length (filled repair_reason (kept_items (deduped items))) - length (kept_items (deduped items)) \<rparr>"
    by (simp add: repair_history_def Let_def dedup_is_deduped repair_dangling_is_filled
        strip_displaced_tool_results_def kept_items_def split: prod.split)
  ultimately show ?thesis
    using deduped_length [of items] by (simp add: report_changed_def) linarith
qed

lemma keep_last_subseq: "subseq (keep_last rs) rs"
  by (induction rs) auto

lemma deduped_subseq: "subseq (deduped items) items"
proof (induction items rule: deduped.induct)
  case (2 item rest)
  then have "subseq (keep_last (result_run rest) @ deduped (after_run rest)) (result_run rest @ after_run rest)"
    if "item_calls item \<noteq> []"
    using that by (intro list_emb_append_mono keep_last_subseq) simp
  with 2 show ?case by auto
qed simp

lemma filled_subseq: "subseq items (filled reason items)"
proof (induction items rule: filled.induct)
  case (2 reason item rest)
  then have "subseq (result_run rest @ after_run rest) (result_run rest
      @ synthetic_results reason (item_calls item) (run_ids (result_run rest)) @ filled reason (after_run rest))"
    if "item_calls item \<noteq> []"
    using that by (intro list_emb_append_mono) (auto intro: list_emb_prefix list_emb_append2)
  with 2 show ?case by auto
qed simp

lemma repair_unchanged_same:
  assumes "\<not> report_changed (snd (repair_history items))"
  shows "fst (repair_history items) = items"
proof -
  note len = assms [unfolded repair_unchanged]
  have d: "deduped items = items"
    using len by (intro subseq_same_length deduped_subseq) simp
  have "snd (strip_from {} items) = []"
    using len strip_lengths [of "{}" items] by (simp add: d kept_items_def)
  then have k: "kept_items items = items" unfolding kept_items_def by (rule strip_nothing)
  have "items = filled repair_reason items"
    using len by (intro subseq_same_length filled_subseq) (simp add: d k)
  then show ?thesis using passes_repair [of repair_reason items] by (simp add: repair_history_items d k)
qed

text \<open>C17. 
  C0: When the calls of each message have distinct ids, the repair of any history yields one a provider
  accepts, drops and invents nothing but tool results, reports a change exactly when the history was not
  accepted before, and changes nothing when run again.
\<close>

theorem repair_history_pairs:
  assumes "calls_distinct items"
  shows "well_paired (fst (repair_history items))
    \<and> filter (\<lambda>i. \<not> is_tool_result i) (fst (repair_history items)) = filter (\<lambda>i. \<not> is_tool_result i) items
    \<and> report_changed (snd (repair_history items)) = (\<not> well_paired items)
    \<and> repair_history (fst (repair_history items)) =
        (fst (repair_history items),
         \<lparr> duplicates_removed = 0, stripped_tool_result_ids = [], synthetic_results_inserted = 0 \<rparr>)"
proof (intro conjI)
  show wp: "well_paired (fst (repair_history items))"
    using assms by (simp add: repair_history_items repaired_well_paired)
  show "filter (\<lambda>i. \<not> is_tool_result i) (fst (repair_history items)) = filter (\<lambda>i. \<not> is_tool_result i) items"
    by (simp add: repair_history_items repaired_keeps_messages)
  have accepted: "\<not> report_changed (snd (repair_history xs))" if "well_paired xs" for xs
    unfolding repair_unchanged using well_paired_passes [OF that, of repair_reason] by simp
  show "report_changed (snd (repair_history items)) = (\<not> well_paired items)"
    using accepted [of items] repair_unchanged_same [of items] wp by metis
  note again = accepted [OF wp]
  have "snd (repair_history (fst (repair_history items))) =
      \<lparr> duplicates_removed = 0, stripped_tool_result_ids = [], synthetic_results_inserted = 0 \<rparr>"
    using again by (intro history_repair_report.equality) (simp_all add: report_changed_def)
  then show "repair_history (fst (repair_history items)) = (fst (repair_history items),
      \<lparr> duplicates_removed = 0, stripped_tool_result_ids = [], synthetic_results_inserted = 0 \<rparr>)"
    using repair_unchanged_same [OF again] by (metis prod.collapse)
qed

definition demo_call :: "string \<Rightarrow> tool_call" where
  "demo_call i = \<lparr> call_id = i, call_name = ''read'', call_arguments = ''{}'' \<rparr>"

definition torn_history :: "conversation_item list" where
  "torn_history =
     [user ''go'', tool_result ''lost'' ''x'', assistant_tool_calls [demo_call ''a'', demo_call ''b''],
      tool_result ''b'' ''old'', tool_result ''b'' ''new'', user ''next'']"

lemma torn_calls_distinct: "calls_distinct torn_history"
  by (simp add: calls_distinct_def torn_history_def user_def user_text_def tool_result_def
      tool_result_with_images_def assistant_tool_calls_def assistant_with_def demo_call_def)

theorem repair_history_pairs_witness:
  "well_paired (fst (repair_history torn_history))
   \<and> report_changed (snd (repair_history torn_history))
   \<and> fst (repair_history (fst (repair_history torn_history))) = fst (repair_history torn_history)"
proof -
  have "\<not> well_paired torn_history"
    by (simp add: torn_history_def user_def user_text_def tool_result_def tool_result_with_images_def)
  then show ?thesis using repair_history_pairs [OF torn_calls_distinct] by (metis fst_conv)
qed

text \<open>
  Two calls of one message with the same id get a synthetic result each; the second repair removes
  one of them as a duplicate.
\<close>

definition twin_calls :: "conversation_item list" where
  "twin_calls = [assistant_tool_calls [demo_call ''a'', demo_call ''a'']]"

lemma repair_twice_differs:
  "fst (repair_history (fst (repair_history twin_calls))) \<noteq> fst (repair_history twin_calls)"
proof -
  have "length (fst (repair_history twin_calls)) = 3" by code_simp
  moreover have "length (fst (repair_history (fst (repair_history twin_calls)))) = 2" by code_simp
  ultimately show ?thesis by auto
qed

section \<open>The other checks\<close>

lemma has_dangling_iff_inserts:
  "has_dangling_tool_calls items \<longleftrightarrow> 0 < snd (repair_dangling_tool_calls reason items)"
proof -
  have "length items \<le> length (filled reason items)" using repairs_count [of reason 0 items] by simp
  moreover have "length (filled reason items) = length items \<longleftrightarrow> filled reason items = items"
    using filled_subseq [of items reason] by (metis subseq_same_length)
  ultimately show ?thesis
    by (auto simp: repair_dangling_is_filled has_dangling_iff [of items reason])
qed

lemma sanitize_valid: "validate_from seen (fst (sanitize_from seen items)) = []"
  by (induction seen items rule: sanitize_from.induct) (auto split: prod.splits)

lemma sanitized_history_valid:
  "validate_compacted_history (sanitized_items (sanitize_compacted_history items)) = []"
  using sanitize_valid [of "{}" items]
  by (cases "sanitize_from {} items") (simp add: validate_compacted_history_def sanitize_compacted_history_def)

lemma sanitize_strips: "snd (sanitize_from seen items) = validate_from seen items"
  by (induction seen items rule: sanitize_from.induct) (auto split: prod.splits)

lemma validate_run:
  "list_all is_tool_result run \<Longrightarrow> all_ids run \<subseteq> Some ` seen \<Longrightarrow>
   validate_from seen (run @ post) = validate_from seen post"
proof (induction run)
  case (Cons r run)
  then obtain tr where "r = ToolResult tr" by (cases r) auto
  with Cons show ?case by auto
qed simp

lemma well_paired_valid: "well_paired items \<Longrightarrow> validate_from seen items = []"
proof (induction items arbitrary: seen rule: well_paired.induct)
  case (2 item rest)
  let ?seen = "seen \<union> call_id ` set (item_calls item)"
  have "validate_from seen (item # rest) = validate_from ?seen rest"
    using 2(2) by (cases item) auto
  also have "\<dots> = validate_from ?seen (result_run rest @ after_run rest)" by simp
  also have "\<dots> = validate_from ?seen (after_run rest)"
    using 2(2) by (intro validate_run) auto
  finally show ?case using 2 by simp
qed simp

section \<open>Parts of an accepted history\<close>

lemma run_of_append: "head_clean b \<Longrightarrow> result_run (a @ b) = result_run a \<and> after_run (a @ b) = after_run a @ b"
proof (induction a)
  case Nil
  then show ?case by (cases b) auto
qed auto

lemma well_paired_append: "head_clean b \<Longrightarrow> well_paired (a @ b) \<longleftrightarrow> well_paired a \<and> well_paired b"
proof (induction a rule: well_paired.induct)
  case (2 item rest)
  then show ?case using run_of_append [of b rest] by auto
qed simp

lemma well_paired_head: "well_paired items \<Longrightarrow> head_clean items"
  by (cases items) auto

text \<open>Operations that keep ids, calls and kinds keep the pairing.\<close>

definition keeps_pairing :: "(conversation_item \<Rightarrow> conversation_item) \<Rightarrow> bool" where
  "keeps_pairing f \<longleftrightarrow> (\<forall>i. is_tool_result (f i) = is_tool_result i \<and> item_result_id (f i) = item_result_id i
     \<and> map call_id (item_calls (f i)) = map call_id (item_calls i))"

lemma result_run_map:
  "(\<And>i. is_tool_result (f i) = is_tool_result i) \<Longrightarrow>
   result_run (map f items) = map f (result_run items) \<and> after_run (map f items) = map f (after_run items)"
  by (induction items) auto

lemma well_paired_map: "keeps_pairing f \<Longrightarrow> well_paired (map f items) = well_paired items"
proof (induction items rule: well_paired.induct)
  case (2 item rest)
  have kinds: "\<And>i. is_tool_result (f i) = is_tool_result i" using 2(2) by (simp add: keeps_pairing_def)
  have ids: "map item_result_id (map f xs) = map item_result_id xs" for xs
    using 2(2) by (simp add: keeps_pairing_def)
  have calls: "map call_id (item_calls (f item)) = map call_id (item_calls item)"
    using 2(2) by (simp add: keeps_pairing_def)
  have "well_paired (map f (item # rest)) \<longleftrightarrow>
      \<not> is_tool_result item \<and> distinct (map item_result_id (result_run rest))
      \<and> all_ids (result_run rest) = Some ` set (map call_id (item_calls item)) \<and> well_paired (map f (after_run rest))"
    using result_run_map [of f rest] kinds ids [of "result_run rest"] calls
    by (simp only: list.map well_paired.simps)
  then show ?case using 2 by simp
qed simp

lemma well_paired_run_Nil: "well_paired (item # rest) \<Longrightarrow> item_calls item = [] \<Longrightarrow> head_clean rest"
  by (cases rest) auto


end
