(* ===== verification/CompactionSpec.thy ===== *)
theory CompactionSpec
  imports CompactionSummary ToolPairingSpec "HOL-Library.Code_Target_Nat"
begin

text \<open>
  What compaction keeps: the cleaned summary holds no live control token; shrinking a conversation and
  rebuilding it after a summary leave a history a provider accepts.
\<close>

section \<open>Tags by segments\<close>

text \<open>
  A text is split at its opening brackets; a tag stands in it when a segment behind a bracket starts
  with the tag's body.
\<close>

abbreviation LT :: char where
  "LT \<equiv> CHR ''<''"

abbreviation segments :: "string \<Rightarrow> string list" where
  "segments s \<equiv> split_on LT s"

lemma segments_Cons:
  "segments (c # s) = (if c = LT then [] # segments s else (c # hd (segments s)) # tl (segments s))"
  using split_on_not_Nil [of LT s] by (auto split: list.splits)

lemma segments_hd_tl: "hd (segments s) # tl (segments s) = segments s"
  using split_on_not_Nil [of LT s] by simp

lemma segments_append: "LT \<notin> set q \<Longrightarrow> segments (q @ s) = (q @ hd (segments s)) # tl (segments s)"
  by (induction q) (auto simp: segments_hd_tl segments_Cons simp del: split_on.simps)

lemma prefix_hd_segment: "LT \<notin> set q \<Longrightarrow> prefix q s \<longleftrightarrow> prefix q (hd (segments s))"
proof (induction q arbitrary: s)
  case (Cons a q)
  then show ?case by (cases s) (auto simp: segments_Cons simp del: split_on.simps(2))
qed simp

lemma contains_tag:
  "LT \<notin> set q \<Longrightarrow> contains_str s (LT # q) \<longleftrightarrow> (\<exists>seg \<in> set (tl (segments s)). prefix q seg)"
proof (induction s)
  case (Cons c s)
  show ?case
  proof (cases "c = LT")
    case True
    have "contains_str (c # s) (LT # q) \<longleftrightarrow> prefix q (hd (segments s)) \<or> contains_str s (LT # q)"
      using True prefix_hd_segment [OF Cons.prems, of s] by (simp add: sublist_Cons_right)
    also have "\<dots> \<longleftrightarrow> (\<exists>seg \<in> set (hd (segments s) # tl (segments s)). prefix q seg)"
      unfolding Cons.IH [OF Cons.prems] by (simp only: list.set(2) bex_simps(5))
    finally show ?thesis using True by (simp add: segments_hd_tl)
  next
    case False
    then show ?thesis using Cons by (auto simp: segments_Cons sublist_Cons_right simp del: split_on.simps)
  qed
qed simp

section \<open>Neutralised tokens\<close>

definition clean_of :: "string \<Rightarrow> string \<Rightarrow> bool" where
  "clean_of q s \<longleftrightarrow> (\<forall>seg \<in> set (tl (segments s)). \<not> prefix q seg)"

lemma segments_neutralize:
  assumes "LT \<notin> set q" "LT \<notin> set z"
  shows "segments (replace_all (LT # q) (LT # z @ q) s) =
     hd (segments s) # map (\<lambda>seg. if prefix q seg then z @ seg else seg) (tl (segments s))"
proof (induction s rule: length_induct)
  case (1 s)
  show ?case
  proof (cases s)
    case (Cons c cs)
    show ?thesis
    proof (cases "starts_with s (LT # q)")
      case True
      then obtain rest where s: "s = LT # q @ rest" by (auto simp: prefix_def)
      have "replace_all (LT # q) (LT # z @ q) s = LT # (z @ q) @ replace_all (LT # q) (LT # z @ q) rest"
        by (simp add: s)
      moreover have "segments (replace_all (LT # q) (LT # z @ q) rest) =
          hd (segments rest) # map (\<lambda>seg. if prefix q seg then z @ seg else seg) (tl (segments rest))"
        using 1 by (simp add: s)
      ultimately show ?thesis
        using assms by (simp add: s segments_Cons segments_append del: split_on.simps)
    next
      case False
      have ih: "segments (replace_all (LT # q) (LT # z @ q) cs) =
          hd (segments cs) # map (\<lambda>seg. if prefix q seg then z @ seg else seg) (tl (segments cs))"
        using 1 Cons by simp
      have step: "replace_all (LT # q) (LT # z @ q) s = c # replace_all (LT # q) (LT # z @ q) cs"
        using False Cons by auto
      show ?thesis
      proof (cases "c = LT")
        case True
        then have "\<not> prefix q (hd (segments cs))"
          using False Cons prefix_hd_segment [OF assms(1), of cs] by simp
        then have "map (\<lambda>seg. if prefix q seg then z @ seg else seg) (segments cs) =
            hd (segments cs) # map (\<lambda>seg. if prefix q seg then z @ seg else seg) (tl (segments cs))"
          using split_on_not_Nil [of LT cs] by (cases "segments cs") simp_all
        then show ?thesis using True step ih Cons by (simp add: segments_Cons del: split_on.simps)
      next
        case False
        then show ?thesis using step ih Cons by (simp add: segments_Cons del: split_on.simps)
      qed
    qed
  qed simp
qed

lemma zwsp_facts: "LT \<notin> set ZWSP" "CHR 0xE2 # r \<noteq> LT # r'"
  by auto

lemma clean_neutralize_same:
  "LT \<notin> set q \<Longrightarrow> q \<noteq> [] \<Longrightarrow> hd q \<noteq> CHR 0xE2 \<Longrightarrow> clean_of q (neutralize_token q s)"
  using segments_neutralize [of q ZWSP s]
  by (cases q) (auto simp: clean_of_def neutralize_token_def)

lemma clean_neutralize_other:
  "LT \<notin> set q \<Longrightarrow> q \<noteq> [] \<Longrightarrow> hd q \<noteq> CHR 0xE2 \<Longrightarrow> LT \<notin> set q' \<Longrightarrow> clean_of q s \<Longrightarrow>
   clean_of q (neutralize_token q' s)"
  using segments_neutralize [of q' ZWSP s]
  by (cases q) (auto simp: clean_of_def neutralize_token_def)

definition good_body :: "string \<Rightarrow> bool" where
  "good_body q \<longleftrightarrow> LT \<notin> set q \<and> q \<noteq> [] \<and> hd q \<noteq> CHR 0xE2 \<and> CHR 0x0A \<notin> set q"

lemma clean_fold:
  "list_all good_body qs \<Longrightarrow> good_body q \<Longrightarrow> clean_of q s \<Longrightarrow> clean_of q (fold neutralize_token qs s)"
  by (induction qs arbitrary: s) (auto simp: good_body_def intro: clean_neutralize_other)

lemma clean_fold_all:
  "list_all good_body qs \<Longrightarrow> q \<in> set qs \<Longrightarrow> clean_of q (fold neutralize_token qs s)"
proof (induction qs arbitrary: s)
  case (Cons q' qs)
  show ?case
  proof (cases "q = q'")
    case True
    then have "clean_of q (neutralize_token q' s)"
      using Cons.prems by (auto simp: good_body_def intro: clean_neutralize_same)
    then show ?thesis using Cons.prems True by (auto intro: clean_fold)
  next
    case False
    then show ?thesis using Cons by simp
  qed
qed simp

lemma control_bodies_good: "list_all good_body control_bodies"
  by (simp add: control_bodies_def good_body_def)

section \<open>Collapsing newlines and trimming\<close>

lemma segments_replace:
  assumes "LT \<notin> set p" "p \<noteq> []" "LT \<notin> set r"
  shows "segments (replace_all p r s) = map (replace_all p r) (segments s)"
proof (induction s rule: length_induct)
  case (1 s)
  show ?case
  proof (cases s)
    case (Cons c cs)
    show ?thesis
    proof (cases "starts_with s p")
      case True
      then obtain rest where s: "s = p @ rest" by (auto simp: prefix_def)
      obtain d p' where p: "p = d # p'" using assms(2) by (cases p) auto
      have rep: "replace_all p r (p @ t) = r @ replace_all p r t" for t by (simp add: p)
      have "segments (replace_all p r rest) = map (replace_all p r) (segments rest)"
        using 1 by (simp add: s p)
      then have ih: "hd (segments (replace_all p r rest)) = replace_all p r (hd (segments rest))"
        "tl (segments (replace_all p r rest)) = map (replace_all p r) (tl (segments rest))"
        using split_on_not_Nil [of LT rest] by (simp_all add: hd_map map_tl)
      show ?thesis unfolding s rep using assms ih by (simp add: segments_append rep)
    next
      case False
      have step: "replace_all p r s = c # replace_all p r cs" using False Cons by simp
      have "segments (replace_all p r cs) = map (replace_all p r) (segments cs)" using 1 Cons by simp
      then have ih: "hd (segments (replace_all p r cs)) = replace_all p r (hd (segments cs))"
        "tl (segments (replace_all p r cs)) = map (replace_all p r) (tl (segments cs))"
        "segments (replace_all p r cs) = map (replace_all p r) (segments cs)"
        using split_on_not_Nil [of LT cs] by (simp_all add: hd_map map_tl)
      have "\<not> prefix p (c # hd (segments cs))" if "c \<noteq> LT"
        using False Cons that prefix_hd_segment [OF assms(1), of s]
        by (simp add: segments_Cons del: split_on.simps)
      then show ?thesis
        using step ih Cons by (simp add: segments_Cons del: split_on.simps)
    qed
  qed simp
qed

lemma prefix_through_replace:
  "CHR 0x0A \<notin> set q \<Longrightarrow> p \<noteq> [] \<Longrightarrow> hd p = CHR 0x0A \<Longrightarrow> r \<noteq> [] \<Longrightarrow> hd r = CHR 0x0A \<Longrightarrow>
   prefix q (replace_all p r s) \<Longrightarrow> prefix q s"
proof (induction p r s arbitrary: q rule: replace_all.induct)
  case (2 p r c cs)
  show ?case
  proof (cases "starts_with (c # cs) p")
    case True
    then show ?thesis using 2(3-) by (cases q; cases r) auto
  next
    case False
    then show ?thesis using 2(2) 2(3-) by (cases q) auto
  qed
qed simp

lemma clean_collapse:
  assumes "CHR 0x0A \<notin> set q"
  shows "clean_of q s \<Longrightarrow> clean_of q (collapse_newlines s)"
proof (induction s rule: collapse_newlines.induct)
  case (1 s)
  have "segments (replace_all (NL @ NL @ NL) (NL @ NL) s) = map (replace_all (NL @ NL @ NL) (NL @ NL)) (segments s)"
    by (rule segments_replace) simp_all
  then have tl: "tl (segments (replace_all (NL @ NL @ NL) (NL @ NL) s)) =
      map (replace_all (NL @ NL @ NL) (NL @ NL)) (tl (segments s))" by (simp add: map_tl)
  have "clean_of q (replace_all (NL @ NL @ NL) (NL @ NL) s)"
    unfolding clean_of_def tl
  proof
    fix seg
    assume "seg \<in> set (map (replace_all (NL @ NL @ NL) (NL @ NL)) (tl (segments s)))"
    then obtain seg' where "seg' \<in> set (tl (segments s))" "seg = replace_all (NL @ NL @ NL) (NL @ NL) seg'" by auto
    then show "\<not> prefix q seg"
      using 1(2) prefix_through_replace [OF assms, of "NL @ NL @ NL" "NL @ NL" seg']
      by (auto simp: clean_of_def simp del: append_Cons append_Nil)
  qed
  then show ?case using 1 by (subst collapse_newlines.simps) (simp del: append_Cons append_Nil)
qed

definition control_tokens :: "string list" where
  "control_tokens =
     [''<summary>'', ''</summary>'', ''<analysis>'', ''</analysis>'', ''<summary_request>'',
      ''</summary_request>'']"

text \<open>C21. 
  C0: Whatever the model wrote, the cleaned summary that seeds the next turn contains none of the tags
  that control compaction.
\<close>

theorem summary_has_no_control_tokens:
  "filter (contains_str (format_compact_summary raw)) control_tokens = []"
proof -
  let ?t = "collapse_newlines (neutralize_compaction_control_tokens (extract_summary_block (strip_analysis raw)))"
  have none: "\<not> contains_str (format_compact_summary raw) (LT # q)" if "q \<in> set control_bodies" for q
  proof
    have q: "good_body q" using control_bodies_good that by (simp add: list_all_iff)
    assume "contains_str (format_compact_summary raw) (LT # q)"
    then have "contains_str ?t (LT # q)"
      unfolding format_compact_summary_def using trim_sublist sublist_order.order.trans by blast
    moreover have "clean_of q ?t"
      unfolding neutralize_compaction_control_tokens_def using q that
      by (intro clean_collapse clean_fold_all control_bodies_good) (simp_all add: good_body_def)
    ultimately show False using q contains_tag [of q ?t] by (auto simp: clean_of_def good_body_def)
  qed
  have "set control_tokens = (#) LT ` set control_bodies"
    by (simp add: control_tokens_def control_bodies_def insert_commute)
  then show ?thesis using none by (auto simp: filter_empty_conv)
qed

section \<open>Shrinking keeps the pairing\<close>

lemma keeps_pairing_truncate: "keeps_pairing (\<lambda>i. truncate_item_to_tokens i n)"
proof -
  have "is_tool_result (truncate_item_to_tokens i n) = is_tool_result i \<and>
      item_result_id (truncate_item_to_tokens i n) = item_result_id i \<and>
      map call_id (item_calls (truncate_item_to_tokens i n)) = map call_id (item_calls i)" for i
    by (cases i) simp_all
  then show ?thesis by (simp add: keeps_pairing_def)
qed

lemma truncate_map:
  assumes "well_paired (item # results)"
  shows "well_paired (item # map (\<lambda>r. truncate_item_to_tokens r n) results)"
proof -
  have kinds: "\<And>i. is_tool_result (truncate_item_to_tokens i n) = is_tool_result i"
    and ids: "\<And>xs. map item_result_id (map (\<lambda>r. truncate_item_to_tokens r n) xs) = map item_result_id xs"
    using keeps_pairing_truncate [of n] by (simp_all add: keeps_pairing_def)
  let ?f = "\<lambda>r. truncate_item_to_tokens r n"
  have "result_run (map ?f results) = map ?f (result_run results)"
    "after_run (map ?f results) = map ?f (after_run results)"
    using result_run_map [of ?f results] kinds by simp_all
  then show ?thesis
    using assms well_paired_map [OF keeps_pairing_truncate, of n "after_run results"]
      ids [of "result_run results"] by (simp only: well_paired.simps simp_thms)
qed

text \<open>The items at the end that are kept, each as it was or truncated.\<close>

definition shrunk_tail :: "conversation_item list \<Rightarrow> conversation_item list \<Rightarrow> bool" where
  "shrunk_tail body items \<longleftrightarrow>
     (\<exists>k. list_all2 (\<lambda>i j. j = i \<or> (\<exists>n. j = truncate_item_to_tokens i n)) (drop k body) items)"

lemma shrunk_suffix: "shrunk_tail (pre @ items) items"
  unfolding shrunk_tail_def by (rule exI [of _ "length pre"]) (simp add: list_all2_same)

lemma recover_pairs:
  assumes "well_paired body" "recover_truncated_tail_unit body budget = Some unit"
  shows "well_paired unit \<and> shrunk_tail body unit"
proof -
  define results where "results = rev (takeWhile is_tool_result (rev body))"
  define body' where "body' = rev (dropWhile is_tool_result (rev body))"
  have body: "body = body' @ results"
    unfolding results_def body'_def by (metis rev_append rev_rev_ident takeWhile_dropWhile_id)
  have results: "list_all is_tool_result results"
    by (auto simp: results_def list_all_iff dest: set_takeWhileD)
  show ?thesis
  proof (cases "body' = []")
    case True
    have "results = []"
      using assms(1) results by (cases results) (auto simp: body True)
    then have "unit = []"
      using assms(2) True by (simp add: recover_truncated_tail_unit_def flip: results_def body'_def)
    then show ?thesis by (auto simp: shrunk_tail_def intro: exI [of _ "length body"])
  next
    case False
    define item where "item = last body'"
    define pre where "pre = butlast body'"
    have split: "body = pre @ item # results" using False by (simp add: body item_def pre_def)
    have "\<not> is_tool_result item"
      using hd_dropWhile [of is_tool_result "rev body"] False
      by (simp add: item_def body'_def last_rev)
    then have wp: "well_paired (item # results)"
      using assms(1) well_paired_append [of "item # results" pre] by (simp add: split)
    show ?thesis
    proof (cases "results = []")
      case True
      then have unit: "unit = [truncate_item_to_tokens item budget]"
        using assms(2) False by (simp add: recover_truncated_tail_unit_def item_def flip: results_def body'_def)
      have "well_paired (map (\<lambda>i. truncate_item_to_tokens i budget) [item])"
        using wp True by (simp only: well_paired_map [OF keeps_pairing_truncate])
      moreover have "shrunk_tail body unit"
        unfolding shrunk_tail_def by (rule exI [of _ "length pre"]) (auto simp: split unit True)
      ultimately show ?thesis by (simp add: unit)
    next
      case nonempty: False
      have "item_calls item \<noteq> []"
        using well_paired_run_Nil [OF wp] results nonempty by (cases results) auto
      then obtain per where unit: "unit = item # map (\<lambda>r. truncate_item_to_tokens r per) results"
        using assms(2) False nonempty
        by (auto simp: recover_truncated_tail_unit_def item_def bind_eq_Some_conv Let_def
            simp flip: results_def body'_def)
      have "shrunk_tail body unit"
        unfolding shrunk_tail_def
        by (rule exI [of _ "length pre"]) (auto simp: split unit list_all2_map2 list_all2_same)
      then show ?thesis using truncate_map [OF wp, of per] by (simp add: unit)
    qed
  qed
qed

lemma split_system_head_append: "split_system_head conv = (head, body) \<Longrightarrow> conv = head @ body"
  by (auto simp: split_system_head_def split: list.splits conversation_item.splits)

lemma split_system_head_pairs:
  "split_system_head conv = (head, body) \<Longrightarrow> well_paired conv \<Longrightarrow>
   head_clean body \<and> well_paired body \<and> well_paired head"
proof -
  assume s: "split_system_head conv = (head, body)" and wp: "well_paired conv"
  from s consider "head = []" | t where "head = [System t]"
    by (auto simp: split_system_head_def split: list.splits conversation_item.splits)
  then show ?thesis
  proof cases
    case 1
    then show ?thesis using wp split_system_head_append [OF s] well_paired_head by auto
  next
    case 2
    then have "conv = System t # body" using split_system_head_append [OF s] by simp
    moreover from this wp have "head_clean body" using well_paired_run_Nil [of "System t" body] by simp
    ultimately show ?thesis using wp 2 well_paired_append [of body "[System t]"] by simp
  qed
qed

lemma fit_pairs_aux:
  assumes "well_paired conv" "fit_conversation_to_budget conv n = Some fitted"
  shows "well_paired fitted \<and>
    (fitted = conv \<or> (\<exists>items. fitted = fst (split_system_head conv) @ items
       \<and> shrunk_tail (snd (split_system_head conv)) items))"
proof -
  obtain head body where s: "split_system_head conv = (head, body)" by (metis prod.exhaust)
  have pairs: "head_clean body" "well_paired body" "well_paired head"
    using split_system_head_pairs [OF s assms(1)] by auto
  consider "fitted = conv"
    | k where "k < length body" "\<not> is_tool_result (body ! k)" "fitted = head @ drop k body"
    | unit budget where "recover_truncated_tail_unit body budget = Some unit" "fitted = head @ unit"
  proof -
    have "\<not> is_tool_result (body ! (start + length (takeWhile is_tool_result (drop start body))))"
      if "start + length (takeWhile is_tool_result (drop start body)) < length body" for start
      using nth_length_takeWhile [of is_tool_result "drop start body"] that by simp
    then show thesis
      using assms(2) that
      by (auto simp: fit_conversation_to_budget_def s bind_eq_Some_conv Let_def split: if_splits)
  qed
  then show ?thesis
  proof cases
    case 2
    have d: "head_clean (drop k body)" using 2 by (simp add: Cons_nth_drop_Suc [symmetric])
    have "well_paired (drop k body)"
      using pairs(2) well_paired_append [OF d, of "take k body"] by simp
    then show ?thesis
      using 2 pairs(3) well_paired_append [OF d, of head] shrunk_suffix [of "take k body" "drop k body"] s by auto
  next
    case 3
    have u: "well_paired unit" "shrunk_tail body unit" using recover_pairs [OF pairs(2) 3(1)] by auto
    then show ?thesis
      using 3 pairs(3) well_paired_append [OF well_paired_head [OF u(1)], of head] s by auto
  qed (use assms in auto)
qed

text \<open>
  C0: Shrinking a history to a token budget keeps it acceptable to a provider: it stays paired, and it
  is the system head followed by the last items, each kept or truncated in place.
\<close>

theorem fit_keeps_pairing:
  assumes "well_paired conv" "fit_conversation_to_budget conv n = Some fitted"
  shows "well_paired fitted \<and>
    (fitted = conv \<or> (\<exists>items. fitted = fst (split_system_head conv) @ items
       \<and> shrunk_tail (snd (split_system_head conv)) items))"
  by (rule fit_pairs_aux [OF assms])

definition long_result_history :: "conversation_item list" where
  "long_result_history =
     [System ''be brief'', user ''first question'', assistant ''first answer'',
      user ''go'', assistant_tool_calls [demo_call ''a''], tool_result ''a'' (replicate 200 (CHR ''x''))]"

lemma long_result_paired: "well_paired long_result_history"
  by (simp add: long_result_history_def user_def user_text_def assistant_def assistant_with_def
      assistant_tool_calls_def tool_result_def tool_result_with_images_def demo_call_def)

theorem fit_keeps_pairing_witness:
  "\<exists>fitted. fit_conversation_to_budget long_result_history 40 = Some fitted
     \<and> length fitted = 3 \<and> well_paired fitted"
proof -
  have "map_option length (fit_conversation_to_budget long_result_history 40) = Some 3" by code_simp
  then obtain fitted where f: "fit_conversation_to_budget long_result_history 40 = Some fitted" "length fitted = 3"
    by auto
  then show ?thesis using fit_keeps_pairing [OF long_result_paired f(1)] by auto
qed

lemma estimate_append:
  "estimate_conversation_tokens (a @ b) =
     do { n \<leftarrow> estimate_conversation_tokens a; m \<leftarrow> estimate_conversation_tokens b; Some (n + m) }"
  by (induction a) (auto simp: bind_assoc split: Option.bind_split)

lemma fit_start_budget:
  "fit_start (rev items) remaining (length items) = Some start \<Longrightarrow>
   start \<le> length items \<and> (\<exists>c. estimate_conversation_tokens (drop start items) = Some c \<and> c \<le> remaining)"
proof (induction items arbitrary: remaining start rule: rev_induct)
  case (snoc item items)
  then obtain cost where cost: "estimate_item_tokens item = Some cost"
    by (auto simp: bind_eq_Some_conv)
  show ?case
  proof (cases "remaining < cost")
    case True
    then show ?thesis using snoc.prems cost by simp
  next
    case False
    then have "fit_start (rev items) (remaining - cost) (length items) = Some start"
      using snoc.prems cost by simp
    from snoc.IH [OF this] obtain c where c: "start \<le> length items"
      "estimate_conversation_tokens (drop start items) = Some c" "c \<le> remaining - cost" by auto
    then show ?thesis using cost False by (auto simp: estimate_append)
  qed
qed simp

lemma fit_start_last:
  "body \<noteq> [] \<Longrightarrow> fit_start (rev body) budget (length body) = Some start \<Longrightarrow>
   estimate_item_tokens (last body) = Some c \<Longrightarrow> c \<le> budget \<Longrightarrow> start < length body"
proof -
  assume a: "body \<noteq> []" "fit_start (rev body) budget (length body) = Some start"
    "estimate_item_tokens (last body) = Some c" "c \<le> budget"
  then have r: "rev body = last body # rev (butlast body)" by (metis append_butlast_last_id rev.simps(2) rev_append rev_swap append_Cons append_Nil rev_singleton_conv)
  have "fit_start (rev (butlast body)) (budget - c) (length (butlast body)) = Some start"
    using a(2-4) unfolding r by simp
  then have "start \<le> length (butlast body)" using fit_start_budget by blast
  then show ?thesis using a(1) by (cases body rule: rev_cases) auto
qed

text \<open>
  C0: When the system head and the last item fit into the budget together, and the last item is not a tool
  result, the shrunk history is within the budget.
\<close>

theorem fit_within_budget:
  assumes "fit_conversation_to_budget conv n = Some fitted"
    "split_system_head conv = (head, body)" "body \<noteq> []" "\<not> is_tool_result (last body)"
    "estimate_conversation_tokens head = Some h" "estimate_item_tokens (last body) = Some c" "h + c \<le> n"
  shows "\<exists>m. estimate_conversation_tokens fitted = Some m \<and> m \<le> n"
proof (cases "estimate_conversation_tokens conv")
  case None
  then show ?thesis using assms(1) by (simp add: fit_conversation_to_budget_def)
next
  case (Some whole)
  show ?thesis
  proof (cases "whole \<le> n")
    case True
    then show ?thesis using Some assms(1) by (simp add: fit_conversation_to_budget_def)
  next
    case False
    then obtain start where start: "fit_start (rev body) (n - h) (length body) = Some start"
      using assms(1,2,5) Some by (auto simp: fit_conversation_to_budget_def bind_eq_Some_conv Let_def)
    define k where "k = start + length (takeWhile is_tool_result (drop start body))"
    have less: "start < length body"
      using fit_start_last [OF assms(3) start assms(6)] assms(7) by simp
    have "k < length body"
    proof (rule ccontr)
      assume "\<not> k < length body"
      then have "length (drop start body) \<le> length (takeWhile is_tool_result (drop start body))"
        by (simp add: k_def)
      then have "takeWhile is_tool_result (drop start body) = drop start body"
        by (metis takeWhile_eq_take take_all)
      then have "is_tool_result (last (drop start body))"
        using less by (metis drop_eq_Nil last_in_set not_less set_takeWhileD)
      then show False using assms(4) less by simp
    qed
    then have fitted: "fitted = head @ drop k body"
      using assms(1,2,5) Some False start by (simp add: fit_conversation_to_budget_def Let_def k_def)
    obtain d where d: "estimate_conversation_tokens (drop start body) = Some d" "d \<le> n - h"
      using fit_start_budget [OF start] by auto
    have sp: "drop start body = takeWhile is_tool_result (drop start body) @ drop k body"
      by (metis add.commute drop_drop dropWhile_eq_drop k_def takeWhile_dropWhile_id)
    have "estimate_conversation_tokens (takeWhile is_tool_result (drop start body) @ drop k body) = Some d"
      using d(1) by (subst (asm) sp)
    then obtain e where "estimate_conversation_tokens (drop k body) = Some e" "e \<le> d"
      by (auto simp: estimate_append bind_eq_Some_conv)
    then show ?thesis using d(2) assms(5,7) by (simp add: fitted estimate_append)
  qed
qed

theorem fit_within_budget_witness:
  "\<exists>fitted m. fit_conversation_to_budget (long_result_history @ [user ''thanks'']) 20 = Some fitted
     \<and> estimate_conversation_tokens fitted = Some m \<and> m \<le> 20"
proof -
  have "fit_conversation_to_budget (long_result_history @ [user ''thanks'']) 20 \<noteq> None" by code_simp
  then obtain fitted where f: "fit_conversation_to_budget (long_result_history @ [user ''thanks'']) 20 = Some fitted"
    by auto
  have s: "split_system_head (long_result_history @ [user ''thanks'']) =
      ([System ''be brief''], tl (long_result_history @ [user ''thanks'']))"
    by (simp add: split_system_head_def long_result_history_def)
  have "\<exists>m. estimate_conversation_tokens fitted = Some m \<and> m \<le> 20"
  proof (rule fit_within_budget [OF f s])
    show "estimate_conversation_tokens [System ''be brief''] = Some 2" by code_simp
    show "estimate_item_tokens (last (tl (long_result_history @ [user ''thanks'']))) = Some 1" by code_simp
  qed (simp_all add: long_result_history_def user_def user_text_def)
  with f show ?thesis by blast
qed

text \<open>A single long item is cut, but its marker alone can exceed a small budget.\<close>

lemma fit_exceeds_budget:
  "Option.bind (fit_conversation_to_budget [user (replicate 60 (CHR ''x''))] 10) estimate_conversation_tokens = Some 14"
  by code_simp

section \<open>The compacted history is paired\<close>

lemma rposition_Some:
  "rposition P xs = Some i \<Longrightarrow> i < length xs \<and> P (xs ! i) \<and> (\<forall>x \<in> set (drop (Suc i) xs). \<not> P x)"
proof (induction xs arbitrary: i)
  case (Cons x xs)
  show ?case
  proof (cases "rposition P xs")
    case None
    have "\<not> P y" if "y \<in> set xs" for y
      using None that by (induction xs) (auto split: option.splits if_splits)
    then show ?thesis using Cons.prems None by (auto split: if_splits)
  qed (use Cons in auto)
qed simp

lemma map_filter_append: "List.map_filter f (xs @ ys) = List.map_filter f xs @ List.map_filter f ys"
  by (simp add: List.map_filter_def)

lemma omit_result_run:
  "list_all is_tool_result run \<Longrightarrow>
   map item_result_id (List.map_filter omit_result run) = map item_result_id run
   \<and> list_all is_tool_result (List.map_filter omit_result run)"
proof (induction run)
  case (Cons r run)
  then obtain t where "r = ToolResult t" by (cases r) auto
  with Cons show ?case by (simp add: List.map_filter_simps)
qed (simp add: List.map_filter_simps)

lemma omit_result_pairs: "well_paired items \<Longrightarrow> well_paired (List.map_filter omit_result items)"
proof (induction items rule: well_paired.induct)
  case (2 item rest)
  have ih: "well_paired (List.map_filter omit_result (after_run rest))" using 2 by simp
  have app: "List.map_filter omit_result rest =
      List.map_filter omit_result (result_run rest) @ List.map_filter omit_result (after_run rest)"
    by (metis map_filter_append takeWhile_dropWhile_id)
  show ?case
  proof (cases "omit_result item")
    case None
    then have "item_calls item = []" by (cases item) auto
    then have "result_run rest = []" using 2(2) by simp
    then have "after_run rest = rest" by (metis append_Nil takeWhile_dropWhile_id)
    then show ?thesis using ih None by (simp add: List.map_filter_simps)
  next
    case (Some j)
    then have j: "j = item" using 2(2) by (cases item) auto
    note run = omit_result_run [OF list_all_result_run, of rest]
    have "result_run (List.map_filter omit_result rest) = List.map_filter omit_result (result_run rest)
        \<and> after_run (List.map_filter omit_result rest) = List.map_filter omit_result (after_run rest)"
      unfolding app using run_append [OF conjunct2 [OF run] well_paired_head [OF ih]] .
    then show ?thesis
      using 2(2) run ih Some
      by (simp only: List.map_filter_simps option.case j well_paired.simps) simp
  qed
qed (simp add: List.map_filter_simps)

lemma recent_messages_paired:
  assumes "well_paired conv"
  shows "well_paired (extract_messages_since_last_real_user conv)"
proof (cases "rposition is_real_user_turn conv")
  case None
  then show ?thesis
    using omit_result_pairs [OF assms] by (simp add: extract_messages_since_last_real_user_def)
next
  case (Some i)
  then have i: "i < length conv" "is_real_user_turn (conv ! i)" using rposition_Some by blast+
  then have calls: "item_calls (conv ! i) = []" "\<not> is_tool_result (conv ! i)" by (cases "conv ! i"; simp)+
  have split: "conv = take i conv @ conv ! i # drop (Suc i) conv" using i(1) by (rule id_take_nth_drop)
  have "well_paired (conv ! i # drop (Suc i) conv)"
    using assms split well_paired_append [of "conv ! i # drop (Suc i) conv" "take i conv"] calls(2) by simp
  moreover from this have "head_clean (drop (Suc i) conv)" using well_paired_run_Nil calls(1) by blast
  ultimately have "well_paired (drop (Suc i) conv)"
    using well_paired_append [of "drop (Suc i) conv" "[conv ! i]"] by simp
  then show ?thesis
    using omit_result_pairs Some by (simp add: extract_messages_since_last_real_user_def)
qed

lemma plain_items_paired:
  "list_all (\<lambda>i. item_calls i = [] \<and> \<not> is_tool_result i) items \<Longrightarrow> well_paired items \<and> head_clean items"
proof (induction items)
  case (Cons i items)
  then have "result_run items = [] \<and> after_run items = items" by (cases items) auto
  with Cons show ?case by simp
qed simp

lemma user_items_plain:
  "item_calls (user_meta t) = []" "\<not> is_tool_result (user_meta t)"
  "item_calls (user t) = []" "\<not> is_tool_result (user t)"
  "item_calls (project_instructions t) = []" "\<not> is_tool_result (project_instructions t)"
  "item_calls (system_reminder t) = []" "\<not> is_tool_result (system_reminder t)"
  by (simp_all add: user_meta_def user_def project_instructions_def system_reminder_def user_text_def)

lemma opt_item_plain:
  "(\<And>x. item_calls (f x) = [] \<and> \<not> is_tool_result (f x)) \<Longrightarrow>
   list_all (\<lambda>i. item_calls i = [] \<and> \<not> is_tool_result i) (opt_item f y)"
  by (cases y) auto

text \<open>C20. 
  C0: Compacting a paired history gives a paired history: the rebuilt conversation never holds a result
  without its call, whatever the summary, the reminders and the injected items around the last prompt.
\<close>

theorem compacted_history_paired:
  assumes "well_paired conv" "item_calls (system_message input) = []" "\<not> is_tool_result (system_message input)"
    "state_context input = build_context conv inputs"
  shows "well_paired (build_compacted_history input)
    \<and> validate_compacted_history (build_compacted_history input) = []"
proof -
  define before_recent where "before_recent =
    [system_message input, user_meta (user_message_prefix input)]
    @ opt_item project_instructions (agents_md_reminder input)
    @ opt_item (\<lambda>q. user (wrap_user_query q)) (last_user_query (state_context input))"
  obtain t where t: "build_compacted_history input = before_recent
      @ extract_messages_since_last_real_user conv @ (user_meta t # opt_item system_reminder (state_reminder input))"
    by (simp add: build_compacted_history_def before_recent_def summary_before_recent_carrier_def
        assms(4) build_context_def)
  have plain: "list_all (\<lambda>i. item_calls i = [] \<and> \<not> is_tool_result i) before_recent"
    "list_all (\<lambda>i. item_calls i = [] \<and> \<not> is_tool_result i) (user_meta t # opt_item system_reminder (state_reminder input))"
    using assms(2,3) by (simp_all add: before_recent_def opt_item_plain user_items_plain)
  have recent: "well_paired (extract_messages_since_last_real_user conv)"
    by (rule recent_messages_paired [OF assms(1)])
  have "well_paired (extract_messages_since_last_real_user conv
      @ (user_meta t # opt_item system_reminder (state_reminder input)))"
    using recent plain_items_paired [OF plain(2)] by (simp add: well_paired_append)
  then have "well_paired (build_compacted_history input)"
    using plain_items_paired [OF plain(1)] well_paired_head unfolding t by (simp add: well_paired_append)
  then show ?thesis using well_paired_valid by (simp add: validate_compacted_history_def)
qed

definition demo_compaction :: compacted_history_input where
  "demo_compaction =
     \<lparr> system_message = System ''s'', user_message_prefix = ''info'', agents_md_reminder = None,
       state_context = build_context long_result_history
         \<lparr> in_running_tasks = [], in_running_subagents = [], in_agent_edited_paths = [],
           in_connected_mcp_servers = [], in_todos = [] \<rparr>,
       compaction_summary = ''<summary>1. done</summary>'', state_reminder = Some ''r'',
       summary_before_recent = False, transcript_hint_text = None, summary_count = 1 \<rparr>"

theorem compacted_history_paired_witness:
  "validate_compacted_history (build_compacted_history demo_compaction) = []
   \<and> map item_role (build_compacted_history demo_compaction) =
       [RoleSystem, RoleUser, RoleUser, RoleAssistant, RoleTool, RoleUser, RoleUser]"
proof
  show "validate_compacted_history (build_compacted_history demo_compaction) = []"
    by (rule conjunct2 [OF compacted_history_paired [OF long_result_paired]])
      (simp_all add: demo_compaction_def)
  show "map item_role (build_compacted_history demo_compaction) =
      [RoleSystem, RoleUser, RoleUser, RoleAssistant, RoleTool, RoleUser, RoleUser]"
    by code_simp
qed


end
