(* ===== verification/ChatState.thy ===== *)
theory ChatState
  imports CompactionSummary
begin

text \<open>
  The state of the chat-state actor of \<open>xai-chat-state\<close>: \<open>types.rs\<close>, \<open>events.rs\<close>, \<open>persistence.rs\<close>,
  \<open>actor/state.rs\<close>, \<open>actor/mutations.rs\<close>, \<open>conversation_util.rs\<close>.  The persistence is the log of its calls,
  as in \<open>MockChatPersistence\<close>; the event channel the list of events sent.  An operation that reaches
  an estimate is \<open>None\<close> where \<open>text_summary\<close> panics.  Tracing is left out.
\<close>

section \<open>Types\<close>

record sampling_config =
  base_url :: string
  config_model :: string
  max_completion_tokens :: "nat option"
  temperature :: "rat option"
  top_p :: "rat option"
  api_backend :: string
  extra_headers :: "(string \<times> string) list"
  context_window :: nat
  config_reasoning_effort :: "reasoning_effort option"
  stream_tool_calls :: "bool option"

datatype auth_type = SessionToken | ApiKey

record credentials =
  api_key :: "string option"
  auth_type_of :: auth_type
  alpha_test_key :: "string option"
  client_version :: "string option"

definition default_credentials :: credentials where
  "default_credentials =
     \<lparr> api_key = None, auth_type_of = SessionToken, alpha_test_key = None, client_version = None \<rparr>"

record pruning_config =
  prune_enabled :: bool
  keep_last_n_turns :: nat
  soft_trim_threshold :: nat
  soft_trim_head :: nat
  soft_trim_tail :: nat
  hard_clear_age_turns :: nat

definition default_pruning :: pruning_config where
  "default_pruning =
     \<lparr> prune_enabled = True, keep_last_n_turns = 3, soft_trim_threshold = 4000, soft_trim_head = 1500,
       soft_trim_tail = 1500, hard_clear_age_turns = 10 \<rparr>"

datatype chat_event =
    PromptIndexChanged nat
  | TokensUpdated nat
  | ConversationReset nat
  | ImageBudget nat nat nat nat bool nat nat

datatype persistence_record =
    MessageRecord conversation_item
  | ReplaceHistoryRecord "conversation_item list"
  | FlushRecord

record turn_capture_state =
  turn_start_offset :: nat
  pre_replacement_messages :: "conversation_item list"
  compaction_occurred :: bool

record chat_state =
  conversation :: "conversation_item list"
  sampling :: sampling_config
  prompt_index :: nat
  prompt_texts :: "string list"
  total_tokens :: nat
  stream_start_ms :: "int option"
  turn_start_ms :: "int option"
  agent_edited_paths :: "string set"
  last_compaction_prompt_index :: "nat option"
  state_credentials :: credentials
  estimated_tokens_since_model :: nat
  estimate_at_last_response :: nat
  last_turn_usage :: "token_usage option"
  prompt_usage :: "usage_ledger option"
  session_usage :: usage_ledger
  turn_capture :: "turn_capture_state option"
  harness_trace_buffer :: "conversation_item list"
  harness_trace_turns :: "conversation_item list list"

record chat_actor =
  state :: chat_state
  pruning :: pruning_config
  persisted :: "persistence_record list"
  sent :: "chat_event list"

record chat_snapshot =
  snap_conversation :: "conversation_item list"
  snap_sampling :: sampling_config
  snap_prompt_index :: nat
  snap_total_tokens :: nat
  snap_estimate_at_last_response :: nat
  snap_agent_edited_paths :: "string set"
  snap_prompt_texts :: "string list"
  snap_stream_start_ms :: "int option"
  snap_turn_start_ms :: "int option"
  snap_last_compaction_prompt_index :: "nat option"
  snap_credentials :: credentials

definition chat_state_new :: "conversation_item list \<Rightarrow> sampling_config \<Rightarrow> chat_state option" where
  "chat_state_new initial config =
     (let conv = fst (repair_dangling_tool_calls UserCancelled (fst (dedup_duplicate_tool_results initial))) in
      do { initial_tokens \<leftarrow> estimate_conversation_tokens conv;
           Some \<lparr> conversation = conv, sampling = config, prompt_index = 0, prompt_texts = [],
                  total_tokens = initial_tokens, stream_start_ms = None, turn_start_ms = None,
                  agent_edited_paths = {}, last_compaction_prompt_index = None,
                  state_credentials = default_credentials, estimated_tokens_since_model = 0,
                  estimate_at_last_response = initial_tokens, last_turn_usage = None,
                  prompt_usage = None, session_usage = default_ledger, turn_capture = None,
                  harness_trace_buffer = [], harness_trace_turns = [] \<rparr> })"

definition seal_harness_trace_turn :: "chat_state \<Rightarrow> chat_state" where
  "seal_harness_trace_turn s =
     (if harness_trace_buffer s \<noteq> [] then
        s \<lparr> harness_trace_turns := harness_trace_turns s @ [harness_trace_buffer s],
            harness_trace_buffer := [] \<rparr>
      else s)"

section \<open>Effects\<close>

definition on_state :: "(chat_state \<Rightarrow> chat_state) \<Rightarrow> chat_actor \<Rightarrow> chat_actor" where
  "on_state f a = a \<lparr> state := f (state a) \<rparr>"

definition send_event :: "chat_event \<Rightarrow> chat_actor \<Rightarrow> chat_actor" where
  "send_event e a = a \<lparr> sent := sent a @ [e] \<rparr>"

definition persist_message :: "conversation_item \<Rightarrow> chat_actor \<Rightarrow> chat_actor" where
  "persist_message item a = a \<lparr> persisted := persisted a @ [MessageRecord item] \<rparr>"

definition replace_history :: "conversation_item list \<Rightarrow> chat_actor \<Rightarrow> chat_actor" where
  "replace_history items a = a \<lparr> persisted := persisted a @ [ReplaceHistoryRecord items] \<rparr>"

definition flush_persistence :: "chat_actor \<Rightarrow> chat_actor" where
  "flush_persistence a = a \<lparr> persisted := persisted a @ [FlushRecord] \<rparr>"

section \<open>Turn capture\<close>

text \<open>An offset past the end yields no items (and fails an assertion in debug builds).\<close>

definition turn_tail :: "conversation_item list \<Rightarrow> nat \<Rightarrow> conversation_item list" where
  "turn_tail conv offset = (case get_from conv offset of Some items \<Rightarrow> items | None \<Rightarrow> [])"

definition snapshot_turn_slice :: "chat_state \<Rightarrow> chat_state" where
  "snapshot_turn_slice s =
     s \<lparr> turn_capture := map_option
           (\<lambda>cap. cap \<lparr> pre_replacement_messages :=
              pre_replacement_messages cap @ turn_tail (conversation s) (turn_start_offset cap) \<rparr>)
           (turn_capture s) \<rparr>"

definition rebase_turn_capture_offset :: "chat_state \<Rightarrow> chat_state" where
  "rebase_turn_capture_offset s =
     s \<lparr> turn_capture := map_option (\<lambda>cap. cap \<lparr> turn_start_offset := length (conversation s) \<rparr>)
           (turn_capture s) \<rparr>"

section \<open>Integrity\<close>

definition ensure_conversation_integrity_with_reason :: "dangling_reason \<Rightarrow> chat_actor \<Rightarrow> chat_actor" where
  "ensure_conversation_integrity_with_reason reason a =
     (let a = on_state snapshot_turn_slice a;
          (conv, deduped) = dedup_duplicate_tool_results (conversation (state a));
          (conv, repaired) = repair_dangling_tool_calls reason conv;
          a = on_state (\<lambda>s. s \<lparr> conversation := conv \<rparr>) a;
          a = (if 0 < repaired \<or> 0 < deduped then replace_history conv a else a) in
      on_state rebase_turn_capture_offset a)"

definition ensure_conversation_integrity :: "chat_actor \<Rightarrow> chat_actor" where
  "ensure_conversation_integrity a = ensure_conversation_integrity_with_reason UserCancelled a"

definition repair_dangling_after_harness_halt :: "string \<Rightarrow> chat_actor \<Rightarrow> chat_actor" where
  "repair_dangling_after_harness_halt cls a = ensure_conversation_integrity_with_reason (HarnessHalted cls) a"

section \<open>Replacing the conversation\<close>

text \<open>The new total after a compaction carries the provider's overhead as a ratio, in \<open>f64\<close>.\<close>

definition reseed_tokens :: "bool \<Rightarrow> nat \<Rightarrow> nat \<Rightarrow> nat \<Rightarrow> nat" where
  "reseed_tokens is_compaction pre_replace_total estimate_at_last base_estimate =
     (let estimated =
            (if is_compaction \<and> 0 < pre_replace_total \<and> 0 < estimate_at_last then
               round_cast U64_MAX (f64_mul (f64_of_nat base_estimate)
                 (f64_div (f64_of_nat pre_replace_total) (f64_of_nat estimate_at_last)))
             else base_estimate) in
      if is_compaction \<and> 0 < pre_replace_total then min estimated pre_replace_total else estimated)"

definition replace_conversation :: "conversation_item list \<Rightarrow> bool \<Rightarrow> chat_actor \<Rightarrow> chat_actor option" where
  "replace_conversation items is_compaction a =
     (let a = on_state snapshot_turn_slice a;
          a = (if is_compaction then
                 on_state (\<lambda>s. s \<lparr> turn_capture :=
                   map_option (\<lambda>cap. cap \<lparr> compaction_occurred := True \<rparr>) (turn_capture s) \<rparr>) a
               else a);
          pre_replace_total = total_tokens (state a);
          a = replace_history items a in
      do { base_estimate \<leftarrow> estimate_conversation_tokens items;
           let estimated = reseed_tokens is_compaction pre_replace_total
                 (estimate_at_last_response (state a)) base_estimate;
           let a = on_state (\<lambda>s. s \<lparr> conversation := items, estimated_tokens_since_model := 0,
                 total_tokens := estimated, estimate_at_last_response := base_estimate \<rparr>) a;
           let a = on_state rebase_turn_capture_offset a;
           let a = send_event (ConversationReset (length items)) a;
           Some (send_event (TokensUpdated estimated) a) })"

definition trim_end_chars :: "char set \<Rightarrow> string \<Rightarrow> string" where
  "trim_end_chars cs s = rev (dropWhile (\<lambda>c. c \<in> cs) (rev s))"

definition canonical_system_prompt_eq :: "string \<Rightarrow> string \<Rightarrow> bool" where
  "canonical_system_prompt_eq a b \<longleftrightarrow>
     trim_end_chars {CHR 0x0A, CHR 0x0D} a = trim_end_chars {CHR 0x0A, CHR 0x0D} b"

definition replace_or_insert_system_head ::
  "conversation_item list \<Rightarrow> string \<Rightarrow> conversation_item list \<times> bool" where
  "replace_or_insert_system_head conv prompt =
     (case conv of
        System s # rest \<Rightarrow>
          if canonical_system_prompt_eq s prompt then (conv, False) else (System prompt # rest, True)
      | _ \<Rightarrow> (System prompt # conv, True))"

definition replace_system_head :: "string \<Rightarrow> chat_actor \<Rightarrow> (chat_actor \<times> bool) option" where
  "replace_system_head prompt a =
     (let same = (case conversation (state a) of
                    System s # _ \<Rightarrow> canonical_system_prompt_eq s prompt | _ \<Rightarrow> False) in
      if same then Some (a, False)
      else (case replace_or_insert_system_head (conversation (state a)) prompt of
              (conv, changed) \<Rightarrow>
                map_option (\<lambda>a'. (a', changed)) (replace_conversation conv False a)))"

text \<open>The repair takes the conversation out of the state before it replaces it.\<close>

definition repair_history_command :: "bool \<Rightarrow> chat_actor \<Rightarrow> (chat_actor \<times> history_repair_report) option" where
  "repair_history_command dry_run a =
     (if dry_run then Some (a, snd (repair_history (conversation (state a))))
      else
        let taken = conversation (state a);
            a = on_state (\<lambda>s. s \<lparr> conversation := [] \<rparr>) a;
            (items, report) = repair_history taken in
        if report_changed report
        then map_option (\<lambda>a'. (a', report)) (replace_conversation items False a)
        else Some (on_state (\<lambda>s. s \<lparr> conversation := items \<rparr>) a, report))"

definition restore_snapshot :: "chat_snapshot \<Rightarrow> chat_actor \<Rightarrow> chat_actor option" where
  "restore_snapshot snap a =
     (let a = on_state snapshot_turn_slice a;
          a = on_state (\<lambda>s. s \<lparr> conversation := snap_conversation snap \<rparr>) a;
          a = on_state rebase_turn_capture_offset a in
      do { estimate \<leftarrow> (if 0 < snap_estimate_at_last_response snap
                         then Some (snap_estimate_at_last_response snap)
                         else estimate_conversation_tokens (snap_conversation snap));
           Some (on_state (\<lambda>s. s \<lparr> sampling := snap_sampling snap,
             prompt_index := snap_prompt_index snap,
             total_tokens := snap_total_tokens snap,
             estimated_tokens_since_model := 0,
             estimate_at_last_response := estimate,
             agent_edited_paths := snap_agent_edited_paths snap,
             prompt_texts := snap_prompt_texts snap,
             stream_start_ms := snap_stream_start_ms snap,
             turn_start_ms := snap_turn_start_ms snap,
             last_compaction_prompt_index := snap_last_compaction_prompt_index snap,
             state_credentials := snap_credentials snap,
             prompt_usage := None \<rparr>) a) })"

section \<open>Pushing\<close>

fun is_assistant :: "conversation_item \<Rightarrow> bool" where
  "is_assistant (Assistant _) = True" | "is_assistant _ = False"

definition append_item :: "conversation_item \<Rightarrow> chat_actor \<Rightarrow> chat_actor" where
  "append_item item a =
     on_state (\<lambda>s. s \<lparr> conversation := conversation s @ [item] \<rparr>) (persist_message item a)"

definition add_estimate :: "conversation_item \<Rightarrow> chat_actor \<Rightarrow> chat_actor option" where
  "add_estimate item a =
     do { n \<leftarrow> estimate_item_tokens item;
          Some (on_state (\<lambda>s. s \<lparr> estimated_tokens_since_model := estimated_tokens_since_model s + n \<rparr>) a) }"

definition push_message :: "conversation_item \<Rightarrow> chat_actor \<Rightarrow> chat_actor option" where
  "push_message item a =
     do { a \<leftarrow> (if \<not> is_assistant item then add_estimate item a else Some a);
          Some (append_item item a) }"

subsection \<open>Pruning of retained results\<close>

definition HARD_CLEAR_PLACEHOLDER :: string where
  "HARD_CLEAR_PLACEHOLDER =
     ''[Tool result omitted '' @ [CHR 0xE2, CHR 0x80, CHR 0x94] @ '' too old]''"

text \<open>The walk from the end, over the reversed conversation.\<close>

fun hard_clear_walk ::
  "nat \<Rightarrow> nat \<Rightarrow> bool \<Rightarrow> conversation_item list \<Rightarrow> conversation_item list \<times> nat" where
  "hard_clear_walk threshold turn_from_end seen_first_user [] = ([], 0)"
| "hard_clear_walk threshold turn_from_end seen_first_user (User u # items) =
     (case hard_clear_walk threshold (if seen_first_user then turn_from_end + 1 else turn_from_end) True items of
        (items', n) \<Rightarrow> (User u # items', n))"
| "hard_clear_walk threshold turn_from_end seen_first_user (ToolResult tr # items) =
     (case hard_clear_walk threshold turn_from_end seen_first_user items of
        (items', n) \<Rightarrow>
          if turn_from_end < threshold then (ToolResult tr # items', n)
          else if result_content tr \<noteq> HARD_CLEAR_PLACEHOLDER
          then (ToolResult (tr \<lparr> result_content := HARD_CLEAR_PLACEHOLDER \<rparr>) # items', n + 1)
          else (ToolResult tr # items', n))"
| "hard_clear_walk threshold turn_from_end seen_first_user (item # items) =
     (case hard_clear_walk threshold turn_from_end seen_first_user items of
        (items', n) \<Rightarrow> (item # items', n))"

fun part_content_bytes :: "content_part \<Rightarrow> nat" where
  "part_content_bytes (TextPart t) = length t"
| "part_content_bytes (ImagePart u) = length u"

fun item_content_bytes :: "conversation_item \<Rightarrow> nat option" where
  "item_content_bytes (System s) = Some (length s)"
| "item_content_bytes (User u) = Some (sum_list (map part_content_bytes (user_content u)))"
| "item_content_bytes (Assistant a) = Some (length (assistant_content a))"
| "item_content_bytes (ToolResult tr) = Some (length (result_content tr))"
| "item_content_bytes (BackendToolCall b) = map_option length (text_summary b)"
| "item_content_bytes (Reasoning r) =
     Some (length (reasoning_item_text r) + (case encrypted_content r of None \<Rightarrow> 0 | Some e \<Rightarrow> length e))"

fun conversation_content_bytes :: "conversation_item list \<Rightarrow> nat option" where
  "conversation_content_bytes [] = Some 0"
| "conversation_content_bytes (item # items) =
     do { n \<leftarrow> item_content_bytes item; m \<leftarrow> conversation_content_bytes items; Some (n + m) }"

definition prune_retained_conversation :: "chat_actor \<Rightarrow> (chat_actor \<times> nat) option" where
  "prune_retained_conversation a =
     (let s = state a; cfg = pruning a in
      if \<not> prune_enabled cfg then Some (a, 0)
      else if prompt_index s < hard_clear_age_turns cfg then Some (a, 0)
      else
        let total_user_items = length (filter is_user (conversation s));
            synthetic_count = total_user_items - prompt_index s;
            threshold = hard_clear_age_turns cfg + synthetic_count in
        do { _ \<leftarrow> conversation_content_bytes (conversation s);
             case hard_clear_walk threshold 0 False (rev (conversation s)) of
               (items, cleared) \<Rightarrow>
                 let conv = rev items;
                     a = on_state (\<lambda>s. s \<lparr> conversation := conv \<rparr>) a in
                 if 0 < cleared then
                   do { _ \<leftarrow> conversation_content_bytes conv; Some (replace_history conv a, cleared) }
                 else Some (a, cleared) })"

definition push_user_message_with_repair_reason ::
  "conversation_item \<Rightarrow> dangling_reason \<Rightarrow> chat_actor \<Rightarrow> chat_actor option" where
  "push_user_message_with_repair_reason item reason a =
     do { a \<leftarrow> add_estimate item (ensure_conversation_integrity_with_reason reason a);
          map_option fst (prune_retained_conversation (append_item item a)) }"

definition push_user_message :: "conversation_item \<Rightarrow> chat_actor \<Rightarrow> chat_actor option" where
  "push_user_message item a = push_user_message_with_repair_reason item UserCancelled a"

section \<open>Tokens, usage and the prompt index\<close>

definition record_token_usage :: "nat \<Rightarrow> chat_actor \<Rightarrow> chat_actor option" where
  "record_token_usage n a =
     do { estimate \<leftarrow> estimate_conversation_tokens (conversation (state a));
          Some (send_event (TokensUpdated n)
            (on_state (\<lambda>s. s \<lparr> estimated_tokens_since_model := 0, estimate_at_last_response := estimate,
               total_tokens := n \<rparr>) a)) }"

definition record_last_turn_usage :: "token_usage \<Rightarrow> chat_actor \<Rightarrow> chat_actor" where
  "record_last_turn_usage usage a = on_state (\<lambda>s. s \<lparr> last_turn_usage := Some usage \<rparr>) a"

text \<open>\<open>get_or_insert_default()\<close> followed by an update of the ledger.\<close>

definition on_prompt_ledger :: "(usage_ledger \<Rightarrow> usage_ledger) \<Rightarrow> chat_state \<Rightarrow> chat_state" where
  "on_prompt_ledger f s =
     s \<lparr> prompt_usage := Some (f (case prompt_usage s of None \<Rightarrow> default_ledger | Some l \<Rightarrow> l)) \<rparr>"

definition on_session_ledger :: "(usage_ledger \<Rightarrow> usage_ledger) \<Rightarrow> chat_state \<Rightarrow> chat_state" where
  "on_session_ledger f s = s \<lparr> session_usage := f (session_usage s) \<rparr>"

definition record_model_call_usage ::
  "string option \<Rightarrow> token_usage \<Rightarrow> nat option \<Rightarrow> int option \<Rightarrow> chat_actor \<Rightarrow> chat_actor" where
  "record_model_call_usage mid usage api_duration_ms cost_usd_ticks a =
     (let key = (case mid of
                   Some i \<Rightarrow> if i \<noteq> [] then i else config_model (sampling (state a))
                 | None \<Rightarrow> config_model (sampling (state a)));
          call = record_main_loop_call key usage api_duration_ms cost_usd_ticks in
      on_state (on_session_ledger call \<circ> on_prompt_ledger call) a)"

definition record_subagent_usage ::
  "(string \<times> usage_totals) list \<Rightarrow> bool \<Rightarrow> bool \<Rightarrow> chat_actor \<Rightarrow> chat_actor" where
  "record_subagent_usage usages attribute_to_prompt is_incomplete a =
     (if usages = [] \<and> \<not> is_incomplete then a
      else on_state (on_session_ledger (record_subagent usages is_incomplete)
        \<circ> (if attribute_to_prompt then on_prompt_ledger (record_subagent usages is_incomplete) else id)) a)"

definition mark_usage_incomplete :: "bool \<Rightarrow> bool \<Rightarrow> chat_actor \<Rightarrow> chat_actor" where
  "mark_usage_incomplete prompt session a =
     on_state ((if session then on_session_ledger mark_incomplete else id)
       \<circ> (if prompt then on_prompt_ledger mark_incomplete else id)) a"

definition increment_prompt_index :: "chat_actor \<Rightarrow> chat_actor" where
  "increment_prompt_index a =
     (let a = on_state (\<lambda>s. s \<lparr> prompt_usage := None, prompt_index := prompt_index s + 1 \<rparr>) a in
      send_event (PromptIndexChanged (prompt_index (state a))) a)"

end
