(* ===== verification/ChatActor.thy ===== *)
theory ChatActor
  imports ChatState
begin

text \<open>
  The queries, the request builder and the command loop of the chat-state actor
  (\<open>actor/queries.rs\<close>, \<open>actor/request_builder.rs\<close>, \<open>actor/mod.rs\<close>, \<open>commands.rs\<close>) of \<open>xai-chat-state\<close>.
  The size of a value printed by \<open>serde_json\<close> is a parameter.  The trace context of a request is left out.
\<close>

section \<open>Queries\<close>

definition take_snapshot :: "chat_state \<Rightarrow> chat_snapshot" where
  "take_snapshot s =
     \<lparr> snap_conversation = conversation s, snap_sampling = sampling s, snap_prompt_index = prompt_index s,
       snap_total_tokens = total_tokens s,
       snap_estimate_at_last_response = estimate_at_last_response s,
       snap_agent_edited_paths = agent_edited_paths s, snap_prompt_texts = prompt_texts s,
       snap_stream_start_ms = stream_start_ms s, snap_turn_start_ms = turn_start_ms s,
       snap_last_compaction_prompt_index = last_compaction_prompt_index s,
       snap_credentials = state_credentials s \<rparr>"

fun nth_user_position :: "nat \<Rightarrow> nat \<Rightarrow> nat \<Rightarrow> conversation_item list \<Rightarrow> nat" where
  "nth_user_position target i user_count [] = i"
| "nth_user_position target i user_count (item # items) =
     (if is_user item then
        if user_count = target then i else nth_user_position target (i + 1) (user_count + 1) items
      else nth_user_position target (i + 1) user_count items)"

definition truncate_to_prompt_index :: "nat \<Rightarrow> chat_actor \<Rightarrow> chat_actor option" where
  "truncate_to_prompt_index target a =
     (if prompt_index (state a) \<le> target then Some a
      else
        let conv = take (nth_user_position target 0 0 (conversation (state a))) (conversation (state a)) in
        do { n \<leftarrow> estimate_conversation_tokens conv;
             let a = on_state (\<lambda>s. s \<lparr> conversation := conv, prompt_texts := take target (prompt_texts s),
                   prompt_index := target, total_tokens := n, estimated_tokens_since_model := 0,
                   estimate_at_last_response := n \<rparr>) a;
             Some (send_event (ConversationReset (length conv)) (replace_history conv a)) })"

record auto_compact_trigger =
  trigger_total_tokens :: nat
  trigger_context_window :: nat
  trigger_utilization_percent :: nat

definition check_auto_compact_needed :: "nat \<Rightarrow> chat_state \<Rightarrow> auto_compact_trigger option" where
  "check_auto_compact_needed threshold_percent s =
     (let cw = context_window (sampling s) in
      if exceeds_threshold (total_tokens s) cw threshold_percent
      then Some \<lparr> trigger_total_tokens = total_tokens s, trigger_context_window = cw,
                  trigger_utilization_percent = usage_percentage_truncated_u8 (total_tokens s) cw \<rparr>
      else None)"

fun find_map :: "('a \<Rightarrow> 'b option) \<Rightarrow> 'a list \<Rightarrow> 'b option" where
  "find_map f [] = None"
| "find_map f (x # xs) = (case f x of Some y \<Rightarrow> Some y | None \<Rightarrow> find_map f xs)"

fun model_metadata :: "conversation_item \<Rightarrow> (string option \<times> string option) option" where
  "model_metadata (Assistant a) = Some (model_id a, model_fingerprint a)"
| "model_metadata _ = None"

definition get_last_model_metadata :: "chat_state \<Rightarrow> string option \<times> string option" where
  "get_last_model_metadata s =
     (case find_map model_metadata (rev (conversation s)) of Some m \<Rightarrow> m | None \<Rightarrow> (None, None))"

fun assistant_text :: "conversation_item \<Rightarrow> string option" where
  "assistant_text (Assistant a) =
     (if trim (assistant_content a) \<noteq> [] then Some (assistant_content a) else None)"
| "assistant_text _ = None"

definition get_last_assistant_text :: "chat_state \<Rightarrow> string option" where
  "get_last_assistant_text s = find_map assistant_text (rev (conversation s))"

fun first_part_text :: "conversation_item \<Rightarrow> string option" where
  "first_part_text (User u) = (case user_content u of TextPart t # _ \<Rightarrow> Some t | _ \<Rightarrow> None)"
| "first_part_text _ = None"

definition get_first_user_text :: "chat_state \<Rightarrow> string option" where
  "get_first_user_text s = find_map first_part_text (conversation s)"

record conversation_counts =
  count_total :: nat
  count_user :: nat
  count_assistant :: nat
  count_tool_result :: nat

definition get_conversation_counts :: "chat_state \<Rightarrow> conversation_counts" where
  "get_conversation_counts s =
     \<lparr> count_total = length (conversation s),
       count_user = length (filter is_user (conversation s)),
       count_assistant = length (filter is_assistant (conversation s)),
       count_tool_result = length (filter is_tool_result (conversation s)) \<rparr>"

definition get_system_message :: "chat_state \<Rightarrow> conversation_item option" where
  "get_system_message s = find is_system (conversation s)"

section \<open>Building a request\<close>

definition SOFT_TRIM_SEPARATOR :: string where
  "SOFT_TRIM_SEPARATOR = NL @ NL @ ''['' @ ELLIPSIS @ ''trimmed'' @ ELLIPSIS @ '']'' @ NL @ NL"

definition should_prune :: "nat \<Rightarrow> nat \<Rightarrow> bool" where
  "should_prune n window \<longleftrightarrow> window div 2 < n"

definition safe_char_slice_tail :: "string \<Rightarrow> nat \<Rightarrow> string" where
  "safe_char_slice_tail s n = (let m = count_chars s in if m \<le> n then s else skip_chars (m - n) s)"

definition soft_trim :: "pruning_config \<Rightarrow> string \<Rightarrow> string" where
  "soft_trim cfg s =
     (if soft_trim_threshold cfg < count_chars s
      then take_chars (soft_trim_head cfg) s @ SOFT_TRIM_SEPARATOR @ safe_char_slice_tail s (soft_trim_tail cfg)
      else s)"

definition prune_result :: "pruning_config \<Rightarrow> nat \<Rightarrow> string \<Rightarrow> string" where
  "prune_result cfg turn_from_end s =
     (if turn_from_end < keep_last_n_turns cfg then s
      else if hard_clear_age_turns cfg \<le> turn_from_end then HARD_CLEAR_PLACEHOLDER
      else soft_trim cfg s)"

fun prune_walk :: "pruning_config \<Rightarrow> nat \<Rightarrow> bool \<Rightarrow> conversation_item list \<Rightarrow> conversation_item list" where
  "prune_walk cfg turn_from_end seen_first_user [] = []"
| "prune_walk cfg turn_from_end seen_first_user (User u # items) =
     User u # prune_walk cfg (if seen_first_user then turn_from_end + 1 else turn_from_end) True items"
| "prune_walk cfg turn_from_end seen_first_user (ToolResult tr # items) =
     ToolResult (tr \<lparr> result_content := prune_result cfg turn_from_end (result_content tr) \<rparr>)
     # prune_walk cfg turn_from_end seen_first_user items"
| "prune_walk cfg turn_from_end seen_first_user (item # items) =
     item # prune_walk cfg turn_from_end seen_first_user items"

definition prune_conversation :: "pruning_config \<Rightarrow> conversation_item list \<Rightarrow> conversation_item list" where
  "prune_conversation cfg conv =
     (if \<not> prune_enabled cfg then conv else rev (prune_walk cfg 0 False (rev conv)))"

subsection \<open>Images\<close>

definition IMAGE_COMPACT_PLACEHOLDER :: string where
  "IMAGE_COMPACT_PLACEHOLDER =
     ''[An earlier image was removed to keep the request within its size limit and is no longer visible. Do not describe or reason about its contents from memory; ask the user to re-share it if you need to see it again.]''"

definition MAX_REQUEST_BYTES :: nat where
  "MAX_REQUEST_BYTES = 50 * 1024 * 1024"

definition IMAGE_COMPACT_TRIGGER_BYTES :: nat where
  "IMAGE_COMPACT_TRIGGER_BYTES = MAX_REQUEST_BYTES - 3 * 1024 * 1024"

definition IMAGE_COMPACT_RECLAIM_TARGET_BYTES :: nat where
  "IMAGE_COMPACT_RECLAIM_TARGET_BYTES = MAX_REQUEST_BYTES div 2"

definition IMAGE_PART_FRAME_BYTES :: nat where
  "IMAGE_PART_FRAME_BYTES = length ''{\"type\":\"image\",\"url\":\"\"}''"

definition image_part_bytes :: "string \<Rightarrow> nat" where
  "image_part_bytes url = IMAGE_PART_FRAME_BYTES + length url"

fun item_parts :: "conversation_item \<Rightarrow> content_part list" where
  "item_parts (User u) = user_content u"
| "item_parts _ = []"

definition inline_image_count :: "conversation_item list \<Rightarrow> nat" where
  "inline_image_count conv = length (filter is_image (concat (map item_parts conv)))"

fun blank_part :: "content_part \<Rightarrow> content_part" where
  "blank_part (ImagePart _) = ImagePart []"
| "blank_part (TextPart t) = TextPart t"

fun image_url_bytes :: "content_part \<Rightarrow> nat" where
  "image_url_bytes (ImagePart url) = length url"
| "image_url_bytes (TextPart _) = 0"

fun map_parts :: "(content_part \<Rightarrow> content_part) \<Rightarrow> conversation_item \<Rightarrow> conversation_item" where
  "map_parts f (User u) = User (u \<lparr> user_content := map f (user_content u) \<rparr>)"
| "map_parts f item = item"

definition conversation_body_bytes :: "(conversation_item list \<Rightarrow> nat) \<Rightarrow> conversation_item list \<Rightarrow> nat" where
  "conversation_body_bytes json_bytes conv =
     json_bytes (map (map_parts blank_part) conv)
     + sum_list (map image_url_bytes (concat (map item_parts conv)))"

text \<open>The images with the positions of item and part, oldest first.\<close>

fun images_in :: "nat \<Rightarrow> nat \<Rightarrow> content_part list \<Rightarrow> (nat \<times> nat \<times> nat) list" where
  "images_in i j [] = []"
| "images_in i j (ImagePart url # parts) = (i, j, image_part_bytes url) # images_in i (j + 1) parts"
| "images_in i j (TextPart _ # parts) = images_in i (j + 1) parts"

fun images_from :: "nat \<Rightarrow> conversation_item list \<Rightarrow> (nat \<times> nat \<times> nat) list" where
  "images_from i [] = []"
| "images_from i (item # items) = images_in i 0 (item_parts item) @ images_from (i + 1) items"

fun set_part :: "nat \<Rightarrow> content_part \<Rightarrow> conversation_item \<Rightarrow> conversation_item" where
  "set_part j p (User u) = User (u \<lparr> user_content := (user_content u)[j := p] \<rparr>)"
| "set_part j p item = item"

fun evict_images ::
  "content_part \<Rightarrow> nat \<Rightarrow> nat \<Rightarrow> (nat \<times> nat \<times> nat) list \<Rightarrow> conversation_item list \<Rightarrow> nat \<Rightarrow> nat
   \<Rightarrow> conversation_item list \<times> nat \<times> nat" where
  "evict_images placeholder placeholder_bytes target [] conv running evicted = (conv, evicted, running)"
| "evict_images placeholder placeholder_bytes target ((i, j, image_bytes) # images) conv running evicted =
     (if running \<le> target then (conv, evicted, running)
      else evict_images placeholder placeholder_bytes target images
        (conv[i := set_part j placeholder (conv ! i)])
        (running - (image_bytes - placeholder_bytes)) (evicted + 1))"

definition compact_images_to_byte_budget ::
  "(content_part \<Rightarrow> nat) \<Rightarrow> conversation_item list \<Rightarrow> nat \<Rightarrow> nat \<Rightarrow> conversation_item list \<times> nat \<times> nat" where
  "compact_images_to_byte_budget part_json_bytes conv current_bytes target_bytes =
     (if current_bytes \<le> target_bytes then (conv, 0, current_bytes)
      else
        let placeholder = TextPart IMAGE_COMPACT_PLACEHOLDER in
        evict_images placeholder (part_json_bytes placeholder) target_bytes (images_from 0 conv) conv
          current_bytes 0)"

subsection \<open>The memory reminder\<close>

definition MEMORY_CONTEXT_OPEN_TAG :: string where
  "MEMORY_CONTEXT_OPEN_TAG = ''<memory-context>''"

definition trim_end_newlines :: "string \<Rightarrow> string" where
  "trim_end_newlines s = trim_end_chars {CHR 0x0A} s"

definition upsert_memory_reminder_text :: "string \<Rightarrow> string \<Rightarrow> string \<times> bool" where
  "upsert_memory_reminder_text system_prompt reminder =
     (let updated =
        (case split_once MEMORY_CONTEXT_OPEN_TAG system_prompt of
           Some (ahead, _) \<Rightarrow>
             (let prefix = trim_end_newlines (trim_end_newlines ahead) in
              if prefix = [] then reminder else prefix @ NL @ NL @ reminder)
         | None \<Rightarrow>
             if trim_end system_prompt = reminder then system_prompt
             else if system_prompt = [] then reminder
             else trim_end_newlines system_prompt @ NL @ NL @ reminder) in
      if system_prompt = updated then (system_prompt, False) else (updated, True))"

definition inject_memory_reminder :: "conversation_item list \<Rightarrow> string \<Rightarrow> conversation_item list \<times> bool" where
  "inject_memory_reminder items reminder =
     (let reminder = trim reminder in
      if reminder = [] then (items, False)
      else (case items of
              System s # rest \<Rightarrow>
                (case upsert_memory_reminder_text s reminder of (s', changed) \<Rightarrow> (System s' # rest, changed))
            | _ \<Rightarrow> (System reminder # items, True)))"

subsection \<open>The request\<close>

record tool_spec =
  tool_name :: string
  tool_description :: "string option"
  tool_parameters :: string

record conversation_request =
  req_items :: "conversation_item list"
  req_tools :: "tool_spec list"
  req_model :: string
  req_temperature :: "rat option"
  req_max_output_tokens :: "nat option"
  req_top_p :: "rat option"
  req_conv_id :: string
  req_id :: string
  req_reasoning_effort :: "reasoning_effort option"

record json_sizes =
  json_bytes :: "conversation_item list \<Rightarrow> nat"
  part_json_bytes :: "content_part \<Rightarrow> nat"

definition persist_reminder :: "string option \<Rightarrow> bool \<Rightarrow> chat_actor \<Rightarrow> chat_actor \<times> string option" where
  "persist_reminder memory_reminder persist_memory_reminder a =
     (case memory_reminder of
        Some reminder \<Rightarrow>
          if persist_memory_reminder then
            (let a = on_state snapshot_turn_slice a;
                 (conv, injected) = inject_memory_reminder (conversation (state a)) reminder;
                 a = on_state (\<lambda>s. s \<lparr> conversation := conv \<rparr>) a;
                 a = (if injected then replace_history conv a else a) in
             (on_state rebase_turn_capture_offset a, if injected then None else memory_reminder))
          else (a, memory_reminder)
      | None \<Rightarrow> (a, None))"

definition build_conversation_request ::
  "json_sizes \<Rightarrow> tool_spec list \<Rightarrow> string option \<Rightarrow> bool \<Rightarrow> string \<Rightarrow> string \<Rightarrow> chat_actor
   \<Rightarrow> chat_actor \<times> conversation_request" where
  "build_conversation_request js tools memory_reminder persist_memory_reminder conv_id rid a =
     (let needs_prune = should_prune (total_tokens (state a)) (context_window (sampling (state a)));
          (a, memory_reminder) = persist_reminder memory_reminder persist_memory_reminder a;
          conv = conversation (state a);
          body_bytes = conversation_body_bytes (json_bytes js) conv;
          inline_images = inline_image_count conv;
          needs_image_compaction = (IMAGE_COMPACT_TRIGGER_BYTES \<le> body_bytes);
          (items, evicted, body_after) =
            (if needs_image_compaction
             then compact_images_to_byte_budget (part_json_bytes js) conv body_bytes
               IMAGE_COMPACT_RECLAIM_TARGET_BYTES
             else (conv, 0, body_bytes));
          items = (if needs_prune then prune_conversation (pruning a) items else items);
          items = (case memory_reminder of
                     Some reminder \<Rightarrow> fst (inject_memory_reminder items reminder) | None \<Rightarrow> items);
          a = (if 0 < inline_images
               then send_event (ImageBudget body_bytes IMAGE_COMPACT_TRIGGER_BYTES
                 IMAGE_COMPACT_RECLAIM_TARGET_BYTES inline_images needs_image_compaction evicted body_after) a
               else a);
          cfg = sampling (state a) in
      (a, \<lparr> req_items = items, req_tools = tools, req_model = config_model cfg,
            req_temperature = temperature cfg, req_max_output_tokens = max_completion_tokens cfg,
            req_top_p = top_p cfg, req_conv_id = conv_id, req_id = rid,
            req_reasoning_effort = config_reasoning_effort cfg \<rparr>))"

end
