(* ===== verification/ChatCommands.thy ===== *)
theory ChatCommands
  imports ChatActor
begin

text \<open>
  The commands of the chat-state actor (\<open>commands.rs\<close>) and \<open>ChatStateActor::handle_command\<close>
  (\<open>actor/mod.rs\<close>).  A command that replies carries no channel; its reply is the second result.
  The shared turn flag of \<open>RepairHistory\<close> is the value read when the command is processed.
\<close>

datatype chat_command =
    PushUserMessage conversation_item
  | PushUserMessageAndAck conversation_item
  | PushUserMessageWithRepairReason conversation_item dangling_reason
  | PushAssistantResponse conversation_item
  | PushToolResult conversation_item
  | RecordTokenUsage nat
  | RecordLastTurnUsage token_usage
  | RecordModelCallUsage "string option" token_usage "nat option" "int option"
  | RecordSubagentUsage "(string \<times> usage_totals) list" bool bool
  | MarkUsageIncomplete bool bool
  | IncrementPromptIndex
  | UpdateSamplingConfig sampling_config
  | RecordAgentEditedPath string
  | RecordStreamStart int
  | RecordTurnStart int
  | ReplaceConversation "conversation_item list" bool
  | RepairHistory bool "bool option"
  | ReplaceSystemHead string
  | CachePromptText string
  | RecordCompactionAt nat
  | Flush
  | UpdateCredentials credentials
  | RestoreSnapshot chat_snapshot
  | BeginTurnCapture
  | AppendHarnessTraceItems "conversation_item list"
  | FlushHarnessTraceTurn
  | RepairDanglingAfterHarnessHalt string
  | BuildConversationRequest "tool_spec list" "string option" bool string string
  | GetConversation
  | GetPromptIndex
  | GetLastCompactionPromptIndex
  | GetTotalTokens
  | GetLastTurnUsage
  | GetPromptUsage
  | GetSessionUsage
  | GetEstimatedTotalTokens
  | GetSamplingConfig
  | GetAgentEditedPaths
  | GetNotificationMeta
  | TakeSnapshot
  | TruncateToPromptIndex nat
  | CheckAutoCompactNeeded nat
  | GetCredentials
  | GetLastModelMetadata
  | TakeTurnMessages
  | TakeHarnessTraceTurns
  | GetConversationLen
  | HasDanglingToolCalls
  | GetLastAssistantText
  | GetFirstUserText
  | GetConversationItemAt nat
  | GetLastUserQueryText
  | GetConversationCounts
  | GetSystemMessage
  | GetEstimatedMessagesTokens

datatype chat_reply =
    NoReply
  | UnitReply
  | RepairReply "history_repair_report option"
  | BoolReply bool
  | NatReply nat
  | OptNatReply "nat option"
  | TextReply "string option"
  | ItemsReply "conversation_item list"
  | ItemReply "conversation_item option"
  | TurnsReply "conversation_item list list"
  | CaptureReply "(conversation_item list \<times> bool) option"
  | UsageReply "token_usage option"
  | LedgerReply "usage_ledger option"
  | ConfigReply sampling_config
  | PathsReply "string set"
  | MetaReply "int option" "int option"
  | SnapshotReply chat_snapshot
  | TriggerReply "auto_compact_trigger option"
  | CredentialsReply credentials
  | ModelReply "string option \<times> string option"
  | CountsReply conversation_counts
  | RequestReply conversation_request

text \<open>\<open>u64\<close> addition of a release build.\<close>

definition wrap_add_u64 :: "nat \<Rightarrow> nat \<Rightarrow> nat" where
  "wrap_add_u64 a b = (a + b) mod 2 ^ 64"

definition take_turn_messages :: "chat_state \<Rightarrow> chat_state \<times> (conversation_item list \<times> bool) option" where
  "take_turn_messages s =
     (s \<lparr> turn_capture := None \<rparr>,
      map_option (\<lambda>cap. (pre_replacement_messages cap @ turn_tail (conversation s) (turn_start_offset cap),
                         compaction_occurred cap)) (turn_capture s))"

definition begin_turn_capture :: "chat_state \<Rightarrow> chat_state" where
  "begin_turn_capture s =
     s \<lparr> turn_capture := Some \<lparr> turn_start_offset = length (conversation s),
                                pre_replacement_messages = [], compaction_occurred = False \<rparr> \<rparr>"

primrec handle_command ::
  "json_sizes \<Rightarrow> chat_command \<Rightarrow> chat_actor \<Rightarrow> (chat_actor \<times> chat_reply) option" where
  "handle_command js (PushUserMessage item) a = map_option (\<lambda>a. (a, NoReply)) (push_user_message item a)"
| "handle_command js (PushUserMessageAndAck item) a = map_option (\<lambda>a. (a, UnitReply)) (push_user_message item a)"
| "handle_command js (PushUserMessageWithRepairReason item reason) a =
     map_option (\<lambda>a. (a, NoReply)) (push_user_message_with_repair_reason item reason a)"
| "handle_command js (PushAssistantResponse item) a = map_option (\<lambda>a. (a, NoReply)) (push_message item a)"
| "handle_command js (PushToolResult item) a = map_option (\<lambda>a. (a, NoReply)) (push_message item a)"
| "handle_command js (RecordTokenUsage n) a = map_option (\<lambda>a. (a, NoReply)) (record_token_usage n a)"
| "handle_command js (RecordLastTurnUsage u) a = Some (record_last_turn_usage u a, NoReply)"
| "handle_command js (RecordModelCallUsage m u d c) a = Some (record_model_call_usage m u d c a, NoReply)"
| "handle_command js (RecordSubagentUsage us p i) a = Some (record_subagent_usage us p i a, UnitReply)"
| "handle_command js (MarkUsageIncomplete p s) a = Some (mark_usage_incomplete p s a, UnitReply)"
| "handle_command js IncrementPromptIndex a = Some (increment_prompt_index a, NoReply)"
| "handle_command js (UpdateSamplingConfig config) a = Some (on_state (\<lambda>s. s \<lparr> sampling := config \<rparr>) a, NoReply)"
| "handle_command js (RecordAgentEditedPath p) a =
     Some (on_state (\<lambda>s. s \<lparr> agent_edited_paths := insert p (agent_edited_paths s) \<rparr>) a, NoReply)"
| "handle_command js (RecordStreamStart t) a = Some (on_state (\<lambda>s. s \<lparr> stream_start_ms := Some t \<rparr>) a, NoReply)"
| "handle_command js (RecordTurnStart t) a = Some (on_state (\<lambda>s. s \<lparr> turn_start_ms := Some t \<rparr>) a, NoReply)"
| "handle_command js (ReplaceConversation items c) a =
     map_option (\<lambda>a. (a, NoReply)) (replace_conversation items c a)"
| "handle_command js (RepairHistory dry_run turn_active) a =
     (if turn_active = Some True then Some (a, RepairReply None)
      else map_option (\<lambda>(a, report). (a, RepairReply (Some report))) (repair_history_command dry_run a))"
| "handle_command js (ReplaceSystemHead prompt) a =
     map_option (\<lambda>(a, changed). (a, BoolReply changed)) (replace_system_head prompt a)"
| "handle_command js (CachePromptText t) a =
     Some (on_state (\<lambda>s. s \<lparr> prompt_texts := prompt_texts s @ [t] \<rparr>) a, NoReply)"
| "handle_command js (RecordCompactionAt n) a =
     Some (on_state (\<lambda>s. s \<lparr> last_compaction_prompt_index := Some n \<rparr>) a, NoReply)"
| "handle_command js Flush a = Some (flush_persistence a, NoReply)"
| "handle_command js (UpdateCredentials c) a = Some (on_state (\<lambda>s. s \<lparr> state_credentials := c \<rparr>) a, NoReply)"
| "handle_command js (RestoreSnapshot snap) a = map_option (\<lambda>a. (a, NoReply)) (restore_snapshot snap a)"
| "handle_command js BeginTurnCapture a = Some (on_state begin_turn_capture a, NoReply)"
| "handle_command js (AppendHarnessTraceItems items) a =
     Some (on_state (\<lambda>s. s \<lparr> harness_trace_buffer := harness_trace_buffer s @ items \<rparr>) a, NoReply)"
| "handle_command js FlushHarnessTraceTurn a = Some (on_state seal_harness_trace_turn a, NoReply)"
| "handle_command js (RepairDanglingAfterHarnessHalt cls) a =
     Some (repair_dangling_after_harness_halt cls a, NoReply)"
| "handle_command js (TruncateToPromptIndex target) a =
     map_option (\<lambda>a. (on_state (\<lambda>s. s \<lparr> turn_capture := None, prompt_usage := None \<rparr>) a, UnitReply))
       (truncate_to_prompt_index target a)"
| "handle_command js TakeTurnMessages a =
     (case take_turn_messages (state a) of (s, result) \<Rightarrow> Some (a \<lparr> state := s \<rparr>, CaptureReply result))"
| "handle_command js TakeHarnessTraceTurns a =
     (let s = seal_harness_trace_turn (state a) in
      Some (a \<lparr> state := s \<lparr> harness_trace_turns := [] \<rparr> \<rparr>, TurnsReply (harness_trace_turns s)))"
| "handle_command js GetConversation a = Some (a, ItemsReply (conversation (state a)))"
| "handle_command js GetPromptIndex a = Some (a, NatReply (prompt_index (state a)))"
| "handle_command js GetLastCompactionPromptIndex a =
     Some (a, OptNatReply (last_compaction_prompt_index (state a)))"
| "handle_command js GetTotalTokens a = Some (a, NatReply (total_tokens (state a)))"
| "handle_command js GetLastTurnUsage a = Some (a, UsageReply (last_turn_usage (state a)))"
| "handle_command js GetPromptUsage a = Some (a, LedgerReply (prompt_usage (state a)))"
| "handle_command js GetSessionUsage a = Some (a, LedgerReply (Some (session_usage (state a))))"
| "handle_command js GetEstimatedTotalTokens a =
     Some (a, NatReply (wrap_add_u64 (total_tokens (state a)) (estimated_tokens_since_model (state a))))"
| "handle_command js GetSamplingConfig a = Some (a, ConfigReply (sampling (state a)))"
| "handle_command js GetAgentEditedPaths a = Some (a, PathsReply (agent_edited_paths (state a)))"
| "handle_command js GetNotificationMeta a =
     Some (a, MetaReply (stream_start_ms (state a)) (turn_start_ms (state a)))"
| "handle_command js TakeSnapshot a = Some (a, SnapshotReply (take_snapshot (state a)))"
| "handle_command js (CheckAutoCompactNeeded p) a =
     Some (a, TriggerReply (check_auto_compact_needed p (state a)))"
| "handle_command js GetCredentials a = Some (a, CredentialsReply (state_credentials (state a)))"
| "handle_command js GetLastModelMetadata a = Some (a, ModelReply (get_last_model_metadata (state a)))"
| "handle_command js GetConversationLen a = Some (a, NatReply (length (conversation (state a))))"
| "handle_command js HasDanglingToolCalls a =
     Some (a, BoolReply (has_dangling_tool_calls (conversation (state a))))"
| "handle_command js GetLastAssistantText a = Some (a, TextReply (get_last_assistant_text (state a)))"
| "handle_command js GetFirstUserText a = Some (a, TextReply (get_first_user_text (state a)))"
| "handle_command js (GetConversationItemAt i) a = Some (a, ItemReply (get_at (conversation (state a)) i))"
| "handle_command js GetLastUserQueryText a =
     Some (a, TextReply (extract_last_user_query (conversation (state a))))"
| "handle_command js GetConversationCounts a = Some (a, CountsReply (get_conversation_counts (state a)))"
| "handle_command js GetSystemMessage a = Some (a, ItemReply (get_system_message (state a)))"
| "handle_command js GetEstimatedMessagesTokens a =
     map_option (\<lambda>n. (a, NatReply n)) (estimate_messages_tokens (conversation (state a)))"
| "handle_command js (BuildConversationRequest tools reminder persist conv_id rid) a =
     (case build_conversation_request js tools reminder persist conv_id rid (ensure_conversation_integrity a) of
        (a, request) \<Rightarrow> Some (a, RequestReply request))"

text \<open>The actor's loop over the commands received, the replies in order.\<close>

fun run_commands :: "json_sizes \<Rightarrow> chat_command list \<Rightarrow> chat_actor \<Rightarrow> (chat_actor \<times> chat_reply list) option" where
  "run_commands js [] a = Some (a, [])"
| "run_commands js (cmd # cmds) a =
     do { (a, r) \<leftarrow> handle_command js cmd a;
          (a, rs) \<leftarrow> run_commands js cmds a;
          Some (a, r # rs) }"

definition spawn_with_pruning ::
  "conversation_item list \<Rightarrow> sampling_config \<Rightarrow> pruning_config \<Rightarrow> chat_actor option" where
  "spawn_with_pruning initial config pruning_cfg =
     map_option (\<lambda>s. \<lparr> state = s, pruning = pruning_cfg, persisted = [], sent = [] \<rparr>)
       (chat_state_new initial config)"

end
