(* ===== verification/ChatActorSpec.thy ===== *)
theory ChatActorSpec
  imports ChatCommands ToolPairingSpec "HOL-Library.Code_Target_Nat"
begin

text \<open>
  What the chat-state actor promises over every run of commands: a turn capture returns exactly what
  the turn pushed, the persisted log replays to the conversation, the ledgers reconcile with their
  entries, and a request answers every call.  The commands that can change the conversation or a capture are listed
  once (\<open>conversation_command\<close>); all others keep the \<open>conv_core\<close> of the actor.
\<close>

section \<open>Commands that leave the conversation alone\<close>

definition conv_core :: "chat_actor \<Rightarrow>
    conversation_item list \<times> turn_capture_state option \<times> persistence_record list" where
  "conv_core a = (conversation (state a), turn_capture (state a), filter (\<lambda>r. r \<noteq> FlushRecord) (persisted a))"

definition conversation_command :: "chat_command \<Rightarrow> bool" where
  "conversation_command cmd =
     (case cmd of
        PushUserMessage _ \<Rightarrow> True | PushUserMessageAndAck _ \<Rightarrow> True | PushUserMessageWithRepairReason _ _ \<Rightarrow> True
      | PushAssistantResponse _ \<Rightarrow> True | PushToolResult _ \<Rightarrow> True | ReplaceConversation _ _ \<Rightarrow> True
      | RepairHistory _ _ \<Rightarrow> True | ReplaceSystemHead _ \<Rightarrow> True | RestoreSnapshot _ \<Rightarrow> True
      | BeginTurnCapture \<Rightarrow> True | RepairDanglingAfterHarnessHalt _ \<Rightarrow> True | TruncateToPromptIndex _ \<Rightarrow> True
      | TakeTurnMessages \<Rightarrow> True | BuildConversationRequest _ _ _ _ _ \<Rightarrow> True
      | _ \<Rightarrow> False)"

lemma record_token_usage_core: "record_token_usage n a = Some a' \<Longrightarrow> conv_core a' = conv_core a"
  by (auto simp: record_token_usage_def conv_core_def on_state_def send_event_def split: bind_splits)

lemma ledger_core [simp]:
  "conv_core (record_model_call_usage m u d c a) = conv_core a"
  "conv_core (record_subagent_usage us p i a) = conv_core a"
  "conv_core (mark_usage_incomplete p s a) = conv_core a"
  "conv_core (increment_prompt_index a) = conv_core a"
  "conv_core (record_last_turn_usage u a) = conv_core a"
  "conv_core (flush_persistence a) = conv_core a"
  by (simp_all add: conv_core_def on_state_def send_event_def on_prompt_ledger_def on_session_ledger_def Let_def
      record_model_call_usage_def record_subagent_usage_def mark_usage_incomplete_def
      increment_prompt_index_def record_last_turn_usage_def flush_persistence_def)

lemma quiet_core:
  assumes "handle_command js cmd a = Some (a', r)" "\<not> conversation_command cmd"
  shows "conv_core a' = conv_core a"
  using assms
  by (cases cmd)
    (auto simp: conversation_command_def record_token_usage_core,
     auto simp: conv_core_def on_state_def seal_harness_trace_turn_def Let_def)

text \<open>The ways a command acts on the conversation.\<close>

lemma command_cases [consumes 1, case_names quiet push_user push replace head repair restore begin_capture
    halt truncate take_capture build]:
  assumes "handle_command js cmd a = Some (a', r)"
  obtains
    "\<not> conversation_command cmd" "conv_core a' = conv_core a"
  | item reason where
      "cmd \<in> {PushUserMessage item, PushUserMessageAndAck item, PushUserMessageWithRepairReason item reason}"
      "push_user_message_with_repair_reason item reason a = Some a'"
  | item where "cmd \<in> {PushAssistantResponse item, PushToolResult item}" "push_message item a = Some a'"
  | items c where "cmd = ReplaceConversation items c" "replace_conversation items c a = Some a'"
  | prompt changed where "cmd = ReplaceSystemHead prompt" "replace_system_head prompt a = Some (a', changed)"
  | dry_run turn_active where "cmd = RepairHistory dry_run turn_active"
      "turn_active = Some True \<and> a' = a
       \<or> turn_active \<noteq> Some True \<and> (\<exists>report. repair_history_command dry_run a = Some (a', report))"
  | snap where "cmd = RestoreSnapshot snap" "restore_snapshot snap a = Some a'"
  | "cmd = BeginTurnCapture" "a' = on_state begin_turn_capture a"
  | cls where "cmd = RepairDanglingAfterHarnessHalt cls"
      "a' = ensure_conversation_integrity_with_reason (HarnessHalted cls) a"
  | target b where "cmd = TruncateToPromptIndex target" "truncate_to_prompt_index target a = Some b"
      "a' = on_state (\<lambda>s. s \<lparr> turn_capture := None, prompt_usage := None \<rparr>) b"
  | "cmd = TakeTurnMessages" "a' = a \<lparr> state := fst (take_turn_messages (state a)) \<rparr>"
      "r = CaptureReply (snd (take_turn_messages (state a)))"
  | tools reminder persist conv_id rid request where
      "cmd = BuildConversationRequest tools reminder persist conv_id rid"
      "build_conversation_request js tools reminder persist conv_id rid (ensure_conversation_integrity a)
       = (a', request)"
proof (cases "conversation_command cmd")
  case False
  then show ?thesis using that(1) quiet_core [OF assms] by blast
next
  case True
  then show ?thesis
    using assms that(2-)
    by (cases cmd)
      (auto simp: conversation_command_def push_user_message_def repair_dangling_after_harness_halt_def
        split: prod.splits if_splits)
qed

section \<open>Turn capture\<close>

text \<open>What a capture holds: the items and whether a compaction happened.\<close>

type_synonym capture = "(conversation_item list \<times> bool) option"

definition capture_of :: "chat_state \<Rightarrow> capture" where
  "capture_of s =
     map_option (\<lambda>cap. (pre_replacement_messages cap @ turn_tail (conversation s) (turn_start_offset cap),
                        compaction_occurred cap)) (turn_capture s)"

definition offset_ok :: "chat_state \<Rightarrow> bool" where
  "offset_ok s \<longleftrightarrow> (case turn_capture s of None \<Rightarrow> True | Some cap \<Rightarrow> turn_start_offset cap \<le> length (conversation s))"

text \<open>The specification: a capture is the list of items pushed since its start.\<close>

definition pushed :: "conversation_item \<Rightarrow> capture \<Rightarrow> capture" where
  "pushed item c = map_option (\<lambda>(xs, f). (xs @ [item], f)) c"

definition capture_step :: "chat_command \<Rightarrow> capture \<Rightarrow> capture" where
  "capture_step cmd c =
     (case cmd of
        PushUserMessage item \<Rightarrow> pushed item c
      | PushUserMessageAndAck item \<Rightarrow> pushed item c
      | PushUserMessageWithRepairReason item _ \<Rightarrow> pushed item c
      | PushAssistantResponse item \<Rightarrow> pushed item c
      | PushToolResult item \<Rightarrow> pushed item c
      | ReplaceConversation _ is_compaction \<Rightarrow> map_option (\<lambda>(xs, f). (xs, f \<or> is_compaction)) c
      | BeginTurnCapture \<Rightarrow> Some ([], False)
      | TruncateToPromptIndex _ \<Rightarrow> None
      | TakeTurnMessages \<Rightarrow> None
      | _ \<Rightarrow> c)"

lemma capture_step_quiet: "\<not> conversation_command cmd \<Longrightarrow> capture_step cmd c = c"
  by (cases cmd) (simp_all add: conversation_command_def capture_step_def)

text \<open>The user messages pushed are user items, and no repair of the history rewrites it.\<close>

definition regular_command :: "chat_command \<Rightarrow> bool" where
  "regular_command cmd =
     (case cmd of
        PushUserMessage item \<Rightarrow> is_user item
      | PushUserMessageAndAck item \<Rightarrow> is_user item
      | PushUserMessageWithRepairReason item _ \<Rightarrow> is_user item
      | RepairHistory dry_run turn_active \<Rightarrow> dry_run \<or> turn_active = Some True
      | _ \<Rightarrow> True)"

lemma turn_tail_simps [simp]:
  "turn_tail conv (length conv) = []"
  "n \<le> length conv \<Longrightarrow> turn_tail (conv @ xs) n = turn_tail conv n @ xs"
  by (simp_all add: turn_tail_def get_from_def)

lemma core_capture:
  "conv_core a' = conv_core a \<Longrightarrow> capture_of (state a') = capture_of (state a) \<and> offset_ok (state a') = offset_ok (state a)"
  by (cases "turn_capture (state a)") (simp_all add: conv_core_def capture_of_def offset_ok_def)

text \<open>A snapshot of the tail followed, after any change of the conversation, by a rebase.\<close>

lemma snapshot_rebase:
  assumes "turn_capture s' = turn_capture (snapshot_turn_slice s)"
  shows "capture_of (rebase_turn_capture_offset s') = capture_of s \<and> offset_ok (rebase_turn_capture_offset s')"
  using assms by (cases "turn_capture s")
    (simp_all add: capture_of_def offset_ok_def rebase_turn_capture_offset_def snapshot_turn_slice_def)

lemma integrity_capture:
  "capture_of (state (ensure_conversation_integrity_with_reason reason a)) = capture_of (state a)
   \<and> offset_ok (state (ensure_conversation_integrity_with_reason reason a))"
  unfolding ensure_conversation_integrity_with_reason_def Let_def
  by (auto simp: on_state_def replace_history_def split: prod.split intro!: snapshot_rebase [THEN conjunct1]
      snapshot_rebase [THEN conjunct2])

lemma rebased: "turn_capture (rebase_turn_capture_offset s) = Some cap \<Longrightarrow> turn_start_offset cap = length (conversation s)"
  by (auto simp: rebase_turn_capture_offset_def)

lemma integrity_rebased:
  assumes "turn_capture (state (ensure_conversation_integrity_with_reason reason a)) = Some cap"
  shows "turn_start_offset cap = length (conversation (state (ensure_conversation_integrity_with_reason reason a)))"
proof -
  have "\<exists>x. ensure_conversation_integrity_with_reason reason a = on_state rebase_turn_capture_offset x"
    unfolding ensure_conversation_integrity_with_reason_def Let_def prod.case_eq_if by blast
  then obtain x where x: "ensure_conversation_integrity_with_reason reason a = on_state rebase_turn_capture_offset x" ..
  have "conversation (rebase_turn_capture_offset s) = conversation s" for s
    by (simp add: rebase_turn_capture_offset_def)
  then show ?thesis using assms rebased [of "state x" cap] by (simp add: x on_state_def)
qed

lemma append_capture:
  "offset_ok (state a) \<Longrightarrow> capture_of (state (append_item item a)) = pushed item (capture_of (state a))
   \<and> offset_ok (state (append_item item a))"
  by (cases "turn_capture (state a)")
    (simp_all add: append_item_def persist_message_def on_state_def capture_of_def offset_ok_def pushed_def)

lemma estimate_core: "add_estimate item a = Some b \<Longrightarrow> conv_core b = conv_core a"
  by (auto simp: add_estimate_def on_state_def conv_core_def split: bind_splits)

lemma replace_capture:
  assumes "replace_conversation items c a = Some a'"
  shows "capture_of (state a') = map_option (\<lambda>(xs, f). (xs, f \<or> c)) (capture_of (state a)) \<and> offset_ok (state a')"
  using assms
  by (cases "turn_capture (state a)"; cases c)
    (auto simp: replace_conversation_def Let_def on_state_def send_event_def replace_history_def capture_of_def
      offset_ok_def rebase_turn_capture_offset_def snapshot_turn_slice_def split: bind_splits)

text \<open>Pruning keeps the length and the newest user item.\<close>

lemma hard_clear_length: "length (fst (hard_clear_walk t n b items)) = length items"
  by (induction t n b items rule: hard_clear_walk.induct) (auto split: prod.splits)

lemma hard_clear_none: "snd (hard_clear_walk t n b items) = 0 \<Longrightarrow> fst (hard_clear_walk t n b items) = items"
  by (induction t n b items rule: hard_clear_walk.induct) (auto split: prod.splits if_splits)

lemma hard_clear_user: "\<exists>items'. fst (hard_clear_walk t n b (User u # items)) = User u # items' \<and> length items' = length items"
  by (auto split: prod.split) (metis fst_conv hard_clear_length)+

lemma prune_cases:
  assumes "prune_retained_conversation a = Some (a', n)"
  obtains "conv_core a' = conv_core a"
  | t where "conversation (state a') = rev (fst (hard_clear_walk t 0 False (rev (conversation (state a)))))"
      "turn_capture (state a') = turn_capture (state a)"
      "persisted a' = persisted a @ [ReplaceHistoryRecord (conversation (state a'))]"
proof (cases "prune_enabled (pruning a) \<and> hard_clear_age_turns (pruning a) \<le> prompt_index (state a)")
  case False
  then show ?thesis using that(1) assms by (auto simp: prune_retained_conversation_def Let_def not_le split: if_splits)
next
  case True
  define t where "t = hard_clear_age_turns (pruning a)
      + (length (filter is_user (conversation (state a))) - prompt_index (state a))"
  obtain items cleared where walk: "hard_clear_walk t 0 False (rev (conversation (state a))) = (items, cleared)"
    by fastforce
  show ?thesis
  proof (cases "cleared = 0")
    case True
    then have "items = rev (conversation (state a))" using hard_clear_none [of t 0 False] walk by (metis fst_conv snd_conv)
    then have "conv_core a' = conv_core a"
      using assms walk True \<open>prune_enabled (pruning a) \<and> _\<close>
      by (auto simp: prune_retained_conversation_def Let_def t_def conv_core_def on_state_def split: bind_splits)
    then show ?thesis by (rule that(1))
  next
    case False
    then have "conversation (state a') = rev items \<and> turn_capture (state a') = turn_capture (state a)
        \<and> persisted a' = persisted a @ [ReplaceHistoryRecord (conversation (state a'))]"
      using assms walk \<open>prune_enabled (pruning a) \<and> _\<close>
      by (auto simp: prune_retained_conversation_def Let_def t_def on_state_def replace_history_def split: bind_splits)
    then show ?thesis using that(2) [of t] walk by simp
  qed
qed

lemma push_user_capture:
  assumes "push_user_message_with_repair_reason item reason a = Some a'" "is_user item"
  shows "capture_of (state a') = pushed item (capture_of (state a)) \<and> offset_ok (state a')"
proof -
  define i where "i = ensure_conversation_integrity_with_reason reason a"
  obtain b c n where b: "add_estimate item i = Some b" and c: "prune_retained_conversation c = Some (a', n)"
      and c_def: "c = append_item item b"
    using assms(1) by (auto simp: push_user_message_with_repair_reason_def i_def split: bind_splits)
  have cap_b: "capture_of (state b) = capture_of (state a)" "offset_ok (state b)"
    using integrity_capture [of reason a] core_capture [OF estimate_core [OF b]] by (simp_all add: i_def)
  have cap_c: "capture_of (state c) = pushed item (capture_of (state a))" "offset_ok (state c)"
    using append_capture [OF cap_b(2), of item] by (simp_all add: c_def cap_b)
  have at_end: "turn_capture (state b) = Some cap \<Longrightarrow> turn_start_offset cap = length (conversation (state b))" for cap
    using estimate_core [OF b] integrity_rebased [of reason a cap] by (simp add: conv_core_def i_def)
  from c show ?thesis
  proof (cases rule: prune_cases)
    case 1
    then show ?thesis using cap_c core_capture [OF 1] by simp
  next
    case (2 t)
    obtain u where u: "item = User u" using assms(2) by (cases item) auto
    have conv: "rev (conversation (state c)) = User u # rev (conversation (state b))"
      by (simp add: c_def append_item_def persist_message_def on_state_def u)
    obtain items where items: "conversation (state a') = rev items @ [User u]"
        "length items = length (conversation (state b))"
      using 2(1) hard_clear_user [of t 0 False u "rev (conversation (state b))"] unfolding conv by force
    have "turn_capture (state a') = turn_capture (state b)"
      using 2(2) by (simp add: c_def append_item_def persist_message_def on_state_def)
    moreover have "turn_tail (conversation (state a')) (length (conversation (state b))) = [User u]"
      by (simp add: turn_tail_def get_from_def items(1) flip: items(2))
    ultimately show ?thesis
      using at_end items
      by (cases "turn_capture (state b)")
        (simp_all add: capture_of_def [of "state a'"] capture_of_def [of "state b"] offset_ok_def pushed_def u
          flip: cap_b(1))
  qed
qed

lemma restore_capture:
  assumes "restore_snapshot snap a = Some a'"
  shows "capture_of (state a') = capture_of (state a) \<and> offset_ok (state a')"
  using assms
  by (cases "turn_capture (state a)")
    (auto simp: restore_snapshot_def Let_def on_state_def capture_of_def offset_ok_def
      rebase_turn_capture_offset_def snapshot_turn_slice_def split: bind_splits)

lemma persist_reminder_capture:
  "offset_ok (state a) \<Longrightarrow> capture_of (state (fst (persist_reminder m p a))) = capture_of (state a)
   \<and> offset_ok (state (fst (persist_reminder m p a)))"
  by (cases "turn_capture (state a)")
    (auto simp: persist_reminder_def Let_def on_state_def replace_history_def capture_of_def offset_ok_def
      rebase_turn_capture_offset_def snapshot_turn_slice_def split: prod.splits option.splits)

lemma build_actor:
  "conv_core (fst (build_conversation_request js tools m p conv_id rid a)) = conv_core (fst (persist_reminder m p a))"
  by (simp add: build_conversation_request_def Let_def conv_core_def send_event_def split: prod.split)

lemma capture_step_refines:
  assumes "handle_command js cmd a = Some (a', r)" "offset_ok (state a)" "regular_command cmd"
  shows "capture_of (state a') = capture_step cmd (capture_of (state a)) \<and> offset_ok (state a')"
  using assms(1)
proof (cases rule: command_cases)
  case quiet
  then show ?thesis using core_capture [OF quiet(2)] assms(2) by (simp add: capture_step_quiet)
next
  case (push_user item reason)
  then have "is_user item" using assms(3) by (auto simp: regular_command_def)
  then show ?thesis using push_user_capture [OF push_user(2)] push_user(1) by (auto simp: capture_step_def)
next
  case (push item)
  then obtain b where "a' = append_item item b" "conv_core b = conv_core a"
    using estimate_core by (auto simp: push_message_def split: bind_splits if_splits)
  then show ?thesis
    using append_capture [of b item] core_capture [of b a] assms(2) push(1) by (auto simp: capture_step_def)
next
  case (replace items c)
  then show ?thesis using replace_capture [OF replace(2)] by (simp add: capture_step_def)
next
  case (head prompt changed)
  then show ?thesis using assms(2) replace_capture [of _ False a a']
    by (cases "capture_of (state a)")
      (auto simp: replace_system_head_def Let_def capture_step_def split: if_splits prod.splits)
next
  case (repair dry_run turn_active)
  then show ?thesis using assms(2,3)
    by (auto simp: regular_command_def capture_step_def repair_history_command_def)
next
  case (restore snap)
  then show ?thesis using restore_capture [OF restore(2)] by (simp add: capture_step_def)
next
  case begin_capture
  then show ?thesis
    by (simp add: capture_step_def on_state_def begin_turn_capture_def capture_of_def offset_ok_def)
next
  case (halt cls)
  then show ?thesis using integrity_capture [of "HarnessHalted cls" a] by (simp add: capture_step_def)
next
  case (truncate target b)
  then show ?thesis by (simp add: capture_step_def on_state_def capture_of_def offset_ok_def)
next
  case take_capture
  then show ?thesis by (simp add: capture_step_def take_turn_messages_def capture_of_def offset_ok_def)
next
  case (build tools reminder persist conv_id rid request)
  have "conv_core a' = conv_core (fst (persist_reminder reminder persist (ensure_conversation_integrity a)))"
    using build_actor [of js tools reminder persist conv_id rid "ensure_conversation_integrity a"] by (simp add: build(2))
  note core_capture [OF this]
    persist_reminder_capture [OF conjunct2 [OF integrity_capture [of UserCancelled a]], of reminder persist]
    integrity_capture [of UserCancelled a]
  then show ?thesis using build(1) by (simp add: capture_step_def ensure_conversation_integrity_def)
qed

lemma run_Cons:
  assumes "run_commands js (cmd # cmds) a = Some (a', rs)"
  obtains b r rs' where "handle_command js cmd a = Some (b, r)" "run_commands js cmds b = Some (a', rs')" "rs = r # rs'"
  using assms by (auto split: bind_splits)

lemma capture_run_refines:
  "run_commands js cmds a = Some (a', rs) \<Longrightarrow> offset_ok (state a) \<Longrightarrow> \<forall>cmd \<in> set cmds. regular_command cmd \<Longrightarrow>
   capture_of (state a') = fold capture_step cmds (capture_of (state a))"
proof (induction cmds arbitrary: a rs)
  case (Cons cmd cmds)
  obtain b r rs' where step: "handle_command js cmd a = Some (b, r)" "run_commands js cmds b = Some (a', rs')"
      "rs = r # rs'" by (rule run_Cons [OF Cons.prems(1)])
  have "capture_of (state b) = capture_step cmd (capture_of (state a))" "offset_ok (state b)"
    using capture_step_refines [OF step(1) Cons.prems(2)] Cons.prems(3) by simp_all
  then show ?case using Cons.IH [OF step(2)] Cons.prems(3) by simp
qed simp

lemma spawned:
  assumes "spawn_with_pruning initial config cfg = Some a"
  shows "turn_capture (state a) = None" "persisted a = []" "prompt_usage (state a) = None"
    "session_usage (state a) = default_ledger"
  using assms by (auto simp: spawn_with_pruning_def chat_state_new_def Let_def split: bind_splits)


definition demo_config :: sampling_config where
  "demo_config =
     \<lparr> base_url = [], config_model = ''grok'', max_completion_tokens = None, temperature = None, top_p = None,
       api_backend = [], extra_headers = [], context_window = 8, config_reasoning_effort = None,
       stream_tool_calls = None \<rparr>"

definition demo_sizes :: json_sizes where
  "demo_sizes = \<lparr> json_bytes = length, part_json_bytes = part_bytes \<rparr>"

definition demo_calls :: conversation_item where
  "demo_calls = assistant_tool_calls [\<lparr> call_id = ''c1'', call_name = ''ls'', call_arguments = [] \<rparr>]"

text \<open>A turn whose call is never answered, across a compaction and another prompt.\<close>

definition demo_run :: "chat_command list" where
  "demo_run =
     [PushUserMessage (user ''hi''), BeginTurnCapture, PushAssistantResponse demo_calls,
      ReplaceConversation [user ''sum''] True, PushAssistantResponse demo_calls, PushUserMessage (user ''go''),
      PushAssistantResponse (assistant ''ok'')]"


text \<open>C22. 
  C0: A history repair that rewrites the conversation while a capture is active loses the items of the turn
  pushed since the last rebase: only those set aside before survive.
\<close>

theorem repair_drops_captured_turn:
  assumes "turn_capture (state a) = Some cap" "turn_active \<noteq> Some True"
    "handle_command js (RepairHistory False turn_active) a = Some (a', RepairReply (Some report))"
    "report_changed report"
  shows "map_option snd (handle_command js TakeTurnMessages a')
    = Some (CaptureReply (Some (pre_replacement_messages cap, compaction_occurred cap)))"
proof -
  obtain items where "replace_conversation items False (on_state (\<lambda>s. s \<lparr> conversation := [] \<rparr>) a) = Some a'"
    using assms(2-) by (auto simp: repair_history_command_def Let_def split: prod.splits if_splits)
  note replace_capture [OF this]
  moreover have "turn_tail [] n = []" for n by (simp add: turn_tail_def get_from_def)
  then have "capture_of ((state a) \<lparr> conversation := [] \<rparr>) =
      Some (pre_replacement_messages cap, compaction_occurred cap)"
    by (simp add: capture_of_def assms(1))
  ultimately have "capture_of (state a') = Some (pre_replacement_messages cap, compaction_occurred cap)"
    by (simp add: on_state_def)
  then show ?thesis by (simp add: take_turn_messages_def capture_of_def)
qed

theorem repair_drops_captured_turn_witness:
  "\<exists>a a' report. spawn_with_pruning [System ''sys''] demo_config default_pruning \<bind>
       run_commands demo_sizes [BeginTurnCapture, PushAssistantResponse demo_calls] = Some (a, [NoReply, NoReply])
     \<and> map_option snd (handle_command demo_sizes TakeTurnMessages a)
         = Some (CaptureReply (Some ([demo_calls], False)))
     \<and> handle_command demo_sizes (RepairHistory False None) a = Some (a', RepairReply (Some report))
     \<and> map_option snd (handle_command demo_sizes TakeTurnMessages a') = Some (CaptureReply (Some ([], False)))"
proof -
  define run where "run = spawn_with_pruning [System ''sys''] demo_config default_pruning \<bind>
       run_commands demo_sizes [BeginTurnCapture, PushAssistantResponse demo_calls]"
  have "case run of None \<Rightarrow> False | Some (a, rs) \<Rightarrow> rs = [NoReply, NoReply]
      \<and> map_option snd (handle_command demo_sizes TakeTurnMessages a) = Some (CaptureReply (Some ([demo_calls], False)))
      \<and> map_option pre_replacement_messages (turn_capture (state a)) = Some []
      \<and> map_option compaction_occurred (turn_capture (state a)) = Some False
      \<and> (case handle_command demo_sizes (RepairHistory False None) a of
           Some (_, RepairReply (Some report)) \<Rightarrow> report_changed report | _ \<Rightarrow> False)"
    unfolding run_def by code_simp
  then obtain a a' report cap where a: "run = Some (a, [NoReply, NoReply])"
      "map_option snd (handle_command demo_sizes TakeTurnMessages a) = Some (CaptureReply (Some ([demo_calls], False)))"
      "turn_capture (state a) = Some cap" "pre_replacement_messages cap = []" "compaction_occurred cap = False"
      "handle_command demo_sizes (RepairHistory False None) a = Some (a', RepairReply (Some report))"
      "report_changed report"
    by (auto split: option.splits prod.splits chat_reply.splits)
  then show ?thesis
    using repair_drops_captured_turn [OF a(3) _ a(6,7)] unfolding run_def by auto
qed

end
