(* ===== verification/ChatRunSpec.thy ===== *)
theory ChatRunSpec
  imports ChatActorSpec
begin

text \<open>
  The history on disk, the ledgers and the requests of the chat-state actor.  The persistence is the locale
  \<open>chat_persistence\<close>, the trait \<open>ChatPersistence\<close> with what its calls promise of the stored history; it is
  interpreted on the log of calls the actor's model keeps.
\<close>

section \<open>The stored history\<close>

locale chat_persistence =
  fixes persist :: "'item \<Rightarrow> 'store \<Rightarrow> 'store"
    and overwrite :: "'item list \<Rightarrow> 'store \<Rightarrow> 'store"
    and flush :: "'store \<Rightarrow> 'store"
    and stored :: "'store \<Rightarrow> 'item list"
  assumes stored_persist: "stored (persist item s) = stored s @ [item]"
    and stored_overwrite: "stored (overwrite items s) = items"
    and stored_flush: "stored (flush s) = stored s"
begin

lemma stored_append: "stored s = conv \<Longrightarrow> stored (persist item s) = conv @ [item]"
  by (simp add: stored_persist)

lemma overwrite_when_changed:
  "stored s = conv \<Longrightarrow> (\<not> changed \<Longrightarrow> conv' = conv) \<Longrightarrow> stored (if changed then overwrite conv' s else s) = conv'"
  by (simp add: stored_overwrite)

end

text \<open>The history a log of calls leaves, from the one there was at the start.\<close>

fun replay_record :: "persistence_record \<Rightarrow> conversation_item list \<Rightarrow> conversation_item list" where
  "replay_record (MessageRecord item) items = items @ [item]"
| "replay_record (ReplaceHistoryRecord items') items = items'"
| "replay_record FlushRecord items = items"

definition replay :: "conversation_item list \<Rightarrow> persistence_record list \<Rightarrow> conversation_item list" where
  "replay base records = fold replay_record records base"

interpretation disk: chat_persistence persist_message replace_history flush_persistence
  "\<lambda>a. replay base (persisted a)" for base
  by unfold_locales
    (simp_all add: replay_def persist_message_def replace_history_def flush_persistence_def)

definition in_step :: "conversation_item list \<Rightarrow> chat_actor \<Rightarrow> bool" where
  "in_step base a \<longleftrightarrow> replay base (persisted a) = conversation (state a)"

lemma persisted_on_state [simp]: "persisted (on_state f a) = persisted a"
  "state (on_state f a) = f (state a)"
  by (simp_all add: on_state_def)

lemma replay_flush: "replay base (filter (\<lambda>r. r \<noteq> FlushRecord) rs) = replay base rs"
proof (induction rs arbitrary: base)
  case (Cons r rs)
  then show ?case by (cases r) (simp_all add: replay_def)
qed (simp add: replay_def)

lemma core_in_step:
  assumes "conv_core a' = conv_core a"
  shows "in_step base a' = in_step base a"
proof -
  have "conversation (state a') = conversation (state a)"
      "filter (\<lambda>r. r \<noteq> FlushRecord) (persisted a') = filter (\<lambda>r. r \<noteq> FlushRecord) (persisted a)"
    using assms by (simp_all add: conv_core_def)
  then show ?thesis
    using replay_flush [of base "persisted a"] replay_flush [of base "persisted a'"] by (simp add: in_step_def)
qed

lemma estimate_in_step: "add_estimate item a = Some b \<Longrightarrow> in_step base a \<Longrightarrow> in_step base b"
  by (simp only: core_in_step [OF estimate_core])

text \<open>A repair that reports nothing changes nothing.\<close>

lemma dedup_nothing: "snd (dedup_duplicate_tool_results items) = 0 \<Longrightarrow> fst (dedup_duplicate_tool_results items) = items"
  using deduped_subseq [of items] deduped_length [of items]
  by (simp add: dedup_is_deduped) (metis subseq_same_length)

lemma repair_nothing:
  "snd (repair_dangling_tool_calls reason items) = 0 \<Longrightarrow> fst (repair_dangling_tool_calls reason items) = items"
  using has_dangling_iff_inserts [of items reason] has_dangling_iff [of items reason]
  by (simp add: repair_dangling_is_filled)

lemma integrity_persisted:
  fixes reason a
  defines "conv \<equiv> fst (repair_dangling_tool_calls reason (fst (dedup_duplicate_tool_results (conversation (state a)))))"
  defines "changed \<equiv> 0 < snd (repair_dangling_tool_calls reason (fst (dedup_duplicate_tool_results (conversation (state a)))))
      \<or> 0 < snd (dedup_duplicate_tool_results (conversation (state a)))"
  shows "conversation (state (ensure_conversation_integrity_with_reason reason a)) = conv"
    "persisted (ensure_conversation_integrity_with_reason reason a)
      = persisted (if changed then replace_history conv a else a)"
  by (simp_all add: ensure_conversation_integrity_with_reason_def Let_def case_prod_unfold conv_def changed_def
      replace_history_def rebase_turn_capture_offset_def snapshot_turn_slice_def)

lemma integrity_in_step: "in_step base a \<Longrightarrow> in_step base (ensure_conversation_integrity_with_reason reason a)"
proof -
  let ?d = "dedup_duplicate_tool_results (conversation (state a))"
  let ?r = "repair_dangling_tool_calls reason (fst ?d)"
  assume "in_step base a"
  moreover have "fst ?r = conversation (state a)" if "\<not> (0 < snd ?r \<or> 0 < snd ?d)"
    using that dedup_nothing [of "conversation (state a)"] repair_nothing [of reason "fst ?d"] by simp
  ultimately show ?thesis
    unfolding in_step_def integrity_persisted by (rule disk.overwrite_when_changed)
qed

lemma append_in_step: "in_step base a \<Longrightarrow> in_step base (append_item item a)"
  using disk.stored_append [of base a] by (simp add: in_step_def append_item_def persist_message_def)

lemma replace_in_step: "replace_conversation items c a = Some a' \<Longrightarrow> in_step base a'"
  using disk.stored_overwrite [of base items]
  by (auto simp: replace_conversation_def Let_def in_step_def replace_history_def send_event_def
      rebase_turn_capture_offset_def split: bind_splits)

lemma prune_in_step: "prune_retained_conversation a = Some (a', n) \<Longrightarrow> in_step base a \<Longrightarrow> in_step base a'"
proof (erule prune_cases)
  assume "in_step base a" "conv_core a' = conv_core a"
  then show "in_step base a'" using core_in_step [of a' a base] by blast
next
  fix t assume "persisted a' = persisted a @ [ReplaceHistoryRecord (conversation (state a'))]"
  then show "in_step base a'" by (simp add: in_step_def replay_def)
qed

lemma push_in_step:
  assumes "push_message item a = Some a'" "in_step base a"
  shows "in_step base a'"
proof -
  obtain b where b: "a' = append_item item b" "b = a \<or> add_estimate item a = Some b"
    using assms(1) by (auto simp: push_message_def split: bind_splits if_splits)
  have "in_step base b" using estimate_in_step [of item a b] assms(2) b(2) by blast
  then show ?thesis unfolding b(1) by (rule append_in_step)
qed

lemma push_user_in_step:
  assumes "push_user_message_with_repair_reason item reason a = Some a'" "in_step base a"
  shows "in_step base a'"
proof -
  obtain b n where b: "add_estimate item (ensure_conversation_integrity_with_reason reason a) = Some b"
      "prune_retained_conversation (append_item item b) = Some (a', n)"
    using assms(1) by (auto simp: push_user_message_with_repair_reason_def split: bind_splits)
  have "in_step base b" by (rule estimate_in_step [OF b(1) integrity_in_step [OF assms(2)]])
  then show ?thesis by (intro prune_in_step [OF b(2)] append_in_step)
qed

lemma inject_nothing: "\<not> snd (inject_memory_reminder items m) \<Longrightarrow> fst (inject_memory_reminder items m) = items"
  by (auto simp: inject_memory_reminder_def upsert_memory_reminder_text_def Let_def
      split: list.splits conversation_item.splits option.splits prod.splits if_splits)

lemma reminder_in_step: "in_step base a \<Longrightarrow> in_step base (fst (persist_reminder m p a))"
proof (cases "m = None \<or> \<not> p")
  case False
  then obtain r where m: "m = Some r" "p" by auto
  define conv where "conv = inject_memory_reminder (conversation (state a)) r"
  assume a: "in_step base a"
  have "conversation (state (fst (persist_reminder m p a))) = fst conv"
      "persisted (fst (persist_reminder m p a)) = persisted (if snd conv then replace_history (fst conv) a else a)"
    by (simp_all add: persist_reminder_def m Let_def case_prod_unfold conv_def replace_history_def
        rebase_turn_capture_offset_def snapshot_turn_slice_def)
  then show ?thesis
    using a disk.overwrite_when_changed [of base a "conversation (state a)" "snd conv" "fst conv"]
      inject_nothing [of "conversation (state a)" r]
    by (simp add: in_step_def conv_def)
qed (auto simp: persist_reminder_def split: option.split)

lemma truncate_in_step: "truncate_to_prompt_index n a = Some a' \<Longrightarrow> in_step base a \<Longrightarrow> in_step base a'"
  by (auto simp: truncate_to_prompt_index_def Let_def in_step_def replay_def replace_history_def send_event_def
      split: bind_splits if_splits)

lemma repair_in_step: "repair_history_command d a = Some (a', report) \<Longrightarrow> in_step base a \<Longrightarrow> in_step base a'"
  using repair_unchanged_same [of "conversation (state a)"]
  by (auto simp: repair_history_command_def Let_def in_step_def split: prod.splits if_splits)
    (metis fst_conv in_step_def replace_in_step snd_conv)+

text \<open>A restored snapshot is not written to disk; everything else is.\<close>

lemma command_in_step:
  assumes "handle_command js cmd a = Some (a', r)" "in_step base a" "\<forall>snap. cmd \<noteq> RestoreSnapshot snap"
  shows "in_step base a'"
  using assms(1)
proof (cases rule: command_cases)
  case quiet
  then show ?thesis using core_in_step assms(2) by blast
next
  case (head prompt changed)
  then show ?thesis using assms(2) replace_in_step
    by (auto simp: replace_system_head_def Let_def split: if_splits prod.splits)
next
  case (repair dry_run turn_active)
  then show ?thesis using assms(2) repair_in_step by blast
next
  case (truncate target b)
  then show ?thesis using assms(2) truncate_in_step [of target a b base] by (simp add: in_step_def)
next
  case (build tools reminder persist conv_id rid request)
  have "conv_core a' = conv_core (fst (persist_reminder reminder persist (ensure_conversation_integrity a)))"
    using build_actor [of js tools reminder persist conv_id rid "ensure_conversation_integrity a"] by (simp add: build(2))
  note core_in_step [OF this, of base]
  moreover have "in_step base (fst (persist_reminder reminder persist (ensure_conversation_integrity a)))"
    unfolding ensure_conversation_integrity_def by (intro reminder_in_step integrity_in_step assms(2))
  ultimately show ?thesis by blast
next
  case (push_user item reason)
  then show ?thesis using push_user_in_step assms(2) by blast
next
  case (push item)
  then show ?thesis using push_in_step assms(2) by blast
next
  case (replace items c)
  then show ?thesis using replace_in_step by blast
next
  case (halt cls)
  then show ?thesis using integrity_in_step assms(2) by blast
qed (use assms(2,3) in \<open>simp_all add: in_step_def begin_turn_capture_def take_turn_messages_def\<close>)



section \<open>The ledgers\<close>

text \<open>Costs are 64-bit: a call's ticks are below \<open>2 ^ 63\<close>, a sub-agent's totals non-negative as well.\<close>

definition costs_ok :: "chat_command \<Rightarrow> bool" where
  "costs_ok cmd =
     (case cmd of
        RecordModelCallUsage _ _ _ cost \<Rightarrow> (case cost of None \<Rightarrow> True | Some c \<Rightarrow> c < 2 ^ 63)
      | RecordSubagentUsage usages _ _ \<Rightarrow> (\<forall>e \<in> set usages. cost_ok (snd e))
      | _ \<Rightarrow> True)"

definition ledgers_ok :: "chat_state \<Rightarrow> bool" where
  "ledgers_ok s \<longleftrightarrow> ledger_ok (session_usage s) \<and> (case prompt_usage s of None \<Rightarrow> True | Some l \<Rightarrow> ledger_ok l)"

lemma ledger_call_ok:
  assumes "ledgers_ok (state a)" "case c of None \<Rightarrow> True | Some x \<Rightarrow> x < 2 ^ 63"
  shows "ledgers_ok (state (record_model_call_usage m u d c a))"
  using assms
  by (auto simp: ledgers_ok_def record_model_call_usage_def Let_def on_session_ledger_def on_prompt_ledger_def
      intro!: ledger_ok_main_loop ledger_ok_default split: option.splits)

lemma ledger_subagent_ok:
  assumes "ledgers_ok (state a)" "\<forall>e \<in> set us. cost_ok (snd e)"
  shows "ledgers_ok (state (record_subagent_usage us p i a))"
  using assms
  by (auto simp: ledgers_ok_def record_subagent_usage_def on_session_ledger_def on_prompt_ledger_def
      intro!: ledger_ok_subagent ledger_ok_default split: option.splits)

lemma ledger_incomplete_ok: "ledgers_ok (state a) \<Longrightarrow> ledgers_ok (state (mark_usage_incomplete p s a))"
  by (auto simp: ledgers_ok_def mark_usage_incomplete_def on_session_ledger_def on_prompt_ledger_def
      intro!: ledger_ok_mark ledger_ok_default split: option.splits)

text \<open>The other commands keep the session's ledger, and the prompt's unless they drop it.\<close>

definition ledgers_kept :: "chat_actor \<Rightarrow> chat_actor \<Rightarrow> bool" where
  "ledgers_kept a a' \<longleftrightarrow> session_usage (state a') = session_usage (state a)
     \<and> (prompt_usage (state a') = prompt_usage (state a) \<or> prompt_usage (state a') = None)"

lemma ledgers_kept_ok: "ledgers_kept a a' \<Longrightarrow> ledgers_ok (state a) \<Longrightarrow> ledgers_ok (state a')"
  by (auto simp: ledgers_kept_def ledgers_ok_def)

lemma ledgers_kept_trans: "ledgers_kept a b \<Longrightarrow> ledgers_kept b c \<Longrightarrow> ledgers_kept a c"
  by (auto simp: ledgers_kept_def)

lemma ledgers_kept_integrity: "ledgers_kept a (ensure_conversation_integrity_with_reason reason a)"
  by (simp add: ledgers_kept_def ensure_conversation_integrity_with_reason_def Let_def case_prod_unfold
      replace_history_def rebase_turn_capture_offset_def snapshot_turn_slice_def)

lemma ledgers_kept_append: "ledgers_kept a (append_item item a)"
  by (simp add: ledgers_kept_def append_item_def persist_message_def)

lemma ledgers_kept_estimate: "add_estimate item a = Some b \<Longrightarrow> ledgers_kept a b"
  by (auto simp: ledgers_kept_def add_estimate_def split: bind_splits)

lemma ledgers_kept_prune: "prune_retained_conversation a = Some (a', n) \<Longrightarrow> ledgers_kept a a'"
  by (auto simp: ledgers_kept_def prune_retained_conversation_def Let_def replace_history_def
      split: bind_splits if_splits prod.splits)

lemma ledgers_kept_replace: "replace_conversation items c a = Some a' \<Longrightarrow> ledgers_kept a a'"
  by (cases c) (auto simp: ledgers_kept_def replace_conversation_def Let_def replace_history_def send_event_def
      rebase_turn_capture_offset_def snapshot_turn_slice_def split: bind_splits)

lemma ledgers_kept_reminder: "ledgers_kept a (fst (persist_reminder m p a))"
  by (auto simp: ledgers_kept_def persist_reminder_def Let_def case_prod_unfold replace_history_def
      rebase_turn_capture_offset_def snapshot_turn_slice_def split: option.split)

lemma ledgers_kept_build:
  "ledgers_kept a (fst (build_conversation_request js tools m p conv_id rid a))"
proof -
  have "ledgers_kept (fst (persist_reminder m p a)) (fst (build_conversation_request js tools m p conv_id rid a))"
    by (simp add: ledgers_kept_def build_conversation_request_def Let_def case_prod_unfold send_event_def)
  then show ?thesis using ledgers_kept_reminder ledgers_kept_trans by blast
qed

lemma ledgers_kept_restore: "restore_snapshot snap a = Some a' \<Longrightarrow> ledgers_kept a a'"
  by (auto simp: ledgers_kept_def restore_snapshot_def Let_def rebase_turn_capture_offset_def
      snapshot_turn_slice_def split: bind_splits)

lemma ledgers_kept_truncate: "truncate_to_prompt_index n a = Some a' \<Longrightarrow> ledgers_kept a a'"
  by (auto simp: ledgers_kept_def truncate_to_prompt_index_def Let_def replace_history_def send_event_def
      split: bind_splits if_splits)

lemma ledgers_kept_push_user:
  assumes "push_user_message_with_repair_reason item reason a = Some a'"
  shows "ledgers_kept a a'"
proof -
  obtain b n where b: "add_estimate item (ensure_conversation_integrity_with_reason reason a) = Some b"
      "prune_retained_conversation (append_item item b) = Some (a', n)"
    using assms by (auto simp: push_user_message_with_repair_reason_def split: bind_splits)
  show ?thesis
    by (rule ledgers_kept_trans [OF ledgers_kept_integrity ledgers_kept_trans [OF ledgers_kept_estimate [OF b(1)]
            ledgers_kept_trans [OF ledgers_kept_append ledgers_kept_prune [OF b(2)]]]])
qed

lemma quiet_ledgers:
  assumes "handle_command js cmd a = Some (a', r)" "\<not> conversation_command cmd" "costs_ok cmd" "ledgers_ok (state a)"
  shows "ledgers_ok (state a')"
proof (cases cmd)
  case (RecordModelCallUsage m u d c)
  then have "case c of None \<Rightarrow> True | Some x \<Rightarrow> x < 2 ^ 63" "a' = record_model_call_usage m u d c a"
    using assms by (cases c; simp add: costs_ok_def)+
  then show ?thesis using ledger_call_ok [OF assms(4)] by blast
next
  case (RecordSubagentUsage us p i)
  then show ?thesis using assms ledger_subagent_ok by (auto simp: costs_ok_def)
next
  case (MarkUsageIncomplete p s)
  then show ?thesis using assms ledger_incomplete_ok by auto
next
  case (RecordTokenUsage n)
  then show ?thesis using assms by (auto simp: ledgers_ok_def record_token_usage_def send_event_def split: bind_splits)
qed (use assms in \<open>auto simp: conversation_command_def ledgers_ok_def record_last_turn_usage_def increment_prompt_index_def
      flush_persistence_def send_event_def seal_harness_trace_turn_def Let_def\<close>)

lemma command_ledgers:
  assumes "handle_command js cmd a = Some (a', r)" "costs_ok cmd" "ledgers_ok (state a)"
  shows "ledgers_ok (state a')"
proof -
  have "ledgers_kept a a'" if "conversation_command cmd"
    using assms(1)
  proof (cases rule: command_cases)
    case (push item)
    then obtain b where a': "a' = append_item item b" and "b = a \<or> add_estimate item a = Some b"
      by (auto simp: push_message_def split: bind_splits if_splits)
    then have b: "ledgers_kept a b" using ledgers_kept_estimate [of item a b] by (auto simp: ledgers_kept_def)
    show ?thesis using ledgers_kept_trans [OF b ledgers_kept_append] by (simp add: a')
  next
    case (head prompt changed)
    then show ?thesis using ledgers_kept_replace
      by (auto simp: replace_system_head_def Let_def ledgers_kept_def split: if_splits prod.splits)
  next
    case (repair dry_run turn_active)
    then consider "a' = a" | report where "repair_history_command dry_run a = Some (a', report)" by blast
    then show ?thesis
    proof cases
      case 2
      let ?a = "on_state (\<lambda>s. s \<lparr> conversation := [] \<rparr>) a"
      have "ledgers_kept a a' \<or> (\<exists>items. replace_conversation items False ?a = Some a')"
        using 2 by (auto simp: repair_history_command_def Let_def ledgers_kept_def split: if_splits prod.splits)
      moreover have "ledgers_kept a ?a" by (simp add: ledgers_kept_def)
      ultimately show ?thesis using ledgers_kept_replace ledgers_kept_trans by blast
    qed (simp add: ledgers_kept_def)
  next
    case (truncate target b)
    then show ?thesis using ledgers_kept_truncate [OF truncate(2)] by (auto simp: ledgers_kept_def)
  next
    case (build tools reminder persist conv_id rid request)
    then show ?thesis
      using ledgers_kept_trans [OF ledgers_kept_integrity [of a UserCancelled, folded ensure_conversation_integrity_def]
          ledgers_kept_build [of "ensure_conversation_integrity a" js tools reminder persist conv_id rid]]
      by simp
  next
    case begin_capture
    then show ?thesis by (simp add: ledgers_kept_def begin_turn_capture_def)
  next
    case take_capture
    then show ?thesis by (simp add: ledgers_kept_def take_turn_messages_def)
  next
    case quiet
    then show ?thesis using that by simp
  next
    case (push_user item reason)
    then show ?thesis by (intro ledgers_kept_push_user)
  next
    case (replace items c)
    then show ?thesis by (intro ledgers_kept_replace)
  next
    case (restore snap)
    then show ?thesis by (intro ledgers_kept_restore)
  next
    case (halt cls)
    then show ?thesis by (simp add: ledgers_kept_integrity)
  qed
  then show ?thesis using quiet_ledgers assms ledgers_kept_ok by blast
qed

text \<open>C23. 
  C0: In every run the ledger of the session and that of the prompt reconcile: their totals, counts and costs
  are the saturating sum of the entries per model, and no model has two entries.
\<close>

theorem ledgers_reconcile:
  assumes "spawn_with_pruning initial config cfg = Some a" "run_commands js cmds a = Some (a', rs)"
    "\<forall>cmd \<in> set cmds. costs_ok cmd"
  shows "\<forall>l \<in> {session_usage (state a')} \<union> set_option (prompt_usage (state a')).
    ledger_totals l = sum_entries (by_model l) \<and> distinct (map fst (by_model l))"
proof -
  have "ledgers_ok (state a')" if "ledgers_ok (state a)"
    using assms(2,3) that
  proof (induction cmds arbitrary: a rs)
    case (Cons cmd cmds)
    obtain b r rs' where step: "handle_command js cmd a = Some (b, r)" "run_commands js cmds b = Some (a', rs')"
        "rs = r # rs'" by (rule run_Cons [OF Cons.prems(1)])
    have "ledgers_ok (state b)" using command_ledgers [OF step(1) _ Cons.prems(3)] Cons.prems(2) by simp
    then show ?case using Cons.IH [OF step(2)] Cons.prems(2) by simp
  qed simp
  moreover have "ledgers_ok (state a)" by (simp add: ledgers_ok_def spawned [OF assms(1)] ledger_ok_default)
  ultimately have "ledgers_ok (state a')" by blast
  then show ?thesis by (cases "prompt_usage (state a')") (simp_all add: ledgers_ok_def ledger_ok_def)
qed

definition billed_run :: "chat_command list" where
  "billed_run =
     [RecordModelCallUsage None \<lparr> prompt_tokens = 5, completion_tokens = 2, usage_total_tokens = 7,
        reasoning_tokens = 0, cached_prompt_tokens = 1 \<rparr> None (Some 9)]"

theorem ledgers_reconcile_witness:
  "\<exists>a a' rs. spawn_with_pruning [] demo_config default_pruning = Some a
     \<and> run_commands demo_sizes billed_run a = Some (a', rs)
     \<and> ledger_totals (session_usage (state a')) = sum_entries (by_model (session_usage (state a')))
     \<and> by_model (session_usage (state a')) \<noteq> []"
proof -
  have "spawn_with_pruning [] demo_config default_pruning \<noteq> None" by code_simp
  then obtain a where a: "spawn_with_pruning [] demo_config default_pruning = Some a" by blast
  obtain a' rs where run: "run_commands demo_sizes billed_run a = Some (a', rs)"
      "\<exists>m u d c. a' = record_model_call_usage m u d c a"
    unfolding billed_run_def by auto
  have "fold_model k t es \<noteq> []" for k t es by (cases "(k, t, es)" rule: fold_model.cases) simp_all
  then have used: "by_model (session_usage (state a')) \<noteq> []"
    using run(2) by (auto simp: record_model_call_usage_def Let_def on_session_ledger_def on_prompt_ledger_def
        record_main_loop_call_def fold_entry_def)
  have "\<forall>cmd \<in> set billed_run. costs_ok cmd" by (simp add: costs_ok_def billed_run_def)
  note ledgers_reconcile [OF a run(1) this]
  then have "ledger_totals (session_usage (state a')) = sum_entries (by_model (session_usage (state a')))" by simp
  with a run(1) used show ?thesis by blast
qed

section \<open>Requests\<close>

text \<open>What pairing sees of an item, and what the working copy of a request changes of it: nothing.\<close>

definition outline :: "conversation_item \<Rightarrow> role \<times> tool_call list \<times> string option" where
  "outline i = (item_role i, item_calls i, item_result_id i)"

definition skeleton :: "conversation_item list \<Rightarrow> (role \<times> tool_call list \<times> string option) list" where
  "skeleton items = filter (\<lambda>(r, _). r \<noteq> RoleSystem) (map outline items)"

lemma role_tool: "is_tool_result i \<longleftrightarrow> item_role i = RoleTool"
  by (cases i) simp_all

lemma outline_inject:
  "outline i = outline j \<Longrightarrow> is_tool_result i = is_tool_result j \<and> item_calls i = item_calls j
     \<and> item_result_id i = item_result_id j"
  by (auto simp: outline_def role_tool)

lemma outline_run:
  "map outline xs = map outline ys \<Longrightarrow>
   map outline (result_run xs) = map outline (result_run ys) \<and> map outline (after_run xs) = map outline (after_run ys)"
proof (induction xs arbitrary: ys)
  case (Cons x xs)
  then obtain y ys' where "ys = y # ys'" "outline x = outline y" "map outline xs = map outline ys'"
    by (cases ys) auto
  then show ?case using Cons.IH [of ys'] outline_inject [of x y] by auto
qed auto

lemma outline_ids: "map outline xs = map outline ys \<Longrightarrow> run_ids xs = run_ids ys"
proof (induction xs arbitrary: ys)
  case (Cons x xs)
  then obtain y ys' where "ys = y # ys'" "outline x = outline y" "map outline xs = map outline ys'"
    by (cases ys) auto
  then show ?case using Cons.IH [of ys'] outline_inject [of x y] by (simp add: List.map_filter_simps split: option.split)
qed auto

lemma outline_dangling:
  "map outline xs = map outline ys \<Longrightarrow> has_dangling_tool_calls xs = has_dangling_tool_calls ys"
proof (induction xs arbitrary: ys rule: has_dangling_tool_calls.induct)
  case (2 x xs)
  then obtain y ys' where y: "ys = y # ys'" "outline x = outline y" "map outline xs = map outline ys'"
    by (cases ys) auto
  note run = outline_run [OF y(3)]
  have calls: "item_calls x = item_calls y" using outline_inject [OF y(2)] by simp
  have ids: "run_ids (result_run xs) = run_ids (result_run ys')" using run outline_ids by blast
  have "has_dangling_tool_calls (after_run xs) = has_dangling_tool_calls (after_run ys')" if "item_calls x \<noteq> []"
    using 2(1) [OF that] run by blast
  moreover have "has_dangling_tool_calls xs = has_dangling_tool_calls ys'" if "\<not> item_calls x \<noteq> []"
    using 2(2) [OF that y(3)] .
  ultimately show ?case unfolding y(1) has_dangling_tool_calls.simps calls ids by presburger
qed simp

lemma outline_prune_walk: "map outline (prune_walk cfg n b items) = map outline items"
  by (induction cfg n b items rule: prune_walk.induct) (simp_all add: outline_def)

lemma outline_prune: "map outline (prune_conversation cfg conv) = map outline conv"
proof -
  have "rev (map outline (prune_walk cfg 0 False (rev conv))) = rev (map outline (rev conv))"
    by (simp only: outline_prune_walk)
  then show ?thesis by (simp add: prune_conversation_def rev_map)
qed

lemma outline_set_part: "outline (set_part j p item) = outline item"
  by (cases item) (simp_all add: outline_def)

lemma outline_update: "map outline (conv[i := set_part j p (conv ! i)]) = map outline conv"
proof (cases "i < length conv")
  case True
  then show ?thesis
    by (metis list_update_id map_update nth_map outline_set_part)
qed (simp add: list_update_beyond)

lemma outline_evict:
  "map outline (fst (evict_images p pb t images conv n k)) = map outline conv"
  by (induction p pb t images conv n k rule: evict_images.induct) (simp_all add: outline_update)

lemma outline_compact: "map outline (fst (compact_images_to_byte_budget sz conv b t)) = map outline conv"
  by (simp add: compact_images_to_byte_budget_def Let_def outline_evict)

text \<open>A reminder is put in the system message, which is added when missing.\<close>

lemma inject_skeleton:
  "skeleton (fst (inject_memory_reminder items m)) = skeleton items
   \<and> has_dangling_tool_calls (fst (inject_memory_reminder items m)) = has_dangling_tool_calls items"
  by (cases items rule: list.exhaust; cases "hd items")
    (simp_all add: inject_memory_reminder_def Let_def case_prod_unfold skeleton_def outline_def)


text \<open>Backfilling leaves no call open.\<close>

lemma filled_head: "head_clean items \<Longrightarrow> head_clean (filled reason items)"
  by (cases items) auto

lemma filled_answered: "\<not> has_dangling_tool_calls (filled reason items)"
proof (induction items rule: filled.induct)
  case (2 reason item rest)
  show ?case
  proof (cases "item_calls item = []")
    case False
    define run where "run = result_run rest"
    define syn where "syn = synthetic_results reason (item_calls item) (run_ids run)"
    have results: "list_all is_tool_result (run @ syn)" by (simp add: run_def syn_def synthetic_are_results)
    have post: "head_clean (filled reason (after_run rest))" by (simp add: filled_head)
    note split = run_append [OF results post]
    have "call_id tc \<in> run_ids (run @ syn)" if "tc \<in> set (item_calls item)" for tc
    proof (cases "call_id tc \<in> run_ids run")
      case True
      then show ?thesis by (simp only: set_map_filter_iff set_append Un_iff) blast
    next
      case False
      then have "Some (call_id tc) \<in> all_ids syn"
        using that unfolding syn_def synthetic_ids by simp
      then show ?thesis unfolding run_ids_all_ids [OF results] by simp
    qed
    then show ?thesis
      using 2(1) [OF False] False split by (simp add: list_ex_iff flip: run_def syn_def)
  qed (use 2 in simp)
qed simp

lemma outline_request:
  fixes js tools m p conv_id rid a
  defines "req \<equiv> snd (build_conversation_request js tools m p conv_id rid a)"
    and "conv \<equiv> conversation (state (fst (build_conversation_request js tools m p conv_id rid a)))"
  shows "skeleton (req_items req) = skeleton conv \<and> has_dangling_tool_calls (req_items req) = has_dangling_tool_calls conv"
proof -
  define b where "b = fst (persist_reminder m p a)"
  define body where "body = conversation_body_bytes (json_bytes js) (conversation (state b))"
  define evicted where "evicted = fst (if IMAGE_COMPACT_TRIGGER_BYTES \<le> body
      then compact_images_to_byte_budget (part_json_bytes js) (conversation (state b)) body
        IMAGE_COMPACT_RECLAIM_TARGET_BYTES
      else (conversation (state b), 0, body))"
  define items where "items = (if should_prune (total_tokens (state a)) (context_window (sampling (state a)))
      then prune_conversation (pruning b) evicted else evicted)"
  have "req_items req = (case snd (persist_reminder m p a) of
      Some r \<Rightarrow> fst (inject_memory_reminder items r) | None \<Rightarrow> items)"
    unfolding req_def build_conversation_request_def items_def evicted_def body_def b_def
    by (simp only: Let_def case_prod_unfold fst_conv snd_conv conversation_request.select_convs)
  then have "req_items req = items \<or> (\<exists>r. req_items req = fst (inject_memory_reminder items r))"
    by (cases "snd (persist_reminder m p a)") auto
  moreover have "map outline evicted = map outline (conversation (state b))"
    by (simp add: evicted_def outline_compact)
  then have "map outline items = map outline (conversation (state b))"
    by (simp add: items_def outline_prune)
  moreover have "conv = conversation (state b)"
    by (simp add: conv_def b_def build_conversation_request_def Let_def case_prod_unfold send_event_def)
  ultimately show ?thesis
    using inject_skeleton [of items] outline_dangling [of items "conversation (state b)"]
    by (auto simp: skeleton_def)
qed

text \<open>C16. 
  C0: A request that is built answers every tool call: whatever was cancelled, pruned, evicted or injected, its
  items have no call without a result behind it, and apart from system messages they are the items
  of the conversation, in order, with the roles, calls and result ids they have there.
\<close>

theorem request_answers_every_call:
  "case handle_command js (BuildConversationRequest tools m p conv_id rid) a of
     Some (a', RequestReply req) \<Rightarrow>
       \<not> has_dangling_tool_calls (req_items req) \<and> skeleton (req_items req) = skeleton (conversation (state a'))
   | _ \<Rightarrow> False"
proof -
  let ?i = "ensure_conversation_integrity a"
  let ?b = "build_conversation_request js tools m p conv_id rid ?i"
  have "\<not> has_dangling_tool_calls (conversation (state ?i))"
    unfolding ensure_conversation_integrity_def integrity_persisted
    by (simp add: repair_dangling_is_filled filled_answered)
  moreover have "has_dangling_tool_calls (conversation (state (fst ?b))) = has_dangling_tool_calls (conversation (state ?i))"
    using inject_skeleton
    by (simp add: build_conversation_request_def persist_reminder_def Let_def case_prod_unfold send_event_def replace_history_def
        rebase_turn_capture_offset_def snapshot_turn_slice_def split: option.split)
  ultimately show ?thesis
    using outline_request [of js tools m p conv_id rid ?i] by (simp add: case_prod_unfold)
qed

section \<open>Compaction and pruning\<close>

text \<open>A compaction never raises the total: the ratio that carries the provider's overhead is capped.\<close>

lemma compaction_never_raises_total:
  assumes "replace_conversation items True a = Some a'" "0 < total_tokens (state a)"
  shows "total_tokens (state a') \<le> total_tokens (state a)"
proof -
  have "total_tokens (snapshot_turn_slice s) = total_tokens s" for s by (simp add: snapshot_turn_slice_def)
  then show ?thesis
    using assms
    by (auto simp: replace_conversation_def Let_def reseed_tokens_def replace_history_def send_event_def
        rebase_turn_capture_offset_def split: bind_splits)
qed

text \<open>
  Ten prompts and a compaction later, eleven reminders pushed within one turn clear the result that turn
  produced: after the compaction no user item counts as synthetic.
\<close>

definition reminder_run :: "chat_command list" where
  "reminder_run =
     replicate 30 IncrementPromptIndex
     @ [ReplaceConversation [System ''s'', user_meta ''sum''] True, PushAssistantResponse demo_calls,
        PushToolResult (tool_result ''c1'' ''out'')]
     @ replicate 11 (PushUserMessage (system_reminder ''r''))"

lemma reminders_clear_fresh_result:
  "map_option (\<lambda>a. conversation (state (fst a)) ! 3)
     (spawn_with_pruning [] demo_config default_pruning \<bind> run_commands demo_sizes reminder_run)
   = Some (tool_result ''c1'' HARD_CLEAR_PLACEHOLDER)"
  by code_simp

end
