(* ===== verification/Spec2Isabelle.thy ===== *)
theory Spec2Isabelle
  imports BreakerRegistry BreakerRace EventQueue RuleParser PermModes
    ApplyPatchSpec HunkTrackerSpec HunkLoc
    FileRewindSpec ConversationSpec CompactionSpec ChatRunSpec
begin

text \<open>
  Verification library for the Wide-Thought-Host repository: a coding agent in Rust.  Modelled are
  the parts that decide what the agent may do, what its edits do to files, how its edits are
  tracked and undone, and the conversation it has with the model.  All paths below are under \<open>src/crates\<close>.

  \<^bold>\<open>The parts and how they interact.\<close>

    \<^item> A tool asks the \<^emph>\<open>permission manager\<close> before it acts.  The manager consults, in this
      order, the compiled policy and the two shell gates, always-approve, the grants of earlier
      prompts, auto mode, and at last the user, through the prompter or over the hub.
    \<^item> The \<^emph>\<open>apply_patch tool\<close> parses a patch, computes every change against the file
      system interface, and only then writes, notifying the tracker of every write.
    \<^item> The \<^emph>\<open>hunk tracker\<close> is an actor that keeps a baseline and a current content for each
      file, their diff as hunks attributed to the agent's turns, and undoes or adopts hunks; its
      sink turns its events into attributed line counts.
    \<^item> \<^emph>\<open>File rewind\<close> keeps what the files were before each prompt's first edit and puts them back.
    \<^item> The \<^emph>\<open>chat-state actor\<close> owns the conversation.  It repairs the pairing of tool calls and results
      before each prompt and request, logs every change to its persistence, estimates tokens, keeps the
      ledgers of what was billed, captures the messages of a turn, and takes over a compacted history.
    \<^item> The \<^emph>\<open>circuit breaker\<close> sheds calls to a failing service, the \<^emph>\<open>interjection queue\<close> holds what
      the user says while the agent works.

  \<^bold>\<open>The theories.\<close>  Each component has theories with its data and operations, declared in the
  order of the code, and a theory \<open>...Spec\<close> with what it promises.

    \<^item> \<open>Prelude\<close>: byte strings and the standard library's operations on them, with the lemma
      collections the components share.  \<open>RustLines\<close>: \<open>str::lines\<close>.  \<open>RustPath\<close>: \<open>std::path\<close>.
      \<open>Utf8\<close>: lossy decoding.
    \<^item> Circuit breaker, \<open>common/xai-circuit-breaker/src\<close>: \<open>BreakerTypes\<close> (\<open>state.rs\<close>,
      \<open>config.rs\<close>, \<open>retry_policy.rs\<close>), \<open>BreakerWindow\<close> (\<open>window.rs\<close>), \<open>Breaker\<close> and \<open>BreakerSpec\<close>
      (\<open>breaker.rs\<close> as one caller sees it), \<open>BreakerRace\<close> (its atomics, one access a step),
      \<open>BreakerRegistry\<close> (\<open>registry.rs\<close>).
    \<^item> Interjections, \<open>common/xai-interjection-core/src\<close>: \<open>EventQueue\<close>.
    \<^item> Permissions, \<open>codegen/xai-grok-workspace/src/permission\<close>: \<open>PermTypes\<close> (\<open>types.rs\<close> and the
      interface to the libraries), \<open>RuleParser\<close> (\<open>rules.rs\<close>), \<open>Decisions\<close>, \<open>PermPolicy\<close>,
      \<open>PolicySpec\<close> (\<open>policy.rs\<close>), \<open>ShellWords\<close>, \<open>SyntaxTree\<close> (\<open>bash_command_splitting.rs\<close>),
      \<open>ShellPaths\<close>, \<open>ShellAccess\<close>, \<open>ShellAccessSpec\<close> (\<open>shell_access.rs\<close>), \<open>Grants\<close>, \<open>GrantsSpec\<close>
      (\<open>state.rs\<close> and the grants of \<open>manager.rs\<close>), \<open>AutoMode\<close>, \<open>AutoModeSpec\<close>, \<open>Classifier\<close>,
      \<open>ClassifierSpec\<close> (\<open>auto_mode.rs\<close>), \<open>Prompter\<close>, \<open>PrompterSpec\<close> (\<open>prompter.rs\<close>),
      \<open>HubPermission\<close> (\<open>hub_permission.rs\<close>), \<open>PermManager\<close>, \<open>PermManagerSpec\<close> (the actor of
      \<open>manager.rs\<close>) and \<open>PermModes\<close> (the flags its handles share with it).  \<open>WebDomain\<close>:
      \<open>web_fetch/domain.rs\<close> of \<open>codegen/xai-grok-tools\<close>.
    \<^item> The patch tool, \<open>codegen/xai-grok-tools/src/implementations/codex/apply_patch\<close>:
      \<open>SeekSequence\<close>, \<open>PatchApply\<close>, \<open>PatchApplySpec\<close> (the engine on one file), \<open>PatchParser\<close>,
      \<open>PatchParserSpec\<close> (the format), \<open>ApplyPatchTool\<close>, \<open>ApplyPatchSpec\<close> (the tool) over
      \<open>FileSystem\<close> (\<open>computer/types.rs\<close> and two implementations).
    \<^item> The hunk tracker, \<open>codegen/xai-hunk-tracker/src\<close>: \<open>HunkDiff\<close>, \<open>HunkDiffSpec\<close> (\<open>types.rs\<close>,
      \<open>diff.rs\<close>), \<open>HunkState\<close> (\<open>state.rs\<close>, \<open>file_utils.rs\<close>, \<open>git_cache.rs\<close>), \<open>HunkActions\<close>
      (\<open>actions.rs\<close>), \<open>HunkMutations\<close> (\<open>mutations.rs\<close>, \<open>git.rs\<close>), \<open>HunkActor\<close> (\<open>queries.rs\<close>,
      \<open>mod.rs\<close>, the handle), \<open>HunkInvariants\<close>, \<open>HunkActorSpec\<close>, \<open>HunkTrackerSpec\<close>, \<open>HunkLoc\<close> (\<open>loc\<close>).
    \<^item> File rewind, \<open>codegen/xai-grok-workspace/src/session\<close> and the shell's bridge to it:
      \<open>WorkspaceFs\<close> (\<open>file_system.rs\<close>, the paths of a remote workspace), \<open>RewindPoints\<close> (\<open>file_state.rs\<close>:
      snapshots before a prompt's first edit, points, the history file), \<open>FileRewind\<close> (\<open>rewind_files\<close>
      and the shell's preview and commit), \<open>FileRewindSpec\<close>.
    \<^item> Tokens, \<open>codegen/xai-token-estimation/src\<close>: \<open>Float64\<close> (the rounding of \<open>f64\<close>), \<open>Tokens\<close> (\<open>lib.rs\<close>).
    \<^item> Conversation, \<open>codegen/xai-grok-sampling-types/src/conversation.rs\<close>: \<open>Conversation\<close> and
      \<open>ConversationSpec\<close> (the items, the cut of a rewind), \<open>ToolPairing\<close> and \<open>ToolPairingSpec\<close> (duplicate and
      dangling tool results; with the repair of \<open>compaction_utils.rs\<close>).
    \<^item> Chat state, \<open>codegen/xai-chat-state/src\<close>: \<open>UsageLedger\<close> (\<open>usage.rs\<close>), \<open>Compaction\<close>, \<open>CompactionSummary\<close>,
      \<open>CompactionSpec\<close> (the estimates of \<open>actor/state.rs\<close>, \<open>compaction_utils.rs\<close>, \<open>compaction_mode.rs\<close>),
      \<open>ChatState\<close> (\<open>types.rs\<close>, \<open>events.rs\<close>, \<open>persistence.rs\<close>, \<open>actor/mutations.rs\<close>), \<open>ChatActor\<close>
      (\<open>actor/queries.rs\<close>, \<open>actor/request_builder.rs\<close>), \<open>ChatCommands\<close> (\<open>commands.rs\<close>, \<open>actor/mod.rs\<close>),
      \<open>ChatActorSpec\<close> (turn capture), \<open>ChatRunSpec\<close> (stored history, ledgers, requests).

  \<^bold>\<open>State and operations.\<close>  A Rust struct is a record and an enum a datatype with the source's
  constructors; an actor's handler is a function from its state and a command to the new state and
  the reply, and a run is a list of commands or a rule-inductive set of states.  Effects are explicit:
  writes to the disk and notifications are part of the returned state, answers of the disk, of
  git or of the user are arguments.  Errors are values of a sum, an option or a result type with
  a constructor per failure; a panic (\<open>Vec::insert\<close>, a slice out of range) is \<open>None\<close>.  Counters
  that wrap or saturate are words or have their bounds written out.

  \<^bold>\<open>What the lemmas show.\<close>

    \<^item> Policy: deny before ask before allow whatever the order of the rules; the shell gates see every
      command of a script, chained, wrapped or nested, and every file it names; they only
      escalate (locale \<open>escalation_gate\<close>, interpreted for both gates).
    \<^item> Manager: managed denials win over everything; what can answer an ask rule without the
      user; the pin and the two modes over every run and every interleaving; only prompts
      leave grants, their own ones.
    \<^item> Auto mode: the heuristic lets only listed programs run; a veto reaches the user.
    \<^item> Patches: parsing inverts printing; the engine never panics and its result is an edit script;
      sections act in sequence; a failure leaves a prefix of the changes.  The file store is the
      locale \<open>file_store\<close>, interpreted on the in-memory implementation.
    \<^item> Tracker: the locale \<open>tracker_laws\<close> states what an invariant must survive; every operation
      of the actor keeps every such invariant (\<open>HunkActorSpec\<close>).  It is interpreted twice, for
      the invariant of all runs and for the sharper one of runs without a failing write.  On it rest the
      properties of the actions, of the turn queries and of batches.
    \<^item> Breaker: its telemetry refines a three-state automaton; when it trips and recovers; its
      probe cap under every interleaving.  The window and the registry are the locales
      \<open>failure_window\<close> and \<open>keyed_store\<close>.
    \<^item> Queue: no event is lost or delivered twice (locale \<open>event_queue\<close>).
    \<^item> Rewind: the files it reverts and the content each gets back (\<open>reverts_iff\<close>); over every session of
      prompts and edits it restores the state before the target prompt; merging points keeps every earlier
      rewind.  The workspace file system is the locale \<open>workspace_store\<close>.
    \<^item> Conversation: repairing any history pairs every call with its results and changes nothing else; a
      rewind's cut keeps exactly the turns before its prompt.
    \<^item> Compaction: the rebuilt history is paired; fitting one into a budget keeps it paired, and within the
      budget where it can be; the cleaned summary holds no control tag.
    \<^item> Chat state, over every run of commands: a turn capture returns exactly what the turn pushed
      (except after a rewriting repair, which loses it); the calls to the persistence, the locale
      \<open>chat_persistence\<close>, replay to the conversation; the ledgers reconcile; a request answers every call.

  \<^bold>\<open>Bounds and fuel.\<close>  The bounds are the source's own: eight wrappers and eight levels of the
  environment guard, eight nested \<open>bash -c\<close>, forty symbolic links, at most six attempts of a local
  write; where the code stops at such a bound, so does the model, with the code's answer.  Other
  recursions are structural or end by a measure, so no result depends on fuel.

  \<^bold>\<open>Parameters.\<close>  Third-party code is an argument of what uses it: the tree-sitter grammar of bash (its
  tree is a datatype of kinds, texts and children), \<open>glob\<close>, \<open>url\<close>, \<open>serde_json\<close>, Unicode case
  mapping, the \<open>similar\<close> diff engine, git's answers, the operating system's errors, clocks, and the
  language model.  Where a property relies on one, the documented behaviour is its hypothesis
  (\<open>wd_diff\<close>: a diff engine's blocks cover both texts in order) and its witness instantiates it with
  a concrete function.

  \<^bold>\<open>Not modelled.\<close>  Rendering and terminal input (\<open>wth-pager\<close>, the text area), the asynchronous
  orchestration of sessions, turns and subagents (\<open>xai-grok-shell\<close>), network clients and wire types
  (sampler streaming, MCP, hub, authentication), databases, process sandboxes, vendored libraries and
  test support: their behaviour is I/O, or that of libraries.  Within the modelled components
  formatting for logs and debugging, tracing and telemetry calls are left out.
\<close>

end
